(* ===== verification/Sctp_Error.thy ===== *)
theory Sctp_Error
  imports "HOL-Library.Word"
begin

text \<open>
  The error values and the result type of the library (\<^verbatim>\<open>src/src/error.rs\<close>).

  \<^item> \<open>error\<close> has the variants of \<^verbatim>\<open>enum Error\<close> that some code of the crate constructs, in the
    order of the source; a variant that nothing constructs is left out. A Rust \<^verbatim>\<open>String\<close> is a
    \<^typ>\<open>string\<close>.
  \<^item> \<open>'a res\<close> is the outcome of a Rust call: it returns \<open>Ok\<close>, it returns \<open>Err\<close>, or it panics
    (an index out of range, a read past the end of a buffer, an \<^verbatim>\<open>unwrap\<close> of \<^verbatim>\<open>None\<close>, a
    subtraction below zero, a failed assertion). \<open>rbind\<close> is the \<^verbatim>\<open>?\<close> operator: it hands a value
    on and passes errors and panics through.
\<close>

datatype (plugins only: code) error =
    ErrChunkHeaderTooSmall
  | ErrChunkHeaderNotEnoughSpace
  | ErrChunkHeaderPaddingNonZero
  | ErrChunkHeaderInvalidLength
  | ErrChunkTypeNotAbort
  | ErrChunkTypeNotCookieAck
  | ErrChunkTypeNotCookieEcho
  | ErrChunkTypeNotCt
  | ErrChunkTooShort
  | ErrChunkTypeNotForwardTsn
  | ErrChunkTypeNotHeartbeat
  | ErrChunkTypeNotHeartbeatAck
  | ErrHeartbeatNotLongEnoughInfo
  | ErrHeartbeatParam
  | ErrHeartbeatAckParams
  | ErrHeartbeatAckNotHeartbeatInfo
  | ErrErrorCauseTooSmall
  | ErrParamTypeUnhandled "16 word"
  | ErrParamTypeUnexpected
  | ErrParamHeaderTooShort
  | ErrSsnResetRequestParamTooShort
  | ErrSsnResetRequestParamInvalidLength
  | ErrReconfigRespParamTooShort
  | ErrSupportedAddressTypesParamInvalidLength
  | ErrInvalidAlgorithmType
  | ErrChunkTypeNotTypeInit
  | ErrChunkValueNotLongEnough
  | ErrChunkTypeInitFlagZero
  | ErrChunkTypeInitInitiateTagZero
  | ErrInitInboundStreamRequestZero
  | ErrInitOutboundStreamRequestZero
  | ErrInitAdvertisedReceiver1500
  | ErrChunkPayloadSmall
  | ErrChunkTypeNotPayloadData
  | ErrChunkTypeNotReconfig
  | ErrChunkReconfigInvalidParamA
  | ErrChunkReconfigInvalidParamCombination
  | ErrChunkTypeNotSack
  | ErrSackSizeNotLargeEnoughInfo
  | ErrInvalidChunkSize
  | ErrChunkTypeNotShutdown
  | ErrChunkTypeNotShutdownAck
  | ErrChunkTypeNotShutdownComplete
  | ErrPacketRawTooSmall
  | ErrParseSctpChunkNotEnoughData
  | ErrUnmarshalUnknownChunkType
  | ErrChecksumMismatch
  | ErrReceiveBufferExhausted
  | ErrAbortChunk string
  | ErrShutdownNonEstablished
  | ErrInitNotStoredToSend
  | ErrCookieEchoNotStoredToSend
  | ErrSctpPacketSourcePortZero
  | ErrSctpPacketDestinationPortZero
  | ErrInitChunkBundled
  | ErrInitChunkVerifyTagNotZero
  | ErrHandleInitState
  | ErrInitAckNoCookie
  | ErrStreamAlreadyExist
  | ErrStreamResetPending
  | ErrStreamCreateFailed
  | ErrInflightQueueTsnPop
  | ErrTsnRequestNotExist
  | ErrResetPacketInStateNotExist
  | ErrParameterType
  | ErrPayloadDataStateNotExist
  | ErrChunkTypeUnhandled
  | ErrHandshakeInitAck
  | ErrHandshakeCookieEcho
  | ErrOutboundPacketTooLarge
  | ErrInboundPacketTooLarge
  | ErrStreamClosed
  | ErrStreamNotExisted
  | ErrShortBuffer

datatype 'a res = Ok 'a | Err error | Panic

primrec rbind :: "'a res \<Rightarrow> ('a \<Rightarrow> 'b res) \<Rightarrow> 'b res" where
  "rbind (Ok x) f = f x"
| "rbind (Err e) f = Err e"
| "rbind Panic f = Panic"

primrec rmap :: "('a \<Rightarrow> 'b) \<Rightarrow> 'a res \<Rightarrow> 'b res" where
  "rmap f (Ok x) = Ok (f x)"
| "rmap f (Err e) = Err e"
| "rmap f Panic = Panic"

primrec is_ok :: "'a res \<Rightarrow> bool" where
  "is_ok (Ok x) = True"
| "is_ok (Err e) = False"
| "is_ok Panic = False"

primrec map_err :: "(error \<Rightarrow> error) \<Rightarrow> 'a res \<Rightarrow> 'a res" where
  "map_err f (Ok x) = Ok x"
| "map_err f (Err e) = Err (f e)"
| "map_err f Panic = Panic"

subsection \<open>Reasoning about outcomes\<close>

named_theorems no_panic \<open>calls that cannot panic\<close>

lemma rbind_eq_Ok [simp]: "rbind r f = Ok y \<longleftrightarrow> (\<exists>x. r = Ok x \<and> f x = Ok y)"
  by (cases r) auto

lemma rbind_eq_Err: "rbind r f = Err e \<longleftrightarrow> r = Err e \<or> (\<exists>x. r = Ok x \<and> f x = Err e)"
  by (cases r) auto

lemma rbind_eq_Panic: "rbind r f = Panic \<longleftrightarrow> r = Panic \<or> (\<exists>x. r = Ok x \<and> f x = Panic)"
  by (cases r) auto

lemma rbind_no_panic [no_panic]:
  "r \<noteq> Panic \<Longrightarrow> (\<And>x. r = Ok x \<Longrightarrow> f x \<noteq> Panic) \<Longrightarrow> rbind r f \<noteq> Panic"
  by (cases r) auto

lemma rbind_assoc: "rbind (rbind r f) g = rbind r (\<lambda>x. rbind (f x) g)"
  by (cases r) auto

lemma rbind_cong [fundef_cong]:
  "r = r' \<Longrightarrow> (\<And>x. r' = Ok x \<Longrightarrow> f x = f' x) \<Longrightarrow> rbind r f = rbind r' f'"
  by (cases r') auto

lemma rmap_eq_Ok [simp]: "rmap f r = Ok y \<longleftrightarrow> (\<exists>x. r = Ok x \<and> y = f x)"
  by (cases r) auto

lemma rmap_eq_Panic [simp]: "rmap f r = Panic \<longleftrightarrow> r = Panic"
  by (cases r) auto

lemma map_err_eq_Ok [simp]: "map_err f r = Ok y \<longleftrightarrow> r = Ok y"
  by (cases r) auto

lemma map_err_eq_Panic [simp]: "map_err f r = Panic \<longleftrightarrow> r = Panic"
  by (cases r) auto

lemma is_ok_iff: "is_ok r \<longleftrightarrow> (\<exists>x. r = Ok x)"
  by (cases r) auto

end
