(* ===== verification/Sctp_Prelude.thy ===== *)
theory Sctp_Prelude
  imports Sctp_Error "HOL-Library.AList" "HOL-Library.Multiset"
begin

text \<open>
  What every component shares: the machine types, byte buffers, checked arithmetic, hash maps and
  the standard library's sort.

  \<^item> \<open>u8\<close>, \<open>u16\<close>, \<open>u32\<close>, \<open>u64\<close> are words, so that \<open>+\<close> and \<open>-\<close> wrap as \<^verbatim>\<open>wrapping_add\<close> and
    \<^verbatim>\<open>wrapping_sub\<close> do. \<open>usize\<close> is \<^typ>\<open>nat\<close>: sizes of buffers that fit in memory never reach
    its bound, and a subtraction that would go below zero is a \<open>Panic\<close> (\<open>usize_sub\<close>).
  \<^item> \<open>instant\<close> and durations are nanoseconds in \<^typ>\<open>nat\<close>.
  \<^item> \<open>bytes\<close> stands for \<^verbatim>\<open>Bytes\<close> and \<^verbatim>\<open>BytesMut\<close>. The readers return the value and the rest of
    the buffer and panic on a short buffer, as the \<^verbatim>\<open>bytes\<close> crate documents.
  \<^item> A \<^verbatim>\<open>HashMap\<close> is an association list with distinct keys (\<^const>\<open>map_of\<close>, \<^const>\<open>AList.update\<close>,
    \<^const>\<open>AList.delete\<close>); its list order stands for the unspecified iteration order.
  \<^item> \<open>sort_by\<close> is the stable insertion sort that \<^verbatim>\<open>slice::sort_by\<close> runs on short slices; on
    every slice which the comparison orders totally all stable sorts agree.
\<close>

unbundle bit_operations_syntax

type_synonym u8 = "8 word"
type_synonym u16 = "16 word"
type_synonym u32 = "32 word"
type_synonym u64 = "64 word"
type_synonym usize = nat
type_synonym instant = nat
type_synonym bytes = "u8 list"

subsection \<open>Checked arithmetic\<close>

text \<open>A sum of words has overflowed exactly when it is below a summand (\<open>word_add_overflow\<close>).\<close>

definition usize_sub :: "usize \<Rightarrow> usize \<Rightarrow> usize res" where
  "usize_sub a b = (if b \<le> a then Ok (a - b) else Panic)"

definition u32_sub :: "u32 \<Rightarrow> u32 \<Rightarrow> u32 res" where
  "u32_sub a b = (if b \<le> a then Ok (a - b) else Panic)"

definition u32_add :: "u32 \<Rightarrow> u32 \<Rightarrow> u32 res" where
  "u32_add a b = (if a + b < a then Panic else Ok (a + b))"

definition u16_add :: "u16 \<Rightarrow> u16 \<Rightarrow> u16 res" where
  "u16_add a b = (if a + b < a then Panic else Ok (a + b))"

text \<open>\<^verbatim>\<open>checked_add\<close> returns \<^verbatim>\<open>None\<close> on overflow.\<close>

definition u16_checked_add :: "u16 \<Rightarrow> u16 \<Rightarrow> u16 option" where
  "u16_checked_add a b = (if a + b < a then None else Some (a + b))"

definition u64_checked_add :: "u64 \<Rightarrow> u64 \<Rightarrow> u64 option" where
  "u64_checked_add a b = (if a + b < a then None else Some (a + b))"

definition u64_saturating_add :: "u64 \<Rightarrow> u64 \<Rightarrow> u64" where
  "u64_saturating_add a b = (if a + b < a then - 1 else a + b)"

definition u32_saturating_sub :: "u32 \<Rightarrow> u32 \<Rightarrow> u32" where
  "u32_saturating_sub a b = (if b \<le> a then a - b else 0)"

definition u32_saturating_add :: "u32 \<Rightarrow> u32 \<Rightarrow> u32" where
  "u32_saturating_add a b = (if a + b < a then - 1 else a + b)"

subsection \<open>Byte buffers\<close>

fun get_u8 :: "bytes \<Rightarrow> (u8 \<times> bytes) res" where
  "get_u8 (a # r) = Ok (a, r)"
| "get_u8 [] = Panic"

definition be16 :: "u8 \<Rightarrow> u8 \<Rightarrow> u16" where
  "be16 a b = push_bit 8 (ucast a) OR ucast b"

definition be32 :: "u8 \<Rightarrow> u8 \<Rightarrow> u8 \<Rightarrow> u8 \<Rightarrow> u32" where
  "be32 a b c d = push_bit 24 (ucast a) OR push_bit 16 (ucast b) OR push_bit 8 (ucast c) OR ucast d"

fun get_u16 :: "bytes \<Rightarrow> (u16 \<times> bytes) res" where
  "get_u16 (a # b # r) = Ok (be16 a b, r)"
| "get_u16 r = Panic"

fun get_u32 :: "bytes \<Rightarrow> (u32 \<times> bytes) res" where
  "get_u32 (a # b # c # d # r) = Ok (be32 a b c d, r)"
| "get_u32 r = Panic"

fun get_u32_le :: "bytes \<Rightarrow> (u32 \<times> bytes) res" where
  "get_u32_le (a # b # c # d # r) = Ok (be32 d c b a, r)"
| "get_u32_le r = Panic"

definition put_u16 :: "u16 \<Rightarrow> bytes" where
  "put_u16 x = [ucast (drop_bit 8 x), ucast x]"

definition put_u32 :: "u32 \<Rightarrow> bytes" where
  "put_u32 x = [ucast (drop_bit 24 x), ucast (drop_bit 16 x), ucast (drop_bit 8 x), ucast x]"

definition put_u32_le :: "u32 \<Rightarrow> bytes" where
  "put_u32_le x = rev (put_u32 x)"

text \<open>\<^verbatim>\<open>&raw[a..b]\<close> and \<^verbatim>\<open>raw.slice(a..b)\<close>, and the index \<^verbatim>\<open>raw[i]\<close>.\<close>

definition slice :: "'a list \<Rightarrow> nat \<Rightarrow> nat \<Rightarrow> 'a list res" where
  "slice xs a b = (if a \<le> b \<and> b \<le> length xs then Ok (take (b - a) (drop a xs)) else Panic)"

definition index :: "'a list \<Rightarrow> nat \<Rightarrow> 'a res" where
  "index xs i = (if i < length xs then Ok (xs ! i) else Panic)"

text \<open>A length stored into a 16-bit field with \<^verbatim>\<open>as u16\<close> is truncated.\<close>

abbreviation as_u16 :: "nat \<Rightarrow> u16" where
  "as_u16 n \<equiv> of_nat n"

abbreviation as_u32 :: "nat \<Rightarrow> u32" where
  "as_u32 n \<equiv> of_nat n"

subsection \<open>Hash maps\<close>

type_synonym ('k, 'v) hash_map = "('k \<times> 'v) list"

abbreviation keys :: "('k, 'v) hash_map \<Rightarrow> 'k list" where
  "keys m \<equiv> map fst m"

abbreviation vals :: "('k, 'v) hash_map \<Rightarrow> 'v list" where
  "vals m \<equiv> map snd m"

abbreviation contains_key :: "('k, 'v) hash_map \<Rightarrow> 'k \<Rightarrow> bool" where
  "contains_key m k \<equiv> map_of m k \<noteq> None"

text \<open>The sum of a measure over the values of a map.\<close>

definition vsum :: "('v \<Rightarrow> nat) \<Rightarrow> ('k, 'v) hash_map \<Rightarrow> nat" where
  "vsum f m = sum_list (map f (vals m))"

text \<open>\<^verbatim>\<open>for v in map.values_mut() { f(v) }\<close> and \<^verbatim>\<open>if let Some(v) = map.get_mut(k) { f(v) }\<close>.\<close>

definition map_vals :: "('v \<Rightarrow> 'v) \<Rightarrow> ('k, 'v) hash_map \<Rightarrow> ('k, 'v) hash_map" where
  "map_vals f m = map (\<lambda>(k, v). (k, f v)) m"

definition update_key :: "'k \<Rightarrow> ('v \<Rightarrow> 'v) \<Rightarrow> ('k, 'v) hash_map \<Rightarrow> ('k, 'v) hash_map" where
  "update_key k f m = map (\<lambda>(k', v). (k', if k' = k then f v else v)) m"

subsection \<open>Sorting\<close>

fun insert_tail_rev :: "('a \<Rightarrow> 'a \<Rightarrow> bool) \<Rightarrow> 'a \<Rightarrow> 'a list \<Rightarrow> 'a list" where
  "insert_tail_rev lt x [] = [x]"
| "insert_tail_rev lt x (y # ys) = (if lt x y then y # insert_tail_rev lt x ys else x # y # ys)"

definition sort_by :: "('a \<Rightarrow> 'a \<Rightarrow> bool) \<Rightarrow> 'a list \<Rightarrow> 'a list" where
  "sort_by lt xs = rev (fold (insert_tail_rev lt) xs [])"

subsection \<open>Facts on checked arithmetic\<close>

lemma usize_sub_ok [simp]: "b \<le> a \<Longrightarrow> usize_sub a b = Ok (a - b)"
  by (simp add: usize_sub_def)

lemma usize_sub_eq_Ok: "usize_sub a b = Ok c \<longleftrightarrow> b \<le> a \<and> c = a - b"
  by (auto simp: usize_sub_def)

lemma usize_sub_eq_Panic: "usize_sub a b = Panic \<longleftrightarrow> a < b"
  by (simp add: usize_sub_def)

lemma word_add_overflow: "a + b < a \<longleftrightarrow> 2 ^ LENGTH('a) \<le> unat a + unat b"
  for a b :: "'a::len word"
proof (cases "unat a + unat b < 2 ^ LENGTH('a)")
  case True
  then have "unat (a + b) = unat a + unat b" by (simp add: unat_word_ariths)
  with True show ?thesis by (simp add: word_less_nat_alt)
next
  case False
  have bd: "unat a < 2 ^ LENGTH('a)" "unat b < 2 ^ LENGTH('a)" by (rule unsigned_less)+
  then have d: "unat a + unat b - 2 ^ LENGTH('a) < 2 ^ LENGTH('a)" by linarith
  have "unat (a + b) = unat a + unat b - 2 ^ LENGTH('a)"
    using False by (simp add: unat_word_ariths le_mod_geq mod_less [OF d])
  moreover have "unat a + unat b - 2 ^ LENGTH('a) < unat a" using False bd by linarith
  ultimately show ?thesis using False by (simp add: word_less_nat_alt)
qed

lemma unat_add_no_overflow: "\<not> a + b < a \<Longrightarrow> unat (a + b) = unat a + unat b"
  for a b :: "'a::len word"
  by (simp add: word_add_overflow unat_word_ariths)

lemma u16_checked_add_1_eq_Some:
  "u16_checked_add a 1 = Some b \<longleftrightarrow> unat b = unat a + 1"
proof -
  have lt: "unat b < 2 ^ 16" using unsigned_less [of b] by simp
  show ?thesis
    using lt word_add_overflow [of a 1] unat_add_no_overflow [of a 1]
    by (auto simp: u16_checked_add_def word_unat_eq_iff)
qed

subsection \<open>Facts on byte buffers\<close>

named_theorems buf_simps \<open>reading back what was written\<close>

lemma be16_put [buf_simps]: "be16 (ucast (drop_bit 8 x)) (ucast x) = x"
proof (rule bit_word_eqI)
  fix n assume "n < LENGTH(16)"
  then show "bit (be16 (ucast (drop_bit 8 x)) (ucast x)) n = bit x n"
    by (cases "n < 8") (auto simp: be16_def bit_simps not_less)
qed

lemma be32_put [buf_simps]:
  "be32 (ucast (drop_bit 24 x)) (ucast (drop_bit 16 x)) (ucast (drop_bit 8 x)) (ucast x) = x"
proof (rule bit_word_eqI)
  fix n assume "n < LENGTH(32)"
  moreover have "n < 8 \<or> 8 \<le> n \<and> n < 16 \<or> 16 \<le> n \<and> n < 24 \<or> 24 \<le> n" by auto
  ultimately show "bit (be32 (ucast (drop_bit 24 x)) (ucast (drop_bit 16 x))
      (ucast (drop_bit 8 x)) (ucast x)) n = bit x n"
    by (elim disjE) (auto simp: be32_def bit_simps)
qed

lemma get_u16_put_u16 [buf_simps]: "get_u16 (put_u16 x @ r) = Ok (x, r)"
  by (simp add: put_u16_def be16_put)

lemma get_u32_put_u32 [buf_simps]: "get_u32 (put_u32 x @ r) = Ok (x, r)"
  by (simp add: put_u32_def be32_put)

lemma get_u32_le_put_u32_le [buf_simps]: "get_u32_le (put_u32_le x @ r) = Ok (x, r)"
  by (simp add: put_u32_le_def put_u32_def be32_put)

lemma bit_u8_ge [simp]: "8 \<le> n \<Longrightarrow> \<not> bit (b :: u8) n"
  by (auto dest: bit_imp_le_length)

lemma put_be16 [buf_simps]: "put_u16 (be16 a b) = [a, b]"
  by (auto simp: put_u16_def be16_def bit_simps intro!: bit_word_eqI)

lemma put_be32 [buf_simps]: "put_u32 (be32 a b c d) = [a, b, c, d]"
  by (auto simp: put_u32_def be32_def bit_simps intro!: bit_word_eqI)

lemma length_put_u16 [simp]: "length (put_u16 x) = 2"
  by (simp add: put_u16_def)

lemma length_put_u32 [simp]: "length (put_u32 x) = 4"
  by (simp add: put_u32_def)

lemma length_put_u32_le [simp]: "length (put_u32_le x) = 4"
  by (simp add: put_u32_le_def)

lemma get_u8_eq_Ok: "get_u8 b = Ok (x, r) \<longleftrightarrow> b = x # r"
  by (cases b rule: get_u8.cases) auto

lemma get_u16_eq_Ok: "get_u16 b = Ok (x, r) \<longleftrightarrow> b = put_u16 x @ r"
proof
  assume "get_u16 b = Ok (x, r)"
  then show "b = put_u16 x @ r"
    by (cases b rule: get_u16.cases) (auto simp: put_be16)
qed (simp add: get_u16_put_u16)

lemma get_u32_eq_Ok: "get_u32 b = Ok (x, r) \<longleftrightarrow> b = put_u32 x @ r"
proof
  assume "get_u32 b = Ok (x, r)"
  then show "b = put_u32 x @ r"
    by (cases b rule: get_u32.cases) (auto simp: put_be32)
qed (simp add: get_u32_put_u32)

lemma get_u8_eq_Panic [simp]: "get_u8 b = Panic \<longleftrightarrow> b = []"
  by (cases b) auto

lemma get_u16_eq_Panic [simp]: "get_u16 b = Panic \<longleftrightarrow> length b < 2"
  by (cases b rule: get_u16.cases) auto

lemma get_u32_eq_Panic [simp]: "get_u32 b = Panic \<longleftrightarrow> length b < 4"
  by (cases b rule: get_u32.cases) auto

lemma get_u32_le_eq_Panic [simp]: "get_u32_le b = Panic \<longleftrightarrow> length b < 4"
  by (cases b rule: get_u32_le.cases) auto

lemma get_u8_not_Err [simp]: "get_u8 b \<noteq> Err e"
  by (cases b) auto

lemma get_u16_not_Err [simp]: "get_u16 b \<noteq> Err e"
  by (cases b rule: get_u16.cases) auto

lemma get_u32_not_Err [simp]: "get_u32 b \<noteq> Err e"
  by (cases b rule: get_u32.cases) auto

lemma get_u8_length: "get_u8 b = Ok (x, r) \<Longrightarrow> length b = length r + 1"
  by (simp add: get_u8_eq_Ok)

lemma get_u16_length: "get_u16 b = Ok (x, r) \<Longrightarrow> length b = length r + 2"
  by (simp add: get_u16_eq_Ok)

lemma get_u32_length: "get_u32 b = Ok (x, r) \<Longrightarrow> length b = length r + 4"
  by (simp add: get_u32_eq_Ok)

lemma get_u32_le_length: "get_u32_le b = Ok (x, r) \<Longrightarrow> length b = length r + 4"
  by (cases b rule: get_u32_le.cases) auto

lemmas get_lengths = get_u8_length get_u16_length get_u32_length get_u32_le_length

lemma slice_eq_Ok:
  "slice xs a b = Ok ys \<longleftrightarrow> a \<le> b \<and> b \<le> length xs \<and> ys = take (b - a) (drop a xs)"
  by (auto simp: slice_def)

lemma slice_eq_Panic [simp]: "slice xs a b = Panic \<longleftrightarrow> b < a \<or> length xs < b"
  by (auto simp: slice_def)

lemma slice_not_Err [simp]: "slice xs a b \<noteq> Err e"
  by (simp add: slice_def)

lemma slice_length: "slice xs a b = Ok ys \<Longrightarrow> length ys = b - a"
  by (auto simp: slice_eq_Ok)

lemma slice_append_left [buf_simps]:
  "b = a + length ys \<Longrightarrow> a = length xs \<Longrightarrow> slice (xs @ ys @ zs) a b = Ok ys"
  by (simp add: slice_def)

lemma index_eq_Ok: "index xs i = Ok y \<longleftrightarrow> i < length xs \<and> y = xs ! i"
  by (auto simp: index_def)

lemma index_eq_Panic [simp]: "index xs i = Panic \<longleftrightarrow> length xs \<le> i"
  by (auto simp: index_def)

subsection \<open>Facts on hash maps\<close>

lemma map_vals_simps [simp]:
  "map_vals f [] = []" "map_vals f ((k, v) # m) = (k, f v) # map_vals f m"
  by (simp_all add: map_vals_def)

lemma update_key_simps [simp]:
  "update_key k f [] = []"
  "update_key k f ((k', v) # m) = (k', if k' = k then f v else v) # update_key k f m"
  by (simp_all add: update_key_def)

lemma vsum_simps [simp]: "vsum f [] = 0" "vsum f ((k, v) # m) = f v + vsum f m"
  by (simp_all add: vsum_def)

lemma vsum_append [simp]: "vsum f (m @ m') = vsum f m + vsum f m'"
  by (simp add: vsum_def)

lemma keys_map_vals [simp]: "keys (map_vals f m) = keys m"
  by (induction m) auto

lemma keys_update_key [simp]: "keys (update_key k f m) = keys m"
  by (induction m) auto

lemma mset_keys_map_vals [simp]: "image_mset fst (mset (map_vals f m)) = image_mset fst (mset m)"
  by (induction m) auto

lemma mset_keys_update_key [simp]: "image_mset fst (mset (update_key k f m)) = image_mset fst (mset m)"
  by (induction m) auto

lemma set_keys_map_vals [simp]: "fst ` set (map_vals f m) = fst ` set m"
  by (metis keys_map_vals set_map)

lemma set_keys_update_key [simp]: "fst ` set (update_key k f m) = fst ` set m"
  by (metis keys_update_key set_map)

lemma length_map_vals [simp]: "length (map_vals f m) = length m"
  by (simp add: map_vals_def)

lemma length_update_key [simp]: "length (update_key k f m) = length m"
  by (simp add: update_key_def)

lemma vsum_map_vals: "vsum f (map_vals g m) = vsum (\<lambda>c. f (g c)) m"
  by (induction m) auto

lemma vsum_add: "vsum f m + vsum g m = vsum (\<lambda>c. f c + g c) m"
  by (induction m) auto

lemma vsum_cong: "(\<And>c. f c = g c) \<Longrightarrow> vsum f m = vsum g m"
  by (induction m) auto

lemma map_of_map_vals [simp]: "map_of (map_vals f m) k = map_option f (map_of m k)"
  by (induction m) auto

lemma map_of_update_key [simp]:
  "map_of (update_key k f m) k' = (if k' = k then map_option f (map_of m k) else map_of m k')"
  by (induction m) auto

lemma update_new: "k \<notin> set (keys m) \<Longrightarrow> AList.update k v m = m @ [(k, v)]"
  by (induction m) auto

lemma vsum_update_new: "k \<notin> set (keys m) \<Longrightarrow> vsum f (AList.update k v m) = vsum f m + f v"
  by (simp add: update_new)

lemma delete_not_in: "k \<notin> set (keys m) \<Longrightarrow> AList.delete k m = m"
  by (induction m) auto

lemma vsum_delete:
  "distinct (keys m) \<Longrightarrow> map_of m k = Some v \<Longrightarrow> vsum f (AList.delete k m) + f v = vsum f m"
proof (induction m)
  case (Cons e m)
  then show ?case
    by (cases e) (auto simp: delete_not_in [unfolded AList.delete_eq] AList.delete_eq split: if_splits)
qed simp

lemma vsum_update_key:
  "distinct (keys m) \<Longrightarrow> map_of m k = Some v \<Longrightarrow>
    vsum f (update_key k g m) + f v = vsum f m + f (g v)"
proof (induction m)
  case (Cons e m)
  have "update_key k g m = m" if "k \<notin> set (keys m)"
    using that by (induction m) auto
  with Cons show ?case by (cases e) (auto split: if_splits)
qed simp

lemma vsum_update_key_none: "map_of m k = None \<Longrightarrow> vsum f (update_key k g m) = vsum f m"
  by (induction m) (auto split: if_splits)

lemma vsum_le: "map_of m k = Some v \<Longrightarrow> f v \<le> vsum f m"
  by (induction m) (auto split: if_splits)

lemma map_of_in_vals: "map_of m k = Some v \<Longrightarrow> v \<in> set (vals m)"
  by (metis map_of_SomeD in_set_conv_nth length_map nth_map snd_conv)

lemma contains_key_iff: "contains_key m k \<longleftrightarrow> k \<in> set (keys m)"
  by (simp add: map_of_eq_None_iff)

subsection \<open>Facts on sorting\<close>

lemma mset_insert_tail_rev [simp]: "mset (insert_tail_rev lt x ys) = add_mset x (mset ys)"
  by (induction ys) auto

lemma set_insert_tail_rev [simp]: "set (insert_tail_rev lt x ys) = insert x (set ys)"
  by (induction ys) auto

lemma mset_fold_insert_tail:
  "mset (fold (insert_tail_rev lt) xs ys) = mset xs + mset ys"
  by (induction xs arbitrary: ys) auto

lemma mset_sort_by [simp]: "mset (sort_by lt xs) = mset xs"
  by (simp add: sort_by_def mset_fold_insert_tail)

lemma set_sort_by [simp]: "set (sort_by lt xs) = set xs"
  using mset_eq_setD [OF mset_sort_by] .

lemma length_sort_by [simp]: "length (sort_by lt xs) = length xs"
  using mset_eq_length [OF mset_sort_by] .

lemma distinct_sort_by [simp]: "distinct (sort_by lt xs) = distinct xs"
  using mset_eq_imp_distinct_iff [OF mset_sort_by] .

lemma distinct_map_sort_by: "distinct (map f (sort_by lt xs)) = distinct (map f xs)"
  by (rule mset_eq_imp_distinct_iff) simp

lemma sort_by_Nil [simp]: "sort_by lt [] = []"
  by (simp add: sort_by_def)

text \<open>When the comparison agrees with a key, the result is sorted by that key.\<close>

lemma sorted_insert_tail_rev:
  assumes "\<And>y. y \<in> set ys \<Longrightarrow> lt x y = (key x < (key y :: nat))"
    and "sorted (rev (map key ys))"
  shows "sorted (rev (map key (insert_tail_rev lt x ys)))"
  using assms
proof (induction ys)
  case (Cons y ys)
  then show ?case by (auto simp: sorted_append)
qed simp

lemma sorted_fold_insert_tail:
  assumes "\<And>x y. x \<in> set xs \<union> set ys \<Longrightarrow> y \<in> set xs \<union> set ys \<Longrightarrow> lt x y = (key x < (key y :: nat))"
    and "sorted (rev (map key ys))"
  shows "sorted (rev (map key (fold (insert_tail_rev lt) xs ys)))"
  using assms
proof (induction xs arbitrary: ys)
  case (Cons x xs)
  show ?case
    using Cons.prems by (auto intro!: Cons.IH sorted_insert_tail_rev)
qed simp

lemma sorted_sort_by:
  assumes "\<And>x y. x \<in> set xs \<Longrightarrow> y \<in> set xs \<Longrightarrow> lt x y = (key x < (key y :: nat))"
  shows "sorted (map key (sort_by lt xs))"
  using sorted_fold_insert_tail [of xs "[]" lt key] assms by (simp add: sort_by_def rev_map)

lemma sorted_key_unique:
  assumes "mset xs = mset ys" "inj_on key (set xs)"
    and "sorted (map (key :: 'a \<Rightarrow> nat) xs)" "sorted (map key ys)"
  shows "xs = ys"
proof -
  have "set xs = set ys" using assms(1) by (rule mset_eq_setD)
  moreover have "map key xs = map key ys"
    using assms by (metis mset_map properties_for_sort)
  ultimately show ?thesis
    using assms(2) by (metis inj_on_map_eq_map sup.idem)
qed

lemma unat_of_nat_u32: "i < 2 ^ 32 \<Longrightarrow> unat (of_nat i :: u32) = i"
  by (simp add: unsigned_of_nat take_bit_nat_eq_self)

end
