(* ===== verification/Sctp_Config.thy ===== *)
theory Sctp_Config
  imports Sctp_Prelude
begin

text \<open>
  Configuration and the small enumerations of an association: the constants and the transport,
  server and client configuration of \<^verbatim>\<open>config.rs\<close>, \<^verbatim>\<open>Side\<close> of \<^verbatim>\<open>lib.rs\<close>, the states of
  \<^verbatim>\<open>association/state.rs\<close> and the counters of \<^verbatim>\<open>association/stats.rs\<close>. Configuration values that
  Rust shares through \<^verbatim>\<open>Arc\<close> are immutable and therefore plain values here. The association id
  generator of the endpoint configuration is a supplier of random values; the operations that call
  it take the value as an argument. The \<^verbatim>\<open>with_\<close> setters of the transport configuration are record
  updates.
\<close>

subsection \<open>Constants\<close>

definition RECEIVE_MTU :: usize where "RECEIVE_MTU = 8192"

definition INITIAL_MTU :: u32 where "INITIAL_MTU = 1228"

definition INITIAL_RECV_BUF_SIZE :: u32 where "INITIAL_RECV_BUF_SIZE = 1024 * 1024"

definition COMMON_HEADER_SIZE :: u32 where "COMMON_HEADER_SIZE = 12"

definition DATA_CHUNK_HEADER_SIZE :: u32 where "DATA_CHUNK_HEADER_SIZE = 16"

definition DEFAULT_MAX_MESSAGE_SIZE :: u32 where "DEFAULT_MAX_MESSAGE_SIZE = 65536"

definition RTO_INITIAL :: u64 where "RTO_INITIAL = 3000"

definition RTO_MIN :: u64 where "RTO_MIN = 1000"

definition RTO_MAX :: u64 where "RTO_MAX = 60000"

definition DEFAULT_MAX_INIT_RETRANS :: usize where "DEFAULT_MAX_INIT_RETRANS = 8"

definition DEFAULT_SCTP_PORT :: u16 where "DEFAULT_SCTP_PORT = 5000"

definition MAX_SNAP_INIT_BYTES :: usize where "MAX_SNAP_INIT_BYTES = 2048"

subsection \<open>Transport configuration\<close>

record TransportConfig =
  tc_max_receive_buffer_size :: u32
  tc_max_num_outbound_streams :: u16
  tc_max_num_inbound_streams :: u16
  tc_max_send_message_size :: u32
  tc_max_receive_message_size :: u32
  tc_max_init_retransmits :: "usize option"
  tc_max_data_retransmits :: "usize option"
  tc_rto_initial_ms :: u64
  tc_rto_min_ms :: u64
  tc_rto_max_ms :: u64
  tc_local_port :: u16
  tc_remote_port :: u16

definition TransportConfig_default :: TransportConfig where
  "TransportConfig_default =
    \<lparr>tc_max_receive_buffer_size = INITIAL_RECV_BUF_SIZE,
     tc_max_num_outbound_streams = - 1,
     tc_max_num_inbound_streams = - 1,
     tc_max_send_message_size = DEFAULT_MAX_MESSAGE_SIZE,
     tc_max_receive_message_size = DEFAULT_MAX_MESSAGE_SIZE,
     tc_max_init_retransmits = Some DEFAULT_MAX_INIT_RETRANS,
     tc_max_data_retransmits = None,
     tc_rto_initial_ms = RTO_INITIAL,
     tc_rto_min_ms = RTO_MIN,
     tc_rto_max_ms = RTO_MAX,
     tc_local_port = DEFAULT_SCTP_PORT,
     tc_remote_port = DEFAULT_SCTP_PORT\<rparr>"

text \<open>
  The setters of the source, \<^verbatim>\<open>with_max_receive_buffer_size\<close> and so on, take a configuration and return
  it with one field changed; none of them checks its value. A setting names the setter and its argument.
\<close>

datatype TransportLimit =
    MaxReceiveBufferSize u32
  | MaxSendMessageSize u32
  | MaxReceiveMessageSize u32
  | MaxMessageSize u32
  | MaxNumOutboundStreams u16
  | MaxNumInboundStreams u16

fun with_limit :: "TransportLimit \<Rightarrow> TransportConfig \<Rightarrow> TransportConfig" where
  "with_limit (MaxReceiveBufferSize v) c = c\<lparr>tc_max_receive_buffer_size := v\<rparr>"
| "with_limit (MaxSendMessageSize v) c = c\<lparr>tc_max_send_message_size := v\<rparr>"
| "with_limit (MaxReceiveMessageSize v) c = c\<lparr>tc_max_receive_message_size := v\<rparr>"
| "with_limit (MaxMessageSize v) c = c\<lparr>tc_max_send_message_size := v\<rparr>"
| "with_limit (MaxNumOutboundStreams v) c = c\<lparr>tc_max_num_outbound_streams := v\<rparr>"
| "with_limit (MaxNumInboundStreams v) c = c\<lparr>tc_max_num_inbound_streams := v\<rparr>"

datatype TransportSetting =
    MaxInitRetransmits "usize option"
  | MaxDataRetransmits "usize option"
  | RtoInitialMs u64
  | RtoMinMs u64
  | RtoMaxMs u64
  | LocalPort u16
  | RemotePort u16

fun with_setting :: "TransportSetting \<Rightarrow> TransportConfig \<Rightarrow> TransportConfig" where
  "with_setting (MaxInitRetransmits v) c = c\<lparr>tc_max_init_retransmits := v\<rparr>"
| "with_setting (MaxDataRetransmits v) c = c\<lparr>tc_max_data_retransmits := v\<rparr>"
| "with_setting (RtoInitialMs v) c = c\<lparr>tc_rto_initial_ms := v\<rparr>"
| "with_setting (RtoMinMs v) c = c\<lparr>tc_rto_min_ms := v\<rparr>"
| "with_setting (RtoMaxMs v) c = c\<lparr>tc_rto_max_ms := v\<rparr>"
| "with_setting (LocalPort v) c = c\<lparr>tc_local_port := v\<rparr>"
| "with_setting (RemotePort v) c = c\<lparr>tc_remote_port := v\<rparr>"

subsection \<open>Endpoint, server and client configuration\<close>

record EndpointConfig =
  ec_max_payload_size :: u32

definition EndpointConfig_new :: EndpointConfig where
  "EndpointConfig_new = \<lparr>ec_max_payload_size = INITIAL_MTU - (COMMON_HEADER_SIZE + DATA_CHUNK_HEADER_SIZE)\<rparr>"

definition EndpointConfig_max_payload_size :: "u32 \<Rightarrow> EndpointConfig \<Rightarrow> EndpointConfig" where
  "EndpointConfig_max_payload_size value c = c\<lparr>ec_max_payload_size := value\<rparr>"

record ServerConfig =
  sc_transport :: TransportConfig
  sc_concurrent_associations :: u32

definition ServerConfig_default :: ServerConfig where
  "ServerConfig_default = \<lparr>sc_transport = TransportConfig_default, sc_concurrent_associations = 100000\<rparr>"

record ClientConfig =
  cc_transport :: TransportConfig
  cc_local_sctp_init :: "bytes option"
  cc_remote_sctp_init :: "bytes option"

definition ClientConfig_default :: ClientConfig where
  "ClientConfig_default =
    \<lparr>cc_transport = TransportConfig_default, cc_local_sctp_init = None, cc_remote_sctp_init = None\<rparr>"

definition with_snap :: "bytes \<Rightarrow> bytes \<Rightarrow> ClientConfig \<Rightarrow> ClientConfig" where
  "with_snap local_sctp_init remote_sctp_init c =
    c\<lparr>cc_local_sctp_init := Some local_sctp_init, cc_remote_sctp_init := Some remote_sctp_init\<rparr>"

subsection \<open>Sides, states and counters\<close>

datatype Side = Client | Server

datatype AssociationState =
  Closed | CookieWait | CookieEchoed | Established | ShutdownAckSent | ShutdownPending | ShutdownReceived
  | ShutdownSent

definition AssociationState_from :: "u8 \<Rightarrow> AssociationState" where
  "AssociationState_from v =
    (if v = 1 then CookieWait else if v = 2 then CookieEchoed else if v = 3 then Established
     else if v = 4 then ShutdownAckSent else if v = 5 then ShutdownPending else if v = 6 then ShutdownReceived
     else if v = 7 then ShutdownSent else Closed)"

fun is_closing :: "AssociationState \<Rightarrow> bool" where
  "is_closing ShutdownSent = True"
| "is_closing ShutdownAckSent = True"
| "is_closing ShutdownPending = True"
| "is_closing ShutdownReceived = True"
| "is_closing _ = False"

definition is_drained :: "AssociationState \<Rightarrow> bool" where
  "is_drained s \<longleftrightarrow> is_closing s"

datatype AckMode = Normal | NoDelay | AlwaysDelay

datatype AckState = Idle | Immediate | Delay

record AssociationStats =
  n_datas :: nat
  n_sacks :: nat
  n_t3timeouts :: nat
  n_ack_timeouts :: nat
  n_fast_retrans :: nat

definition AssociationStats_default :: AssociationStats where
  "AssociationStats_default =
    \<lparr>n_datas = 0, n_sacks = 0, n_t3timeouts = 0, n_ack_timeouts = 0, n_fast_retrans = 0\<rparr>"

text \<open>
  The counters are 64 bits wide and only ever step by one from zero, so they are natural numbers
  here.
\<close>

definition inc_datas :: "AssociationStats \<Rightarrow> AssociationStats" where
  "inc_datas s = s\<lparr>n_datas := n_datas s + 1\<rparr>"

definition inc_sacks :: "AssociationStats \<Rightarrow> AssociationStats" where
  "inc_sacks s = s\<lparr>n_sacks := n_sacks s + 1\<rparr>"

definition inc_t3timeouts :: "AssociationStats \<Rightarrow> AssociationStats" where
  "inc_t3timeouts s = s\<lparr>n_t3timeouts := n_t3timeouts s + 1\<rparr>"

definition inc_ack_timeouts :: "AssociationStats \<Rightarrow> AssociationStats" where
  "inc_ack_timeouts s = s\<lparr>n_ack_timeouts := n_ack_timeouts s + 1\<rparr>"

definition inc_fast_retrans :: "AssociationStats \<Rightarrow> AssociationStats" where
  "inc_fast_retrans s = s\<lparr>n_fast_retrans := n_fast_retrans s + 1\<rparr>"

end
