(* ===== verification/Sctp_Util.thy ===== *)
theory Sctp_Util
  imports Sctp_Prelude
begin

text \<open>
  \<^verbatim>\<open>src/src/util.rs\<close>: constant-time comparison, padding, the packet checksum, the two byte sources
  and RFC 1982 serial number arithmetic.

  \<^item> The checksum takes the CRC of the \<^verbatim>\<open>crc\<close> crate as a parameter on the concatenation of the
    slices that the digest is fed.
  \<^item> The locale \<open>bytes_source\<close> is the contract of the trait \<^verbatim>\<open>BytesSource\<close>; both sources
    interpret it. \<open>sized_source\<close> adds what \<^verbatim>\<open>remaining\<close> promises, which \<^verbatim>\<open>ByteSlice\<close> keeps.
  \<^item> The locale \<open>serial_order\<close> is what sequence number comparison guarantees inside a window of half
    the number space. \<^verbatim>\<open>sna32lt\<close> (transmission sequence numbers, TSN) and \<^verbatim>\<open>sna16lt\<close> (stream
    sequence numbers, SSN) interpret it, and every sorted queue of the library rests on it.
\<close>

subsection \<open>Constant-time comparison, padding, checksum\<close>

definition constant_time_ne :: "bytes \<Rightarrow> bytes \<Rightarrow> u8 res" where
  "constant_time_ne a b =
    (if length a = length b
     then Ok (fold (\<lambda>(x, y) tmp. tmp OR (x XOR y)) (zip a b) 0) else Panic)"

definition constant_time_eq :: "bytes \<Rightarrow> bytes \<Rightarrow> bool res" where
  "constant_time_eq a b =
    (if length a = length b then rmap (\<lambda>t. t = 0) (constant_time_ne a b) else Ok False)"

definition PADDING_MULTIPLE :: usize where
  "PADDING_MULTIPLE = 4"

definition get_padding_size :: "usize \<Rightarrow> usize" where
  "get_padding_size len = (PADDING_MULTIPLE - len mod PADDING_MULTIPLE) mod PADDING_MULTIPLE"

definition generate_packet_checksum :: "(bytes \<Rightarrow> u32) \<Rightarrow> bytes \<Rightarrow> u32 res" where
  "generate_packet_checksum crc raw =
    rbind (slice raw 0 8) (\<lambda>a.
    rbind (slice raw 12 (length raw)) (\<lambda>b.
    Ok (crc (a @ [0, 0, 0, 0] @ b))))"

subsection \<open>Byte sources\<close>

record BytesArray =
  ba_chunks :: "bytes list"
  ba_consumed :: usize
  ba_length :: usize

definition BytesArray_from_chunks :: "bytes list \<Rightarrow> BytesArray" where
  "BytesArray_from_chunks chunks =
    \<lparr>ba_chunks = chunks, ba_consumed = 0, ba_length = fold (\<lambda>chunk len. len + length chunk) chunks 0\<rparr>"

function BytesArray_pop_loop :: "BytesArray \<Rightarrow> usize \<Rightarrow> usize \<Rightarrow> (bytes \<times> usize) \<times> BytesArray" where
  "BytesArray_pop_loop s limit chunks_consumed =
    (if ba_consumed s < length (ba_chunks s) then
       let chunk = ba_chunks s ! ba_consumed s in
       if length chunk \<le> limit then
         let s' = s\<lparr>ba_chunks := (ba_chunks s)[ba_consumed s := []], ba_consumed := ba_consumed s + 1\<rparr> in
         if chunk = [] then BytesArray_pop_loop s' limit (chunks_consumed + 1)
         else ((chunk, chunks_consumed + 1), s')
       else if limit > 0 then
         ((take limit chunk, chunks_consumed),
          s\<lparr>ba_chunks := (ba_chunks s)[ba_consumed s := drop limit chunk]\<rparr>)
       else (([], chunks_consumed), s)
     else (([], chunks_consumed), s))"
  by pat_completeness auto
termination
  by (relation "measure (\<lambda>(s, _, _). length (ba_chunks s) - ba_consumed s)") auto

definition BytesArray_pop_chunk :: "BytesArray \<Rightarrow> usize \<Rightarrow> (bytes \<times> usize) \<times> BytesArray" where
  "BytesArray_pop_chunk s limit = BytesArray_pop_loop s limit 0"

definition BytesArray_has_remaining :: "BytesArray \<Rightarrow> bool" where
  "BytesArray_has_remaining s \<longleftrightarrow> ba_consumed s < ba_length s"

definition BytesArray_remaining :: "BytesArray \<Rightarrow> usize res" where
  "BytesArray_remaining s = usize_sub (ba_length s) (ba_consumed s)"

definition ByteSlice_pop_chunk :: "bytes \<Rightarrow> usize \<Rightarrow> (bytes \<times> usize) \<times> bytes" where
  "ByteSlice_pop_chunk data limit =
    (let limit = min limit (length data) in
     if limit = 0 then (([], 0), data)
     else let chunk = take limit data; data' = drop (length chunk) data
          in ((chunk, if data' = [] then 1 else 0), data'))"

definition ByteSlice_has_remaining :: "bytes \<Rightarrow> bool" where
  "ByteSlice_has_remaining data \<longleftrightarrow> data \<noteq> []"

definition ByteSlice_remaining :: "bytes \<Rightarrow> usize" where
  "ByteSlice_remaining data = length data"

text \<open>The bytes a source still holds, and a client that pops until the fuel runs out.\<close>

definition BytesArray_content :: "BytesArray \<Rightarrow> bytes" where
  "BytesArray_content s = concat (drop (ba_consumed s) (ba_chunks s))"

primrec drain_source :: "('s \<Rightarrow> usize \<Rightarrow> (bytes \<times> usize) \<times> 's) \<Rightarrow> usize \<Rightarrow> nat \<Rightarrow> 's \<Rightarrow> bytes list" where
  "drain_source pop limit 0 s = []"
| "drain_source pop limit (Suc n) s =
    (case pop s limit of ((c, _), s') \<Rightarrow> c # drain_source pop limit n s')"

subsection \<open>Serial number arithmetic\<close>

definition sna32lt :: "u32 \<Rightarrow> u32 \<Rightarrow> bool" where
  "sna32lt i1 i2 \<longleftrightarrow> (i1 < i2 \<and> i2 - i1 < push_bit 31 1) \<or> (i1 > i2 \<and> i1 - i2 > push_bit 31 1)"

definition sna32lte :: "u32 \<Rightarrow> u32 \<Rightarrow> bool" where
  "sna32lte i1 i2 \<longleftrightarrow> i1 = i2 \<or> sna32lt i1 i2"

definition sna32gt :: "u32 \<Rightarrow> u32 \<Rightarrow> bool" where
  "sna32gt i1 i2 \<longleftrightarrow> (i1 < i2 \<and> i2 - i1 \<ge> push_bit 31 1) \<or> (i1 > i2 \<and> i1 - i2 \<le> push_bit 31 1)"

definition sna32gte :: "u32 \<Rightarrow> u32 \<Rightarrow> bool" where
  "sna32gte i1 i2 \<longleftrightarrow> i1 = i2 \<or> sna32gt i1 i2"

definition sna32eq :: "u32 \<Rightarrow> u32 \<Rightarrow> bool" where
  "sna32eq i1 i2 \<longleftrightarrow> i1 = i2"

definition sna16lt :: "u16 \<Rightarrow> u16 \<Rightarrow> bool" where
  "sna16lt i1 i2 \<longleftrightarrow> (i1 < i2 \<and> i2 - i1 < push_bit 15 1) \<or> (i1 > i2 \<and> i1 - i2 > push_bit 15 1)"

definition sna16lte :: "u16 \<Rightarrow> u16 \<Rightarrow> bool" where
  "sna16lte i1 i2 \<longleftrightarrow> i1 = i2 \<or> sna16lt i1 i2"

definition sna16gt :: "u16 \<Rightarrow> u16 \<Rightarrow> bool" where
  "sna16gt i1 i2 \<longleftrightarrow> (i1 < i2 \<and> i2 - i1 \<ge> push_bit 15 1) \<or> (i1 > i2 \<and> i1 - i2 \<le> push_bit 15 1)"

definition sna16gte :: "u16 \<Rightarrow> u16 \<Rightarrow> bool" where
  "sna16gte i1 i2 \<longleftrightarrow> i1 = i2 \<or> sna16gt i1 i2"

definition sna16eq :: "u16 \<Rightarrow> u16 \<Rightarrow> bool" where
  "sna16eq i1 i2 \<longleftrightarrow> i1 = i2"

subsection \<open>Sequence number windows\<close>

text \<open>
  \<open>off b x\<close> is the distance from \<open>b\<close> forward to \<open>x\<close>. The comparison looks only at whether that
  distance is below half the number space.
\<close>

locale serial_order =
  fixes lt :: "'a \<Rightarrow> 'a \<Rightarrow> bool"
    and off :: "'a \<Rightarrow> 'a \<Rightarrow> nat"
    and half :: nat
  assumes off_inj: "off b x = off b y \<Longrightarrow> x = y"
    and off_self: "off b b = 0"
    and lt_iff_off: "lt x y \<longleftrightarrow> 0 < off x y \<and> off x y < half"
    and off_diff: "off b x \<le> off b y \<Longrightarrow> off x y = off b y - off b x"
    and lt_asym: "lt x y \<Longrightarrow> \<not> lt y x"
begin

lemma lt_irrefl: "\<not> lt x x"
  by (simp add: lt_iff_off off_self)

lemma lt_window:
  assumes "off b x < half" "off b y < half"
  shows "lt x y \<longleftrightarrow> off b x < off b y"
proof (cases "off b x \<le> off b y")
  case True
  with assms off_diff [of b x y] show ?thesis by (auto simp: lt_iff_off)
next
  case False
  then have "lt y x" using assms off_diff [of b y x] by (auto simp: lt_iff_off)
  with False show ?thesis using lt_asym by auto
qed

lemma lt_base: "off b x < half \<Longrightarrow> lt b x \<longleftrightarrow> x \<noteq> b"
  using off_inj [of b b x] lt_iff_off [of b x] off_self [of b] lt_irrefl [of b]
  by (cases "x = b") auto

lemma lt_trans_window:
  assumes "off b x < half" "off b y < half" "off b z < half" "lt x y" "lt y z"
  shows "lt x z"
  using assms lt_window [of b x y] lt_window [of b y z] lt_window [of b x z] by simp

lemma lt_total_window:
  "off b x < half \<Longrightarrow> off b y < half \<Longrightarrow> x \<noteq> y \<Longrightarrow> lt x y \<or> lt y x"
  using lt_window [of b x y] lt_window [of b y x] off_inj [of b x y] by fastforce

lemma sorted_sort:
  "\<forall>x \<in> set xs. off b x < half \<Longrightarrow> sorted (map (off b) (sort_by lt xs))"
  by (intro sorted_sort_by lt_window) auto

lemma inj_off: "inj_on (off b) S"
  using off_inj by (auto intro: inj_onI)

lemma sort_unique:
  assumes "\<forall>x \<in> set xs. off b x < half" "mset ys = mset xs" "sorted (map (off b) ys)"
  shows "sort_by lt xs = ys"
  using assms by (intro sorted_key_unique [of _ _ "off b"] inj_off sorted_sort) auto

lemma sort_sorted:
  "\<forall>x \<in> set xs. off b x < half \<Longrightarrow> sorted (map (off b) xs) \<Longrightarrow> sort_by lt xs = xs"
  by (rule sort_unique) auto

lemma off_trans:
  "off b x \<le> off b y \<Longrightarrow> off b y = off b x + off x y"
  using off_diff [of b x y] by simp

end

subsection \<open>The comparisons, characterised\<close>

lemma unat_word_sub:
  "unat (y - x) = (if unat x \<le> unat y then unat y - unat x else unat y + 2 ^ LENGTH('a) - unat x)"
  for x y :: "'a::len word"
  by (simp add: unat_sub_if')

lemma unat_bound: "unat x < 2 ^ LENGTH('a)"
  for x :: "'a::len word"
  by (rule unsigned_less)

lemma sna32lt_off: "sna32lt x y \<longleftrightarrow> 0 < unat (y - x) \<and> unat (y - x) < 2 ^ 31"
  using unat_bound [of x] unat_bound [of y]
  by (auto simp: sna32lt_def word_less_nat_alt unat_word_sub word_unat_eq_iff)

lemma sna16lt_off: "sna16lt x y \<longleftrightarrow> 0 < unat (y - x) \<and> unat (y - x) < 2 ^ 15"
  using unat_bound [of x] unat_bound [of y]
  by (auto simp: sna16lt_def word_less_nat_alt unat_word_sub word_unat_eq_iff)

lemma sna32gt_not_lte: "sna32gt x y \<longleftrightarrow> \<not> sna32lte x y"
  using unat_bound [of x] unat_bound [of y]
  by (auto simp: sna32lte_def sna32gt_def sna32lt_def word_less_nat_alt word_le_nat_alt unat_word_sub
      word_unat_eq_iff)

lemma sna16gt_not_lte: "sna16gt x y \<longleftrightarrow> \<not> sna16lte x y"
  using unat_bound [of x] unat_bound [of y]
  by (auto simp: sna16lte_def sna16gt_def sna16lt_def word_less_nat_alt word_le_nat_alt unat_word_sub
      word_unat_eq_iff)

lemma unat_diff_base:
  fixes b x y :: "'a::len word"
  assumes "unat (x - b) \<le> unat (y - b)"
  shows "unat (y - x) = unat (y - b) - unat (x - b)"
proof -
  have "y - x = (y - b) - (x - b)" by simp
  with assms show ?thesis by (simp only: unat_word_sub if_True)
qed

lemma unat_Suc_window: "unat x < 2 ^ 31 \<Longrightarrow> unat (x + 1) = unat x + 1"
  for x :: u32
  by (simp add: unat_word_ariths)

lemma unat_base_inj: "unat (x - b) = unat (y - b) \<Longrightarrow> x = y"
  for b x y :: "'a::len word"
  by (simp add: word_unat_eq_iff [symmetric])

interpretation tsn: serial_order sna32lt "\<lambda>b x. unat (x - b)" "2 ^ 31"
proof
  fix b x y :: u32
  show "unat (x - b) = unat (y - b) \<Longrightarrow> x = y" by (rule unat_base_inj)
  show "unat (b - b) = 0" by simp
  show "sna32lt x y = (0 < unat (y - x) \<and> unat (y - x) < 2 ^ 31)" by (rule sna32lt_off)
  show "unat (x - b) \<le> unat (y - b) \<Longrightarrow> unat (y - x) = unat (y - b) - unat (x - b)"
    by (rule unat_diff_base)
  show "sna32lt x y \<Longrightarrow> \<not> sna32lt y x"
    using unat_bound [of x] unat_bound [of y]
    by (auto simp: sna32lt_def word_less_nat_alt unat_word_sub)
qed

interpretation ssn: serial_order sna16lt "\<lambda>b x. unat (x - b)" "2 ^ 15"
proof
  fix b x y :: u16
  show "unat (x - b) = unat (y - b) \<Longrightarrow> x = y" by (rule unat_base_inj)
  show "unat (b - b) = 0" by simp
  show "sna16lt x y = (0 < unat (y - x) \<and> unat (y - x) < 2 ^ 15)" by (rule sna16lt_off)
  show "unat (x - b) \<le> unat (y - b) \<Longrightarrow> unat (y - x) = unat (y - b) - unat (x - b)"
    by (rule unat_diff_base)
  show "sna16lt x y \<Longrightarrow> \<not> sna16lt y x"
    using unat_bound [of x] unat_bound [of y]
    by (auto simp: sna16lt_def word_less_nat_alt unat_word_sub)
qed

lemma unat_pred_off:
  "(d :: u32) \<noteq> i \<Longrightarrow> unat (d - (i + 1)) = unat (d - i) - 1"
  "unat (- 1 :: u32) = 2 ^ 32 - 1"
  by (simp add: diff_diff_eq [symmetric] unat_minus_one) (simp add: unsigned_minus_1_eq_mask mask_eq_exp_minus_1)

lemma u32_counter_less: "(i :: u32) \<noteq> - 1 \<Longrightarrow> 2 ^ 32 - unat (i + 1) < 2 ^ 32 - unat i"
proof -
  assume i: "i \<noteq> - 1"
  have "1 + i \<noteq> 0" using i by (metis add.commute add_eq_0_iff)
  from unatSuc [OF this] have "unat (i + 1) = Suc (unat i)" by (simp add: add.commute)
  moreover have "unat i < 2 ^ 32" using unsigned_less [of i] by simp
  ultimately show ?thesis by simp
qed

lemma sna32lte_off: "sna32lte x y \<longleftrightarrow> unat (y - x) < 2 ^ 31"
  by (auto simp: sna32lte_def sna32lt_off unat_gt_0)

lemma sna16lte_off: "sna16lte x y \<longleftrightarrow> unat (y - x) < 2 ^ 15"
  by (auto simp: sna16lte_def sna16lt_off unat_gt_0)

subsection \<open>Padding and comparison of byte strings\<close>

lemma get_padding_size_lt [simp]: "get_padding_size n < 4"
  by (simp add: get_padding_size_def PADDING_MULTIPLE_def)

lemma padded_mod [simp]: "(n + get_padding_size n) mod 4 = 0"
proof -
  have "(n + get_padding_size n) mod 4 = (n mod 4 + get_padding_size n) mod 4"
    by (simp only: mod_add_left_eq)
  moreover have "n mod 4 = 0 \<or> n mod 4 = 1 \<or> n mod 4 = 2 \<or> n mod 4 = 3" by auto
  ultimately show ?thesis
    by (auto simp: get_padding_size_def PADDING_MULTIPLE_def)
qed

lemma get_padding_size_0 [simp]: "n mod 4 = 0 \<Longrightarrow> get_padding_size n = 0"
  by (simp add: get_padding_size_def PADDING_MULTIPLE_def)

lemma get_padding_size_add4 [simp]: "get_padding_size (n + 4 * k) = get_padding_size n"
  by (simp add: get_padding_size_def PADDING_MULTIPLE_def)

lemma fold_or_xor_eq_0:
  "fold (\<lambda>(x, y) tmp. tmp OR (x XOR y)) ps t = 0 \<longleftrightarrow> t = (0 :: u8) \<and> (\<forall>(x, y) \<in> set ps. x = y)"
proof (induction ps arbitrary: t)
  case (Cons p ps)
  have "t OR (x XOR y) = 0 \<longleftrightarrow> t = 0 \<and> x = y" for x y
    by (auto simp: bit_eq_iff bit_simps)
  with Cons show ?case by (cases p) auto
qed simp

lemma constant_time_eq_char: "constant_time_eq a b = Ok (a = b)"
proof (cases "length a = length b")
  case True
  then have "(\<forall>(x, y) \<in> set (zip a b). x = y) \<longleftrightarrow> a = b"
    by (induction a b rule: list_induct2) auto
  with True show ?thesis
    by (simp add: constant_time_eq_def constant_time_ne_def fold_or_xor_eq_0)
qed (auto simp: constant_time_eq_def)

subsection \<open>The contract of a byte source\<close>

locale bytes_source =
  fixes pop :: "'s \<Rightarrow> usize \<Rightarrow> (bytes \<times> usize) \<times> 's"
    and content :: "'s \<Rightarrow> bytes"
  assumes pop_content: "pop s limit = ((c, n), s') \<Longrightarrow> content s = c @ content s'"
    and pop_limit: "pop s limit = ((c, n), s') \<Longrightarrow> length c \<le> limit"
    and pop_progress: "pop s limit = ((c, n), s') \<Longrightarrow> 0 < limit \<Longrightarrow> content s \<noteq> [] \<Longrightarrow> c \<noteq> []"
begin

lemma drain_prefix: "\<exists>r. content s = concat (drain_source pop limit n s) @ r"
proof (induction n arbitrary: s)
  case (Suc n)
  obtain c k s' where p: "pop s limit = ((c, k), s')" by (metis surj_pair)
  then show ?case using pop_content [OF p] Suc.IH [of s'] by auto
qed simp

lemma drain_all:
  assumes "0 < limit" "length (content s) \<le> n"
  shows "concat (drain_source pop limit n s) = content s"
  using assms(2)
proof (induction n arbitrary: s)
  case (Suc n)
  obtain c k s' where p: "pop s limit = ((c, k), s')" by (metis surj_pair)
  have "length (content s') \<le> n"
    using pop_content [OF p] pop_progress [OF p assms(1)] Suc.prems
    by (cases "content s = []"; cases c) auto
  then show ?case using p pop_content [OF p] Suc.IH [of s'] by simp
qed simp

lemma drain_limit: "\<forall>c \<in> set (drain_source pop limit n s). length c \<le> limit"
proof (induction n arbitrary: s)
  case (Suc n)
  obtain c k s' where p: "pop s limit = ((c, k), s')" by (metis surj_pair)
  then show ?case using pop_limit [OF p] Suc.IH [of s'] by simp
qed simp

end

locale sized_source = bytes_source +
  fixes remaining :: "'s \<Rightarrow> usize"
  assumes remaining_content: "remaining s = length (content s)"
begin

lemma drain_remaining:
  "0 < limit \<Longrightarrow> concat (drain_source pop limit (remaining s) s) = content s"
  by (simp add: drain_all remaining_content)

end

declare BytesArray_pop_loop.simps [simp del]

lemma BytesArray_pop_loop_spec:
  assumes "BytesArray_pop_loop s limit n = ((c, m), s')"
  shows "BytesArray_content s = c @ BytesArray_content s' \<and> length c \<le> limit \<and>
    (0 < limit \<and> BytesArray_content s \<noteq> [] \<longrightarrow> c \<noteq> [])"
  using assms
proof (induction s limit n rule: BytesArray_pop_loop.induct)
  case (1 s limit n)
  note run = "1.prems" [unfolded BytesArray_pop_loop.simps [of s limit n]]
  show ?case
  proof (cases "ba_consumed s < length (ba_chunks s)")
    case True
    let ?chunk = "ba_chunks s ! ba_consumed s"
    have content: "BytesArray_content s = ?chunk @ concat (drop (Suc (ba_consumed s)) (ba_chunks s))"
      by (simp add: BytesArray_content_def Cons_nth_drop_Suc [OF True, symmetric])
    have upd: "drop (ba_consumed s) ((ba_chunks s)[ba_consumed s := x])
        = x # drop (Suc (ba_consumed s)) (ba_chunks s)" for x
      using True by (simp add: Cons_nth_drop_Suc [symmetric])
    show ?thesis
      using True run "1.IH" content
      by (auto simp: Let_def BytesArray_content_def upd split: if_splits)
  qed (use run in \<open>auto simp: BytesArray_content_def\<close>)
qed

interpretation bytes_array: bytes_source BytesArray_pop_chunk BytesArray_content
  by unfold_locales (auto simp: BytesArray_pop_chunk_def dest!: BytesArray_pop_loop_spec)

interpretation byte_slice: sized_source ByteSlice_pop_chunk "\<lambda>data. data" ByteSlice_remaining
  by unfold_locales (auto simp: ByteSlice_pop_chunk_def ByteSlice_remaining_def Let_def min_def
      split: if_splits)

subsection \<open>Properties\<close>

text \<open>
  C19: Inside any window of half the number space, at whatever base and across the wrap-around, the
  two comparisons of TSNs order the numbers by their distance from the base, and are each other's
  converse.
\<close>
theorem sna32_window_order:
  assumes "unat (x - b) < 2 ^ 31" "unat (y - b) < 2 ^ 31"
  shows "(sna32lt x y \<longleftrightarrow> unat (x - b) < unat (y - b)) \<and>
    (sna32gt x y \<longleftrightarrow> unat (y - b) < unat (x - b)) \<and> (sna32lte x y \<longleftrightarrow> \<not> sna32gt x y)"
  using tsn.lt_window [OF assms] tsn.lt_window [OF assms(2,1)] tsn.lt_total_window [OF assms]
  by (cases "x = y") (auto simp: sna32gt_not_lte sna32lte_def)

theorem sna32_window_order_witness:
  "(sna32lt 0xFFFFFFFF 3 \<longleftrightarrow> unat (0xFFFFFFFF - 0xFFFFFFFE :: u32) < unat (3 - 0xFFFFFFFE :: u32))
    \<and> (sna32gt 0xFFFFFFFF 3 \<longleftrightarrow> unat (3 - 0xFFFFFFFE :: u32) < unat (0xFFFFFFFF - 0xFFFFFFFE :: u32))
    \<and> sna32lt 0xFFFFFFFF 3"
proof -
  have w: "unat (0xFFFFFFFF - 0xFFFFFFFE :: u32) < 2 ^ 31" "unat (3 - 0xFFFFFFFE :: u32) < 2 ^ 31"
    by simp_all
  show ?thesis using sna32_window_order [OF w] by simp
qed

text \<open>
  C20: Popping a chunk array with any positive limit until it is empty hands out exactly the bytes
  of its chunks, in order, in pieces no longer than the limit.
\<close>
theorem BytesArray_drained:
  assumes "0 < limit" "length (concat chunks) \<le> n"
  shows "concat (drain_source BytesArray_pop_chunk limit n (BytesArray_from_chunks chunks)) = concat chunks
    \<and> (\<forall>c \<in> set (drain_source BytesArray_pop_chunk limit n (BytesArray_from_chunks chunks)). length c \<le> limit)"
  using bytes_array.drain_all [of limit "BytesArray_from_chunks chunks" n] bytes_array.drain_limit assms
  by (simp add: BytesArray_content_def BytesArray_from_chunks_def)

theorem BytesArray_drained_witness:
  "concat (drain_source BytesArray_pop_chunk 2 6 (BytesArray_from_chunks [[1, 2, 3], [], [4]])) = [1, 2, 3, 4]"
  using BytesArray_drained [of 2 "[[1, 2, 3], [], [4]]" 6] by simp

text \<open>
  \<^verbatim>\<open>BytesArray::remaining\<close> subtracts a number of chunks from a number of bytes: after the only
  chunk of three bytes has been popped it still reports two.
\<close>
lemma BytesArray_remaining_counts_chunks:
  "BytesArray_remaining (snd (BytesArray_pop_chunk (BytesArray_from_chunks [[1, 2, 3]]) 8)) = Ok 2
    \<and> BytesArray_content (snd (BytesArray_pop_chunk (BytesArray_from_chunks [[1, 2, 3]]) 8)) = []"
  by code_simp

end
