(* ===== verification/Data_Chunk.thy ===== *)
theory Data_Chunk
  imports Sctp_Util
begin

text \<open>
  The DATA chunk as the queues hold it (\<^verbatim>\<open>src/src/chunk/chunk_payload_data.rs\<close>), with the
  payload protocol identifiers, the reliability types of \<^verbatim>\<open>src/src/association/stream.rs\<close> and
  the gap blocks of \<^verbatim>\<open>src/src/chunk/chunk_selective_ack.rs\<close>. The fields of \<^verbatim>\<open>ChunkPayloadData\<close>
  carry the prefix \<open>d_\<close>.
\<close>

datatype PayloadProtocolIdentifier =
    PPI_Dcep | PPI_String | PPI_Binary | PPI_StringEmpty | PPI_BinaryEmpty | PPI_Unknown

fun ppi_from_u32 :: "u32 \<Rightarrow> PayloadProtocolIdentifier" where
  "ppi_from_u32 v =
    (if v = 50 then PPI_Dcep else if v = 51 then PPI_String else if v = 53 then PPI_Binary
     else if v = 56 then PPI_StringEmpty else if v = 57 then PPI_BinaryEmpty else PPI_Unknown)"

text \<open>The discriminants of the enum, as \<^verbatim>\<open>payload_type as u32\<close> gives them.\<close>

primrec ppi_as_u32 :: "PayloadProtocolIdentifier \<Rightarrow> u32" where
  "ppi_as_u32 PPI_Dcep = 50"
| "ppi_as_u32 PPI_String = 51"
| "ppi_as_u32 PPI_Binary = 53"
| "ppi_as_u32 PPI_StringEmpty = 56"
| "ppi_as_u32 PPI_BinaryEmpty = 57"
| "ppi_as_u32 PPI_Unknown = 58"

datatype ReliabilityType = Reliable | Rexmit | Timed

record ChunkPayloadData =
  d_unordered :: bool
  d_beginning_fragment :: bool
  d_ending_fragment :: bool
  d_immediate_sack :: bool
  d_tsn :: u32
  d_stream_identifier :: u16
  d_stream_sequence_number :: u16
  d_payload_type :: PayloadProtocolIdentifier
  d_user_data :: bytes
  d_acked :: bool
  d_miss_indicator :: u8
  d_message_id :: u64
  d_abandoned :: bool
  d_since :: "instant option"
  d_reliability :: "(ReliabilityType \<times> u32) option"
  d_deadline :: "instant option"
  d_nsent :: u32
  d_retransmit :: bool

definition ChunkPayloadData_default :: ChunkPayloadData where
  "ChunkPayloadData_default =
    \<lparr>d_unordered = False, d_beginning_fragment = False, d_ending_fragment = False,
     d_immediate_sack = False, d_tsn = 0, d_stream_identifier = 0, d_stream_sequence_number = 0,
     d_payload_type = PPI_Unknown, d_user_data = [], d_acked = False, d_miss_indicator = 0,
     d_message_id = 0, d_abandoned = False, d_since = None, d_reliability = None,
     d_deadline = None, d_nsent = 0, d_retransmit = False\<rparr>"

record GapAckBlock =
  gab_start :: u16
  gab_end :: u16

text \<open>The number of payload bytes of a chunk and of a list of chunks.\<close>

abbreviation dlen :: "ChunkPayloadData \<Rightarrow> nat" where
  "dlen c \<equiv> length (d_user_data c)"

definition total_len :: "ChunkPayloadData list \<Rightarrow> nat" where
  "total_len cs = sum_list (map dlen cs)"

subsection \<open>Facts\<close>

lemma total_len_simps [simp]:
  "total_len [] = 0" "total_len (c # cs) = dlen c + total_len cs"
  "total_len (cs @ ds) = total_len cs + total_len ds"
  by (simp_all add: total_len_def)

lemma total_len_perm: "mset cs = mset ds \<Longrightarrow> total_len cs = total_len ds"
  by (metis mset_map sum_mset_sum_list total_len_def)

lemma total_len_concat: "total_len cs = length (concat (map d_user_data cs))"
  by (induction cs) auto

lemma ppi_roundtrip: "ppi_from_u32 (ppi_as_u32 p) = p"
  by (cases p) auto

end
