(* ===== verification/Reassembly_Queue.thy ===== *)
theory Reassembly_Queue
  imports Data_Chunk
begin

text \<open>
  The receiver's reassembly queue of one stream (\<^verbatim>\<open>src/src/queue/reassembly_queue.rs\<close>): ordered
  messages are collected in one chunk set per stream sequence number (SSN) and read in SSN order,
  unordered messages are extracted as soon as a run of fragments is complete.

  A method that may return \<^verbatim>\<open>Err\<close> after a mutation returns its outcome beside the queue. An index of
  type \<^verbatim>\<open>isize\<close> that starts at \<open>-1\<close> is an optional index.
\<close>

subsection \<open>Chunk sets\<close>

record Chunks =
  ck_ssn :: u16
  ck_ppi :: PayloadProtocolIdentifier
  ck_chunks :: "ChunkPayloadData list"
  ck_offset :: usize
  ck_index :: usize

definition sort_chunks_by_tsn :: "ChunkPayloadData list \<Rightarrow> ChunkPayloadData list" where
  "sort_chunks_by_tsn cs = sort_by (\<lambda>a b. sna32lt (d_tsn a) (d_tsn b)) cs"

definition sort_chunks_by_ssn :: "Chunks list \<Rightarrow> Chunks list" where
  "sort_chunks_by_ssn cs = sort_by (\<lambda>a b. sna16lt (ck_ssn a) (ck_ssn b)) cs"

definition Chunks_len :: "Chunks \<Rightarrow> usize" where
  "Chunks_len s = fold (\<lambda>c l. l + dlen c) (ck_chunks s) 0"

definition Chunks_is_empty :: "Chunks \<Rightarrow> bool" where
  "Chunks_is_empty s \<longleftrightarrow> Chunks_len s = 0"

fun Chunks_read_loop :: "ChunkPayloadData list \<Rightarrow> bytes \<Rightarrow> usize \<Rightarrow> usize res \<times> bytes" where
  "Chunks_read_loop [] buf n_written = (Ok n_written, buf)"
| "Chunks_read_loop (c # cs) buf n_written =
    (case usize_sub (length buf) n_written of
       Ok room \<Rightarrow>
         let to_copy = dlen c; n = min to_copy room;
             buf = take n_written buf @ take n (d_user_data c) @ drop (n_written + n) buf
         in if n < to_copy then (Err ErrShortBuffer, buf) else Chunks_read_loop cs buf (n_written + n)
     | Err e \<Rightarrow> (Err e, buf)
     | Panic \<Rightarrow> (Panic, buf))"

definition Chunks_read :: "Chunks \<Rightarrow> bytes \<Rightarrow> usize res \<times> bytes" where
  "Chunks_read s buf = Chunks_read_loop (ck_chunks s) buf 0"

function Chunks_next_loop :: "Chunks \<Rightarrow> usize \<Rightarrow> bytes \<Rightarrow> (bytes \<times> Chunks) res" where
  "Chunks_next_loop s max_length buf =
    (if ck_index s < length (ck_chunks s) then
       rbind (slice (d_user_data (ck_chunks s ! ck_index s)) (ck_offset s) (dlen (ck_chunks s ! ck_index s))) (\<lambda>rest.
       rbind (usize_sub max_length (length buf)) (\<lambda>room.
       let n = min (length rest) room; buf = buf @ take n rest
       in if n < length rest then Ok (buf, s\<lparr>ck_offset := ck_offset s + n\<rparr>)
          else Chunks_next_loop (s\<lparr>ck_index := ck_index s + 1, ck_offset := 0\<rparr>) max_length buf))
     else Ok (buf, s))"
  by pat_completeness auto
termination
  by (relation "measure (\<lambda>(s, _, _). length (ck_chunks s) - ck_index s)") auto

definition Chunks_next :: "Chunks \<Rightarrow> usize \<Rightarrow> (bytes option \<times> Chunks) res" where
  "Chunks_next s max_length =
    (if length (ck_chunks s) \<le> ck_index s then Ok (None, s)
     else rmap (\<lambda>(buf, s). (Some buf, s)) (Chunks_next_loop s max_length []))"

definition Chunks_new :: "u16 \<Rightarrow> PayloadProtocolIdentifier \<Rightarrow> ChunkPayloadData list \<Rightarrow> Chunks" where
  "Chunks_new ssn ppi chunks = \<lparr>ck_ssn = ssn, ck_ppi = ppi, ck_chunks = chunks, ck_offset = 0, ck_index = 0\<rparr>"

text \<open>Clause 3 of \<^verbatim>\<open>is_complete\<close>: the TSNs increase by one from chunk to chunk.\<close>

fun tsns_contiguous :: "ChunkPayloadData list \<Rightarrow> bool" where
  "tsns_contiguous (a # b # cs) = (d_tsn b = d_tsn a + 1 \<and> tsns_contiguous (b # cs))"
| "tsns_contiguous _ = True"

definition Chunks_is_complete :: "Chunks \<Rightarrow> bool" where
  "Chunks_is_complete s \<longleftrightarrow>
    ck_chunks s \<noteq> [] \<and> d_beginning_fragment (ck_chunks s ! 0) \<and>
    d_ending_fragment (ck_chunks s ! (length (ck_chunks s) - 1)) \<and> tsns_contiguous (ck_chunks s)"

definition Chunks_push :: "Chunks \<Rightarrow> ChunkPayloadData \<Rightarrow> bool \<times> Chunks" where
  "Chunks_push s chunk =
    (if \<exists>c \<in> set (ck_chunks s). d_tsn c = d_tsn chunk then (False, s)
     else let s = s\<lparr>ck_chunks := sort_chunks_by_tsn (ck_chunks s @ [chunk])\<rparr>
          in (Chunks_is_complete s, s))"

definition Chunks_is_missing_tsn_at_or_before :: "Chunks \<Rightarrow> u32 \<Rightarrow> bool" where
  "Chunks_is_missing_tsn_at_or_before s cumulative_tsn =
    (case ck_chunks s of
       [] \<Rightarrow> False
     | f # _ \<Rightarrow>
         (\<not> d_beginning_fragment f \<and> sna32lte (d_tsn f - 1) cumulative_tsn) \<or>
         (\<exists>(a, b) \<in> set (zip (ck_chunks s) (tl (ck_chunks s))).
            d_tsn a + 1 \<noteq> d_tsn b \<and> sna32lte (d_tsn a + 1) cumulative_tsn) \<or>
         (\<not> d_ending_fragment (last (ck_chunks s)) \<and> sna32lte (d_tsn (last (ck_chunks s)) + 1) cumulative_tsn))"

subsection \<open>The queue\<close>

record ReassemblyQueue =
  rq_si :: u16
  rq_next_ssn :: u16
  rq_ordered :: "Chunks list"
  rq_unordered :: "Chunks list"
  rq_unordered_chunks :: "ChunkPayloadData list"
  rq_n_bytes :: usize
  rq_max_message_size :: u32

definition ReassemblyQueue_new :: "u16 \<Rightarrow> u32 \<Rightarrow> ReassemblyQueue" where
  "ReassemblyQueue_new si max_message_size =
    \<lparr>rq_si = si, rq_next_ssn = 0, rq_ordered = [], rq_unordered = [], rq_unordered_chunks = [],
     rq_n_bytes = 0, rq_max_message_size = max_message_size\<rparr>"

definition calculate_ordered_message_size :: "ReassemblyQueue \<Rightarrow> ChunkPayloadData \<Rightarrow> usize" where
  "calculate_ordered_message_size q new_chunk =
    (case find (\<lambda>s. ck_ssn s = d_stream_sequence_number new_chunk) (rq_ordered q) of
       Some s \<Rightarrow> Chunks_len s | None \<Rightarrow> 0) + dlen new_chunk"

text \<open>\<^verbatim>\<open>rposition\<close>: the index of the last element that satisfies the predicate.\<close>

fun rposition :: "('a \<Rightarrow> bool) \<Rightarrow> 'a list \<Rightarrow> nat option" where
  "rposition P [] = None"
| "rposition P (x # xs) =
    (case rposition P xs of Some i \<Rightarrow> Some (Suc i) | None \<Rightarrow> if P x then Some 0 else None)"

fun prefix_size_loop :: "ChunkPayloadData list \<Rightarrow> nat \<Rightarrow> u32 \<Rightarrow> nat \<Rightarrow> usize" where
  "prefix_size_loop cs p tsn cnt =
    (if d_tsn (cs ! p) = tsn - 1 then
       (if d_beginning_fragment (cs ! p) \<or> p = 0 then cnt + dlen (cs ! p)
        else prefix_size_loop cs (p - 1) (d_tsn (cs ! p)) (cnt + dlen (cs ! p)))
     else cnt)"

function suffix_size_loop :: "ChunkPayloadData list \<Rightarrow> nat \<Rightarrow> u32 \<Rightarrow> nat \<Rightarrow> usize" where
  "suffix_size_loop cs p tsn cnt =
    (if p < length cs then
       (if d_tsn (cs ! p) = tsn + 1 then
          (if d_ending_fragment (cs ! p) then cnt + dlen (cs ! p)
           else suffix_size_loop cs (p + 1) (d_tsn (cs ! p)) (cnt + dlen (cs ! p)))
        else cnt)
     else cnt)"
  by pat_completeness auto
termination
  by (relation "measure (\<lambda>(cs, p, _, _). length cs - p)") auto

definition calculate_unordered_message_size :: "ReassemblyQueue \<Rightarrow> ChunkPayloadData \<Rightarrow> usize" where
  "calculate_unordered_message_size q new_chunk =
    (let cs = rq_unordered_chunks q;
         prefix = (if d_beginning_fragment new_chunk then 0
                   else case rposition (\<lambda>f. d_tsn f = d_tsn new_chunk - 1) cs of
                          Some p \<Rightarrow> prefix_size_loop cs p (d_tsn new_chunk) 0 | None \<Rightarrow> 0);
         suffix = (if d_ending_fragment new_chunk then 0
                   else case rposition (\<lambda>f. d_tsn f = d_tsn new_chunk + 1) cs of
                          Some p \<Rightarrow> suffix_size_loop cs p (d_tsn new_chunk) 0 | None \<Rightarrow> 0)
     in prefix + dlen new_chunk + suffix)"

fun find_complete_loop ::
  "nat \<Rightarrow> nat option \<Rightarrow> nat \<Rightarrow> u32 \<Rightarrow> ChunkPayloadData list \<Rightarrow> (nat \<times> nat) option" where
  "find_complete_loop i start_idx n_chunks last_tsn [] = None"
| "find_complete_loop i start_idx n_chunks last_tsn (c # cs) =
    (if d_beginning_fragment c then
       (if d_ending_fragment c then Some (i, 1) else find_complete_loop (i + 1) (Some i) 1 (d_tsn c) cs)
     else case start_idx of
       None \<Rightarrow> find_complete_loop (i + 1) None n_chunks last_tsn cs
     | Some s \<Rightarrow>
         if d_tsn c \<noteq> last_tsn + 1 then find_complete_loop (i + 1) None n_chunks last_tsn cs
         else if d_ending_fragment c then Some (s, n_chunks + 1)
         else find_complete_loop (i + 1) (Some s) (n_chunks + 1) (d_tsn c) cs)"

definition find_complete_unordered_chunk_set :: "ReassemblyQueue \<Rightarrow> (Chunks option \<times> ReassemblyQueue) res" where
  "find_complete_unordered_chunk_set q =
    (case find_complete_loop 0 None 0 0 (rq_unordered_chunks q) of
       None \<Rightarrow> Ok (None, q)
     | Some (start, n) \<Rightarrow>
         rbind (slice (rq_unordered_chunks q) start (start + n)) (\<lambda>chunks.
         rbind (index chunks 0) (\<lambda>c.
         Ok (Some (Chunks_new 0 (d_payload_type c) chunks),
             q\<lparr>rq_unordered_chunks := take start (rq_unordered_chunks q) @ drop (start + n) (rq_unordered_chunks q)\<rparr>))))"

text \<open>The loop that pushes into the first set with the chunk's SSN.\<close>

fun push_existing :: "Chunks list \<Rightarrow> ChunkPayloadData \<Rightarrow> (bool \<times> Chunks list) option" where
  "push_existing [] chunk = None"
| "push_existing (s # ss) chunk =
    (if ck_ssn s = d_stream_sequence_number chunk
     then (case Chunks_push s chunk of (ok, s) \<Rightarrow> Some (ok, s # ss))
     else map_option (\<lambda>(ok, ss). (ok, s # ss)) (push_existing ss chunk))"

definition ReassemblyQueue_push :: "ReassemblyQueue \<Rightarrow> ChunkPayloadData \<Rightarrow> bool res \<times> ReassemblyQueue" where
  "ReassemblyQueue_push q chunk =
    (if d_stream_identifier chunk \<noteq> rq_si q then (Ok False, q)
     else if d_unordered chunk then
       (if calculate_unordered_message_size q chunk > unat (rq_max_message_size q)
        then (Err ErrInboundPacketTooLarge, q)
        else
          let q = q\<lparr>rq_n_bytes := rq_n_bytes q + dlen chunk,
                    rq_unordered_chunks := sort_chunks_by_tsn (rq_unordered_chunks q @ [chunk])\<rparr>
          in case find_complete_unordered_chunk_set q of
               Ok (Some cset, q) \<Rightarrow> (Ok True, q\<lparr>rq_unordered := rq_unordered q @ [cset]\<rparr>)
             | Ok (None, q) \<Rightarrow> (Ok False, q)
             | Err e \<Rightarrow> (Err e, q)
             | Panic \<Rightarrow> (Panic, q))
     else if calculate_ordered_message_size q chunk > unat (rq_max_message_size q)
     then (Err ErrInboundPacketTooLarge, q)
     else if sna16lt (d_stream_sequence_number chunk) (rq_next_ssn q) then (Ok False, q)
     else
       let q = q\<lparr>rq_n_bytes := rq_n_bytes q + dlen chunk\<rparr> in
       case push_existing (rq_ordered q) chunk of
         Some (ok, ordered) \<Rightarrow> (Ok ok, q\<lparr>rq_ordered := ordered\<rparr>)
       | None \<Rightarrow>
           (case Chunks_push (Chunks_new (d_stream_sequence_number chunk) (d_payload_type chunk) []) chunk of
              (ok, cset) \<Rightarrow> (Ok ok, q\<lparr>rq_ordered := sort_chunks_by_ssn (rq_ordered q @ [cset])\<rparr>)))"

definition ReassemblyQueue_is_readable :: "ReassemblyQueue \<Rightarrow> bool" where
  "ReassemblyQueue_is_readable q \<longleftrightarrow>
    rq_unordered q \<noteq> [] \<or>
    (rq_ordered q \<noteq> [] \<and> Chunks_is_complete (rq_ordered q ! 0) \<and> sna16lte (ck_ssn (rq_ordered q ! 0)) (rq_next_ssn q))"

definition subtract_num_bytes :: "ReassemblyQueue \<Rightarrow> usize \<Rightarrow> ReassemblyQueue" where
  "subtract_num_bytes q n = (if n \<le> rq_n_bytes q then q\<lparr>rq_n_bytes := rq_n_bytes q - n\<rparr> else q\<lparr>rq_n_bytes := 0\<rparr>)"

definition ReassemblyQueue_read :: "ReassemblyQueue \<Rightarrow> Chunks option \<times> ReassemblyQueue" where
  "ReassemblyQueue_read q =
    (case rq_unordered q of
       chunks # us \<Rightarrow> (Some chunks, subtract_num_bytes (q\<lparr>rq_unordered := us\<rparr>) (Chunks_len chunks))
     | [] \<Rightarrow>
         (case rq_ordered q of
            [] \<Rightarrow> (None, q)
          | chunks # ss \<Rightarrow>
              if \<not> Chunks_is_complete chunks then (None, q)
              else if sna16gt (ck_ssn chunks) (rq_next_ssn q) then (None, q)
              else
                let q = (if ck_ssn chunks = rq_next_ssn q then q\<lparr>rq_next_ssn := rq_next_ssn q + 1\<rparr> else q)
                in (Some chunks, subtract_num_bytes (q\<lparr>rq_ordered := ss\<rparr>) (Chunks_len chunks))))"

definition forward_tsn_for_ordered :: "ReassemblyQueue \<Rightarrow> u16 \<Rightarrow> ReassemblyQueue" where
  "forward_tsn_for_ordered q last_ssn =
    (let num_bytes = fold (\<lambda>s n. n + fold (\<lambda>c acc. acc + dlen c) (ck_chunks s) 0)
           (filter (\<lambda>s. sna16lte (ck_ssn s) last_ssn \<and> \<not> Chunks_is_complete s) (rq_ordered q)) 0;
         q = subtract_num_bytes q num_bytes;
         q = q\<lparr>rq_ordered := filter (\<lambda>s. \<not> sna16lte (ck_ssn s) last_ssn \<or> Chunks_is_complete s) (rq_ordered q)\<rparr>
     in if sna16lte (rq_next_ssn q) last_ssn then q\<lparr>rq_next_ssn := last_ssn + 1\<rparr> else q)"

text \<open>\<^verbatim>\<open>Iterator::reduce\<close>\<close>

definition reduce :: "('a \<Rightarrow> 'a \<Rightarrow> 'a) \<Rightarrow> 'a list \<Rightarrow> 'a option" where
  "reduce f xs = (case xs of [] \<Rightarrow> None | x # xs \<Rightarrow> Some (foldl f x xs))"

definition forward_tsn_for_ordered_bounded :: "ReassemblyQueue \<Rightarrow> u16 \<Rightarrow> u32 \<Rightarrow> ReassemblyQueue" where
  "forward_tsn_for_ordered_bounded q last_ssn new_cumulative_tsn =
    (let first_unaffected_ssn = reduce (\<lambda>f c. if sna16lt c f then c else f)
           (map ck_ssn (filter (\<lambda>s. sna16lte (ck_ssn s) last_ssn \<and>
              (if Chunks_is_complete s then \<exists>c \<in> set (ck_chunks s). sna32gt (d_tsn c) new_cumulative_tsn
               else \<not> Chunks_is_missing_tsn_at_or_before s new_cumulative_tsn)) (rq_ordered q)));
         is_abandoned_partial = (\<lambda>s. sna16lte (ck_ssn s) last_ssn \<and> \<not> Chunks_is_complete s \<and>
           Chunks_is_missing_tsn_at_or_before s new_cumulative_tsn);
         num_bytes = sum_list (map dlen (concat (map ck_chunks (filter is_abandoned_partial (rq_ordered q)))));
         q = subtract_num_bytes q num_bytes;
         q = q\<lparr>rq_ordered := filter (\<lambda>s. \<not> sna16lte (ck_ssn s) last_ssn \<or> Chunks_is_complete s \<or>
               \<not> Chunks_is_missing_tsn_at_or_before s new_cumulative_tsn) (rq_ordered q)\<rparr>;
         next_ssn = (case first_unaffected_ssn of Some n \<Rightarrow> n | None \<Rightarrow> last_ssn + 1)
     in if sna16lt (rq_next_ssn q) next_ssn then q\<lparr>rq_next_ssn := next_ssn\<rparr> else q)"

definition set_is_covered :: "u32 \<Rightarrow> Chunks \<Rightarrow> bool" where
  "set_is_covered new_cumulative_tsn s =
    (if Chunks_is_complete s then (\<forall>c \<in> set (ck_chunks s). sna32lte (d_tsn c) new_cumulative_tsn)
     else Chunks_is_missing_tsn_at_or_before s new_cumulative_tsn)"

definition applicable_forward_tsn_for_ordered_bounded ::
  "ReassemblyQueue \<Rightarrow> u16 \<Rightarrow> u32 \<Rightarrow> u32 \<Rightarrow> u16 option" where
  "applicable_forward_tsn_for_ordered_bounded q last_ssn new_cumulative_tsn peer_last_tsn =
    (if sna16gt (rq_next_ssn q) last_ssn then Some last_ssn
     else if \<exists>s \<in> set (rq_ordered q). ck_ssn s = last_ssn \<and>
               (ck_ssn s = rq_next_ssn q \<or> set_is_covered new_cumulative_tsn s)
     then Some last_ssn
     else if (case reduce (\<lambda>f c. if sna32lt c f then c else f)
                (map d_tsn (concat (map ck_chunks
                  (filter (\<lambda>s. ck_ssn s = last_ssn \<or> sna16gt (ck_ssn s) last_ssn) (rq_ordered q))))) of
              Some first_tsn \<Rightarrow> sna32lte first_tsn peer_last_tsn | None \<Rightarrow> False)
     then Some last_ssn
     else reduce (\<lambda>l c. if sna16gt c l then c else l)
       (map ck_ssn (filter (\<lambda>s. (ck_ssn s = rq_next_ssn q \<or> sna16gt (ck_ssn s) (rq_next_ssn q)) \<and>
          sna16lt (ck_ssn s) last_ssn \<and>
          (set_is_covered new_cumulative_tsn s \<or>
           (case ck_chunks s of c # _ \<Rightarrow> sna32lte (d_tsn c) peer_last_tsn | [] \<Rightarrow> False))) (rq_ordered q))))"

definition forward_tsn_for_unordered :: "ReassemblyQueue \<Rightarrow> u32 \<Rightarrow> ReassemblyQueue" where
  "forward_tsn_for_unordered q new_cumulative_tsn =
    (let n = length (takeWhile (\<lambda>c. \<not> sna32gt (d_tsn c) new_cumulative_tsn) (rq_unordered_chunks q));
         q = fold (\<lambda>c q. subtract_num_bytes q (dlen c)) (take n (rq_unordered_chunks q)) q
     in q\<lparr>rq_unordered_chunks := drop n (rq_unordered_chunks q)\<rparr>)"

definition ReassemblyQueue_get_num_bytes :: "ReassemblyQueue \<Rightarrow> usize" where
  "ReassemblyQueue_get_num_bytes q = rq_n_bytes q"

subsection \<open>Clients and specifications\<close>

text \<open>Pushing a list of chunks, and reading until nothing is readable or the fuel is used.\<close>

fun push_all :: "ChunkPayloadData list \<Rightarrow> ReassemblyQueue \<Rightarrow> bool res list \<times> ReassemblyQueue" where
  "push_all [] q = ([], q)"
| "push_all (c # cs) q =
    (case ReassemblyQueue_push q c of (r, q) \<Rightarrow> case push_all cs q of (rs, q) \<Rightarrow> (r # rs, q))"

fun read_all :: "nat \<Rightarrow> ReassemblyQueue \<Rightarrow> Chunks list \<times> ReassemblyQueue" where
  "read_all 0 q = ([], q)"
| "read_all (Suc n) q =
    (case ReassemblyQueue_read q of
       (None, q) \<Rightarrow> ([], q)
     | (Some c, q) \<Rightarrow> (case read_all n q of (cs, q) \<Rightarrow> (c # cs, q)))"

definition tsn_off :: "u32 \<Rightarrow> ChunkPayloadData \<Rightarrow> nat" where
  "tsn_off b c = unat (d_tsn c - b)"

definition tsn_sorted :: "u32 \<Rightarrow> ChunkPayloadData list \<Rightarrow> bool" where
  "tsn_sorted b cs \<longleftrightarrow> (\<forall>c \<in> set cs. tsn_off b c < 2 ^ 31) \<and> sorted_wrt (<) (map (tsn_off b) cs)"

definition ssn_off :: "u16 \<Rightarrow> Chunks \<Rightarrow> nat" where
  "ssn_off b s = unat (ck_ssn s - b)"

definition all_chunks :: "Chunks list \<Rightarrow> ChunkPayloadData list" where
  "all_chunks ss = concat (map ck_chunks ss)"

text \<open>
  The ordered sets of a queue, relative to a TSN base \<open>tb\<close> and an SSN base \<open>sb\<close>: strictly ascending in
  SSN, every set non-empty, unread, strictly ascending in TSN, and made of chunks with its SSN and
  payload type.
\<close>

definition chunk_set_ok :: "u32 \<Rightarrow> Chunks \<Rightarrow> bool" where
  "chunk_set_ok tb s \<longleftrightarrow>
    ck_chunks s \<noteq> [] \<and> ck_offset s = 0 \<and> ck_index s = 0 \<and> tsn_sorted tb (ck_chunks s) \<and>
    (\<forall>c \<in> set (ck_chunks s). d_stream_sequence_number c = ck_ssn s \<and> d_payload_type c = ck_ppi s)"

definition ordered_ok :: "u32 \<Rightarrow> u16 \<Rightarrow> Chunks list \<Rightarrow> bool" where
  "ordered_ok tb sb ss \<longleftrightarrow>
    (\<forall>s \<in> set ss. chunk_set_ok tb s \<and> ssn_off sb s < 2 ^ 15) \<and> sorted_wrt (<) (map (ssn_off sb) ss)"

text \<open>The fragments of one message, in TSN order.\<close>

definition message_fragments :: "ChunkPayloadData list \<Rightarrow> bool" where
  "message_fragments m \<longleftrightarrow>
    m \<noteq> [] \<and> tsns_contiguous m \<and>
    (\<forall>i < length m. (d_beginning_fragment (m ! i) \<longleftrightarrow> i = 0) \<and> (d_ending_fragment (m ! i) \<longleftrightarrow> i = length m - 1)) \<and>
    (\<forall>c \<in> set m. d_payload_type c = d_payload_type (hd m))"

text \<open>
  Messages \<open>ms\<close> of the ordered stream \<open>sid\<close> that start at SSN \<open>sb\<close>, each within the size limit, with
  TSNs ascending inside the window from \<open>tb\<close>.
\<close>

definition ordered_messages :: "u16 \<Rightarrow> u32 \<Rightarrow> u32 \<Rightarrow> u16 \<Rightarrow> ChunkPayloadData list list \<Rightarrow> bool" where
  "ordered_messages sid limit tb sb ms \<longleftrightarrow>
    length ms < 2 ^ 15 \<and> tsn_sorted tb (concat ms) \<and>
    (\<forall>i < length ms. message_fragments (ms ! i) \<and> total_len (ms ! i) \<le> unat limit \<and>
      (\<forall>c \<in> set (ms ! i). \<not> d_unordered c \<and> d_stream_identifier c = sid \<and>
        d_stream_sequence_number c = sb + of_nat i))"

text \<open>What the chunks of a whole transfer have to satisfy, whatever their order.\<close>

definition transfer_ok :: "u16 \<Rightarrow> u32 \<Rightarrow> u32 \<Rightarrow> u16 \<Rightarrow> ChunkPayloadData list \<Rightarrow> bool" where
  "transfer_ok sid limit tb sb all \<longleftrightarrow>
    distinct (map d_tsn all) \<and>
    (\<forall>c \<in> set all. \<not> d_unordered c \<and> d_stream_identifier c = sid \<and> tsn_off tb c < 2 ^ 31 \<and>
      unat (d_stream_sequence_number c - sb) < 2 ^ 15 \<and>
      total_len (filter (\<lambda>d. d_stream_sequence_number d = d_stream_sequence_number c) all) \<le> unat limit \<and>
      (\<forall>d \<in> set all. d_stream_sequence_number d = d_stream_sequence_number c \<longrightarrow> d_payload_type d = d_payload_type c))"

text \<open>The distance of a chunk's SSN from a base.\<close>

definition chunk_ssn_off :: "u16 \<Rightarrow> ChunkPayloadData \<Rightarrow> nat" where
  "chunk_ssn_off sb c = unat (d_stream_sequence_number c - sb)"

definition example_data :: "bool \<Rightarrow> u32 \<Rightarrow> u16 \<Rightarrow> bool \<Rightarrow> bool \<Rightarrow> bytes \<Rightarrow> ChunkPayloadData" where
  "example_data u t n b e bs = ChunkPayloadData_default\<lparr>d_unordered := u, d_tsn := t, d_stream_identifier := 5,
     d_stream_sequence_number := n, d_beginning_fragment := b, d_ending_fragment := e, d_user_data := bs\<rparr>"

definition example_messages :: "bool \<Rightarrow> ChunkPayloadData list list" where
  "example_messages u =
    [[example_data u 0xFFFFFFFF 0xFFFF True False [1, 2], example_data u 0 0xFFFF False True [3]],
     [example_data u 1 0 True True [4]]]"

subsection \<open>Sorted chunk lists\<close>

lemma tsn_off_inj: "tsn_off b c = tsn_off b d \<longleftrightarrow> d_tsn c = d_tsn d"
  using unat_base_inj by (auto simp: tsn_off_def)

lemma tsn_sorted_distinct: "tsn_sorted b cs \<Longrightarrow> distinct (map d_tsn cs)"
proof -
  assume "tsn_sorted b cs"
  then have "distinct (map (tsn_off b) cs)" by (simp add: tsn_sorted_def strict_sorted_iff)
  moreover have "map (tsn_off b) cs = map (\<lambda>t. unat (t - b)) (map d_tsn cs)" by (simp add: tsn_off_def)
  ultimately show ?thesis by (metis distinct_map)
qed

lemma tsn_sorted_Nil [simp]: "tsn_sorted b []"
  by (simp add: tsn_sorted_def)

lemma tsn_sorted_append:
  "tsn_sorted b (xs @ ys) \<longleftrightarrow> tsn_sorted b xs \<and> tsn_sorted b ys \<and> (\<forall>x \<in> set xs. \<forall>y \<in> set ys. tsn_off b x < tsn_off b y)"
  by (auto simp: tsn_sorted_def sorted_wrt_append)

lemma tsn_sorted_insert:
  assumes "tsn_sorted b cs" "tsn_off b c < 2 ^ 31" "\<forall>d \<in> set cs. d_tsn d \<noteq> d_tsn c"
  shows "tsn_sorted b (sort_chunks_by_tsn (cs @ [c]))"
    and "mset (sort_chunks_by_tsn (cs @ [c])) = add_mset c (mset cs)"
proof -
  have win: "\<forall>d \<in> set (cs @ [c]). tsn_off b d < 2 ^ 31" using assms by (auto simp: tsn_sorted_def)
  have "sna32lt (d_tsn x) (d_tsn y) = (tsn_off b x < tsn_off b y)"
    if "x \<in> set (cs @ [c])" "y \<in> set (cs @ [c])" for x y
    using win that tsn.lt_window unfolding tsn_off_def by blast
  then have "sorted (map (tsn_off b) (sort_chunks_by_tsn (cs @ [c])))"
    unfolding sort_chunks_by_tsn_def by (rule sorted_sort_by)
  moreover have "distinct (map (tsn_off b) (cs @ [c]))"
    using assms by (auto simp: tsn_sorted_def strict_sorted_iff tsn_off_inj)
  then have "distinct (map (tsn_off b) (sort_chunks_by_tsn (cs @ [c])))"
    by (simp only: sort_chunks_by_tsn_def distinct_map_sort_by)
  ultimately show "tsn_sorted b (sort_chunks_by_tsn (cs @ [c]))"
    using win by (simp add: tsn_sorted_def strict_sorted_iff sort_chunks_by_tsn_def)
  show "mset (sort_chunks_by_tsn (cs @ [c])) = add_mset c (mset cs)"
    by (simp add: sort_chunks_by_tsn_def)
qed

lemma tsn_sorted_unique:
  assumes "tsn_sorted b xs" "tsn_sorted b ys" "mset xs = mset ys"
  shows "xs = ys"
proof (rule sorted_key_unique [OF assms(3)])
  show "inj_on (tsn_off b) (set xs)"
    using assms(1) by (auto simp: tsn_sorted_def strict_sorted_iff distinct_map)
qed (use assms in \<open>auto simp: tsn_sorted_def strict_sorted_iff\<close>)

lemma Chunks_len_eq: "Chunks_len s = total_len (ck_chunks s)"
proof -
  have "fold (\<lambda>c l. l + dlen c) cs n = n + total_len cs" for cs n
    by (induction cs arbitrary: n) auto
  then show ?thesis by (simp add: Chunks_len_def)
qed

lemma Chunks_push_fresh:
  assumes "chunk_set_ok tb s \<or> ck_chunks s = [] \<and> ck_offset s = 0 \<and> ck_index s = 0"
    "tsn_off tb c < 2 ^ 31" "\<forall>d \<in> set (ck_chunks s). d_tsn d \<noteq> d_tsn c"
    "d_stream_sequence_number c = ck_ssn s" "d_payload_type c = ck_ppi s"
  shows "\<exists>s'. Chunks_push s c = (Chunks_is_complete s', s') \<and> chunk_set_ok tb s' \<and>
    ck_ssn s' = ck_ssn s \<and> mset (ck_chunks s') = add_mset c (mset (ck_chunks s))"
proof -
  have "tsn_sorted tb (ck_chunks s)" using assms(1) by (auto simp: chunk_set_ok_def)
  note ins = tsn_sorted_insert [OF this assms(2,3)]
  let ?s = "s\<lparr>ck_chunks := sort_chunks_by_tsn (ck_chunks s @ [c])\<rparr>"
  have set: "set (sort_chunks_by_tsn (ck_chunks s @ [c])) = insert c (set (ck_chunks s))"
    using mset_eq_setD [OF ins(2) [folded mset.simps(2)]] by simp
  then have "sort_chunks_by_tsn (ck_chunks s @ [c]) \<noteq> []" by (metis insert_not_empty set_empty)
  then have "chunk_set_ok tb ?s"
    using assms ins set by (auto simp: chunk_set_ok_def)
  moreover have "Chunks_push s c = (Chunks_is_complete ?s, ?s)"
    using assms(3) by (auto simp: Chunks_push_def Let_def)
  ultimately show ?thesis using ins(2) by auto
qed

subsection \<open>Pushing ordered chunks\<close>

lemma all_chunks_simps [simp]:
  "all_chunks [] = []" "all_chunks (s # ss) = ck_chunks s @ all_chunks ss"
  "all_chunks (ss @ ts) = all_chunks ss @ all_chunks ts"
  by (simp_all add: all_chunks_def)

lemma mset_all_chunks_cong: "mset ss = mset ts \<Longrightarrow> mset (all_chunks ss) = mset (all_chunks ts)"
proof -
  have "mset (all_chunks ss) = (\<Sum>s \<in># mset ss. mset (ck_chunks s))" for ss
    by (induction ss) auto
  then show "mset ss = mset ts \<Longrightarrow> mset (all_chunks ss) = mset (all_chunks ts)" by metis
qed

lemma ordered_ok_Cons:
  "ordered_ok tb sb (s # ss) \<longleftrightarrow> chunk_set_ok tb s \<and> ssn_off sb s < 2 ^ 15 \<and> ordered_ok tb sb ss \<and>
    (\<forall>t \<in> set ss. ssn_off sb s < ssn_off sb t)"
  by (auto simp: ordered_ok_def)

lemma push_existing_None:
  "push_existing ss c = None \<longleftrightarrow> (\<forall>s \<in> set ss. ck_ssn s \<noteq> d_stream_sequence_number c)"
  by (induction ss) (auto split: prod.splits)

lemma push_existing_Some:
  assumes "ordered_ok tb sb ss" "\<exists>s \<in> set ss. ck_ssn s = d_stream_sequence_number c"
    "\<forall>d \<in> set (all_chunks ss). d_tsn d \<noteq> d_tsn c" "tsn_off tb c < 2 ^ 31"
    "\<forall>d \<in> set (all_chunks ss). d_stream_sequence_number d = d_stream_sequence_number c \<longrightarrow>
      d_payload_type d = d_payload_type c"
  shows "\<exists>ok ss'. push_existing ss c = Some (ok, ss') \<and> ordered_ok tb sb ss' \<and>
    mset (all_chunks ss') = add_mset c (mset (all_chunks ss)) \<and> map ck_ssn ss' = map ck_ssn ss"
  using assms
proof (induction ss)
  case (Cons s ss)
  have off: "map (ssn_off sb) ts = map (ssn_off sb) us" if "map ck_ssn ts = map ck_ssn us" for ts us
    using that by (auto simp: ssn_off_def list_eq_iff_nth_eq)
  show ?case
  proof (cases "ck_ssn s = d_stream_sequence_number c")
    case True
    have ok: "chunk_set_ok tb s" using Cons.prems(1) by (simp add: ordered_ok_Cons)
    then have "d_payload_type c = ck_ppi s"
      using Cons.prems(5) True by (cases "ck_chunks s") (auto simp: chunk_set_ok_def)
    then obtain s' where s': "Chunks_push s c = (Chunks_is_complete s', s')" "chunk_set_ok tb s'"
      "ck_ssn s' = ck_ssn s" "mset (ck_chunks s') = add_mset c (mset (ck_chunks s))"
      using Chunks_push_fresh [of tb s c] ok Cons.prems(3,4) True by auto
    then show ?thesis
      using Cons.prems(1) True by (auto simp: ordered_ok_Cons ssn_off_def)
  next
    case False
    then obtain ok ss' where ss': "push_existing ss c = Some (ok, ss')" "ordered_ok tb sb ss'"
      "mset (all_chunks ss') = add_mset c (mset (all_chunks ss))" "map ck_ssn ss' = map ck_ssn ss"
      using Cons by (auto simp: ordered_ok_Cons)
    have "\<forall>t \<in> set ss'. ssn_off sb s < ssn_off sb t"
      using Cons.prems(1) arg_cong [OF off [OF ss'(4)], of set] unfolding ordered_ok_Cons
      by (metis (no_types, lifting) image_iff list.set_map)
    then show ?thesis
      using False ss' Cons.prems(1) by (auto simp: ordered_ok_Cons)
  qed
qed simp

lemma ordered_ok_insert:
  assumes "ordered_ok tb sb ss" "chunk_set_ok tb s" "ssn_off sb s < 2 ^ 15" "\<forall>t \<in> set ss. ck_ssn t \<noteq> ck_ssn s"
  shows "ordered_ok tb sb (sort_chunks_by_ssn (ss @ [s]))"
proof -
  have win: "\<forall>t \<in> set (ss @ [s]). ssn_off sb t < 2 ^ 15" using assms by (auto simp: ordered_ok_def)
  have "sna16lt (ck_ssn x) (ck_ssn y) = (ssn_off sb x < ssn_off sb y)"
    if "x \<in> set (ss @ [s])" "y \<in> set (ss @ [s])" for x y
    using win that ssn.lt_window unfolding ssn_off_def by blast
  then have "sorted (map (ssn_off sb) (sort_chunks_by_ssn (ss @ [s])))"
    unfolding sort_chunks_by_ssn_def by (rule sorted_sort_by)
  moreover have "ssn_off sb s \<noteq> ssn_off sb t" if "t \<in> set ss" for t
    using assms(4) that unat_base_inj by (force simp: ssn_off_def)
  then have "distinct (map (ssn_off sb) (ss @ [s]))"
    using assms(1) by (auto simp: ordered_ok_def strict_sorted_iff)
  then have "distinct (map (ssn_off sb) (sort_chunks_by_ssn (ss @ [s])))"
    by (simp only: sort_chunks_by_ssn_def distinct_map_sort_by)
  ultimately show ?thesis
    using assms(1-3) win by (auto simp: ordered_ok_def strict_sorted_iff sort_chunks_by_ssn_def)
qed

lemma find_set_len:
  assumes "ordered_ok tb sb ss"
  shows "(case find (\<lambda>s. ck_ssn s = k) ss of Some s \<Rightarrow> Chunks_len s | None \<Rightarrow> 0)
    \<le> total_len (filter (\<lambda>d. d_stream_sequence_number d = k) (all_chunks ss))"
  using assms
proof (induction ss)
  case (Cons s ss)
  have "filter (\<lambda>d. d_stream_sequence_number d = k) (ck_chunks s) = ck_chunks s" if "ck_ssn s = k"
    using Cons.prems that by (auto simp: ordered_ok_Cons chunk_set_ok_def)
  with Cons show ?case by (auto simp: ordered_ok_Cons Chunks_len_eq)
qed simp

lemma ReassemblyQueue_push_ordered:
  assumes "ordered_ok tb sb (rq_ordered q)" "rq_next_ssn q = sb" "d_stream_identifier c = rq_si q"
    "\<not> d_unordered c" "tsn_off tb c < 2 ^ 31" "unat (d_stream_sequence_number c - sb) < 2 ^ 15"
    "\<forall>d \<in> set (all_chunks (rq_ordered q)). d_tsn d \<noteq> d_tsn c"
    "\<forall>d \<in> set (all_chunks (rq_ordered q)). d_stream_sequence_number d = d_stream_sequence_number c \<longrightarrow>
      d_payload_type d = d_payload_type c"
    "total_len (filter (\<lambda>d. d_stream_sequence_number d = d_stream_sequence_number c) (all_chunks (rq_ordered q)))
      + dlen c \<le> unat (rq_max_message_size q)"
  shows "\<exists>b ss. ReassemblyQueue_push q c = (Ok b, q\<lparr>rq_n_bytes := rq_n_bytes q + dlen c, rq_ordered := ss\<rparr>) \<and>
    ordered_ok tb sb ss \<and> mset (all_chunks ss) = add_mset c (mset (all_chunks (rq_ordered q)))"
proof -
  let ?ss = "rq_ordered q"
  have size: "\<not> unat (rq_max_message_size q) < calculate_ordered_message_size q c"
    using find_set_len [OF assms(1), of "d_stream_sequence_number c"] assms(9)
    by (simp add: calculate_ordered_message_size_def)
  have old: "\<not> sna16lt (d_stream_sequence_number c) (rq_next_ssn q)"
    using ssn.lt_base [OF assms(6)] ssn.lt_asym ssn.lt_irrefl assms(2) by metis
  show ?thesis
  proof (cases "push_existing ?ss c")
    case (Some r)
    then have "\<exists>s \<in> set ?ss. ck_ssn s = d_stream_sequence_number c"
      using push_existing_None [of ?ss c] by auto
    from push_existing_Some [OF assms(1) this assms(7,5,8)] show ?thesis
      using assms(3,4) size old by (auto simp: ReassemblyQueue_push_def Let_def)
  next
    case None
    let ?new = "Chunks_new (d_stream_sequence_number c) (d_payload_type c) []"
    obtain s where s: "Chunks_push ?new c = (Chunks_is_complete s, s)" "chunk_set_ok tb s"
      "ck_ssn s = d_stream_sequence_number c" "mset (ck_chunks s) = {#c#}"
      using Chunks_push_fresh [of tb ?new c] assms(5) by (auto simp: Chunks_new_def)
    have "ordered_ok tb sb (sort_chunks_by_ssn (?ss @ [s]))"
      using None assms(6) s by (intro ordered_ok_insert assms(1)) (auto simp: push_existing_None ssn_off_def)
    moreover have "mset (all_chunks (sort_chunks_by_ssn (?ss @ [s]))) = add_mset c (mset (all_chunks ?ss))"
      using mset_all_chunks_cong [of "sort_chunks_by_ssn (?ss @ [s])" "?ss @ [s]"] s(4)
      by (simp add: sort_chunks_by_ssn_def)
    ultimately show ?thesis
      using None assms(3,4) size old s(1) by (auto simp: ReassemblyQueue_push_def Let_def)
  qed
qed

subsection \<open>Any arrival order\<close>

lemma submultiset_key_distinct:
  assumes "add_mset c A \<subseteq># mset xs" "distinct (map f xs)" "d \<in># A"
  shows "f d \<noteq> f c"
proof
  assume eq: "f d = f c"
  have "{#c, d#} \<subseteq># mset xs"
    using assms(1,3) by (meson mset_subset_eq_add_mset_cancel mset_subset_eq_single subset_mset.trans)
  then have "{#f c, f d#} \<subseteq># mset (map f xs)"
    using image_mset_subseteq_mono [of "{#c, d#}" "mset xs" f] by simp
  then have "count {#f c, f d#} (f c) \<le> count (mset (map f xs)) (f c)" by (rule mset_subset_eq_count)
  also have "\<dots> \<le> 1" using assms(2) by (simp add: distinct_count_atmost_1 count_mset)
  finally show False by (simp add: eq)
qed

lemma total_len_submultiset:
  "mset cs \<subseteq># mset ds \<Longrightarrow> total_len (filter P cs) \<le> total_len (filter P ds)"
proof -
  assume "mset cs \<subseteq># mset ds"
  then obtain E where "mset ds = mset cs + E" by (auto simp: mset_subset_eq_exists_conv)
  moreover obtain es where "mset es = E" using ex_mset by blast
  ultimately have "mset ds = mset (cs @ es)" by simp
  then have "mset (filter P ds) = mset (filter P (cs @ es))" by (simp only: mset_filter)
  then have "total_len (filter P ds) = total_len (filter P (cs @ es))" by (rule total_len_perm)
  then show ?thesis by simp
qed

lemma push_all_ordered:
  assumes "transfer_ok (rq_si q) (rq_max_message_size q) tb sb all"
    "ordered_ok tb sb (rq_ordered q)" "rq_next_ssn q = sb"
    "mset (all_chunks (rq_ordered q)) + mset cs \<subseteq># mset all"
  shows "\<exists>rs ss. push_all cs q = (rs, q\<lparr>rq_n_bytes := rq_n_bytes q + total_len cs, rq_ordered := ss\<rparr>) \<and>
    (\<forall>r \<in> set rs. is_ok r) \<and> ordered_ok tb sb ss \<and>
    mset (all_chunks ss) = mset (all_chunks (rq_ordered q)) + mset cs"
  using assms
proof (induction cs arbitrary: q)
  case (Cons c cs)
  let ?old = "all_chunks (rq_ordered q)"
  have sub: "add_mset c (mset ?old) \<subseteq># mset all"
  proof -
    have "add_mset c (mset ?old) \<subseteq># mset ?old + mset (c # cs)" by simp
    then show ?thesis using Cons.prems(4) by (rule subset_mset.trans)
  qed
  have c: "c \<in> set all" using sub by (metis set_mset_mset union_single_eq_member mset_subset_eqD)
  have old: "d \<in> set all" if "d \<in> set ?old" for d
    using that sub by (metis mset_subset_eqD set_mset_mset insert_iff set_mset_add_mset_insert)
  note t = Cons.prems(1) [unfolded transfer_ok_def]
  have fresh: "\<forall>d \<in> set ?old. d_tsn d \<noteq> d_tsn c"
    using submultiset_key_distinct [OF sub, of d_tsn] t by simp
  have "mset (c # ?old) \<subseteq># mset all" using sub by simp
  from total_len_submultiset [OF this, of "\<lambda>d. d_stream_sequence_number d = d_stream_sequence_number c"] t c
  have size: "total_len (filter (\<lambda>d. d_stream_sequence_number d = d_stream_sequence_number c) ?old) + dlen c
      \<le> unat (rq_max_message_size q)" by fastforce
  have ppi: "\<forall>d \<in> set ?old. d_stream_sequence_number d = d_stream_sequence_number c \<longrightarrow>
      d_payload_type d = d_payload_type c" using t c old by blast
  obtain b ss where p: "ReassemblyQueue_push q c = (Ok b, q\<lparr>rq_n_bytes := rq_n_bytes q + dlen c, rq_ordered := ss\<rparr>)"
    "ordered_ok tb sb ss" "mset (all_chunks ss) = add_mset c (mset ?old)"
    using ReassemblyQueue_push_ordered [OF Cons.prems(2,3) _ _ _ _ fresh ppi size] t c by blast
  let ?q = "q\<lparr>rq_n_bytes := rq_n_bytes q + dlen c, rq_ordered := ss\<rparr>"
  have "mset (all_chunks (rq_ordered ?q)) + mset cs \<subseteq># mset all"
    using Cons.prems(4) p(3) by simp
  with Cons.IH [of ?q] Cons.prems(1,3) p(2) obtain rs ss' where
    "push_all cs ?q = (rs, ?q\<lparr>rq_n_bytes := rq_n_bytes ?q + total_len cs, rq_ordered := ss'\<rparr>)"
    "\<forall>r \<in> set rs. is_ok r" "ordered_ok tb sb ss'"
    "mset (all_chunks ss') = mset (all_chunks ss) + mset cs" by auto
  with p show ?case by (auto simp: add.assoc)
qed (auto intro!: exI [of _ "rq_ordered q" for q])

lemma concat_key_ge:
  assumes "\<forall>i < length ms. \<forall>c \<in> set (ms ! i). key c = j + i"
  shows "\<forall>c \<in> set (concat ms). j \<le> key c"
proof
  fix c assume "c \<in> set (concat ms)"
  then obtain i where "i < length ms" "c \<in> set (ms ! i)" by (auto simp: in_set_conv_nth [of _ ms])
  then show "j \<le> key c" using assms by simp
qed

lemma filter_concat_key:
  assumes "\<forall>i < length ms. \<forall>c \<in> set (ms ! i). key c = j + i" "i < length ms"
  shows "filter (\<lambda>c. key c = j + i) (concat ms) = ms ! i"
  using assms
proof (induction ms arbitrary: i j)
  case (Cons m ms)
  have m: "\<forall>c \<in> set m. key c = j" using Cons.prems(1) by force
  have ms: "\<forall>i < length ms. \<forall>c \<in> set (ms ! i). key c = Suc j + i"
    using Cons.prems(1) by fastforce
  have "\<forall>c \<in> set (concat ms). key c \<noteq> j" using concat_key_ge [OF ms] by fastforce
  then have ge: "filter (\<lambda>c. key c = j) (concat ms) = []" by (simp add: filter_empty_conv)
  show ?case
  proof (cases i)
    case 0
    then show ?thesis using m ge by simp
  next
    case (Suc k)
    have "filter (\<lambda>c. key c = j + i) m = []" using m Suc by (auto simp: filter_empty_conv)
    then show ?thesis using Cons.IH [OF ms, of k] Cons.prems(2) Suc by simp
  qed
qed simp

lemma sets_are_messages:
  assumes "ordered_ok tb sb ss" "mset (all_chunks ss) = mset (concat ms)"
    "\<forall>i < length ms. ms ! i \<noteq> [] \<and> tsn_sorted tb (ms ! i) \<and> (\<forall>c \<in> set (ms ! i). chunk_ssn_off sb c = j + i)"
  shows "map ck_chunks ss = ms \<and> map (ssn_off sb) ss = [j..<j + length ms]"
  using assms
proof (induction ms arbitrary: ss j)
  case Nil
  then show ?case by (cases ss) (auto simp: ordered_ok_Cons chunk_set_ok_def)
next
  case (Cons m ms)
  have m: "m \<noteq> []" "tsn_sorted tb m" "\<forall>c \<in> set m. chunk_ssn_off sb c = j" using Cons.prems(3) by force+
  have ms: "\<forall>i < length ms. ms ! i \<noteq> [] \<and> tsn_sorted tb (ms ! i) \<and> (\<forall>c \<in> set (ms ! i). chunk_ssn_off sb c = Suc j + i)"
    using Cons.prems(3) by fastforce
  have ge: "\<forall>c \<in> set (concat ms). Suc j \<le> chunk_ssn_off sb c"
    using ms by (intro concat_key_ge) blast
  have sets: "set (all_chunks ss) = set m \<union> set (concat ms)" using mset_eq_setD [OF Cons.prems(2)] by simp
  have key: "chunk_ssn_off sb c = ssn_off sb s" if "s \<in> set ss" "c \<in> set (ck_chunks s)" for c s
    using that Cons.prems(1) by (auto simp: ordered_ok_def chunk_set_ok_def chunk_ssn_off_def ssn_off_def)
  obtain s0 where s0: "s0 \<in> set ss" "ssn_off sb s0 = j"
  proof -
    obtain c where "c \<in> set m" using m(1) by (cases m) auto
    then obtain s where "s \<in> set ss" "c \<in> set (ck_chunks s)" using sets by (auto simp: all_chunks_def)
    with key [of s c] \<open>c \<in> set m\<close> m(3) that [of s] show ?thesis by simp
  qed
  then obtain s ss' where ss: "ss = s # ss'" by (cases ss) auto
  obtain d where d: "d \<in> set (ck_chunks s)" using Cons.prems(1) ss by (cases "ck_chunks s") (auto simp: ordered_ok_Cons chunk_set_ok_def)
  have "d \<in> set m \<union> set (concat ms)" using d sets ss by auto
  then have "j \<le> chunk_ssn_off sb d" using m(3) ge by (metis Un_iff Suc_leD order_refl)
  then have "j \<le> ssn_off sb s" using key [of s d] d ss by simp
  then have sj: "ssn_off sb s = j" using s0 Cons.prems(1) ss by (auto simp: ordered_ok_Cons)
  have all: "\<forall>c \<in> set (ck_chunks s). chunk_ssn_off sb c = j" using key ss sj by auto
  have rest: "\<forall>c \<in> set (all_chunks ss'). chunk_ssn_off sb c \<noteq> j"
  proof
    fix c assume "c \<in> set (all_chunks ss')"
    then obtain t where t: "t \<in> set ss'" "c \<in> set (ck_chunks t)" by (auto simp: all_chunks_def)
    then have "j < ssn_off sb t" using Cons.prems(1) ss sj by (simp add: ordered_ok_Cons)
    then show "chunk_ssn_off sb c \<noteq> j" using key [of t c] t ss by simp
  qed
  have "filter (\<lambda>c. chunk_ssn_off sb c = j) (all_chunks ss) = ck_chunks s" using all rest ss by simp
  moreover have "filter (\<lambda>c. chunk_ssn_off sb c = j) (concat (m # ms)) = m"
  proof -
    have "filter (\<lambda>c. chunk_ssn_off sb c = j) (concat ms) = []"
      using ge by (fastforce simp: filter_empty_conv simp del: set_concat)
    then show ?thesis using m(3) by simp
  qed
  ultimately have eq: "mset (ck_chunks s) = mset m" using Cons.prems(2) by (metis mset_filter)
  then have "ck_chunks s = m"
    using Cons.prems(1) ss m(2) by (intro tsn_sorted_unique [of tb]) (auto simp: ordered_ok_Cons chunk_set_ok_def)
  moreover have "map ck_chunks ss' = ms \<and> map (ssn_off sb) ss' = [Suc j..<Suc j + length ms]"
    using Cons.prems(1,2) ss eq by (intro Cons.IH ms) (auto simp: ordered_ok_Cons)
  ultimately show ?case using ss sj by (simp add: upt_conv_Cons del: upt_Suc)
qed

lemma message_complete:
  assumes "message_fragments m" "ck_chunks s = m"
  shows "Chunks_is_complete s"
proof -
  have m: "m \<noteq> []" "0 < length m" "length m - 1 < length m" using assms(1) by (auto simp: message_fragments_def)
  then show ?thesis using assms by (auto simp: message_fragments_def Chunks_is_complete_def)
qed

lemma read_all_ordered:
  assumes "rq_unordered q = []" "rq_ordered q = ss" "\<forall>s \<in> set ss. Chunks_is_complete s"
    "\<forall>i < length ss. ck_ssn (ss ! i) = rq_next_ssn q + of_nat i" "rq_n_bytes q = total_len (all_chunks ss)"
  shows "\<exists>q'. read_all (length ss) q = (ss, q') \<and> rq_ordered q' = [] \<and> rq_n_bytes q' = 0 \<and>
    rq_next_ssn q' = rq_next_ssn q + of_nat (length ss)"
  using assms
proof (induction ss arbitrary: q)
  case (Cons s ss)
  let ?q = "q\<lparr>rq_next_ssn := rq_next_ssn q + 1, rq_ordered := ss, rq_n_bytes := total_len (all_chunks ss)\<rparr>"
  have ssn: "ck_ssn s = rq_next_ssn q" using Cons.prems(4) by force
  then have gt: "\<not> sna16gt (ck_ssn s) (rq_next_ssn q)" by (simp add: sna16gt_not_lte sna16lte_def)
  have read: "ReassemblyQueue_read q = (Some s, ?q)"
    using Cons.prems gt ssn by (simp add: ReassemblyQueue_read_def subtract_num_bytes_def Chunks_len_eq)
  have "\<forall>i < length ss. ck_ssn (ss ! i) = rq_next_ssn ?q + of_nat i"
  proof (intro allI impI)
    fix i assume "i < length ss"
    then show "ck_ssn (ss ! i) = rq_next_ssn ?q + of_nat i"
      using Cons.prems(4) [rule_format, of "Suc i"] by (simp add: add.assoc)
  qed
  with Cons.IH [of ?q] Cons.prems(1,3) read show ?case by (auto simp: add.assoc)
qed simp

lemma ordered_messages_off:
  assumes "ordered_messages sid limit tb sb ms" "i < length ms" "c \<in> set (ms ! i)"
  shows "chunk_ssn_off sb c = i"
proof -
  have "i < 2 ^ 15" using assms(1,2) by (simp add: ordered_messages_def)
  then have "unat (of_nat i :: u16) = i" by (simp add: unat_of_nat)
  moreover have "d_stream_sequence_number c = sb + of_nat i" using assms by (simp add: ordered_messages_def)
  ultimately show ?thesis by (simp add: chunk_ssn_off_def)
qed

lemma ordered_messages_transfer:
  assumes "ordered_messages sid limit tb sb ms"
  shows "transfer_ok sid limit tb sb (concat ms)"
  unfolding transfer_ok_def
proof (intro conjI ballI impI)
  have sorted: "tsn_sorted tb (concat ms)" using assms by (simp add: ordered_messages_def)
  then show "distinct (map d_tsn (concat ms))" by (rule tsn_sorted_distinct)
  fix c assume c: "c \<in> set (concat ms)"
  then obtain i where i: "i < length ms" "c \<in> set (ms ! i)" by (auto simp: in_set_conv_nth [of _ ms])
  note off = ordered_messages_off [OF assms]
  have ssn: "d_stream_sequence_number d = d_stream_sequence_number c \<longleftrightarrow> chunk_ssn_off sb d = i" for d
    using off [OF i] unat_base_inj by (auto simp: chunk_ssn_off_def)
  have m: "message_fragments (ms ! i)" "total_len (ms ! i) \<le> unat limit" "\<not> d_unordered c"
    "d_stream_identifier c = sid" using assms i by (auto simp: ordered_messages_def)
  have filt: "filter (\<lambda>d. d_stream_sequence_number d = d_stream_sequence_number c) (concat ms) = ms ! i"
    using filter_concat_key [of ms "chunk_ssn_off sb" 0 i] off i by (simp add: ssn)
  show "\<not> d_unordered c" "d_stream_identifier c = sid" by (rule m)+
  show "tsn_off tb c < 2 ^ 31" using sorted c unfolding tsn_sorted_def by blast
  show "unat (d_stream_sequence_number c - sb) < 2 ^ 15"
    using off [OF i] i assms by (simp add: chunk_ssn_off_def ordered_messages_def)
  show "total_len (filter (\<lambda>d. d_stream_sequence_number d = d_stream_sequence_number c) (concat ms)) \<le> unat limit"
    using filt m(2) by simp
  fix d assume d: "d \<in> set (concat ms)" "d_stream_sequence_number d = d_stream_sequence_number c"
  then have "d \<in> set (filter (\<lambda>d. d_stream_sequence_number d = d_stream_sequence_number c) (concat ms))" by simp
  then have "d \<in> set (ms ! i)" unfolding filt .
  then show "d_payload_type d = d_payload_type c" using m(1) i(2) unfolding message_fragments_def by metis
qed

subsection \<open>Properties\<close>

text \<open>
  C11: Reassembly of an ordered stream. Let the fragments of fewer than \<open>2 ^ 15\<close> messages, with
  consecutive SSNs from the expected one and TSNs ascending inside a half-space window, arrive in
  any order whatever: every push is accepted, the byte counter then holds exactly the payload, and
  reading yields the messages in SSN order, each with its fragments in TSN order, and leaves the
  queue empty with the expected SSN advanced past them.
\<close>
theorem ordered_reassembly_any_order:
  assumes "ordered_messages sid limit tb sb ms" "mset arrivals = mset (concat ms)"
  shows "\<exists>rs q1 sets q2. push_all arrivals ((ReassemblyQueue_new sid limit)\<lparr>rq_next_ssn := sb\<rparr>) = (rs, q1) \<and>
    (\<forall>r \<in> set rs. is_ok r) \<and> ReassemblyQueue_get_num_bytes q1 = total_len arrivals \<and>
    read_all (length ms) q1 = (sets, q2) \<and> map ck_chunks sets = ms \<and>
    rq_ordered q2 = [] \<and> ReassemblyQueue_get_num_bytes q2 = 0 \<and> rq_next_ssn q2 = sb + of_nat (length ms)"
proof -
  let ?q = "(ReassemblyQueue_new sid limit)\<lparr>rq_next_ssn := sb\<rparr>"
  have "transfer_ok (rq_si ?q) (rq_max_message_size ?q) tb sb (concat ms)" "ordered_ok tb sb (rq_ordered ?q)"
    "mset (all_chunks (rq_ordered ?q)) + mset arrivals \<subseteq># mset (concat ms)"
    using ordered_messages_transfer [OF assms(1)] assms(2)
    by (simp_all add: ReassemblyQueue_new_def ordered_ok_def)
  from push_all_ordered [OF this(1,2) _ this(3)] obtain rs ss where
    p: "push_all arrivals ?q = (rs, ?q\<lparr>rq_n_bytes := rq_n_bytes ?q + total_len arrivals, rq_ordered := ss\<rparr>)"
    "\<forall>r \<in> set rs. is_ok r" "ordered_ok tb sb ss" "mset (all_chunks ss) = mset (concat ms)"
    using assms(2) by (auto simp: ReassemblyQueue_new_def)
  let ?q1 = "?q\<lparr>rq_n_bytes := rq_n_bytes ?q + total_len arrivals, rq_ordered := ss\<rparr>"
  have each: "\<forall>i < length ms. ms ! i \<noteq> [] \<and> tsn_sorted tb (ms ! i) \<and> (\<forall>c \<in> set (ms ! i). chunk_ssn_off sb c = 0 + i)"
  proof (intro allI impI conjI ballI)
    fix i assume i: "i < length ms"
    then show "ms ! i \<noteq> []" using assms(1) by (auto simp: ordered_messages_def message_fragments_def)
    have "concat ms = concat (take i ms) @ ms ! i @ concat (drop (Suc i) ms)"
      using i by (metis append_Cons append_self_conv2 concat.simps(2) concat_append id_take_nth_drop)
    moreover have "tsn_sorted tb (concat ms)" using assms(1) by (simp add: ordered_messages_def)
    ultimately show "tsn_sorted tb (ms ! i)" by (simp add: tsn_sorted_append)
  qed (simp add: ordered_messages_off [OF assms(1)])
  from sets_are_messages [OF p(3,4) each] have sets: "map ck_chunks ss = ms" "map (ssn_off sb) ss = [0..<length ms]"
    by simp_all
  have len: "length ss = length ms" using sets(1) by (metis length_map)
  have "\<forall>s \<in> set ss. Chunks_is_complete s"
    using sets(1) assms(1) message_complete by (metis in_set_conv_nth len nth_map ordered_messages_def)
  moreover have "\<forall>i < length ss. ck_ssn (ss ! i) = rq_next_ssn ?q1 + of_nat i"
  proof (intro allI impI)
    fix i assume "i < length ss"
    then have "ssn_off sb (ss ! i) = i" using sets(2) len by (metis add_0 nth_map nth_upt)
    moreover have "of_nat (unat (ck_ssn (ss ! i) - sb)) = ck_ssn (ss ! i) - sb" by simp
    ultimately have "ck_ssn (ss ! i) - sb = of_nat i" by (simp add: ssn_off_def)
    then show "ck_ssn (ss ! i) = rq_next_ssn ?q1 + of_nat i" by (simp add: algebra_simps)
  qed
  moreover have "total_len arrivals = total_len (all_chunks ss)"
    using total_len_perm [of arrivals "all_chunks ss"] assms(2) p(4) by simp
  ultimately obtain q2 where "read_all (length ss) ?q1 = (ss, q2)" "rq_ordered q2 = []" "rq_n_bytes q2 = 0"
    "rq_next_ssn q2 = sb + of_nat (length ss)"
    using read_all_ordered [of ?q1 ss] by (auto simp: ReassemblyQueue_new_def)
  with p(1,2) sets(1) len show ?thesis
    by (auto simp: ReassemblyQueue_get_num_bytes_def ReassemblyQueue_new_def)
qed

lemma example_messages_ordered: "ordered_messages 5 100 0xFFFFFFFE 0xFFFF (example_messages False)"
  by (auto simp: ordered_messages_def example_messages_def example_data_def ChunkPayloadData_default_def
      tsn_sorted_def tsn_off_def message_fragments_def less_Suc_eq nth_Cons')

theorem ordered_reassembly_any_order_witness:
  "\<exists>rs q1 sets q2. push_all (rev (concat (example_messages False)))
      ((ReassemblyQueue_new 5 100)\<lparr>rq_next_ssn := 0xFFFF\<rparr>) = (rs, q1) \<and>
    read_all 2 q1 = (sets, q2) \<and> map ck_chunks sets = example_messages False \<and> rq_next_ssn q2 = 1"
proof -
  have "length (example_messages False) = 2" by (simp add: example_messages_def)
  then show ?thesis
    using ordered_reassembly_any_order [OF example_messages_ordered, of "rev (concat (example_messages False))"]
    by auto
qed

end
