(* ===== verification/Unordered_Reassembly.thy ===== *)
theory Unordered_Reassembly
  imports Reassembly_Queue
begin

text \<open>
  Reassembly of unordered messages (\<^verbatim>\<open>ReassemblyQueue::push\<close>, \<^verbatim>\<open>find_complete_unordered_chunk_set\<close>
  and \<^verbatim>\<open>calculate_unordered_message_size\<close> of \<^verbatim>\<open>src/src/queue/reassembly_queue.rs\<close>): the scan for a complete
  run is sound and complete, the projected size never exceeds the size of the message, and the
  fragments of any set of messages, in any arrival order, come out as exactly these messages.
\<close>

subsection \<open>Runs of fragments\<close>

text \<open>A complete run starts at its only beginning fragment and stops at its only ending fragment.\<close>

definition complete_run :: "ChunkPayloadData list \<Rightarrow> bool" where
  "complete_run r \<longleftrightarrow> r \<noteq> [] \<and> tsns_contiguous r \<and>
    (\<forall>i < length r. (d_beginning_fragment (r ! i) \<longleftrightarrow> i = 0) \<and> (d_ending_fragment (r ! i) \<longleftrightarrow> i = length r - 1))"

text \<open>An open run has no ending fragment yet.\<close>

definition open_run :: "ChunkPayloadData list \<Rightarrow> bool" where
  "open_run r \<longleftrightarrow> r \<noteq> [] \<and> tsns_contiguous r \<and>
    (\<forall>i < length r. (d_beginning_fragment (r ! i) \<longleftrightarrow> i = 0) \<and> \<not> d_ending_fragment (r ! i))"

text \<open>The state of the scan after the chunks \<open>pre\<close>: the open run that ends there, if there is one.\<close>

definition scan_state :: "ChunkPayloadData list \<Rightarrow> nat option \<Rightarrow> nat \<Rightarrow> u32 \<Rightarrow> bool" where
  "scan_state pre start n last_tsn \<longleftrightarrow>
    (case start of
       None \<Rightarrow> \<forall>xs r. pre = xs @ r \<longrightarrow> \<not> open_run r
     | Some s \<Rightarrow> \<exists>xs r. pre = xs @ r \<and> open_run r \<and> length xs = s \<and> length r = n \<and> last_tsn = d_tsn (last r))"

text \<open>Unordered messages of stream \<open>sid\<close> within the size limit, with TSNs ascending in the window from \<open>tb\<close>.\<close>

definition unordered_messages :: "u16 \<Rightarrow> u32 \<Rightarrow> u32 \<Rightarrow> ChunkPayloadData list list \<Rightarrow> bool" where
  "unordered_messages sid limit tb ms \<longleftrightarrow>
    tsn_sorted tb (concat ms) \<and>
    (\<forall>m \<in> set ms. complete_run m \<and> total_len m \<le> unat limit \<and>
      (\<forall>c \<in> set m. d_unordered c \<and> d_stream_identifier c = sid))"

text \<open>
  The queue after the chunks \<open>cs\<close> have arrived: whole messages are extracted, the rest waits in TSN
  order and contains no whole message.
\<close>

definition unordered_inv :: "u32 \<Rightarrow> ChunkPayloadData list list \<Rightarrow> ChunkPayloadData list \<Rightarrow> ReassemblyQueue \<Rightarrow> bool" where
  "unordered_inv tb ms cs q \<longleftrightarrow>
    tsn_sorted tb (rq_unordered_chunks q) \<and>
    mset (all_chunks (rq_unordered q)) + mset (rq_unordered_chunks q) = mset cs \<and>
    (\<forall>s \<in> set (rq_unordered q). ck_chunks s \<in> set ms) \<and>
    (\<forall>m \<in> set ms. \<not> set m \<subseteq> set (rq_unordered_chunks q))"

text \<open>Every complete run of \<open>all\<close> lies inside its first \<open>n\<close> chunks.\<close>

definition runs_within :: "nat \<Rightarrow> ChunkPayloadData list \<Rightarrow> bool" where
  "runs_within n all \<longleftrightarrow> (\<forall>xs r ys. all = xs @ r @ ys \<and> complete_run r \<longrightarrow> length (xs @ r) \<le> n)"

definition scan_result :: "nat \<Rightarrow> ChunkPayloadData list \<Rightarrow> (nat \<times> nat) option \<Rightarrow> bool" where
  "scan_result n all res \<longleftrightarrow>
    (case res of
       None \<Rightarrow> runs_within n all
     | Some (a, k) \<Rightarrow> \<exists>xs r ys. all = xs @ r @ ys \<and> complete_run r \<and> length xs = a \<and> length r = k)"

subsection \<open>Facts on runs\<close>

lemma contiguous_append:
  "tsns_contiguous (xs @ [c]) \<longleftrightarrow> tsns_contiguous xs \<and> (xs \<noteq> [] \<longrightarrow> d_tsn c = d_tsn (last xs) + 1)"
  by (induction xs rule: tsns_contiguous.induct) auto

lemma contiguous_nth:
  assumes "tsns_contiguous r" "i < length r"
  shows "d_tsn (r ! i) = d_tsn (r ! 0) + of_nat i"
  using assms
proof (induction r arbitrary: i rule: tsns_contiguous.induct)
  case (1 a b cs)
  show ?case
  proof (cases i)
    case (Suc k)
    then have "d_tsn ((b # cs) ! k) = d_tsn b + of_nat k"
      using "1.IH" [of k] "1.prems" by simp
    then show ?thesis using Suc "1.prems" by (simp add: add.assoc)
  qed simp
qed (auto simp: less_Suc_eq)

lemma open_run_snoc:
  "open_run (r @ [c]) \<longleftrightarrow>
    (if r = [] then d_beginning_fragment c \<and> \<not> d_ending_fragment c
     else open_run r \<and> \<not> d_beginning_fragment c \<and> \<not> d_ending_fragment c \<and> d_tsn c = d_tsn (last r) + 1)"
proof (cases "r = []")
  case False
  then show ?thesis
    by (auto simp: open_run_def contiguous_append nth_append less_Suc_eq all_conj_distrib)
qed (simp add: open_run_def)

lemma complete_run_snoc:
  "complete_run (r @ [c]) \<longleftrightarrow>
    (if r = [] then d_beginning_fragment c \<and> d_ending_fragment c
     else open_run r \<and> \<not> d_beginning_fragment c \<and> d_ending_fragment c \<and> d_tsn c = d_tsn (last r) + 1)"
proof (cases "r = []")
  case False
  then show ?thesis
    by (auto simp: open_run_def complete_run_def contiguous_append nth_append less_Suc_eq all_conj_distrib)
qed (simp add: complete_run_def)

lemma open_run_suffix_unique:
  assumes "xs @ r = ys @ t" "open_run r" "open_run t"
  shows "length r = length t"
proof (rule ccontr)
  assume ne: "length r \<noteq> length t"
  have False if "xs @ r = ys @ t" "open_run r" "open_run t" "length t < length r" for xs ys r t
  proof -
    note h = that
    obtain us where "xs = ys @ us \<and> us @ r = t \<or> xs @ us = ys \<and> r = us @ t"
      using append_eq_append_conv2 [THEN iffD1, OF h(1)] by blast
    then have us: "r = us @ t" "us \<noteq> []" using h(4) by auto
    have "t \<noteq> []" "d_beginning_fragment (t ! 0)" using h(3) by (auto simp: open_run_def)
    then have "length us < length r" "d_beginning_fragment (r ! length us)" using us by (auto simp: nth_append)
    with h(2) us(2) show False by (auto simp: open_run_def)
  qed
  with assms ne show False by (metis linorder_neqE_nat)
qed

subsection \<open>The scan for a complete run\<close>

lemma suffix_snoc: "pre @ [c] = xs @ r \<Longrightarrow> r \<noteq> [] \<Longrightarrow> \<exists>r1. r = r1 @ [c] \<and> pre = xs @ r1"
  by (cases r rule: rev_cases) auto

lemma runs_within_step:
  assumes "runs_within (length pre + 1) (pre @ c # cs)" "\<forall>xs r. pre = xs @ r \<longrightarrow> \<not> complete_run (r @ [c])"
  shows "runs_within (length pre) (pre @ c # cs)"
  unfolding runs_within_def
proof (intro allI impI)
  fix xs r ys assume h: "pre @ c # cs = xs @ r @ ys \<and> complete_run r"
  show "length (xs @ r) \<le> length pre"
  proof (rule ccontr)
    assume "\<not> length (xs @ r) \<le> length pre"
    moreover have "length (xs @ r) \<le> length pre + 1" using assms(1) h unfolding runs_within_def by blast
    ultimately have len: "length (pre @ [c]) = length (xs @ r)" by simp
    have "(pre @ [c]) @ cs = (xs @ r) @ ys" using h by simp
    then have eq: "pre @ [c] = xs @ r" using len append_eq_append_conv by blast
    have "r \<noteq> []" using h by (simp add: complete_run_def)
    with suffix_snoc [OF eq] assms(2) h show False by blast
  qed
qed

lemma scan_state_None_step:
  assumes "\<forall>xs r. pre = xs @ r \<longrightarrow> \<not> open_run (r @ [c])"
  shows "scan_state (pre @ [c]) None n t"
  unfolding scan_state_def
proof (simp, intro allI impI)
  fix xs r assume eq: "pre @ [c] = xs @ r"
  show "\<not> open_run r"
  proof (cases "r = []")
    case False
    with suffix_snoc [OF eq] assms show ?thesis by blast
  qed (simp add: open_run_def)
qed

lemma scan_state_Some_step:
  "pre = xs @ r \<Longrightarrow> open_run (r @ [c]) \<Longrightarrow> scan_state (pre @ [c]) (Some (length xs)) (length r + 1) (d_tsn c)"
  unfolding scan_state_def option.case by (intro exI [of _ xs] exI [of _ "r @ [c]"]) simp

lemma scan_state_unique:
  assumes "scan_state pre (Some s) n t" "pre = xs @ r" "open_run r"
  shows "length xs = s \<and> length r = n \<and> d_tsn (last r) = t"
proof -
  obtain ys u where u: "pre = ys @ u" "open_run u" "length ys = s" "length u = n" "t = d_tsn (last u)"
    using assms(1) by (auto simp: scan_state_def)
  have "length r = length u" using open_run_suffix_unique [of xs r ys u] assms(2,3) u(1,2) by simp
  then have "xs = ys \<and> r = u" using assms(2) u(1) by auto
  with u show ?thesis by simp
qed

lemma scan_resultI:
  "all = xs @ r @ ys \<Longrightarrow> complete_run r \<Longrightarrow> length xs = a \<Longrightarrow> length r = k \<Longrightarrow> scan_result n all (Some (a, k))"
  by (auto simp: scan_result_def)

lemma scan_result_step:
  "scan_result (length pre + 1) (pre @ c # cs) res \<Longrightarrow> \<forall>xs r. pre = xs @ r \<longrightarrow> \<not> complete_run (r @ [c]) \<Longrightarrow>
    scan_result (length pre) (pre @ c # cs) res"
  using runs_within_step [of pre c cs] by (cases res) (auto simp: scan_result_def)

lemma scan_inside:
  assumes st: "scan_state pre (Some s) n t" and c: "\<not> d_beginning_fragment c"
    and continue: "\<And>st' n' t'. scan_state (pre @ [c]) st' n' t' \<Longrightarrow> \<forall>xs r. pre = xs @ r \<longrightarrow> \<not> complete_run (r @ [c]) \<Longrightarrow>
      scan_result (length pre) (pre @ c # cs) (find_complete_loop (length pre + 1) st' n' t' cs)"
  shows "scan_result (length pre) (pre @ c # cs) (find_complete_loop (length pre) (Some s) n t (c # cs))"
proof -
  obtain xs r where r: "pre = xs @ r" "open_run r" "length xs = s" "length r = n" "t = d_tsn (last r)"
    using st by (auto simp: scan_state_def)
  have rn: "r \<noteq> []" using r(2) by (simp add: open_run_def)
  have only: "d_tsn c = t + 1" if "pre = ys @ u" "open_run (u @ [c]) \<or> complete_run (u @ [c])" for ys u
  proof -
    have "open_run u" "d_tsn c = d_tsn (last u) + 1"
      using that(2) c by (auto simp: open_run_snoc complete_run_snoc split: if_splits)
    with scan_state_unique [OF st that(1)] show ?thesis by simp
  qed
  show ?thesis
  proof (cases "d_tsn c = t + 1")
    case False
    with only have "\<forall>ys u. pre = ys @ u \<longrightarrow> \<not> complete_run (u @ [c])" "\<forall>ys u. pre = ys @ u \<longrightarrow> \<not> open_run (u @ [c])"
      by blast+
    from continue [OF scan_state_None_step [OF this(2)] this(1)] c False show ?thesis by simp
  next
    case tsn: True
    show ?thesis
    proof (cases "d_ending_fragment c")
      case True
      then have "complete_run (r @ [c])" using r tsn c rn by (simp add: complete_run_snoc)
      with r show ?thesis
        using True c tsn by (auto intro: scan_resultI [of _ xs "r @ [c]" cs])
    next
      case False
      then have no: "\<forall>xs r. pre = xs @ r \<longrightarrow> \<not> complete_run (r @ [c])" by (simp add: complete_run_snoc)
      have "open_run (r @ [c])" using r tsn c False rn by (simp add: open_run_snoc)
      from continue [OF scan_state_Some_step [OF r(1) this] no] c tsn False r show ?thesis by simp
    qed
  qed
qed

lemma find_complete_scan:
  assumes "scan_state pre start n t"
  shows "scan_result (length pre) (pre @ cs) (find_complete_loop (length pre) start n t cs)"
  using assms
proof (induction cs arbitrary: pre start n t)
  case Nil
  then show ?case by (auto simp: scan_result_def runs_within_def)
next
  case (Cons c cs)
  have continue: "scan_result (length pre) (pre @ c # cs) (find_complete_loop (length pre + 1) st' n' t' cs)"
    if st: "scan_state (pre @ [c]) st' n' t'"
      and no: "\<forall>xs r. pre = xs @ r \<longrightarrow> \<not> complete_run (r @ [c])" for st' n' t'
    using Cons.IH [OF st] by (intro scan_result_step no) simp
  consider (whole) "d_beginning_fragment c" "d_ending_fragment c"
    | (start) "d_beginning_fragment c" "\<not> d_ending_fragment c"
    | (idle) "\<not> d_beginning_fragment c" "start = None"
    | (inside) s where "\<not> d_beginning_fragment c" "start = Some s"
    by (cases start) auto
  then show ?case
  proof cases
    case whole
    then have "complete_run [c]" by (simp add: complete_run_def)
    with whole show ?thesis by (auto intro: scan_resultI [of _ pre "[c]" cs])
  next
    case start
    then have no: "\<forall>xs r. pre = xs @ r \<longrightarrow> \<not> complete_run (r @ [c])" by (simp add: complete_run_snoc)
    have "open_run ([] @ [c])" using start by (simp add: open_run_def)
    from continue [OF scan_state_Some_step [OF _ this, of pre pre] no] start show ?thesis by simp
  next
    case idle
    then have "\<forall>xs r. pre = xs @ r \<longrightarrow> \<not> open_run r" using Cons.prems by (simp add: scan_state_def)
    then have "\<forall>xs r. pre = xs @ r \<longrightarrow> \<not> complete_run (r @ [c])" "\<forall>xs r. pre = xs @ r \<longrightarrow> \<not> open_run (r @ [c])"
      using idle by (simp_all add: complete_run_snoc open_run_snoc)
    from continue [OF scan_state_None_step [OF this(2)] this(1)] idle show ?thesis by simp
  next
    case (inside s)
    then show ?thesis using scan_inside [OF Cons.prems [unfolded inside(2)] inside(1) continue] by simp
  qed
qed

lemma find_complete_sound:
  assumes "find_complete_loop 0 None 0 0 cs = Some (a, k)"
  shows "\<exists>xs r ys. cs = xs @ r @ ys \<and> complete_run r \<and> length xs = a \<and> length r = k"
  using find_complete_scan [of "[]" None 0 0 cs] assms by (simp add: scan_state_def scan_result_def open_run_def)

lemma find_complete_complete:
  assumes "find_complete_loop 0 None 0 0 (xs @ r @ ys) = None"
  shows "\<not> complete_run r"
  using find_complete_scan [of "[]" None 0 0 "xs @ r @ ys"] assms
  by (auto simp: scan_state_def scan_result_def runs_within_def open_run_def complete_run_def)

subsection \<open>Messages among the chunks of a transfer\<close>

lemma rposition_Some: "rposition P xs = Some i \<Longrightarrow> i < length xs \<and> P (xs ! i)"
  by (induction xs arbitrary: i) (auto split: option.splits if_splits)

lemma contiguous_Suc:
  assumes "tsns_contiguous m" "Suc i < length m"
  shows "d_tsn (m ! Suc i) = d_tsn (m ! i) + 1"
  using contiguous_nth [OF assms] contiguous_nth [OF assms(1), of i] assms(2) by (simp add: add.assoc)

lemma prefix_size_bound:
  assumes "inj_on d_tsn A" "set cs \<subseteq> A" "set m \<subseteq> A" "complete_run m" "Suc j < length m" "p < length cs"
  shows "prefix_size_loop cs p (d_tsn (m ! Suc j)) cnt \<le> cnt + total_len (take (Suc j) m)"
  using assms(5,6)
proof (induction p arbitrary: j cnt)
  case (0 j cnt)
  note tsn = contiguous_Suc [of m j]
  have "cs ! 0 = m ! j" if "d_tsn (cs ! 0) = d_tsn (m ! Suc j) - 1"
    using assms(1-4) 0 that tsn by (intro inj_onD [OF assms(1)]) (auto simp: complete_run_def)
  then show ?case using 0 by (simp add: take_Suc_conv_app_nth)
next
  case (Suc p j cnt)
  note tsn = contiguous_Suc [of m j]
  show ?case
  proof (cases "d_tsn (cs ! Suc p) = d_tsn (m ! Suc j) - 1")
    case True
    then have eq: "cs ! Suc p = m ! j"
      using assms(1-4) Suc.prems tsn by (intro inj_onD [OF assms(1)]) (auto simp: complete_run_def)
    have take: "total_len (take (Suc j) m) = total_len (take j m) + dlen (m ! j)"
      using Suc.prems by (simp add: take_Suc_conv_app_nth)
    show ?thesis
    proof (cases "d_beginning_fragment (m ! j)")
      case True
      with eq take show ?thesis by simp
    next
      case False
      then obtain k where k: "j = Suc k"
        using assms(4) Suc.prems(1) by (cases j) (auto simp: complete_run_def)
      have "prefix_size_loop cs p (d_tsn (m ! Suc k)) (cnt + dlen (m ! Suc k)) \<le> cnt + dlen (m ! Suc k) + total_len (take (Suc k) m)"
        using Suc.prems k by (intro Suc.IH) auto
      with True False eq take k show ?thesis by simp
    qed
  qed simp
qed

declare suffix_size_loop.simps [simp del]

lemma suffix_size_bound:
  assumes "inj_on d_tsn A" "set cs \<subseteq> A" "set m \<subseteq> A" "complete_run m" "Suc j < length m"
  shows "suffix_size_loop cs p (d_tsn (m ! j)) cnt \<le> cnt + total_len (drop (Suc j) m)"
  using assms(5)
proof (induction "length cs - p" arbitrary: p j cnt)
  case 0
  then show ?case by (simp add: suffix_size_loop.simps [of cs p])
next
  case (Suc n p j cnt)
  have p: "p < length cs" using Suc.hyps(2) by simp
  have drop: "total_len (drop (Suc j) m) = dlen (m ! Suc j) + total_len (drop (Suc (Suc j)) m)"
    using Suc.prems by (simp add: Cons_nth_drop_Suc [symmetric])
  show ?case
  proof (cases "d_tsn (cs ! p) = d_tsn (m ! j) + 1")
    case True
    then have eq: "cs ! p = m ! Suc j"
      using assms(1-4) Suc.prems p contiguous_Suc [of m j]
      by (intro inj_onD [OF assms(1)]) (auto simp: complete_run_def)
    show ?thesis
    proof (cases "d_ending_fragment (m ! Suc j)")
      case True
      with eq drop p show ?thesis by (simp add: suffix_size_loop.simps [of cs p])
    next
      case False
      then have "Suc (Suc j) < length m"
        using assms(4) Suc.prems by (auto simp: complete_run_def)
      then have "suffix_size_loop cs (p + 1) (d_tsn (m ! Suc j)) (cnt + dlen (m ! Suc j))
          \<le> cnt + dlen (m ! Suc j) + total_len (drop (Suc (Suc j)) m)"
        using Suc.hyps(2) by (intro Suc.hyps(1)) auto
      with True False eq drop p show ?thesis by (simp add: suffix_size_loop.simps [of cs p])
    qed
  qed (simp add: suffix_size_loop.simps [of cs p])
qed

lemma unordered_size_bound:
  assumes "inj_on d_tsn A" "set (rq_unordered_chunks q) \<subseteq> A" "set m \<subseteq> A" "complete_run m" "c \<in> set m"
  shows "calculate_unordered_message_size q c \<le> total_len m"
proof -
  obtain j where j: "j < length m" "c = m ! j" using assms(5) by (auto simp: in_set_conv_nth)
  let ?cs = "rq_unordered_chunks q"
  have "m = take j m @ m ! j # drop (Suc j) m" using j(1) by (rule id_take_nth_drop)
  then have total: "total_len m = total_len (take j m) + dlen c + total_len (drop (Suc j) m)"
    using j(2) by (metis (no_types) add.assoc total_len_simps(2,3))
  have flags: "d_beginning_fragment c \<longleftrightarrow> j = 0" "d_ending_fragment c \<longleftrightarrow> j = length m - 1"
    using assms(4) j by (auto simp: complete_run_def)
  have pre: "prefix_size_loop ?cs p (d_tsn c) 0 \<le> total_len (take j m)"
    if "\<not> d_beginning_fragment c" "rposition (\<lambda>f. d_tsn f = d_tsn c - 1) ?cs = Some p" for p
    using that flags(1) j rposition_Some [OF that(2)] prefix_size_bound [OF assms(1-4), of "j - 1" p 0] by simp
  have suf: "suffix_size_loop ?cs p (d_tsn c) 0 \<le> total_len (drop (Suc j) m)" if "\<not> d_ending_fragment c" for p
    using that flags(2) j suffix_size_bound [OF assms(1-4), of j p 0] by simp
  have "(if d_beginning_fragment c then 0
      else case rposition (\<lambda>f. d_tsn f = d_tsn c - 1) ?cs of Some p \<Rightarrow> prefix_size_loop ?cs p (d_tsn c) 0 | None \<Rightarrow> 0)
      \<le> total_len (take j m)" using pre by (auto split: option.splits)
  moreover have "(if d_ending_fragment c then 0
      else case rposition (\<lambda>f. d_tsn f = d_tsn c + 1) ?cs of Some p \<Rightarrow> suffix_size_loop ?cs p (d_tsn c) 0 | None \<Rightarrow> 0)
      \<le> total_len (drop (Suc j) m)" using suf by (auto split: option.splits)
  ultimately show ?thesis
    unfolding calculate_unordered_message_size_def Let_def total by (intro add_mono) simp_all
qed

lemma complete_run_ending:
  "complete_run r \<Longrightarrow> i < length r \<Longrightarrow> d_ending_fragment (r ! i) \<longleftrightarrow> i = length r - 1"
  by (simp add: complete_run_def)

lemma run_is_message:
  assumes "inj_on d_tsn A" "set r \<subseteq> A" "set m \<subseteq> A" "complete_run r" "complete_run m" "r ! 0 = m ! 0"
  shows "r = m"
proof -
  have eq: "r ! i = m ! i" if "i < length r" "i < length m" for i
    using that assms contiguous_nth [of r i] contiguous_nth [of m i]
    by (intro inj_onD [OF assms(1)]) (auto simp: complete_run_def)
  have "length r = length m"
  proof (rule ccontr)
    assume "length r \<noteq> length m"
    then consider "length r < length m" | "length m < length r" by linarith
    then show False
    proof cases
      case 1
      have "0 < length r" using assms(4) by (simp add: complete_run_def)
      then have i: "length r - 1 < length r" "length r - 1 < length m" "length r - 1 \<noteq> length m - 1"
        using 1 by linarith+
      from eq [OF i(1,2)] complete_run_ending [OF assms(4) i(1)] complete_run_ending [OF assms(5) i(2)] i(3)
      show False by simp
    next
      case 2
      have "0 < length m" using assms(5) by (simp add: complete_run_def)
      then have i: "length m - 1 < length r" "length m - 1 < length m" "length m - 1 \<noteq> length r - 1"
        using 2 by linarith+
      from eq [OF i(1,2)] complete_run_ending [OF assms(4) i(1)] complete_run_ending [OF assms(5) i(2)] i(3)
      show False by simp
    qed
  qed
  with eq show ?thesis by (simp add: list_eq_iff_nth_eq)
qed

lemma run_offsets:
  assumes "tsn_sorted tb m" "tsns_contiguous m" "i < length m"
  shows "tsn_off tb (m ! i) = tsn_off tb (m ! 0) + i"
  using assms(3)
proof (induction i)
  case (Suc i)
  have "d_tsn (m ! Suc i) - tb = (d_tsn (m ! i) - tb) + 1"
    using contiguous_Suc [OF assms(2) Suc.prems] by simp
  moreover have "unat (d_tsn (m ! i) - tb) < 2 ^ 31"
    using assms(1) Suc.prems by (simp add: tsn_sorted_def tsn_off_def)
  ultimately have "tsn_off tb (m ! Suc i) = tsn_off tb (m ! i) + 1"
    by (simp only: tsn_off_def unat_Suc_window)
  with Suc show ?case by simp
qed simp

lemma tsn_sorted_filter: "tsn_sorted b xs \<Longrightarrow> tsn_sorted b (filter P xs)"
  by (auto simp: tsn_sorted_def intro: sorted_wrt_filter) (metis sorted_wrt_filter sorted_wrt_map)

lemma mset_filter_split3:
  "lo \<le> hi \<Longrightarrow> mset (filter (\<lambda>c. key c < lo) xs @ filter (\<lambda>c. lo \<le> key c \<and> key c < hi) xs @ filter (\<lambda>c. hi \<le> key c) xs)
    = mset xs" for key :: "'a \<Rightarrow> nat"
  by (induction xs) auto

text \<open>A message whose chunks all wait in a sorted list is a segment of that list.\<close>

lemma message_segment:
  assumes "inj_on d_tsn A" "set xs \<subseteq> A" "set m \<subseteq> A" "tsn_sorted tb xs" "tsn_sorted tb m" "complete_run m"
    "set m \<subseteq> set xs"
  shows "\<exists>ys zs. xs = ys @ m @ zs"
proof -
  let ?lo = "tsn_off tb (m ! 0)" and ?hi = "tsn_off tb (m ! 0) + length m"
  let ?ys = "filter (\<lambda>c. tsn_off tb c < ?lo) xs"
  let ?ms = "filter (\<lambda>c. ?lo \<le> tsn_off tb c \<and> tsn_off tb c < ?hi) xs"
  let ?zs = "filter (\<lambda>c. ?hi \<le> tsn_off tb c) xs"
  have off: "tsn_off tb (m ! i) = ?lo + i" if "i < length m" for i
    using run_offsets [OF assms(5) _ that] assms(6) by (simp add: complete_run_def)
  have ms: "mset (?ys @ ?ms @ ?zs) = mset xs"
    by (rule mset_filter_split3) simp
  have "tsn_sorted tb (?ys @ ?ms @ ?zs)"
    unfolding tsn_sorted_append by (intro conjI tsn_sorted_filter assms(4)) auto
  then have split: "?ys @ ?ms @ ?zs = xs" using assms(4) ms by (rule tsn_sorted_unique)
  have "set ?ms = set m"
  proof
    show "set m \<subseteq> set ?ms"
    proof
      fix c assume "c \<in> set m"
      then obtain i where i: "i < length m" "c = m ! i" by (auto simp: in_set_conv_nth)
      then show "c \<in> set ?ms" using off [OF i(1)] \<open>c \<in> set m\<close> assms(7) by auto
    qed
    show "set ?ms \<subseteq> set m"
    proof
      fix c assume c: "c \<in> set ?ms"
      define i where "i = tsn_off tb c - ?lo"
      have i: "i < length m" "tsn_off tb c = tsn_off tb (m ! i)" using c off [of i] by (auto simp: i_def)
      then have "c = m ! i" using c assms(1-3) by (intro inj_onD [OF assms(1)]) (auto simp: tsn_off_inj)
      with i show "c \<in> set m" by simp
    qed
  qed
  moreover have "distinct ?ms" "distinct m"
    using tsn_sorted_distinct [OF assms(4)] tsn_sorted_distinct [OF assms(5)] by (auto simp: distinct_map)
  ultimately have "mset ?ms = mset m" using set_eq_iff_mset_eq_distinct by blast
  then have "?ms = m" by (rule tsn_sorted_unique [OF tsn_sorted_filter [OF assms(4)] assms(5)])
  with split show ?thesis by metis
qed

subsection \<open>One arrival\<close>

lemma message_of_chunk:
  "c \<in> set (concat ms) \<Longrightarrow> \<exists>m \<in> set ms. c \<in> set m"
  by auto

lemma tsn_sorted_message:
  assumes "tsn_sorted tb (concat ms)" "m \<in> set ms"
  shows "tsn_sorted tb m"
proof -
  obtain xs ys where "ms = xs @ m # ys" using assms(2) by (auto dest: split_list)
  with assms(1) show ?thesis by (simp add: tsn_sorted_append)
qed

text \<open>As long as the scan finds nothing no message is complete; what it finds is a message.\<close>

lemma complete_not_found:
  assumes U: "unordered_messages si limit tb ms" and new: "tsn_sorted tb new" "set new \<subseteq> set (concat ms)"
    and none: "find_complete_loop 0 None 0 0 new = None" and m: "m \<in> set ms"
  shows "\<not> set m \<subseteq> set new"
proof
  assume sub: "set m \<subseteq> set new"
  have sorted: "tsn_sorted tb (concat ms)" using U by (simp add: unordered_messages_def)
  have inj: "inj_on d_tsn (set (concat ms))" using tsn_sorted_distinct [OF sorted] by (simp only: distinct_map)
  have m': "complete_run m" "set m \<subseteq> set (concat ms)" using U m by (auto simp: unordered_messages_def)
  obtain ys zs where "new = ys @ m @ zs"
    using message_segment [OF inj new(2) _ new(1) tsn_sorted_message [OF sorted m]] m' sub by blast
  with find_complete_complete [of ys m zs] none m'(1) show False by simp
qed

lemma found_message:
  assumes U: "unordered_messages si limit tb ms" and new: "set new \<subseteq> set (concat ms)"
    and found: "find_complete_loop 0 None 0 0 new = Some (a, k)"
  obtains xs m ys where "new = xs @ m @ ys" "m \<in> set ms" "complete_run m" "length xs = a" "length m = k"
proof -
  have sorted: "tsn_sorted tb (concat ms)" using U by (simp add: unordered_messages_def)
  have inj: "inj_on d_tsn (set (concat ms))" using tsn_sorted_distinct [OF sorted] by (simp only: distinct_map)
  from find_complete_sound [OF found] obtain xs r ys where
    r: "new = xs @ r @ ys" "complete_run r" "length xs = a" "length r = k" by blast
  have rA: "set r \<subseteq> set (concat ms)" using new r(1) by auto
  have r0: "r \<noteq> []" "d_beginning_fragment (r ! 0)" using r(2) by (auto simp: complete_run_def)
  then obtain m where m: "m \<in> set ms" "r ! 0 \<in> set m" using rA by (metis length_greater_0_conv message_of_chunk nth_mem subsetD)
  have cm: "complete_run m" "set m \<subseteq> set (concat ms)" using U m(1) by (auto simp: unordered_messages_def)
  have "r ! 0 = m ! 0" using m(2) r0(2) cm(1) by (auto simp: in_set_conv_nth complete_run_def)
  then have "r = m" using run_is_message [OF inj rA cm(2) r(2) cm(1)] by simp
  then show ?thesis using that r m(1) by simp
qed

lemma unordered_push:
  assumes U: "unordered_messages (rq_si q) (rq_max_message_size q) tb ms"
    and inv: "unordered_inv tb ms cs q" and sub: "add_mset c (mset cs) \<subseteq># mset (concat ms)"
  shows "\<exists>b q'. ReassemblyQueue_push q c = (Ok b, q') \<and> unordered_inv tb ms (c # cs) q' \<and>
    rq_si q' = rq_si q \<and> rq_max_message_size q' = rq_max_message_size q \<and> rq_ordered q' = rq_ordered q \<and>
    rq_n_bytes q' = rq_n_bytes q + dlen c"
proof -
  let ?old = "rq_unordered_chunks q"
  let ?new = "sort_chunks_by_tsn (?old @ [c])"
  let ?A = "set (concat ms)"
  have sorted: "tsn_sorted tb (concat ms)" using U by (simp add: unordered_messages_def)
  have inj: "inj_on d_tsn ?A" using tsn_sorted_distinct [OF sorted] by (simp only: distinct_map)
  have all: "set (c # cs) \<subseteq> ?A" using set_mset_mono [OF sub] by simp
  have old_cs: "mset ?old \<subseteq># mset cs" using inv by (metis unordered_inv_def mset_subset_eq_add_right)
  have oldA: "set ?old \<subseteq> ?A" using set_mset_mono [OF old_cs] all by auto
  obtain m where m: "m \<in> set ms" "c \<in> set m" using all by auto
  have mA: "set m \<subseteq> ?A" "complete_run m" "d_unordered c" "d_stream_identifier c = rq_si q"
    "total_len m \<le> unat (rq_max_message_size q)"
    using U m by (auto simp: unordered_messages_def)
  have size: "\<not> unat (rq_max_message_size q) < calculate_unordered_message_size q c"
    using unordered_size_bound [OF inj oldA mA(1,2) m(2)] mA(5) by simp
  have fresh: "\<forall>d \<in> set ?old. d_tsn d \<noteq> d_tsn c"
    using submultiset_key_distinct [OF sub, of d_tsn] tsn_sorted_distinct [OF sorted] set_mset_mono [OF old_cs]
    by auto
  have win: "tsn_off tb c < 2 ^ 31" using sorted all unfolding tsn_sorted_def by auto
  note new = tsn_sorted_insert [OF _ win fresh]
  have newS: "tsn_sorted tb ?new" and newM: "mset ?new = add_mset c (mset ?old)"
    using new inv by (auto simp: unordered_inv_def)
  have setN: "set ?new = insert c (set ?old)" using mset_eq_setD [of ?new "c # ?old"] newM by simp
  have newA: "set ?new \<subseteq> ?A" using setN oldA all by simp
  let ?q = "q\<lparr>rq_n_bytes := rq_n_bytes q + dlen c, rq_unordered_chunks := ?new\<rparr>"
  have push: "ReassemblyQueue_push q c =
      (case find_complete_unordered_chunk_set ?q of
         Ok (Some cset, q) \<Rightarrow> (Ok True, q\<lparr>rq_unordered := rq_unordered q @ [cset]\<rparr>)
       | Ok (None, q) \<Rightarrow> (Ok False, q) | Err e \<Rightarrow> (Err e, ?q) | Panic \<Rightarrow> (Panic, ?q))"
    using mA(3,4) size by (simp add: ReassemblyQueue_push_def Let_def)
  have msums: "mset (all_chunks (rq_unordered q)) + mset ?new = mset (c # cs)"
    using inv newM by (simp add: unordered_inv_def)
  show ?thesis
  proof (cases "find_complete_loop 0 None 0 0 ?new")
    case None
    then have "\<not> set m' \<subseteq> set ?new" if "m' \<in> set ms" for m' by (rule complete_not_found [OF U newS newA _ that])
    then have "unordered_inv tb ms (c # cs) ?q" using inv newS msums by (simp add: unordered_inv_def)
    with None show ?thesis by (simp add: push find_complete_unordered_chunk_set_def) blast
  next
    case (Some ak)
    obtain a k where ak: "ak = (a, k)" by fastforce
    obtain xs r ys where r: "?new = xs @ r @ ys" "r \<in> set ms" "complete_run r" "length xs = a" "length r = k"
      by (rule found_message [OF U newA Some [unfolded ak]])
    have r0: "r \<noteq> []" using r(3) by (simp add: complete_run_def)
    have "c \<in> set r"
    proof (rule ccontr)
      assume "c \<notin> set r"
      then have "set r \<subseteq> set ?old" using setN r(1) by auto
      then show False using inv r(2) by (auto simp: unordered_inv_def)
    qed
    moreover have "distinct ?new" using tsn_sorted_distinct [OF newS] by (simp add: distinct_map)
    ultimately have rest: "set (xs @ ys) \<subseteq> set ?old" using setN r(1) by auto
    let ?s = "Chunks_new 0 (d_payload_type (r ! 0)) r"
    let ?q' = "?q\<lparr>rq_unordered_chunks := xs @ ys, rq_unordered := rq_unordered q @ [?s]\<rparr>"
    have kept: "\<not> set m'' \<subseteq> set (xs @ ys)" if "m'' \<in> set ms" for m''
      using inv that rest by (metis unordered_inv_def subset_trans)
    have "find_complete_unordered_chunk_set ?q = Ok (Some ?s, ?q\<lparr>rq_unordered_chunks := xs @ ys\<rparr>)"
      using Some ak r r0 by (simp add: find_complete_unordered_chunk_set_def slice_def index_def)
    then have "ReassemblyQueue_push q c = (Ok True, ?q')" by (simp add: push)
    moreover have "unordered_inv tb ms (c # cs) ?q'"
      using inv newS msums r(1,2) kept
      by (auto simp: unordered_inv_def tsn_sorted_append Chunks_new_def ac_simps)
    ultimately show ?thesis by simp blast
  qed
qed

subsection \<open>All arrivals\<close>

lemma push_all_unordered:
  assumes "unordered_messages (rq_si q) (rq_max_message_size q) tb ms" "unordered_inv tb ms cs q"
    "mset cs + mset ds \<subseteq># mset (concat ms)" "rq_n_bytes q = total_len cs"
  shows "\<exists>rs q' es. push_all ds q = (rs, q') \<and> (\<forall>r \<in> set rs. is_ok r) \<and> mset es = mset cs + mset ds \<and>
    unordered_inv tb ms es q' \<and> rq_n_bytes q' = total_len es \<and> rq_ordered q' = rq_ordered q"
  using assms
proof (induction ds arbitrary: cs q)
  case (Cons c ds)
  have "add_mset c (mset cs) \<subseteq># mset cs + mset (c # ds)" by simp
  then have "add_mset c (mset cs) \<subseteq># mset (concat ms)" using Cons.prems(3) by (rule subset_mset.trans)
  from unordered_push [OF Cons.prems(1,2) this] obtain b q1 where q1: "ReassemblyQueue_push q c = (Ok b, q1)"
    "unordered_inv tb ms (c # cs) q1" "rq_si q1 = rq_si q" "rq_max_message_size q1 = rq_max_message_size q"
    "rq_ordered q1 = rq_ordered q" "rq_n_bytes q1 = rq_n_bytes q + dlen c" by blast
  have "\<exists>rs q' es. push_all ds q1 = (rs, q') \<and> (\<forall>r \<in> set rs. is_ok r) \<and> mset es = mset (c # cs) + mset ds \<and>
    unordered_inv tb ms es q' \<and> rq_n_bytes q' = total_len es \<and> rq_ordered q' = rq_ordered q1"
    using Cons.prems q1 by (intro Cons.IH) simp_all
  then show ?case using q1(1,5) by fastforce
qed auto

lemma distinct_messages:
  assumes "distinct (concat ms)" "[] \<notin> set ms" "m \<in> set ms" "m' \<in> set ms" "c \<in> set m" "c \<in> set m'"
  shows "m = m'"
  using assms by (auto simp: distinct_concat_iff)

lemma unordered_inv_final:
  assumes "unordered_messages sid limit tb ms" "unordered_inv tb ms es q" "mset es = mset (concat ms)"
  shows "rq_unordered_chunks q = [] \<and> mset (map ck_chunks (rq_unordered q)) = mset ms"
proof -
  have sorted: "tsn_sorted tb (concat ms)" using assms(1) by (simp add: unordered_messages_def)
  have dist: "distinct (concat ms)" using tsn_sorted_distinct [OF sorted] by (simp only: distinct_map)
  have ne: "[] \<notin> set ms" using assms(1) by (auto simp: unordered_messages_def complete_run_def)
  have sum: "mset (all_chunks (rq_unordered q) @ rq_unordered_chunks q) = mset (concat ms)"
    using assms(2,3) by (simp add: unordered_inv_def)
  then have dist': "distinct (all_chunks (rq_unordered q) @ rq_unordered_chunks q)"
    using dist mset_eq_imp_distinct_iff by blast
  have sets: "ck_chunks s \<in> set ms" if "s \<in> set (rq_unordered q)" for s
    using assms(2) that by (simp add: unordered_inv_def)
  have setu: "set (all_chunks (rq_unordered q)) \<union> set (rq_unordered_chunks q) = set (concat ms)"
    using mset_eq_setD [OF sum] by (simp del: set_concat)
  have empty: "rq_unordered_chunks q = []"
  proof (rule ccontr)
    assume "rq_unordered_chunks q \<noteq> []"
    then obtain d where d: "d \<in> set (rq_unordered_chunks q)" by (meson list.set_sel(1))
    then have "d \<in> set (concat ms)" using setu by blast
    then obtain m where m: "m \<in> set ms" "d \<in> set m" by auto
    have "e \<in> set (rq_unordered_chunks q)" if e: "e \<in> set m" for e
    proof (rule ccontr)
      assume "e \<notin> set (rq_unordered_chunks q)"
      moreover have "e \<in> set (concat ms)" using m e by auto
      ultimately have "e \<in> set (all_chunks (rq_unordered q))" using setu by blast
      then obtain s where s: "s \<in> set (rq_unordered q)" "e \<in> set (ck_chunks s)" by (auto simp: all_chunks_def)
      then have "ck_chunks s = m" using distinct_messages [OF dist ne sets [OF s(1)] m(1)] e by simp
      then have "d \<in> set (all_chunks (rq_unordered q))" using m(2) s(1) by (auto simp: all_chunks_def)
      with d dist' show False by auto
    qed
    then show False using assms(2) m(1) by (auto simp: unordered_inv_def)
  qed
  have "distinct (map ck_chunks (rq_unordered q))"
  proof -
    have "distinct (concat (map ck_chunks (rq_unordered q)))" using dist' by (simp add: all_chunks_def)
    moreover have "[] \<notin> set (map ck_chunks (rq_unordered q))" using sets ne by (metis image_iff image_set)
    ultimately show ?thesis by (simp add: distinct_concat_iff removeAll_id)
  qed
  moreover have "distinct ms" using dist ne by (simp add: distinct_concat_iff removeAll_id)
  moreover have "set (map ck_chunks (rq_unordered q)) = set ms"
  proof
    show "set ms \<subseteq> set (map ck_chunks (rq_unordered q))"
    proof
      fix m assume m: "m \<in> set ms"
      then have "m \<noteq> []" using ne by blast
      then obtain c where c: "c \<in> set m" by (meson list.set_sel(1))
      then have "c \<in> set (all_chunks (rq_unordered q))" using setu empty m by auto
      then obtain s where s: "s \<in> set (rq_unordered q)" "c \<in> set (ck_chunks s)" by (auto simp: all_chunks_def)
      then have "ck_chunks s = m" using distinct_messages [OF dist ne sets [OF s(1)] m] c by simp
      with s(1) show "m \<in> set (map ck_chunks (rq_unordered q))" by auto
    qed
  qed (use sets in auto)
  ultimately show ?thesis using empty set_eq_iff_mset_eq_distinct by blast
qed

lemma read_all_unordered:
  assumes "rq_unordered q = us" "rq_n_bytes q = total_len (all_chunks us)"
  shows "\<exists>q'. read_all (length us) q = (us, q') \<and> rq_unordered q' = [] \<and> rq_n_bytes q' = 0 \<and>
    rq_unordered_chunks q' = rq_unordered_chunks q"
  using assms
proof (induction us arbitrary: q)
  case (Cons u us)
  let ?q = "q\<lparr>rq_unordered := us, rq_n_bytes := total_len (all_chunks us)\<rparr>"
  have "ReassemblyQueue_read q = (Some u, ?q)"
    using Cons.prems by (simp add: ReassemblyQueue_read_def subtract_num_bytes_def Chunks_len_eq)
  with Cons.IH [of ?q] show ?case by auto
qed simp

subsection \<open>Properties\<close>

text \<open>
  C12: Reassembly of unordered messages: let the fragments of any messages with TSNs inside a
  half-space window arrive in any order whatever. Every push is accepted, reading yields exactly
  these messages (in the order in which they became complete), each with its fragments in TSN
  order, and no chunk and no counted byte is left behind.
\<close>
theorem unordered_reassembly_any_order:
  assumes "unordered_messages sid limit tb ms" "mset arrivals = mset (concat ms)"
  shows "\<exists>rs q1 sets q2. push_all arrivals (ReassemblyQueue_new sid limit) = (rs, q1) \<and> (\<forall>r \<in> set rs. is_ok r) \<and>
    read_all (length ms) q1 = (sets, q2) \<and> mset (map ck_chunks sets) = mset ms \<and>
    rq_unordered q2 = [] \<and> rq_unordered_chunks q2 = [] \<and> ReassemblyQueue_get_num_bytes q2 = 0"
proof -
  let ?q = "ReassemblyQueue_new sid limit"
  have "unordered_inv tb ms [] ?q"
    using assms(1) by (auto simp: unordered_inv_def ReassemblyQueue_new_def unordered_messages_def complete_run_def)
  then obtain rs q1 es where p: "push_all arrivals ?q = (rs, q1)" "\<forall>r \<in> set rs. is_ok r"
    "mset es = mset arrivals" "unordered_inv tb ms es q1" "rq_n_bytes q1 = total_len es"
    using push_all_unordered [of ?q tb ms "[]" arrivals] assms by (auto simp: ReassemblyQueue_new_def)
  have f: "rq_unordered_chunks q1 = []" "mset (map ck_chunks (rq_unordered q1)) = mset ms"
    using unordered_inv_final [OF assms(1) p(4)] p(3) assms(2) by simp_all
  have len: "length (rq_unordered q1) = length ms" using mset_eq_length [OF f(2)] by simp
  have "total_len es = total_len (all_chunks (rq_unordered q1))"
    using p(4) f(1) by (intro total_len_perm) (simp add: unordered_inv_def)
  with read_all_unordered [of q1 "rq_unordered q1"] p(5) obtain q2 where
    "read_all (length ms) q1 = (rq_unordered q1, q2)" "rq_unordered q2 = []" "rq_n_bytes q2 = 0"
    "rq_unordered_chunks q2 = []"
    using len f(1) by auto
  with p(1,2) f(2) show ?thesis by (auto simp: ReassemblyQueue_get_num_bytes_def)
qed

lemma example_messages_unordered: "unordered_messages 5 100 0xFFFFFFFE (example_messages True)"
  by (auto simp: unordered_messages_def example_messages_def example_data_def ChunkPayloadData_default_def
      tsn_sorted_def tsn_off_def complete_run_def less_Suc_eq nth_Cons')

theorem unordered_reassembly_any_order_witness:
  "\<exists>rs q1 sets q2. push_all (rev (concat (example_messages True))) (ReassemblyQueue_new 5 100) = (rs, q1) \<and>
    read_all 2 q1 = (sets, q2) \<and> mset (map ck_chunks sets) = mset (example_messages True) \<and>
    ReassemblyQueue_get_num_bytes q2 = 0"
proof -
  have "length (example_messages True) = 2" by (simp add: example_messages_def)
  then show ?thesis
    using unordered_reassembly_any_order [OF example_messages_unordered, of "rev (concat (example_messages True))"]
    by auto
qed

end
