(* ===== verification/Stream_State.thy ===== *)
theory Stream_State
  imports Sctp_Config Unordered_Reassembly
begin

text \<open>
  The per-stream state of an association (\<^verbatim>\<open>src/src/association/stream.rs\<close>): application
  counters, stream events, the readable and writable halves, and \<^verbatim>\<open>StreamState\<close> with the splitting
  of messages into DATA chunks. The fields of \<^verbatim>\<open>DataChannelStats\<close> carry the prefix \<open>dcs_\<close>, those of
  \<^verbatim>\<open>StreamState\<close> the prefix \<open>ss_\<close>. The loop of \<^verbatim>\<open>packetize\<close> is a partial function, since it does not
  end for a maximum payload of zero bytes.
\<close>

subsection \<open>Counters\<close>

record DataChannelStats =
  dcs_stream_identifier :: u16
  dcs_generation :: u64
  dcs_messages_sent :: u64
  dcs_bytes_sent :: u64
  dcs_messages_received :: u64
  dcs_bytes_received :: u64

definition DataChannelStats_default :: DataChannelStats where
  "DataChannelStats_default =
    \<lparr>dcs_stream_identifier = 0, dcs_generation = 0, dcs_messages_sent = 0, dcs_bytes_sent = 0,
     dcs_messages_received = 0, dcs_bytes_received = 0\<rparr>"

fun payload_bytes :: "PayloadProtocolIdentifier \<Rightarrow> usize \<Rightarrow> u64 option" where
  "payload_bytes PPI_String len = Some (if len < 2 ^ 64 then of_nat len else - 1)"
| "payload_bytes PPI_Binary len = Some (if len < 2 ^ 64 then of_nat len else - 1)"
| "payload_bytes PPI_StringEmpty len = Some 0"
| "payload_bytes PPI_BinaryEmpty len = Some 0"
| "payload_bytes _ len = None"

definition DataChannelStats_sent :: "DataChannelStats \<Rightarrow> PayloadProtocolIdentifier \<Rightarrow> usize \<Rightarrow> DataChannelStats" where
  "DataChannelStats_sent s ppi len =
    (case payload_bytes ppi len of
       Some n \<Rightarrow> s\<lparr>dcs_messages_sent := u64_saturating_add (dcs_messages_sent s) 1,
                    dcs_bytes_sent := u64_saturating_add (dcs_bytes_sent s) n\<rparr>
     | None \<Rightarrow> s)"

definition DataChannelStats_received :: "DataChannelStats \<Rightarrow> PayloadProtocolIdentifier \<Rightarrow> usize \<Rightarrow> DataChannelStats" where
  "DataChannelStats_received s ppi len =
    (case payload_bytes ppi len of
       Some n \<Rightarrow> s\<lparr>dcs_messages_received := u64_saturating_add (dcs_messages_received s) 1,
                    dcs_bytes_received := u64_saturating_add (dcs_bytes_received s) n\<rparr>
     | None \<Rightarrow> s)"

subsection \<open>Events\<close>

datatype StreamResetError = Denied | Failed

datatype StreamEvent =
    Opened u16
  | StreamReadable u16
  | StreamWritable u16
  | Finished u16
  | ResetComplete u16
  | ResetFailed u16 StreamResetError
  | Stopped u16 u16
  | Available
  | BufferedAmountLow u16
  | BufferedAmountHigh u16

subsection \<open>The two halves of a stream\<close>

datatype RecvSendState = RS_Closed | RS_Readable | RS_Writable | RS_ReadWritable

primrec RecvSendState_as_u8 :: "RecvSendState \<Rightarrow> u8" where
  "RecvSendState_as_u8 RS_Closed = 0"
| "RecvSendState_as_u8 RS_Readable = 1"
| "RecvSendState_as_u8 RS_Writable = 2"
| "RecvSendState_as_u8 RS_ReadWritable = 3"

definition RecvSendState_from :: "u8 \<Rightarrow> RecvSendState" where
  "RecvSendState_from v =
    (if v = 1 then RS_Readable else if v = 2 then RS_Writable else if v = 3 then RS_ReadWritable else RS_Closed)"

definition ReliabilityType_from :: "u8 \<Rightarrow> ReliabilityType" where
  "ReliabilityType_from v = (if v = 1 then Rexmit else if v = 2 then Timed else Reliable)"

subsection \<open>Stream state\<close>

record StreamState =
  ss_stats :: DataChannelStats
  ss_first_message_id :: u64
  ss_side :: Side
  ss_max_payload_size :: u32
  ss_stream_identifier :: u16
  ss_default_payload_type :: PayloadProtocolIdentifier
  ss_reassembly_queue :: ReassemblyQueue
  ss_sequence_number :: u16
  ss_state :: RecvSendState
  ss_unordered :: bool
  ss_reliability_type :: ReliabilityType
  ss_reliability_value :: u32
  ss_buffered_amount :: usize
  ss_buffered_amount_low :: usize
  ss_buffered_amount_high :: usize

definition StreamState_new :: "Side \<Rightarrow> u16 \<Rightarrow> u32 \<Rightarrow> u32 \<Rightarrow> PayloadProtocolIdentifier \<Rightarrow> StreamState" where
  "StreamState_new side stream_identifier max_payload_size max_receive_message_size default_payload_type =
    \<lparr>ss_stats = DataChannelStats_default\<lparr>dcs_stream_identifier := stream_identifier\<rparr>,
     ss_first_message_id = 0, ss_side = side, ss_max_payload_size = max_payload_size,
     ss_stream_identifier = stream_identifier, ss_default_payload_type = default_payload_type,
     ss_reassembly_queue = ReassemblyQueue_new stream_identifier max_receive_message_size,
     ss_sequence_number = 0, ss_state = RS_ReadWritable, ss_unordered = False,
     ss_reliability_type = Reliable, ss_reliability_value = 0, ss_buffered_amount = 0,
     ss_buffered_amount_low = 0, ss_buffered_amount_high = 2 ^ 64 - 1\<rparr>"

definition StreamState_handle_data :: "StreamState \<Rightarrow> ChunkPayloadData \<Rightarrow> bool res \<times> StreamState" where
  "StreamState_handle_data s pd =
    (let (r, q) = ReassemblyQueue_push (ss_reassembly_queue s) pd in (r, s\<lparr>ss_reassembly_queue := q\<rparr>))"

partial_function (option) packetize_loop ::
  "StreamState \<Rightarrow> bytes \<Rightarrow> PayloadProtocolIdentifier \<Rightarrow> bool \<Rightarrow> usize \<Rightarrow> usize \<Rightarrow> ChunkPayloadData list
    \<Rightarrow> ChunkPayloadData list option" where
  "packetize_loop s raw ppi unordered i remaining chunks =
    (if remaining = 0 then Some chunks
     else
       let fragment_size = min (unat (ss_max_payload_size s)) remaining;
           chunk = ChunkPayloadData_default\<lparr>d_stream_identifier := ss_stream_identifier s,
             d_user_data := take fragment_size (drop i raw), d_unordered := unordered,
             d_beginning_fragment := (i = 0), d_ending_fragment := (remaining - fragment_size = 0),
             d_immediate_sack := False, d_payload_type := ppi,
             d_stream_sequence_number := ss_sequence_number s\<rparr>
       in packetize_loop s raw ppi unordered (i + fragment_size) (remaining - fragment_size) (chunks @ [chunk]))"

definition packetize ::
  "StreamState \<Rightarrow> bytes \<Rightarrow> PayloadProtocolIdentifier \<Rightarrow> ((bool \<times> ChunkPayloadData list) \<times> StreamState) option" where
  "packetize s raw ppi =
    (let unordered = (ppi \<noteq> PPI_Dcep \<and> ss_unordered s) in
     case packetize_loop s raw ppi unordered 0 (length raw) [] of
       None \<Rightarrow> None
     | Some chunks \<Rightarrow>
         let s = (if \<not> unordered then s\<lparr>ss_sequence_number := ss_sequence_number s + 1\<rparr> else s);
             old_amount = ss_buffered_amount s;
             s = s\<lparr>ss_buffered_amount := ss_buffered_amount s + length raw\<rparr>;
             new_amount = ss_buffered_amount s;
             is_buffered_amount_high =
               (old_amount < ss_buffered_amount_high s \<and> new_amount \<ge> ss_buffered_amount_high s)
         in Some ((is_buffered_amount_high, chunks), s))"

definition on_buffer_released :: "StreamState \<Rightarrow> int \<Rightarrow> (bool \<times> StreamState) res" where
  "on_buffer_released s n_bytes_released =
    (if n_bytes_released \<le> 0 then Ok (False, s)
     else
       let from_amount = ss_buffered_amount s in
       rbind
         (if from_amount < nat n_bytes_released then Ok (0, s\<lparr>ss_buffered_amount := 0\<rparr>)
          else
            rbind (usize_sub (ss_buffered_amount s) (nat n_bytes_released)) (\<lambda>amount.
            let s = s\<lparr>ss_buffered_amount := amount\<rparr> in
            rbind (usize_sub from_amount (nat n_bytes_released)) (\<lambda>new_amount. Ok (new_amount, s))))
         (\<lambda>(new_amount, s).
       let buffered_amount_low = ss_buffered_amount_low s
       in Ok (from_amount > buffered_amount_low \<and> new_amount \<le> buffered_amount_low, s)))"

definition get_num_bytes_in_reassembly_queue :: "StreamState \<Rightarrow> usize" where
  "get_num_bytes_in_reassembly_queue s = ReassemblyQueue_get_num_bytes (ss_reassembly_queue s)"

text \<open>
  The chunks of one message: they carry the stream's identifier and the given sequence number, the
  first and only the first begins and the last and only the last ends the message, no chunk is
  empty or larger than the maximum, and all are as new: not acknowledged, abandoned or dated.
\<close>

definition packets_of :: "StreamState \<Rightarrow> bytes \<Rightarrow> PayloadProtocolIdentifier \<Rightarrow> bool \<Rightarrow> ChunkPayloadData list \<Rightarrow> bool" where
  "packets_of s raw ppi u cs \<longleftrightarrow>
    concat (map d_user_data cs) = raw \<and>
    (\<forall>k < length cs. (d_beginning_fragment (cs ! k) \<longleftrightarrow> k = 0) \<and> (d_ending_fragment (cs ! k) \<longleftrightarrow> k = length cs - 1)) \<and>
    (\<forall>c \<in> set cs. 0 < dlen c \<and> dlen c \<le> unat (ss_max_payload_size s) \<and>
      d_stream_identifier c = ss_stream_identifier s \<and> d_unordered c = u \<and> d_payload_type c = ppi \<and>
      d_stream_sequence_number c = ss_sequence_number s \<and> \<not> d_abandoned c \<and> \<not> d_acked c \<and>
      \<not> d_retransmit c \<and> d_deadline c = None)"

text \<open>
  The life of the buffered amount: the application writes messages and the association reports
  bytes that were acknowledged, abandoned or expired. A run gives the threshold flag of each call;
  \<open>None\<close> is a call that does not return.
\<close>

datatype buffer_op = Buffer bytes PayloadProtocolIdentifier | Release int

primrec buffer_step :: "StreamState \<Rightarrow> buffer_op \<Rightarrow> (bool \<times> StreamState) res option" where
  "buffer_step s (Buffer raw ppi) = map_option (\<lambda>((high, _), s). Ok (high, s)) (packetize s raw ppi)"
| "buffer_step s (Release n) = Some (on_buffer_released s n)"

fun buffer_run :: "StreamState \<Rightarrow> buffer_op list \<Rightarrow> (bool list \<times> StreamState) res option" where
  "buffer_run s [] = Some (Ok ([], s))"
| "buffer_run s (op # ops) =
    (case buffer_step s op of
       None \<Rightarrow> None
     | Some (Ok (flag, s)) \<Rightarrow> map_option (rmap (\<lambda>(flags, s). (flag # flags, s))) (buffer_run s ops)
     | Some (Err e) \<Rightarrow> Some (Err e)
     | Some Panic \<Rightarrow> Some Panic)"

text \<open>
  The bytes written minus the bytes released, which is negative when more is released than was
  written, and the amount after \<open>k\<close> calls: that balance plus the largest overdraft so far.
\<close>

primrec net_bytes :: "buffer_op \<Rightarrow> int" where
  "net_bytes (Buffer raw ppi) = int (length raw)"
| "net_bytes (Release n) = - max 0 n"

definition balance :: "StreamState \<Rightarrow> buffer_op list \<Rightarrow> int" where
  "balance s ops = int (ss_buffered_amount s) + sum_list (map net_bytes ops)"

definition amount_after :: "StreamState \<Rightarrow> buffer_op list \<Rightarrow> nat \<Rightarrow> int" where
  "amount_after s ops k =
    balance s (take k ops) + Max (insert 0 ((\<lambda>j. - balance s (take j ops)) ` {..k}))"

primrec crosses :: "StreamState \<Rightarrow> buffer_op \<Rightarrow> int \<Rightarrow> int \<Rightarrow> bool" where
  "crosses s (Buffer raw ppi) before after \<longleftrightarrow>
    before < int (ss_buffered_amount_high s) \<and> int (ss_buffered_amount_high s) \<le> after"
| "crosses s (Release n) before after \<longleftrightarrow>
    int (ss_buffered_amount_low s) < before \<and> after \<le> int (ss_buffered_amount_low s)"

definition example_stream :: StreamState where
  "example_stream = StreamState_new Client 5 2 100 PPI_Binary"

subsection \<open>Splitting messages\<close>

lemma packetize_loop_returns:
  assumes "ss_max_payload_size s \<noteq> 0" "i + remaining = length raw"
  shows "\<exists>cs. packetize_loop s raw ppi u i remaining acc = Some (acc @ cs) \<and>
    concat (map d_user_data cs) = drop i raw \<and>
    (\<forall>k < length cs. (d_beginning_fragment (cs ! k) \<longleftrightarrow> k = 0 \<and> i = 0) \<and> (d_ending_fragment (cs ! k) \<longleftrightarrow> k = length cs - 1)) \<and>
    (\<forall>c \<in> set cs. 0 < dlen c \<and> dlen c \<le> unat (ss_max_payload_size s) \<and>
      d_stream_identifier c = ss_stream_identifier s \<and> d_unordered c = u \<and> d_payload_type c = ppi \<and>
      d_stream_sequence_number c = ss_sequence_number s \<and> \<not> d_abandoned c \<and> \<not> d_acked c \<and>
      \<not> d_retransmit c \<and> d_deadline c = None)"
    (is "\<exists>cs. ?P i remaining acc cs")
  using assms(2)
proof (induction remaining arbitrary: i acc rule: less_induct)
  case (less remaining)
  let ?m = "unat (ss_max_payload_size s)"
  have m: "0 < ?m" using assms(1) by (simp add: unat_gt_0)
  show ?case
  proof (cases "remaining = 0")
    case True
    then show ?thesis using less.prems by (intro exI [of _ "[]"]) (simp add: packetize_loop.simps)
  next
    case False
    let ?f = "min ?m remaining"
    let ?c = "ChunkPayloadData_default\<lparr>d_stream_identifier := ss_stream_identifier s,
             d_user_data := take ?f (drop i raw), d_unordered := u,
             d_beginning_fragment := (i = 0), d_ending_fragment := (remaining - ?f = 0),
             d_immediate_sack := False, d_payload_type := ppi,
             d_stream_sequence_number := ss_sequence_number s\<rparr>"
    have "remaining - ?f < remaining" "i + ?f + (remaining - ?f) = length raw" using False m less.prems by auto
    from less.IH [OF this, of "acc @ [?c]"] obtain cs where cs: "?P (i + ?f) (remaining - ?f) (acc @ [?c]) cs" by blast
    then have empty: "cs = [] \<longleftrightarrow> remaining - ?f = 0"
      using less.prems False by (cases cs) auto
    have step: "packetize_loop s raw ppi u i remaining acc =
        packetize_loop s raw ppi u (i + ?f) (remaining - ?f) (acc @ [?c])"
      using False by (subst packetize_loop.simps) (simp add: Let_def)
    have "i + ?f \<noteq> 0" using False m by simp
    then have flags: "(d_beginning_fragment ((?c # cs) ! k) \<longleftrightarrow> k = 0 \<and> i = 0) \<and>
        (d_ending_fragment ((?c # cs) ! k) \<longleftrightarrow> k = length (?c # cs) - 1)" if "k < length (?c # cs)" for k
      using that cs empty by (cases k) auto
    have data: "take ?f (drop i raw) @ drop (i + ?f) raw = drop i raw"
      by (metis add.commute append_take_drop_id drop_drop)
    have len: "0 < dlen ?c" "dlen ?c \<le> ?m" using False m less.prems by auto
    show ?thesis
      using cs flags data len
      by (intro exI [of _ "?c # cs"]) (auto simp: step ChunkPayloadData_default_def simp del: length_take)
  qed
qed

lemma packetize_loop_diverges:
  assumes "packetize_loop s raw ppi u i remaining acc = Some cs"
  shows "ss_max_payload_size s = 0 \<longrightarrow> remaining = 0"
proof (rule packetize_loop.raw_induct [OF _ assms,
    where P = "\<lambda>s _ _ _ _ remaining _ _. ss_max_payload_size s = 0 \<longrightarrow> remaining = 0"])
  fix loop s raw ppi u i remaining acc cs
  assume IH: "\<And>s raw ppi u i remaining acc cs. loop s raw ppi u i remaining acc = Some cs \<Longrightarrow>
      ss_max_payload_size s = 0 \<longrightarrow> remaining = 0"
    and body: "(if remaining = 0 then Some acc
       else let fragment_size = min (unat (ss_max_payload_size s)) remaining;
                chunk = ChunkPayloadData_default\<lparr>d_stream_identifier := ss_stream_identifier s,
                  d_user_data := take fragment_size (drop i raw), d_unordered := u,
                  d_beginning_fragment := (i = 0), d_ending_fragment := (remaining - fragment_size = 0),
                  d_immediate_sack := False, d_payload_type := ppi,
                  d_stream_sequence_number := ss_sequence_number s\<rparr>
         in loop s raw ppi u (i + fragment_size) (remaining - fragment_size) (acc @ [chunk])) = Some cs"
  then show "ss_max_payload_size s = 0 \<longrightarrow> remaining = 0"
    using IH by (fastforce simp: Let_def split: if_splits)
qed

lemma packetize_Some:
  assumes "packetize s raw ppi = Some ((high, cs), s')"
  shows "s' = s\<lparr>ss_sequence_number := ss_sequence_number s + (if ppi \<noteq> PPI_Dcep \<and> ss_unordered s then 0 else 1),
      ss_buffered_amount := ss_buffered_amount s + length raw\<rparr>"
    "high \<longleftrightarrow> ss_buffered_amount s < ss_buffered_amount_high s \<and> ss_buffered_amount_high s \<le> ss_buffered_amount s + length raw"
    "packetize_loop s raw ppi (ppi \<noteq> PPI_Dcep \<and> ss_unordered s) 0 (length raw) [] = Some cs"
  using assms by (auto simp: packetize_def Let_def split: option.splits if_splits)

lemma packetize_packets_of:
  assumes "ss_max_payload_size s \<noteq> 0"
  shows "\<exists>high cs s'. packetize s raw ppi = Some ((high, cs), s') \<and> packets_of s raw ppi (ppi \<noteq> PPI_Dcep \<and> ss_unordered s) cs"
proof -
  let ?u = "ppi \<noteq> PPI_Dcep \<and> ss_unordered s"
  obtain cs where "packetize_loop s raw ppi ?u 0 (length raw) [] = Some cs" "packets_of s raw ppi ?u cs"
    using packetize_loop_returns [OF assms, of 0 "length raw" raw ppi ?u "[]"] by (auto simp: packets_of_def)
  then show ?thesis by (auto simp: packetize_def Let_def)
qed

subsection \<open>The buffered amount\<close>

lemma on_buffer_released_ok:
  "on_buffer_released s n =
    Ok (ss_buffered_amount_low s < ss_buffered_amount s \<and> nat (int (ss_buffered_amount s) - max 0 n) \<le> ss_buffered_amount_low s,
      s\<lparr>ss_buffered_amount := nat (int (ss_buffered_amount s) - max 0 n)\<rparr>)"
  by (auto simp: on_buffer_released_def Let_def nat_diff_distrib max_def)

lemma buffer_run_snoc:
  "buffer_run s ops = Some (Ok (flags, s')) \<Longrightarrow> buffer_step s' op = Some (Ok (flag, s'')) \<Longrightarrow>
    buffer_run s (ops @ [op]) = Some (Ok (flags @ [flag], s''))"
  by (induction ops arbitrary: s flags) (auto split: option.splits res.splits simp: rmap_eq_Ok)

lemma amount_after_append [simp]: "k \<le> length ops \<Longrightarrow> amount_after s (ops @ ops') k = amount_after s ops k"
  by (auto simp: amount_after_def intro!: arg_cong [where f = Max] image_cong)

lemma amount_after_nonneg: "0 \<le> amount_after s ops k"
proof -
  have "- balance s (take k ops) \<le> Max (insert 0 ((\<lambda>j. - balance s (take j ops)) ` {..k}))" by (intro Max_ge) auto
  then show ?thesis by (simp add: amount_after_def)
qed

lemma amount_after_snoc:
  "amount_after s (ops @ [op]) (Suc (length ops)) = max 0 (amount_after s ops (length ops) + net_bytes op)"
proof -
  let ?B = "\<lambda>j. - balance s (take j (ops @ [op]))"
  have "Max (insert 0 (?B ` {..Suc (length ops)})) = max (?B (Suc (length ops))) (Max (insert 0 (?B ` {..length ops})))"
    by (simp add: atMost_Suc insert_commute [of 0])
  then show ?thesis
    using amount_after_append [of "length ops" ops s "[op]"] by (simp add: amount_after_def balance_def)
qed

lemma amount_after_balance:
  assumes "\<forall>j \<le> k. 0 \<le> balance s (take j ops)"
  shows "amount_after s ops k = balance s (take k ops)"
proof -
  have "Max (insert 0 ((\<lambda>j. - balance s (take j ops)) ` {..k})) = 0" using assms by (intro Max_eqI) auto
  then show ?thesis by (simp add: amount_after_def)
qed

lemma buffer_step_ok:
  assumes "ss_max_payload_size s \<noteq> 0" "int (ss_buffered_amount s) = x"
  shows "\<exists>s'. buffer_step s op = Some (Ok (crosses s op x (max 0 (x + net_bytes op)), s')) \<and>
    int (ss_buffered_amount s') = max 0 (x + net_bytes op) \<and> ss_max_payload_size s' = ss_max_payload_size s \<and>
    ss_buffered_amount_low s' = ss_buffered_amount_low s \<and> ss_buffered_amount_high s' = ss_buffered_amount_high s"
proof (cases op)
  case (Buffer raw ppi)
  obtain high cs s' where p: "packetize s raw ppi = Some ((high, cs), s')"
    using packetize_packets_of [OF assms(1), of raw ppi] by blast
  from packetize_Some [OF p] p show ?thesis by (auto simp: Buffer assms(2) [symmetric])
next
  case (Release n)
  then show ?thesis by (auto simp: on_buffer_released_ok assms(2) [symmetric])
qed

lemma buffer_run_ok:
  assumes "ss_max_payload_size s \<noteq> 0"
  shows "\<exists>flags s'. buffer_run s ops = Some (Ok (flags, s')) \<and>
    int (ss_buffered_amount s') = amount_after s ops (length ops) \<and> length flags = length ops \<and>
    (\<forall>i < length ops. flags ! i = crosses s (ops ! i) (amount_after s ops i) (amount_after s ops (Suc i))) \<and>
    ss_max_payload_size s' = ss_max_payload_size s \<and>
    ss_buffered_amount_low s' = ss_buffered_amount_low s \<and> ss_buffered_amount_high s' = ss_buffered_amount_high s"
proof (induction ops rule: rev_induct)
  case Nil
  then show ?case by (simp add: amount_after_def balance_def)
next
  case (snoc op ops)
  then obtain flags s1 where s1: "buffer_run s ops = Some (Ok (flags, s1))"
    "int (ss_buffered_amount s1) = amount_after s ops (length ops)" "length flags = length ops"
    "\<forall>i < length ops. flags ! i = crosses s (ops ! i) (amount_after s ops i) (amount_after s ops (Suc i))"
    "ss_max_payload_size s1 = ss_max_payload_size s"
    "ss_buffered_amount_low s1 = ss_buffered_amount_low s" "ss_buffered_amount_high s1 = ss_buffered_amount_high s"
    by blast
  let ?x = "amount_after s ops (length ops)" and ?y = "amount_after s (ops @ [op]) (Suc (length ops))"
  have same: "crosses s1 op = crosses s op" using s1(6,7) by (cases op) (simp_all add: fun_eq_iff)
  obtain s2 where s2: "buffer_step s1 op = Some (Ok (crosses s op ?x ?y, s2))" "int (ss_buffered_amount s2) = ?y"
    "ss_max_payload_size s2 = ss_max_payload_size s" "ss_buffered_amount_low s2 = ss_buffered_amount_low s"
    "ss_buffered_amount_high s2 = ss_buffered_amount_high s"
    using buffer_step_ok [of s1 ?x op] assms s1(2,5-7) unfolding same amount_after_snoc by auto
  have "(flags @ [crosses s op ?x ?y]) ! i = crosses s ((ops @ [op]) ! i) (amount_after s (ops @ [op]) i)
      (amount_after s (ops @ [op]) (Suc i))" if "i < length (ops @ [op])" for i
    using that s1(3,4) by (cases "i = length ops") (auto simp: nth_append)
  with s1(3) s2(2-5) buffer_run_snoc [OF s1(1) s2(1)] show ?case
    by (intro exI [of _ "flags @ [crosses s op ?x ?y]"] exI [of _ s2]) simp
qed

subsection \<open>Properties\<close>

text \<open>
  C30: \<^verbatim>\<open>packetize\<close> splits a message faithfully: with a positive payload size it returns chunks whose
  payloads concatenate to the message, none of them empty or too large, with the stream's identifier
  and the sequence number of the message, the first one beginning and the last one ending it. The
  sequence number advances exactly for ordered messages, DCEP messages are always ordered, the
  message is added to the buffered amount and the flag says whether that crossed the high threshold.
\<close>
theorem packetize_correct:
  assumes "ss_max_payload_size s \<noteq> 0"
  shows "\<exists>high cs s'. packetize s raw ppi = Some ((high, cs), s') \<and>
    packets_of s raw ppi (ppi \<noteq> PPI_Dcep \<and> ss_unordered s) cs \<and>
    (high \<longleftrightarrow> ss_buffered_amount s < ss_buffered_amount_high s \<and> ss_buffered_amount_high s \<le> ss_buffered_amount s') \<and>
    s' = s\<lparr>ss_sequence_number := ss_sequence_number s + (if ppi \<noteq> PPI_Dcep \<and> ss_unordered s then 0 else 1),
      ss_buffered_amount := ss_buffered_amount s + length raw\<rparr>"
  using packetize_packets_of [OF assms, of raw ppi] packetize_Some [of s raw ppi] by fastforce

theorem packetize_correct_witness:
  "\<exists>high cs s'. packetize example_stream [1, 2, 3] PPI_Binary = Some ((high, cs), s') \<and>
    packets_of example_stream [1, 2, 3] PPI_Binary False cs \<and> ss_sequence_number s' = 1"
  using packetize_correct [of example_stream "[1, 2, 3]" PPI_Binary]
  by (auto simp: example_stream_def StreamState_new_def)

text \<open>
  C31: \<^verbatim>\<open>packetize\<close> returns exactly when the message is empty or the maximum payload size is positive:
  a configured payload size of zero makes the first write of a non-empty message loop for ever.
\<close>
theorem packetize_terminates:
  "(\<exists>r. packetize s raw ppi = Some r) \<longleftrightarrow> raw = [] \<or> 0 < ss_max_payload_size s"
proof (cases "ss_max_payload_size s = 0")
  case True
  then show ?thesis
    using packetize_loop_diverges [of s raw ppi "ppi \<noteq> PPI_Dcep \<and> ss_unordered s" 0 "length raw" "[]"]
    by (auto simp del: split_paired_Ex simp: packetize_def Let_def packetize_loop.simps [of _ _ _ _ _ 0] split: option.split)
qed (use packetize_packets_of [of s raw ppi] in \<open>auto simp: word_gt_0\<close>)

text \<open>
  C32: The buffered amount of a stream with a positive payload size, over any sequence of writes and
  releases, over-releases and counts that are not positive included: every call returns without a
  panic, and the amount after each call is the net balance of bytes written and released plus the
  largest overdraft so far, so it is exactly the net balance as long as no more is released than was
  written. The flag of a write is set exactly when that write takes the amount from below the high
  threshold to at least it, the flag of a release exactly when it takes the amount from above the
  low threshold to at most it.
\<close>
theorem buffered_amount_signals:
  assumes "ss_max_payload_size s \<noteq> 0"
  shows "\<exists>flags s'. buffer_run s ops = Some (Ok (flags, s')) \<and>
    int (ss_buffered_amount s') = amount_after s ops (length ops) \<and>
    (\<forall>k. (\<forall>j \<le> k. 0 \<le> balance s (take j ops)) \<longrightarrow> amount_after s ops k = balance s (take k ops)) \<and>
    length flags = length ops \<and>
    (\<forall>i < length ops. flags ! i = crosses s (ops ! i) (amount_after s ops i) (amount_after s ops (Suc i)))"
  using buffer_run_ok [OF assms, of ops] amount_after_balance by blast

theorem buffered_amount_signals_witness:
  "ss_max_payload_size example_stream \<noteq> 0 \<and>
    (\<exists>flags s'. buffer_run example_stream [Buffer [1, 2, 3] PPI_Binary, Release 2, Release 5, Buffer [4] PPI_Binary] =
      Some (Ok (flags, s')) \<and> ss_buffered_amount s' = 1 \<and> flags = [False, False, True, False])"
proof -
  let ?ops = "[Buffer [1, 2, 3] PPI_Binary, Release 2, Release 5, Buffer [4] PPI_Binary]"
  have p: "ss_max_payload_size example_stream \<noteq> 0" by (simp add: example_stream_def StreamState_new_def)
  have e: "ss_buffered_amount example_stream = 0" "ss_buffered_amount_low example_stream = 0"
    "ss_buffered_amount_high example_stream = 2 ^ 64 - 1"
    by (simp_all add: example_stream_def StreamState_new_def)
  have a: "amount_after example_stream ?ops 0 = 0" "amount_after example_stream ?ops 1 = 3"
    "amount_after example_stream ?ops 2 = 1" "amount_after example_stream ?ops 3 = 0"
    "amount_after example_stream ?ops 4 = 1"
    by (simp_all add: amount_after_def balance_def e atMost_nat_numeral atMost_Suc)
  obtain flags s' where r: "buffer_run example_stream ?ops = Some (Ok (flags, s'))"
    "int (ss_buffered_amount s') = amount_after example_stream ?ops (length ?ops)" "length flags = length ?ops"
    "\<forall>i < length ?ops. flags ! i =
      crosses example_stream (?ops ! i) (amount_after example_stream ?ops i) (amount_after example_stream ?ops (Suc i))"
    using buffered_amount_signals [OF p, of ?ops] by blast
  have "flags = [flags ! 0, flags ! 1, flags ! 2, flags ! 3]"
    using r(3) by (intro nth_equalityI) (auto simp: less_Suc_eq numeral_eq_Suc)
  moreover have "\<not> flags ! 0" "\<not> flags ! 1" "flags ! 2" "\<not> flags ! 3"
    using r(4) [rule_format, of 0] r(4) [rule_format, of 1] r(4) [rule_format, of 2] r(4) [rule_format, of 3] a
    by (simp_all add: e numeral_2_eq_2 [symmetric])
  moreover have "length ?ops = 4" by simp
  with r(2) a(5) have "ss_buffered_amount s' = 1" by (simp only: nat_int_comparison of_nat_1)
  ultimately show ?thesis using p r(1) by auto
qed

end
