(* ===== verification/Sctp_Timer.thy ===== *)
theory Sctp_Timer
  imports Sctp_Config "HOL-Library.Log_Nat" Complex_Main
begin

text \<open>
  The timers and the retransmission timeout of \<^verbatim>\<open>association/timer.rs\<close>.

  The arrays of \<^verbatim>\<open>TimerTable\<close>, which are indexed by \<^verbatim>\<open>timer as usize\<close> only, are functions on
  \<open>Timer\<close>. The smoothed deviation \<^verbatim>\<open>rttvar\<close> is an IEEE double: a finite double is its rational
  value, and every double operation of the code is the exact operation followed by \<open>f64\<close>, the
  rounding to 53 significant bits, ties to even. All values that occur lie between 0 and
  \<open>2 ^ 70\<close> and are 0 or at least \<open>2 ^ -1000\<close> after any feasible number of measurements, so neither
  overflow nor subnormal numbers are modelled.
\<close>

subsection \<open>Timers\<close>

definition ACK_INTERVAL :: u64 where "ACK_INTERVAL = 200"

datatype Timer = T1Init | T1Cookie | T2Shutdown | T3RTX | Reconfig | Ack

definition Timer_VALUES :: "Timer list" where
  "Timer_VALUES = [T1Init, T1Cookie, T2Shutdown, T3RTX, Reconfig, Ack]"

record TimerTable =
  tt_data :: "Timer \<Rightarrow> instant option"
  tt_retrans :: "Timer \<Rightarrow> usize"
  tt_max_retrans :: "Timer \<Rightarrow> usize option"
  tt_no_error_count :: "Timer \<Rightarrow> bool"
  tt_rto_max :: u64

definition TimerTable_default :: TimerTable where
  "TimerTable_default =
    \<lparr>tt_data = (\<lambda>_. None), tt_retrans = (\<lambda>_. 0), tt_max_retrans = (\<lambda>_. None),
     tt_no_error_count = (\<lambda>_. False), tt_rto_max = 60000\<rparr>"

definition TimerTable_new :: "usize option \<Rightarrow> usize option \<Rightarrow> u64 \<Rightarrow> TimerTable" where
  "TimerTable_new max_init_retransmits max_data_retransmits rto_max =
    TimerTable_default
      \<lparr>tt_max_retrans := (\<lambda>t. case t of
           T1Init \<Rightarrow> max_init_retransmits | T1Cookie \<Rightarrow> max_init_retransmits | T2Shutdown \<Rightarrow> None
         | T3RTX \<Rightarrow> max_data_retransmits | Reconfig \<Rightarrow> max_init_retransmits | Ack \<Rightarrow> None),
       tt_rto_max := rto_max\<rparr>"

definition TimerTable_set :: "TimerTable \<Rightarrow> Timer \<Rightarrow> instant option \<Rightarrow> TimerTable" where
  "TimerTable_set t timer time = t\<lparr>tt_data := (tt_data t)(timer := time)\<rparr>"

definition TimerTable_get :: "TimerTable \<Rightarrow> Timer \<Rightarrow> instant option" where
  "TimerTable_get t timer = tt_data t timer"

definition TimerTable_next_timeout :: "TimerTable \<Rightarrow> instant option" where
  "TimerTable_next_timeout t =
    (case List.map_filter (tt_data t) Timer_VALUES of [] \<Rightarrow> None | x # xs \<Rightarrow> Some (fold min xs x))"

definition calculate_next_timeout :: "u64 \<Rightarrow> usize \<Rightarrow> u64 \<Rightarrow> u64" where
  "calculate_next_timeout rto n_rtos rto_max =
    (if n_rtos < 31 then min (push_bit n_rtos rto) rto_max else rto_max)"

definition from_millis :: "u64 \<Rightarrow> nat" where
  "from_millis ms = unat ms * 1000000"

definition TimerTable_start :: "TimerTable \<Rightarrow> Timer \<Rightarrow> instant \<Rightarrow> u64 \<Rightarrow> TimerTable" where
  "TimerTable_start t timer now interval =
    (let interval = (if timer = Ack then interval
                     else calculate_next_timeout interval (tt_retrans t timer) (tt_rto_max t));
         time = now + from_millis interval
     in t\<lparr>tt_data := (tt_data t)(timer := Some time)\<rparr>)"

definition TimerTable_restart_if_stale :: "TimerTable \<Rightarrow> Timer \<Rightarrow> instant \<Rightarrow> u64 \<Rightarrow> TimerTable" where
  "TimerTable_restart_if_stale t timer now interval =
    (case tt_data t timer of
       Some current \<Rightarrow> if current \<ge> now then t else TimerTable_start t timer now interval
     | None \<Rightarrow> TimerTable_start t timer now interval)"

definition TimerTable_stop :: "TimerTable \<Rightarrow> Timer \<Rightarrow> TimerTable" where
  "TimerTable_stop t timer =
    t\<lparr>tt_data := (tt_data t)(timer := None), tt_retrans := (tt_retrans t)(timer := 0),
      tt_no_error_count := (tt_no_error_count t)(timer := False)\<rparr>"

definition TimerTable_reset_retrans :: "TimerTable \<Rightarrow> Timer \<Rightarrow> TimerTable" where
  "TimerTable_reset_retrans t timer = t\<lparr>tt_retrans := (tt_retrans t)(timer := 0)\<rparr>"

definition TimerTable_suppress_error_count :: "TimerTable \<Rightarrow> Timer \<Rightarrow> TimerTable" where
  "TimerTable_suppress_error_count t timer = t\<lparr>tt_no_error_count := (tt_no_error_count t)(timer := True)\<rparr>"

definition TimerTable_is_expired :: "TimerTable \<Rightarrow> Timer \<Rightarrow> instant \<Rightarrow> (bool \<times> bool \<times> usize) \<times> TimerTable" where
  "TimerTable_is_expired t timer after =
    (let expired = (case tt_data t timer of Some x \<Rightarrow> x \<le> after | None \<Rightarrow> False) in
     if expired then
       if tt_no_error_count t timer then
         ((expired, False, tt_retrans t timer), t\<lparr>tt_no_error_count := (tt_no_error_count t)(timer := False)\<rparr>)
       else
         let n = tt_retrans t timer + 1;
             failure = (case tt_max_retrans t timer of Some limit \<Rightarrow> n > limit | None \<Rightarrow> False)
         in ((expired, failure, n), t\<lparr>tt_retrans := (tt_retrans t)(timer := n)\<rparr>)
     else ((expired, False, tt_retrans t timer), t))"

subsection \<open>Doubles\<close>

definition round_even :: "rat \<Rightarrow> int" where
  "round_even x =
    (let n = \<lfloor>x\<rfloor>; d = x - of_int n in
     if d < 1 / 2 then n else if d > 1 / 2 then n + 1 else if even n then n else n + 1)"

text \<open>
  The unit in the last place of a positive \<open>x\<close> is the power of two that scales \<open>x\<close> into
  \<open>2 ^ 52\<close> to \<open>2 ^ 53\<close>; the bit lengths of numerator and denominator give it up to one.
\<close>

definition f64_ulp :: "rat \<Rightarrow> rat" where
  "f64_ulp x =
    (case quotient_of x of (p, q) \<Rightarrow>
       let u = (if bitlen p \<ge> bitlen q + 53 then 2 ^ nat (bitlen p - bitlen q - 53)
                else 1 / 2 ^ nat (bitlen q + 53 - bitlen p))
       in if x / u < 2 ^ 53 then u else 2 * u)"

definition f64 :: "rat \<Rightarrow> rat" where
  "f64 x = (if x \<le> 0 then 0 else of_int (round_even (x / f64_ulp x)) * f64_ulp x)"

definition u64_as_f64 :: "u64 \<Rightarrow> rat" where
  "u64_as_f64 x = f64 (of_nat (unat x))"

definition f64_as_u64 :: "rat \<Rightarrow> u64" where
  "f64_as_u64 x = (if x \<ge> 2 ^ 64 then - 1 else of_int \<lfloor>x\<rfloor>)"

definition i64_sub_abs :: "u64 \<Rightarrow> u64 \<Rightarrow> nat res" where
  "i64_sub_abs a b =
    (let d = sint a - sint b in
     if d < - (2 ^ 63) \<or> d \<ge> 2 ^ 63 \<or> d = - (2 ^ 63) then Panic else Ok (nat \<bar>d\<bar>))"

definition u64_mul :: "u64 \<Rightarrow> u64 \<Rightarrow> u64 res" where
  "u64_mul a b = (if unat a * unat b \<ge> 2 ^ 64 then Panic else Ok (a * b))"

definition u64_add :: "u64 \<Rightarrow> u64 \<Rightarrow> u64 res" where
  "u64_add a b = (if a + b < a then Panic else Ok (a + b))"

definition u64_clamp :: "u64 \<Rightarrow> u64 \<Rightarrow> u64 \<Rightarrow> u64 res" where
  "u64_clamp x lo hi = (if lo > hi then Panic else if x < lo then Ok lo else if x > hi then Ok hi else Ok x)"

subsection \<open>Retransmission timeout\<close>

definition RTO_ALPHA :: u64 where "RTO_ALPHA = 1"

definition RTO_BETA :: u64 where "RTO_BETA = 2"

definition RTO_BASE :: u64 where "RTO_BASE = 8"

record RtoManager =
  rto_srtt :: u64
  rto_rttvar :: rat
  rto_rto :: u64
  rto_no_update :: bool
  rto_initial :: u64
  rto_min :: u64
  rto_max :: u64

definition RtoManager_default :: RtoManager where
  "RtoManager_default =
    \<lparr>rto_srtt = 0, rto_rttvar = 0, rto_rto = RTO_INITIAL, rto_no_update = False, rto_initial = RTO_INITIAL,
     rto_min = RTO_MIN, rto_max = RTO_MAX\<rparr>"

definition RtoManager_new :: "u64 \<Rightarrow> u64 \<Rightarrow> u64 \<Rightarrow> RtoManager" where
  "RtoManager_new initial rmin rmax =
    \<lparr>rto_srtt = 0, rto_rttvar = 0, rto_rto = initial, rto_no_update = False, rto_initial = initial,
     rto_min = rmin, rto_max = rmax\<rparr>"

definition RtoManager_set_new_rtt :: "RtoManager \<Rightarrow> u64 \<Rightarrow> (u64 \<times> RtoManager) res" where
  "RtoManager_set_new_rtt m rtt =
    (if rto_no_update m then Ok (rto_srtt m, m)
     else
       rbind
         (if rto_srtt m = 0 then Ok (m\<lparr>rto_srtt := rtt, rto_rttvar := f64 (u64_as_f64 rtt / 2)\<rparr>)
          else
            rbind (i64_sub_abs (rto_srtt m) rtt) (\<lambda>d.
            let rttvar = f64 (f64 (f64 (u64_as_f64 (RTO_BASE - RTO_BETA) * rto_rttvar m)
                                   + f64 (u64_as_f64 RTO_BETA * f64 (of_nat d)))
                              / u64_as_f64 RTO_BASE) in
            rbind (u64_mul (RTO_BASE - RTO_ALPHA) (rto_srtt m)) (\<lambda>a.
            rbind (u64_mul RTO_ALPHA rtt) (\<lambda>b.
            rbind (u64_add a b) (\<lambda>s.
            Ok (m\<lparr>rto_srtt := s div RTO_BASE, rto_rttvar := rttvar\<rparr>))))))
         (\<lambda>m.
       rbind (u64_add (rto_srtt m) (f64_as_u64 (f64 (4 * rto_rttvar m)))) (\<lambda>x.
       rbind (u64_clamp x (rto_min m) (rto_max m)) (\<lambda>rto.
       Ok (rto_srtt m, m\<lparr>rto_rto := rto\<rparr>)))))"

definition RtoManager_get_rto :: "RtoManager \<Rightarrow> u64" where
  "RtoManager_get_rto m = rto_rto m"

definition RtoManager_reset :: "RtoManager \<Rightarrow> RtoManager" where
  "RtoManager_reset m =
    (if rto_no_update m then m else m\<lparr>rto_srtt := 0, rto_rttvar := 0, rto_rto := rto_initial m\<rparr>)"

definition RtoManager_set_rto :: "RtoManager \<Rightarrow> u64 \<Rightarrow> bool \<Rightarrow> RtoManager" where
  "RtoManager_set_rto m rto no_update = m\<lparr>rto_rto := rto, rto_no_update := no_update\<rparr>"

subsection \<open>What the timers promise\<close>

text \<open>
  One timer left alone: started, expiring exactly at its deadline and started again, \<open>k\<close> times.
  Each round yields the length of the wait, whether the failure limit was passed, and the count.
\<close>

fun timer_run :: "nat \<Rightarrow> Timer \<Rightarrow> u64 \<Rightarrow> instant \<Rightarrow> TimerTable \<Rightarrow> (nat \<times> bool \<times> usize) list" where
  "timer_run 0 timer interval now t = []"
| "timer_run (Suc k) timer interval now t =
    (let t = TimerTable_start t timer now interval in
     case TimerTable_get t timer of
       None \<Rightarrow> []
     | Some d \<Rightarrow>
         (case TimerTable_is_expired t timer d of
            ((_, failure, n), t) \<Rightarrow> (d - now, failure, n) # timer_run k timer interval d t))"

definition RtoManager_inv :: "RtoManager \<Rightarrow> bool" where
  "RtoManager_inv m \<longleftrightarrow>
    rto_srtt m \<le> 2 ^ 60 \<and> 0 \<le> rto_rttvar m \<and> rto_rttvar m \<le> 2 ^ 60 \<and> rto_min m \<le> rto_max m"

subsection \<open>Timer lemmas\<close>

lemma next_timeout_fold: "fold min xs (x::nat) \<in> set (x # xs) \<and> (\<forall>y \<in> set (x # xs). fold min xs x \<le> y)"
proof (induction xs arbitrary: x)
  case (Cons y ys)
  from Cons.IH [of "min y x"] show ?case by (auto simp: min_def split: if_splits)
qed simp

lemma set_Timer_VALUES [simp]: "set Timer_VALUES = UNIV"
proof -
  have "t \<in> set Timer_VALUES" for t by (cases t) (simp_all add: Timer_VALUES_def)
  then show ?thesis by auto
qed

lemma next_timeout_char:
  "TimerTable_next_timeout t =
    (if \<forall>timer. TimerTable_get t timer = None then None
     else Some (Min {d. \<exists>timer. TimerTable_get t timer = Some d}))"
proof -
  have s: "set (List.map_filter (tt_data t) Timer_VALUES) = {d. \<exists>timer. tt_data t timer = Some d}"
    by (force simp: List.map_filter_def image_iff)
  show ?thesis
  proof (cases "List.map_filter (tt_data t) Timer_VALUES")
    case Nil
    have "tt_data t timer = None" for timer using s Nil by (cases "tt_data t timer") auto
    with Nil show ?thesis by (simp add: TimerTable_next_timeout_def TimerTable_get_def)
  next
    case (Cons x xs)
    have fin: "finite {d. \<exists>timer. tt_data t timer = Some d}" unfolding s [symmetric] by simp
    have eq: "{d. \<exists>timer. tt_data t timer = Some d} = set (x # xs)" using s Cons by simp
    then have "\<exists>timer. tt_data t timer = Some x" by auto
    moreover have "Min (set (x # xs)) = fold min xs x"
      using next_timeout_fold [of xs x] by (intro Min_eqI) auto
    ultimately show ?thesis using Cons eq by (auto simp: TimerTable_next_timeout_def TimerTable_get_def)
  qed
qed

lemma calculate_next_timeout_doubles:
  assumes "unat rto < 2 ^ 33"
  shows "unat (calculate_next_timeout rto n rmax) =
    (if n < 31 then min (unat rto * 2 ^ n) (unat rmax) else unat rmax)"
proof (cases "n < 31")
  case True
  have "unat rto * 2 ^ n < 2 ^ 33 * 2 ^ n" using assms by simp
  also have "\<dots> \<le> 2 ^ 33 * 2 ^ 30" using True by (intro mult_left_mono power_increasing) auto
  finally have "unat rto * 2 ^ n < 2 ^ LENGTH(64)" by simp
  then have "unat (push_bit n rto) = unat rto * 2 ^ n"
    by (simp only: unsigned_push_bit_eq take_bit_nat_eq_self push_bit_nat_def)
  then show ?thesis using True by (simp add: calculate_next_timeout_def min_def word_le_nat_alt)
qed (simp add: calculate_next_timeout_def)

subsection \<open>Rounding\<close>

lemma round_even_le: "x \<le> of_int n \<Longrightarrow> round_even x \<le> n"
  unfolding round_even_def Let_def by (auto simp: floor_le_iff)

lemma round_even_nonneg: "0 \<le> x \<Longrightarrow> 0 \<le> round_even x"
  unfolding round_even_def Let_def by auto

lemma bitlen_rat_bounds:
  assumes "0 < p"
  shows "2 ^ nat (bitlen p - 1) \<le> (of_int p :: rat)" "(of_int p :: rat) < 2 ^ nat (bitlen p)"
proof -
  have "2 ^ nat (bitlen p - 1) \<le> p" "p < 2 ^ nat (bitlen p)" using bitlen_bounds [OF assms] by auto
  then have "(of_int (2 ^ nat (bitlen p - 1)) :: rat) \<le> of_int p" "(of_int p :: rat) < of_int (2 ^ nat (bitlen p))"
    by (simp_all only: of_int_le_iff of_int_less_iff)
  then show "2 ^ nat (bitlen p - 1) \<le> (of_int p :: rat)" "(of_int p :: rat) < 2 ^ nat (bitlen p)" by simp_all
qed

lemma f64_ulp_cases:
  assumes "0 < x"
  shows "0 < f64_ulp x \<and> 2 ^ 52 \<le> x / f64_ulp x \<and> (\<exists>n. f64_ulp x = 2 ^ n \<or> f64_ulp x = 1 / 2 ^ n)"
proof -
  obtain p q where pq: "quotient_of x = (p, q)" by fastforce
  then have q: "0 < q" and x: "x = of_int p / of_int q" by (auto intro: quotient_of_denom_pos quotient_of_div)
  then have p: "0 < p" using assms by (simp add: zero_less_divide_iff)
  define a where "a = nat (bitlen p - 1)"
  define b where "b = nat (bitlen q)"
  have ab: "bitlen p = int a + 1" "bitlen q = int b"
    using bitlen_nonneg [of q] p by (auto simp: a_def b_def bitlen_def floorlog_def)
  have P: "2 ^ a \<le> (of_int p :: rat)" and Q: "(of_int q :: rat) < 2 ^ b"
    using bitlen_rat_bounds(1) [OF p] bitlen_rat_bounds(2) [OF q] by (simp_all add: a_def b_def)
  have low: "(2 ^ a / 2 ^ b :: rat) \<le> x" unfolding x
    using P Q q p by (intro frac_le) auto
  show ?thesis
  proof (cases "a \<ge> b + 52")
    case True
    then obtain n where n: "a = b + 52 + n" using le_Suc_ex by blast
    let ?u = "2 ^ n :: rat"
    have ulp: "f64_ulp x = (if x / ?u < 2 ^ 53 then ?u else 2 * ?u)"
      using n ab by (simp add: f64_ulp_def pq)
    have "2 ^ 52 * ?u \<le> x" using low n by (simp add: power_add)
    then have "2 ^ 52 \<le> x / ?u" by (simp add: pos_le_divide_eq)
    then show ?thesis unfolding ulp by (auto simp: not_less pos_le_divide_eq intro: exI [of _ n] exI [of _ "Suc n"])
  next
    case False
    then obtain n where n: "b + 52 = a + n" "0 < n" by (metis add.commute le_Suc_ex less_add_same_cancel1 nat_le_linear neq0_conv add_0_right order_refl)
    let ?u = "1 / 2 ^ n :: rat"
    have ulp: "f64_ulp x = (if x / ?u < 2 ^ 53 then ?u else 2 * ?u)"
    proof -
      have "nat (bitlen q + 53 - bitlen p) = n" using n ab by simp
      moreover have "\<not> bitlen p \<ge> bitlen q + 53" using n ab by simp
      ultimately show ?thesis by (simp add: f64_ulp_def pq)
    qed
    have "2 ^ 52 * 2 ^ b = (2 ^ a * 2 ^ n :: rat)" using n(1) by (metis add.commute power_add)
    then have "2 ^ 52 * ?u \<le> 2 ^ a / 2 ^ b" by (simp add: field_simps)
    from order_trans [OF this low] have "2 ^ 52 \<le> x / ?u" by (simp add: pos_divide_le_eq)
    moreover have "2 * ?u = 1 / 2 ^ (n - 1)" using n(2) by (cases n) simp_all
    ultimately show ?thesis unfolding ulp by (auto simp: not_less field_simps intro: exI [of _ n] exI [of _ "n - 1"])
  qed
qed

lemma f64_nonneg [simp]: "0 \<le> f64 x"
  using f64_ulp_cases [of x] round_even_nonneg [of "x / f64_ulp x"] by (cases "0 < x") (auto simp: f64_def)

text \<open>Rounding does not pass a bound that is a small multiple of \<open>2 ^ 60\<close>.\<close>

lemma f64_le:
  assumes "x \<le> of_nat c * 2 ^ 60" "c \<le> 8"
  shows "f64 x \<le> of_nat c * 2 ^ 60"
proof (cases "0 < x")
  case True
  note u = f64_ulp_cases [OF True]
  have "\<exists>k. of_nat c * 2 ^ 60 = of_int k * f64_ulp x"
  proof -
    from u consider n where "f64_ulp x = 2 ^ n" | n where "f64_ulp x = 1 / 2 ^ n" by blast
    then show ?thesis
    proof cases
      case (1 n)
      have "2 ^ 52 * 2 ^ n \<le> x" using u 1 by (simp add: pos_le_divide_eq)
      also have "\<dots> \<le> of_nat c * 2 ^ 60" by (rule assms(1))
      also have "\<dots> \<le> 2 ^ 63" using assms(2) by simp
      finally have "(2 ^ (52 + n) :: rat) \<le> 2 ^ 63" by (simp add: power_add)
      then have "n \<le> 11" using power_le_imp_le_exp [of 2 "52 + n" 63] by simp
      then have "(2 ^ 60 :: rat) = 2 ^ (60 - n) * 2 ^ n" unfolding power_add [symmetric] by simp
      then have "of_nat c * 2 ^ 60 = of_int (int c * 2 ^ (60 - n)) * (2 ^ n :: rat)"
        by (simp only: of_int_mult of_int_of_nat_eq of_int_power of_int_numeral mult.assoc)
      then show ?thesis unfolding 1 by blast
    next
      case (2 n)
      have "of_nat c * 2 ^ 60 = of_int (int c * 2 ^ (60 + n)) * (1 / 2 ^ n :: rat)"
        by (simp add: power_add)
      then show ?thesis unfolding 2 by blast
    qed
  qed
  then obtain k where k: "of_nat c * 2 ^ 60 = of_int k * f64_ulp x" by blast
  then have "x / f64_ulp x \<le> of_int k" using assms(1) u by (simp add: pos_divide_le_eq)
  from round_even_le [OF this] have "(of_int (round_even (x / f64_ulp x)) :: rat) \<le> of_int k" by simp
  then show ?thesis using True u k by (simp add: f64_def mult_right_mono)
qed (simp add: f64_def)

subsection \<open>Properties\<close>

lemma timer_run_nth:
  assumes "timer \<noteq> Ack" "\<not> tt_no_error_count t timer" "i < k"
  shows "timer_run k timer interval now t ! i =
    (from_millis (calculate_next_timeout interval (tt_retrans t timer + i) (tt_rto_max t)),
     (case tt_max_retrans t timer of Some limit \<Rightarrow> tt_retrans t timer + i + 1 > limit | None \<Rightarrow> False),
     tt_retrans t timer + i + 1)"
  using assms
proof (induction k arbitrary: i now t)
  case (Suc k)
  define d where "d = now + from_millis (calculate_next_timeout interval (tt_retrans t timer) (tt_rto_max t))"
  define t' where "t' = t\<lparr>tt_data := (tt_data t)(timer := Some d),
    tt_retrans := (tt_retrans t)(timer := tt_retrans t timer + 1)\<rparr>"
  have run: "timer_run (Suc k) timer interval now t =
    (d - now, (case tt_max_retrans t timer of Some limit \<Rightarrow> tt_retrans t timer + 1 > limit | None \<Rightarrow> False),
     tt_retrans t timer + 1) # timer_run k timer interval d t'"
    using Suc.prems(1,2)
    by (simp add: TimerTable_start_def TimerTable_get_def TimerTable_is_expired_def Let_def d_def t'_def
        split: option.split)
  show ?case
  proof (cases i)
    case 0
    then show ?thesis by (simp add: run d_def del: timer_run.simps split: option.split)
  next
    case (Suc j)
    then have "timer_run k timer interval d t' ! j = (from_millis (calculate_next_timeout interval (tt_retrans t' timer + j) (tt_rto_max t')),
     (case tt_max_retrans t' timer of Some limit \<Rightarrow> tt_retrans t' timer + j + 1 > limit | None \<Rightarrow> False),
     tt_retrans t' timer + j + 1)"
      using Suc.prems by (intro Suc.IH) (auto simp: t'_def)
    then show ?thesis by (simp add: run Suc t'_def del: timer_run.simps split: option.split)
  qed
qed simp

text \<open>
  C37: Exponential back-off with a failure limit: a timer other than the acknowledgement timer that
  starts without errors and expires again and again waits \<open>rto * 2 ^ i\<close> milliseconds before its
  \<open>i\<close>-th repetition, bounded by the maximal timeout, which it waits from the 31st repetition on;
  it reports failure at exactly the expiries beyond its limit, and never without a limit.
\<close>
theorem timer_backs_off:
  assumes "timer \<noteq> Ack" "\<not> tt_no_error_count t timer" "tt_retrans t timer = 0" "unat rto < 2 ^ 33" "i < k"
  shows "timer_run k timer rto now t ! i =
    ((if i < 31 then min (unat rto * 2 ^ i) (unat (tt_rto_max t)) else unat (tt_rto_max t)) * 1000000,
     (case tt_max_retrans t timer of Some limit \<Rightarrow> limit \<le> i | None \<Rightarrow> False),
     i + 1)"
  using timer_run_nth [OF assms(1,2,5), of rto now] calculate_next_timeout_doubles [OF assms(4), of i "tt_rto_max t"]
    assms(3)
  by (auto simp: from_millis_def less_Suc_eq_le split: option.splits)

theorem timer_backs_off_witness:
  "timer_run 3 T1Init 3000 7 (TimerTable_new (Some 2) None 10000) ! 2 = (10000000000, True, 3)"
  using timer_backs_off [of T1Init "TimerTable_new (Some 2) None 10000" 3000 2 3 7]
  by (simp add: TimerTable_new_def TimerTable_default_def)

text \<open>The difference of two measurements below \<open>2 ^ 60\<close> is no overflow.\<close>

lemma i64_sub_abs_ok:
  assumes "a \<le> 2 ^ 60" "b \<le> 2 ^ 60"
  obtains d where "i64_sub_abs a b = Ok d" "d \<le> 2 ^ 60"
proof -
  have "sint w = int (unat w) \<and> int (unat w) \<le> 2 ^ 60" if "w \<le> 2 ^ 60" for w :: u64
  proof -
    have "uint w \<le> 2 ^ 60" using that by (simp add: word_le_def)
    moreover have "0 \<le> uint w" by simp
    ultimately have "signed_take_bit 63 (uint w) = uint w" by (intro signed_take_bit_int_eq_self order_trans [of "- (2 ^ 63)" 0 "uint w"]) simp_all
    then show ?thesis using \<open>uint w \<le> 2 ^ 60\<close> by (simp add: sint_uint)
  qed
  with assms have "\<bar>sint a - sint b\<bar> \<le> 2 ^ 60" by (smt (verit) of_nat_0_le_iff)
  then have "i64_sub_abs a b = Ok (nat \<bar>sint a - sint b\<bar>)" "nat \<bar>sint a - sint b\<bar> \<le> 2 ^ 60"
    by (auto simp: i64_sub_abs_def Let_def abs_if split: if_splits)
  with that show thesis by blast
qed

lemma rto_word_bound: "x \<le> 2 ^ 60 \<longleftrightarrow> unat x \<le> 2 ^ 60" for x :: u64
  by (simp add: word_le_nat_alt)

lemma f64_nat_le: "n \<le> 2 ^ 60 \<Longrightarrow> f64 (of_nat n) \<le> 2 ^ 60"
  using f64_le [of "of_nat n" 1] of_nat_mono [of n "2 ^ 60", where 'a = rat] by simp

lemma u64_as_f64_consts:
  "u64_as_f64 (RTO_BASE - RTO_BETA) = 6" "u64_as_f64 RTO_BETA = 2" "u64_as_f64 RTO_BASE = 8"
  by code_simp+

lemma rttvar_update_le:
  assumes "v \<le> 2 ^ 60" "d \<le> 2 ^ 60"
  shows "f64 (f64 (f64 (u64_as_f64 (RTO_BASE - RTO_BETA) * v) + f64 (u64_as_f64 RTO_BETA * f64 (of_nat d)))
    / u64_as_f64 RTO_BASE) \<le> 2 ^ 60"
proof -
  have "f64 (6 * v) \<le> 6 * 2 ^ 60" using f64_le [of "6 * v" 6] assms(1) by simp
  moreover have "f64 (2 * f64 (of_nat d)) \<le> 2 * 2 ^ 60"
    using f64_le [of "2 * f64 (of_nat d)" 2] f64_nat_le [OF assms(2)] by simp
  ultimately have "f64 (f64 (6 * v) + f64 (2 * f64 (of_nat d))) \<le> 8 * 2 ^ 60"
    using f64_le [of "f64 (6 * v) + f64 (2 * f64 (of_nat d))" 8] by simp
  then show ?thesis using f64_le [of _ 1] by (simp add: u64_as_f64_consts)
qed

lemma RtoManager_set_rtt_tail:
  assumes "RtoManager_inv m"
  shows "\<exists>rto. rbind (u64_add (rto_srtt m) (f64_as_u64 (f64 (4 * rto_rttvar m)))) (\<lambda>x.
      rbind (u64_clamp x (rto_min m) (rto_max m)) (\<lambda>rto. Ok (rto_srtt m, m\<lparr>rto_rto := rto\<rparr>)))
    = Ok (rto_srtt m, m\<lparr>rto_rto := rto\<rparr>) \<and> rto_min m \<le> rto \<and> rto \<le> rto_max m"
proof -
  let ?w = "f64_as_u64 (f64 (4 * rto_rttvar m))"
  have "f64 (4 * rto_rttvar m) \<le> 4 * 2 ^ 60"
    using f64_le [of "4 * rto_rttvar m" 4] assms by (simp add: RtoManager_inv_def)
  then have "\<lfloor>f64 (4 * rto_rttvar m)\<rfloor> \<le> 2 ^ 62" "\<not> 2 ^ 64 \<le> f64 (4 * rto_rttvar m)"
    by (simp_all add: floor_le_iff)
  moreover have "0 \<le> \<lfloor>f64 (4 * rto_rttvar m)\<rfloor>" by simp
  ultimately have "uint ?w = \<lfloor>f64 (4 * rto_rttvar m)\<rfloor>" "\<lfloor>f64 (4 * rto_rttvar m)\<rfloor> \<le> 2 ^ 62"
    by (simp_all only: f64_as_u64_def if_False uint_word_of_int_eq take_bit_int_eq_self_iff) simp_all
  then have "uint ?w \<le> 2 ^ 62" by simp
  then have "int (unat ?w) \<le> int (2 ^ 62)" by (simp only: of_nat_unat of_nat_power of_nat_numeral)
  then have "unat ?w \<le> 2 ^ 62" by (simp only: of_nat_le_iff)
  moreover have "unat (rto_srtt m) \<le> 2 ^ 60" using assms by (simp only: RtoManager_inv_def rto_word_bound)
  ultimately have "\<not> rto_srtt m + ?w < rto_srtt m" by (simp add: word_add_overflow)
  then show ?thesis using assms
    by (auto simp: u64_add_def u64_clamp_def RtoManager_inv_def)
qed

lemma rttvar_first_le: "rtt \<le> 2 ^ 60 \<Longrightarrow> f64 (u64_as_f64 rtt / 2) \<le> 2 ^ 60"
proof -
  assume "rtt \<le> 2 ^ 60"
  then have "u64_as_f64 rtt \<le> 2 ^ 60" unfolding u64_as_f64_def by (intro f64_nat_le) (simp only: rto_word_bound)
  moreover have "0 \<le> u64_as_f64 rtt" by (simp add: u64_as_f64_def)
  ultimately show ?thesis using f64_le [of "u64_as_f64 rtt / 2" 1] by simp
qed

lemma srtt_update:
  assumes "a \<le> 2 ^ 60" "b \<le> 2 ^ 60"
  shows "\<exists>x y s. u64_mul (RTO_BASE - RTO_ALPHA) a = Ok x \<and> u64_mul RTO_ALPHA b = Ok y \<and> u64_add x y = Ok s \<and>
    s div RTO_BASE \<le> 2 ^ 60 \<and> unat (s div RTO_BASE) = (7 * unat a + unat b) div 8"
proof -
  have ab: "unat a \<le> 2 ^ 60" "unat b \<le> 2 ^ 60" using assms by (simp_all only: rto_word_bound)
  have c: "RTO_BASE - RTO_ALPHA = 7" "RTO_ALPHA = 1" "RTO_BASE = 8" by (simp_all add: RTO_BASE_def RTO_ALPHA_def)
  have m: "unat (7 * a) = 7 * unat a" using ab by (simp add: unat_word_ariths)
  have s: "unat (7 * a + b) = 7 * unat a + unat b" using ab m by (simp add: unat_word_ariths)
  have "\<not> 7 * a + b < 7 * a" using ab m by (simp add: word_add_overflow)
  moreover have "unat ((7 * a + b) div 8) = (7 * unat a + unat b) div 8" using s by (simp add: unat_div)
  moreover have "(7 * unat a + unat b) div 8 \<le> 2 ^ 60" using ab by simp
  ultimately have "\<not> 7 * a + b < 7 * a" "(7 * a + b) div 8 \<le> 2 ^ 60"
      "unat ((7 * a + b) div 8) = (7 * unat a + unat b) div 8"
    by (simp_all only: rto_word_bound simp_thms)
  then show ?thesis using ab unfolding c by (simp add: u64_mul_def u64_add_def)
qed

lemma set_new_rtt_ok:
  assumes "RtoManager_inv m" "rtt \<le> 2 ^ 60" "\<not> rto_no_update m"
  shows "\<exists>s m'. RtoManager_set_new_rtt m rtt = Ok (s, m') \<and> RtoManager_inv m' \<and> rto_srtt m' = s \<and>
    rto_min m \<le> RtoManager_get_rto m' \<and> RtoManager_get_rto m' \<le> rto_max m \<and>
    unat s = (if rto_srtt m = 0 then unat rtt else (7 * unat (rto_srtt m) + unat rtt) div 8)"
proof (cases "rto_srtt m = 0")
  case True
  let ?m = "m\<lparr>rto_srtt := rtt, rto_rttvar := f64 (u64_as_f64 rtt / 2)\<rparr>"
  have inv: "RtoManager_inv ?m" using assms(1,2) rttvar_first_le [OF assms(2)] by (simp add: RtoManager_inv_def)
  from RtoManager_set_rtt_tail [OF this] obtain rto where "RtoManager_set_new_rtt m rtt = Ok (rtt, ?m\<lparr>rto_rto := rto\<rparr>)"
    "rto_min m \<le> rto" "rto \<le> rto_max m"
    using assms(3) True by (auto simp: RtoManager_set_new_rtt_def)
  then show ?thesis using inv True by (auto simp: RtoManager_inv_def RtoManager_get_rto_def)
next
  case False
  have bounds: "rto_srtt m \<le> 2 ^ 60" "rto_rttvar m \<le> 2 ^ 60" using assms(1) by (simp_all only: RtoManager_inv_def)
  obtain d where d: "i64_sub_abs (rto_srtt m) rtt = Ok d" "d \<le> 2 ^ 60"
    using i64_sub_abs_ok [OF bounds(1) assms(2)] .
  obtain x y s where s: "u64_mul (RTO_BASE - RTO_ALPHA) (rto_srtt m) = Ok x" "u64_mul RTO_ALPHA rtt = Ok y"
    "u64_add x y = Ok s" "s div RTO_BASE \<le> 2 ^ 60" "unat (s div RTO_BASE) = (7 * unat (rto_srtt m) + unat rtt) div 8"
    using srtt_update [OF bounds(1) assms(2)] by blast
  let ?v = "f64 (f64 (f64 (u64_as_f64 (RTO_BASE - RTO_BETA) * rto_rttvar m)
    + f64 (u64_as_f64 RTO_BETA * f64 (of_nat d))) / u64_as_f64 RTO_BASE)"
  let ?m = "m\<lparr>rto_srtt := s div RTO_BASE, rto_rttvar := ?v\<rparr>"
  have inv: "RtoManager_inv ?m"
    using assms(1) s(4) rttvar_update_le [OF bounds(2) d(2)] by (simp add: RtoManager_inv_def)
  from RtoManager_set_rtt_tail [OF this] obtain rto where
    "RtoManager_set_new_rtt m rtt = Ok (s div RTO_BASE, ?m\<lparr>rto_rto := rto\<rparr>)" "rto_min m \<le> rto" "rto \<le> rto_max m"
    using assms(3) False d(1) s(1-3) by (auto simp: RtoManager_set_new_rtt_def Let_def)
  then show ?thesis using inv False s(5) by (auto simp: RtoManager_inv_def RtoManager_get_rto_def)
qed

text \<open>
  C38: The retransmission timeout stays within its configured bounds: when the minimum is not above
  the maximum and all measurements are at most \<open>2 ^ 60\<close> milliseconds, taking a measurement neither
  panics nor leaves the invariant, the new timeout lies between the minimum and the maximum, and the
  smoothed round trip time is the measurement at first and then their weighted mean.
\<close>
theorem set_new_rtt_bounded:
  assumes "RtoManager_inv m" "rtt \<le> 2 ^ 60" "\<not> rto_no_update m"
  shows "\<exists>s m'. RtoManager_set_new_rtt m rtt = Ok (s, m') \<and> RtoManager_inv m' \<and> rto_srtt m' = s \<and>
    rto_min m \<le> RtoManager_get_rto m' \<and> RtoManager_get_rto m' \<le> rto_max m \<and>
    unat s = (if rto_srtt m = 0 then unat rtt else (7 * unat (rto_srtt m) + unat rtt) div 8)"
  using assms by (rule set_new_rtt_ok)

theorem set_new_rtt_bounded_witness:
  "\<exists>s m'. RtoManager_set_new_rtt (RtoManager_new 3000 1000 60000) 90 = Ok (s, m') \<and> unat s = 90 \<and>
    1000 \<le> RtoManager_get_rto m'"
  using set_new_rtt_bounded [of "RtoManager_new 3000 1000 60000" 90]
  by (auto simp: RtoManager_new_def RtoManager_inv_def)

text \<open>
  C40: With the minimal timeout configured above the maximal one, every measurement panics, as the
  clamping of the timeout rejects such bounds.
\<close>
theorem set_new_rtt_bad_bounds:
  assumes "rto_min m > rto_max m" "\<not> rto_no_update m"
  shows "RtoManager_set_new_rtt m rtt = Panic"
proof -
  have "u64_clamp x (rto_min m) (rto_max m) = Panic" for x using assms(1) by (simp add: u64_clamp_def)
  then show ?thesis using assms(2)
    by (simp add: RtoManager_set_new_rtt_def Let_def i64_sub_abs_def u64_mul_def u64_add_def)
qed

theorem set_new_rtt_bad_bounds_witness:
  "RtoManager_set_new_rtt (RtoManager_new 3000 2000 1000) 90 = Panic"
  using set_new_rtt_bad_bounds [of "RtoManager_new 3000 2000 1000" 90] by (simp add: RtoManager_new_def)

end
