(* ===== verification/Payload_Queue.thy ===== *)
theory Payload_Queue
  imports Data_Chunk
begin

text \<open>
  The TSN-indexed queue of \<^verbatim>\<open>src/src/queue/payload_queue.rs\<close>: the receiver's store of DATA ahead of
  the cumulative TSN and the sender's store of DATA in flight. Its abstraction is the finite map
  \<open>PayloadQueue_get q\<close> from TSNs to chunks.

  \<^item> \<open>PayloadQueue_inv\<close>: the key list is a permutation of the map's keys, every chunk is stored under
    its own TSN, and the byte counter is exact. Every operation keeps it, and under it no operation
    panics.
  \<^item> \<open>PayloadQueue_windowed b\<close>: all keys lie in the half-space window from \<open>b\<close>, and the key list is
    in window order.
  \<^item> The locale \<open>tsn_store\<close> is what a client may rely on; \<^verbatim>\<open>OutboundQueue\<close> uses its facts.
\<close>

record PayloadQueue =
  pq_chunk_map :: "(u32, ChunkPayloadData) hash_map"
  pq_sorted :: "u32 list"
  pq_dup_tsn :: "u32 list"
  pq_n_bytes :: usize

definition PayloadQueue_new :: PayloadQueue where
  "PayloadQueue_new = \<lparr>pq_chunk_map = [], pq_sorted = [], pq_dup_tsn = [], pq_n_bytes = 0\<rparr>"

definition PayloadQueue_update_sorted_keys :: "PayloadQueue \<Rightarrow> PayloadQueue" where
  "PayloadQueue_update_sorted_keys q = q\<lparr>pq_sorted := sort_by sna32lt (pq_sorted q)\<rparr>"

definition PayloadQueue_can_push :: "PayloadQueue \<Rightarrow> ChunkPayloadData \<Rightarrow> u32 \<Rightarrow> bool" where
  "PayloadQueue_can_push q p cumulative_tsn \<longleftrightarrow>
    \<not> (contains_key (pq_chunk_map q) (d_tsn p) \<or> sna32lte (d_tsn p) cumulative_tsn)"

definition PayloadQueue_push_no_check :: "PayloadQueue \<Rightarrow> ChunkPayloadData \<Rightarrow> PayloadQueue" where
  "PayloadQueue_push_no_check q p =
    PayloadQueue_update_sorted_keys
      (q\<lparr>pq_n_bytes := pq_n_bytes q + dlen p,
         pq_sorted := pq_sorted q @ [d_tsn p],
         pq_chunk_map := AList.update (d_tsn p) p (pq_chunk_map q)\<rparr>)"

definition PayloadQueue_push :: "PayloadQueue \<Rightarrow> ChunkPayloadData \<Rightarrow> u32 \<Rightarrow> bool \<times> PayloadQueue" where
  "PayloadQueue_push q p cumulative_tsn =
    (if contains_key (pq_chunk_map q) (d_tsn p) \<or> sna32lte (d_tsn p) cumulative_tsn
     then (False, q\<lparr>pq_dup_tsn := pq_dup_tsn q @ [d_tsn p]\<rparr>)
     else (True, PayloadQueue_update_sorted_keys
      (q\<lparr>pq_n_bytes := pq_n_bytes q + dlen p,
         pq_sorted := pq_sorted q @ [d_tsn p],
         pq_chunk_map := AList.update (d_tsn p) p (pq_chunk_map q)\<rparr>)))"

definition PayloadQueue_pop :: "PayloadQueue \<Rightarrow> u32 \<Rightarrow> ChunkPayloadData option \<times> PayloadQueue" where
  "PayloadQueue_pop q tsn =
    (case pq_sorted q of
       [] \<Rightarrow> (None, q)
     | t # ts \<Rightarrow>
         if tsn = t then
           let q = q\<lparr>pq_sorted := ts\<rparr> in
           (case map_of (pq_chunk_map q) tsn of
              Some c \<Rightarrow> (Some c, q\<lparr>pq_chunk_map := AList.delete tsn (pq_chunk_map q),
                                   pq_n_bytes := pq_n_bytes q - dlen c\<rparr>)
            | None \<Rightarrow> (None, q))
         else (None, q))"

text \<open>The \<^verbatim>\<open>retain\<close> of \<^verbatim>\<open>pop_up_to\<close>: the kept keys, the map and the byte counter.\<close>

fun pop_up_to_retain ::
  "u32 \<Rightarrow> u32 list \<Rightarrow> (u32, ChunkPayloadData) hash_map \<Rightarrow> nat \<Rightarrow>
    u32 list \<times> (u32, ChunkPayloadData) hash_map \<times> nat" where
  "pop_up_to_retain cumulative_tsn [] m n = ([], m, n)"
| "pop_up_to_retain cumulative_tsn (t # ts) m n =
    (if sna32lte t cumulative_tsn then
       (case map_of m t of
          Some c \<Rightarrow> pop_up_to_retain cumulative_tsn ts (AList.delete t m) (n - dlen c)
        | None \<Rightarrow> pop_up_to_retain cumulative_tsn ts m n)
     else (case pop_up_to_retain cumulative_tsn ts m n of (ks, r) \<Rightarrow> (t # ks, r)))"

definition PayloadQueue_pop_up_to :: "PayloadQueue \<Rightarrow> u32 \<Rightarrow> PayloadQueue" where
  "PayloadQueue_pop_up_to q cumulative_tsn =
    (case pop_up_to_retain cumulative_tsn (pq_sorted q) (pq_chunk_map q) (pq_n_bytes q) of
       (ks, m, n) \<Rightarrow> q\<lparr>pq_sorted := ks, pq_chunk_map := m, pq_n_bytes := n\<rparr>)"

definition PayloadQueue_get :: "PayloadQueue \<Rightarrow> u32 \<Rightarrow> ChunkPayloadData option" where
  "PayloadQueue_get q tsn = map_of (pq_chunk_map q) tsn"

text \<open>\<^verbatim>\<open>get_mut\<close> with the update that the caller makes through the reference.\<close>

definition PayloadQueue_get_mut ::
  "PayloadQueue \<Rightarrow> u32 \<Rightarrow> (ChunkPayloadData \<Rightarrow> ChunkPayloadData) \<Rightarrow> PayloadQueue" where
  "PayloadQueue_get_mut q tsn f = q\<lparr>pq_chunk_map := update_key tsn f (pq_chunk_map q)\<rparr>"

definition abandon_chunk :: "u64 \<Rightarrow> ChunkPayloadData \<Rightarrow> ChunkPayloadData" where
  "abandon_chunk message_id c =
    (if d_message_id c = message_id
     then c\<lparr>d_user_data := [], d_abandoned := True, d_retransmit := False\<rparr> else c)"

definition PayloadQueue_abandon_message :: "PayloadQueue \<Rightarrow> u64 \<Rightarrow> (usize \<times> PayloadQueue) res" where
  "PayloadQueue_abandon_message q message_id =
    (let released = vsum (\<lambda>c. if d_message_id c = message_id then dlen c else 0) (pq_chunk_map q) in
     rbind (usize_sub (pq_n_bytes q) released) (\<lambda>n.
     Ok (released, q\<lparr>pq_chunk_map := map_vals (abandon_chunk message_id) (pq_chunk_map q),
                     pq_n_bytes := n\<rparr>)))"

definition PayloadQueue_mark_all_to_retransmit :: "PayloadQueue \<Rightarrow> PayloadQueue" where
  "PayloadQueue_mark_all_to_retransmit q =
    q\<lparr>pq_chunk_map := map_vals (\<lambda>c. if \<not> d_acked c \<and> \<not> d_abandoned c then c\<lparr>d_retransmit := True\<rparr> else c)
       (pq_chunk_map q)\<rparr>"

definition PayloadQueue_pop_duplicates :: "PayloadQueue \<Rightarrow> u32 list \<times> PayloadQueue" where
  "PayloadQueue_pop_duplicates q = (pq_dup_tsn q, q\<lparr>pq_dup_tsn := []\<rparr>)"

definition gap_ack_step :: "u32 \<Rightarrow> u32 \<Rightarrow> GapAckBlock list \<Rightarrow> GapAckBlock list" where
  "gap_ack_step cumulative_tsn tsn blocks =
    (let d = tsn - cumulative_tsn in
     if d < 0x10000 then
       let offset = (ucast d :: u16) in
       if offset = 0 then blocks
       else if blocks \<noteq> [] \<and> u16_checked_add (gab_end (last blocks)) 1 = Some offset
       then butlast blocks @ [(last blocks)\<lparr>gab_end := offset\<rparr>]
       else blocks @ [\<lparr>gab_start = offset, gab_end = offset\<rparr>]
     else blocks)"

definition PayloadQueue_get_gap_ack_blocks :: "PayloadQueue \<Rightarrow> u32 \<Rightarrow> GapAckBlock list" where
  "PayloadQueue_get_gap_ack_blocks q cumulative_tsn =
    fold (gap_ack_step cumulative_tsn) (pq_sorted q) []"

definition PayloadQueue_mark_as_acked :: "PayloadQueue \<Rightarrow> u32 \<Rightarrow> (usize \<times> PayloadQueue) res" where
  "PayloadQueue_mark_as_acked q tsn =
    (case map_of (pq_chunk_map q) tsn of
       Some c \<Rightarrow>
         rbind (usize_sub (pq_n_bytes q) (dlen c)) (\<lambda>n.
         Ok (dlen c, q\<lparr>pq_chunk_map := update_key tsn
                         (\<lambda>c. c\<lparr>d_acked := True, d_retransmit := False, d_user_data := []\<rparr>) (pq_chunk_map q),
                       pq_n_bytes := n\<rparr>))
     | None \<Rightarrow> Ok (0, q))"

definition PayloadQueue_get_last_tsn_received :: "PayloadQueue \<Rightarrow> u32 option" where
  "PayloadQueue_get_last_tsn_received q = (if pq_sorted q = [] then None else Some (last (pq_sorted q)))"

definition PayloadQueue_get_num_bytes :: "PayloadQueue \<Rightarrow> usize" where
  "PayloadQueue_get_num_bytes q = pq_n_bytes q"

definition PayloadQueue_len :: "PayloadQueue \<Rightarrow> usize" where
  "PayloadQueue_len q = length (pq_chunk_map q)"

definition PayloadQueue_contains_stream :: "PayloadQueue \<Rightarrow> u16 \<Rightarrow> bool" where
  "PayloadQueue_contains_stream q stream_identifier \<longleftrightarrow>
    (\<exists>c \<in> set (vals (pq_chunk_map q)). d_stream_identifier c = stream_identifier)"

definition PayloadQueue_is_empty :: "PayloadQueue \<Rightarrow> bool" where
  "PayloadQueue_is_empty q \<longleftrightarrow> PayloadQueue_len q = 0"

subsection \<open>Invariants\<close>

definition keyed_by_tsn :: "(u32, ChunkPayloadData) hash_map \<Rightarrow> bool" where
  "keyed_by_tsn m \<longleftrightarrow> (\<forall>(k, c) \<in> set m. d_tsn c = k)"

definition PayloadQueue_inv :: "PayloadQueue \<Rightarrow> bool" where
  "PayloadQueue_inv q \<longleftrightarrow>
    distinct (keys (pq_chunk_map q)) \<and>
    keyed_by_tsn (pq_chunk_map q) \<and>
    mset (pq_sorted q) = mset (keys (pq_chunk_map q)) \<and>
    pq_n_bytes q = vsum dlen (pq_chunk_map q)"

definition PayloadQueue_windowed :: "u32 \<Rightarrow> PayloadQueue \<Rightarrow> bool" where
  "PayloadQueue_windowed b q \<longleftrightarrow>
    (\<forall>k \<in> set (pq_sorted q). unat (k - b) < 2 ^ 31) \<and>
    sorted (map (\<lambda>k. unat (k - b)) (pq_sorted q))"

text \<open>The offsets that a list of gap blocks acknowledges.\<close>

definition gap_offsets :: "GapAckBlock list \<Rightarrow> nat set" where
  "gap_offsets bs = (\<Union>b \<in> set bs. {unat (gab_start b) .. unat (gab_end b)})"

text \<open>Blocks are non-empty, ascending and separated by at least one missing offset.\<close>

definition gap_blocks_ok :: "GapAckBlock list \<Rightarrow> bool" where
  "gap_blocks_ok bs \<longleftrightarrow>
    (\<forall>b \<in> set bs. 0 < unat (gab_start b) \<and> unat (gab_start b) \<le> unat (gab_end b)) \<and>
    sorted_wrt (\<lambda>a b. unat (gab_end a) + 1 < unat (gab_start b)) bs"

text \<open>The payload bytes a message has in the queue.\<close>

definition message_bytes :: "u64 \<Rightarrow> PayloadQueue \<Rightarrow> nat" where
  "message_bytes i q = vsum (\<lambda>c. if d_message_id c = i then dlen c else 0) (pq_chunk_map q)"

text \<open>A small queue for the examples, with its TSNs on both sides of the wrap-around.\<close>

definition example_chunk :: "u32 \<Rightarrow> bytes \<Rightarrow> ChunkPayloadData" where
  "example_chunk t bs = ChunkPayloadData_default\<lparr>d_tsn := t, d_user_data := bs\<rparr>"

definition example_queue :: PayloadQueue where
  "example_queue = fold (\<lambda>p q. PayloadQueue_push_no_check q p)
    [example_chunk 2 [5], example_chunk 0xFFFFFFFF [1, 2], example_chunk 0 [3, 4]] PayloadQueue_new"

subsection \<open>Every operation keeps the invariant\<close>

named_theorems payload_queue \<open>definitions of the operations of the payload queue\<close>

declare PayloadQueue_update_sorted_keys_def [payload_queue]
  PayloadQueue_push_no_check_def [payload_queue] PayloadQueue_push_def [payload_queue]
  PayloadQueue_get_def [payload_queue] PayloadQueue_get_mut_def [payload_queue]
  PayloadQueue_abandon_message_def [payload_queue] PayloadQueue_mark_as_acked_def [payload_queue]
  PayloadQueue_mark_all_to_retransmit_def [payload_queue]

lemma keyed_simps [simp]:
  "keyed_by_tsn []" "keyed_by_tsn ((k, c) # m) \<longleftrightarrow> d_tsn c = k \<and> keyed_by_tsn m"
  "keyed_by_tsn (m @ m') \<longleftrightarrow> keyed_by_tsn m \<and> keyed_by_tsn m'"
  by (auto simp: keyed_by_tsn_def)

lemma keyed_map_vals: "(\<And>c. d_tsn (f c) = d_tsn c) \<Longrightarrow> keyed_by_tsn (map_vals f m) = keyed_by_tsn m"
  by (induction m) auto

lemma keyed_update_key: "(\<And>c. d_tsn (f c) = d_tsn c) \<Longrightarrow> keyed_by_tsn (update_key k f m) = keyed_by_tsn m"
  by (induction m) (auto split: if_splits)

lemma keyed_map_of: "keyed_by_tsn m \<Longrightarrow> map_of m t = Some c \<Longrightarrow> d_tsn c = t"
  by (auto simp: keyed_by_tsn_def dest: map_of_SomeD)

lemma PayloadQueue_invD:
  assumes "PayloadQueue_inv q"
  shows "distinct (keys (pq_chunk_map q))" "mset (pq_sorted q) = mset (keys (pq_chunk_map q))"
    "pq_n_bytes q = vsum dlen (pq_chunk_map q)" "set (pq_sorted q) = set (keys (pq_chunk_map q))"
    "distinct (pq_sorted q)" "map_of (pq_chunk_map q) t = Some c \<Longrightarrow> d_tsn c = t"
  using assms mset_eq_setD [of "pq_sorted q" "keys (pq_chunk_map q)"]
    mset_eq_imp_distinct_iff [of "pq_sorted q" "keys (pq_chunk_map q)"]
  by (auto simp: PayloadQueue_inv_def dest: keyed_map_of)

lemma PayloadQueue_inv_new [simp]: "PayloadQueue_inv PayloadQueue_new"
  by (simp add: PayloadQueue_inv_def PayloadQueue_new_def)

lemma PayloadQueue_inv_push_no_check:
  assumes "PayloadQueue_inv q" "PayloadQueue_get q (d_tsn p) = None"
  shows "PayloadQueue_inv (PayloadQueue_push_no_check q p)"
proof -
  have "d_tsn p \<notin> set (keys (pq_chunk_map q))"
    using assms(2) by (simp add: PayloadQueue_get_def map_of_eq_None_iff)
  with assms(1) show ?thesis
    by (auto simp: PayloadQueue_inv_def payload_queue update_new)
qed

lemma PayloadQueue_push_eq:
  "PayloadQueue_push q p cum =
    (if PayloadQueue_can_push q p cum then (True, PayloadQueue_push_no_check q p)
     else (False, q\<lparr>pq_dup_tsn := pq_dup_tsn q @ [d_tsn p]\<rparr>))"
  by (simp add: PayloadQueue_can_push_def payload_queue)

lemma PayloadQueue_inv_dup [simp]: "PayloadQueue_inv (q\<lparr>pq_dup_tsn := d\<rparr>) = PayloadQueue_inv q"
  by (simp add: PayloadQueue_inv_def)

lemma PayloadQueue_can_pushD: "PayloadQueue_can_push q p cum \<Longrightarrow> PayloadQueue_get q (d_tsn p) = None"
  by (simp add: PayloadQueue_can_push_def PayloadQueue_get_def)

lemma PayloadQueue_inv_push:
  "PayloadQueue_inv q \<Longrightarrow> PayloadQueue_inv (snd (PayloadQueue_push q p cum))"
  by (simp add: PayloadQueue_push_eq PayloadQueue_inv_push_no_check PayloadQueue_can_pushD)

lemma PayloadQueue_inv_map_vals:
  assumes "PayloadQueue_inv q" "\<And>c. d_tsn (f c) = d_tsn c"
    "n = vsum dlen (map_vals f (pq_chunk_map q))"
  shows "PayloadQueue_inv (q\<lparr>pq_chunk_map := map_vals f (pq_chunk_map q), pq_n_bytes := n\<rparr>)"
  using assms by (simp add: PayloadQueue_inv_def keyed_map_vals)

lemma abandon_chunk_len: "dlen (abandon_chunk i c) = (if d_message_id c = i then 0 else dlen c)"
  by (simp add: abandon_chunk_def)

lemma abandon_chunk_idem: "abandon_chunk i (abandon_chunk i c) = abandon_chunk i c"
  by (simp add: abandon_chunk_def)

lemma abandon_chunk_tsn [simp]: "d_tsn (abandon_chunk i c) = d_tsn c"
  by (simp add: abandon_chunk_def)

lemma PayloadQueue_abandon_message_ok:
  assumes "PayloadQueue_inv q"
  shows "\<exists>q'. PayloadQueue_abandon_message q i = Ok (message_bytes i q, q') \<and> PayloadQueue_inv q' \<and>
    PayloadQueue_get q' = (\<lambda>t. map_option (abandon_chunk i) (PayloadQueue_get q t)) \<and>
    pq_n_bytes q' + message_bytes i q = pq_n_bytes q \<and> pq_sorted q' = pq_sorted q"
proof -
  have n: "pq_n_bytes q = vsum dlen (pq_chunk_map q)" using assms by (rule PayloadQueue_invD)
  have split: "vsum dlen (map_vals (abandon_chunk i) (pq_chunk_map q)) + message_bytes i q
      = vsum dlen (pq_chunk_map q)"
    unfolding message_bytes_def vsum_map_vals vsum_add
    by (rule vsum_cong) (simp add: abandon_chunk_len)
  have "PayloadQueue_inv (q\<lparr>pq_chunk_map := map_vals (abandon_chunk i) (pq_chunk_map q),
      pq_n_bytes := pq_n_bytes q - message_bytes i q\<rparr>)"
    using split n by (intro PayloadQueue_inv_map_vals assms) auto
  with split n show ?thesis
    by (auto simp: PayloadQueue_abandon_message_def Let_def message_bytes_def [symmetric]
        PayloadQueue_get_def fun_eq_iff)
qed

lemma PayloadQueue_mark_as_acked_ok:
  assumes "PayloadQueue_inv q"
  shows "\<exists>n q'. PayloadQueue_mark_as_acked q t = Ok (n, q') \<and> PayloadQueue_inv q' \<and>
    n = (case PayloadQueue_get q t of None \<Rightarrow> 0 | Some c \<Rightarrow> dlen c) \<and> pq_n_bytes q' + n = pq_n_bytes q \<and>
    PayloadQueue_get q' = (PayloadQueue_get q)(t := map_option
      (\<lambda>c. c\<lparr>d_acked := True, d_retransmit := False, d_user_data := []\<rparr>) (PayloadQueue_get q t)) \<and>
    pq_sorted q' = pq_sorted q"
proof (cases "map_of (pq_chunk_map q) t")
  case None
  then show ?thesis using assms by (auto simp: payload_queue fun_upd_idem)
next
  case (Some c)
  let ?f = "\<lambda>c. c\<lparr>d_acked := True, d_retransmit := False, d_user_data := []\<rparr>"
  note inv = PayloadQueue_invD [OF assms]
  have sum: "vsum dlen (update_key t ?f (pq_chunk_map q)) + dlen c = vsum dlen (pq_chunk_map q)"
    using vsum_update_key [OF inv(1) Some, of dlen ?f] by simp
  have le: "dlen c \<le> pq_n_bytes q" using sum inv(3) by simp
  have "PayloadQueue_inv (q\<lparr>pq_chunk_map := update_key t ?f (pq_chunk_map q), pq_n_bytes := pq_n_bytes q - dlen c\<rparr>)"
    using sum assms inv(3) by (simp add: PayloadQueue_inv_def keyed_update_key)
  with Some le show ?thesis
    by (simp add: PayloadQueue_mark_as_acked_def PayloadQueue_get_def fun_eq_iff)
qed

lemma PayloadQueue_inv_mark_all:
  assumes "PayloadQueue_inv q"
  shows "PayloadQueue_inv (PayloadQueue_mark_all_to_retransmit q)"
proof -
  let ?f = "\<lambda>c. if \<not> d_acked c \<and> \<not> d_abandoned c then c\<lparr>d_retransmit := True\<rparr> else c"
  have "vsum dlen (map_vals ?f (pq_chunk_map q)) = vsum dlen (pq_chunk_map q)"
    unfolding vsum_map_vals by (rule vsum_cong) auto
  with assms show ?thesis
    by (simp add: PayloadQueue_mark_all_to_retransmit_def PayloadQueue_inv_def keyed_map_vals)
qed

lemma PayloadQueue_inv_get_mut:
  assumes "PayloadQueue_inv q" "\<And>c. d_tsn (f c) = d_tsn c" "\<And>c. dlen (f c) = dlen c"
  shows "PayloadQueue_inv (PayloadQueue_get_mut q t f)"
proof -
  have "vsum dlen (update_key t f m) = vsum dlen m" for m
    using assms(3) by (induction m) auto
  then show ?thesis
    using assms by (simp add: PayloadQueue_inv_def PayloadQueue_get_mut_def keyed_update_key)
qed

subsection \<open>Popping\<close>

lemma keyed_delete: "keyed_by_tsn m \<Longrightarrow> keyed_by_tsn (AList.delete t m)"
  by (induction m) auto

lemma keys_delete: "keys (AList.delete t m) = filter (\<lambda>k. k \<noteq> t) (keys m)"
  by (induction m) auto

lemma PayloadQueue_pop_ok:
  assumes "PayloadQueue_inv q" "pq_sorted q = t # ts"
  shows "\<exists>c q'. PayloadQueue_pop q t = (Some c, q') \<and> PayloadQueue_get q t = Some c \<and>
    PayloadQueue_inv q' \<and> pq_sorted q' = ts \<and> PayloadQueue_get q' = (PayloadQueue_get q)(t := None) \<and>
    pq_n_bytes q' + dlen c = pq_n_bytes q \<and> pq_dup_tsn q' = pq_dup_tsn q"
proof -
  note inv = PayloadQueue_invD [OF assms(1)]
  have "t \<in> set (keys (pq_chunk_map q))" using inv(4) assms(2) by auto
  then obtain c where c: "map_of (pq_chunk_map q) t = Some c"
    by (metis map_of_eq_None_iff not_None_eq set_map)
  have sum: "vsum dlen (AList.delete t (pq_chunk_map q)) + dlen c = pq_n_bytes q"
    using vsum_delete [OF inv(1) c] inv(3) by simp
  have "distinct (t # ts)" using inv(5) assms(2) by simp
  then have "filter (\<lambda>k. k \<noteq> t) (t # ts) = ts" by (auto simp: filter_id_conv)
  moreover have "mset (filter (\<lambda>k. k \<noteq> t) (keys (pq_chunk_map q))) = mset (filter (\<lambda>k. k \<noteq> t) (t # ts))"
    by (simp only: mset_filter inv(2) [symmetric] assms(2))
  ultimately have "PayloadQueue_inv (q\<lparr>pq_sorted := ts, pq_chunk_map := AList.delete t (pq_chunk_map q),
      pq_n_bytes := pq_n_bytes q - dlen c\<rparr>)"
    using sum assms(1) inv(1)
    by (simp add: PayloadQueue_inv_def keyed_delete keys_delete distinct_delete flip: mset_map)
  with c sum assms(2) show ?thesis
    by (simp add: PayloadQueue_pop_def PayloadQueue_get_def delete_conv fun_eq_iff)
qed

lemma PayloadQueue_pop_other:
  "pq_sorted q = [] \<or> hd (pq_sorted q) \<noteq> t \<Longrightarrow> PayloadQueue_pop q t = (None, q)"
  by (auto simp: PayloadQueue_pop_def split: list.splits)

lemma pop_up_to_retain_spec:
  assumes "distinct ts" "set ts \<subseteq> set (keys m)" "distinct (keys m)" "n = vsum dlen m" "keyed_by_tsn m"
    "pop_up_to_retain cum ts m n = (ks, m', n')"
  shows "ks = filter (\<lambda>t. \<not> sna32lte t cum) ts \<and> n' = vsum dlen m' \<and> keyed_by_tsn m' \<and>
    keys m' = filter (\<lambda>k. \<not> (k \<in> set ts \<and> sna32lte k cum)) (keys m) \<and>
    map_of m' = (\<lambda>t. if t \<in> set ts \<and> sna32lte t cum then None else map_of m t)"
  using assms
proof (induction cum ts m n arbitrary: ks rule: pop_up_to_retain.induct)
  case (1 cum m n)
  then show ?case by auto
next
  case (2 cum t ts m n)
  show ?case
  proof (cases "sna32lte t cum")
    case True
    obtain c where c: "map_of m t = Some c"
      using 2(5) by (metis insert_subset list.set(2) map_of_eq_None_iff not_None_eq set_map)
    have sum: "vsum dlen (AList.delete t m) + dlen c = vsum dlen m"
      using vsum_delete [OF _ c] 2(6) by simp
    have sub: "set ts \<subseteq> set (keys (AList.delete t m))"
      using 2(4,5) by (auto simp: keys_delete)
    have IH: "ks = filter (\<lambda>t. \<not> sna32lte t cum) ts \<and> n' = vsum dlen m' \<and> keyed_by_tsn m' \<and>
      keys m' = filter (\<lambda>k. \<not> (k \<in> set ts \<and> sna32lte k cum)) (keys (AList.delete t m)) \<and>
      map_of m' = (\<lambda>u. if u \<in> set ts \<and> sna32lte u cum then None else map_of (AList.delete t m) u)"
      using 2(4-9) True c sum sub
      by (intro "2.IH"(2)) (auto simp: keyed_delete distinct_delete)
    with True show ?thesis
      by (auto simp: keys_delete delete_conv fun_eq_iff intro!: filter_cong)
  next
    case False
    then obtain ks' where ks': "pop_up_to_retain cum ts m n = (ks', m', n')" "ks = t # ks'"
      using 2(9) by (auto split: prod.splits)
    have "ks' = filter (\<lambda>t. \<not> sna32lte t cum) ts \<and> n' = vsum dlen m' \<and> keyed_by_tsn m' \<and>
      keys m' = filter (\<lambda>k. \<not> (k \<in> set ts \<and> sna32lte k cum)) (keys m) \<and>
      map_of m' = (\<lambda>u. if u \<in> set ts \<and> sna32lte u cum then None else map_of m u)"
      using 2(4-8) False ks'(1) by (intro "2.IH"(3)) auto
    with False ks'(2) show ?thesis
      by (auto simp: fun_eq_iff intro!: filter_cong)
  qed
qed

lemma PayloadQueue_pop_up_to_ok:
  assumes "PayloadQueue_inv q"
  shows "PayloadQueue_inv (PayloadQueue_pop_up_to q cum) \<and>
    PayloadQueue_get (PayloadQueue_pop_up_to q cum) =
      (\<lambda>t. if sna32lte t cum then None else PayloadQueue_get q t) \<and>
    pq_sorted (PayloadQueue_pop_up_to q cum) = filter (\<lambda>t. \<not> sna32lte t cum) (pq_sorted q) \<and>
    pq_dup_tsn (PayloadQueue_pop_up_to q cum) = pq_dup_tsn q"
proof -
  note inv = PayloadQueue_invD [OF assms]
  obtain ks m n where r: "pop_up_to_retain cum (pq_sorted q) (pq_chunk_map q) (pq_n_bytes q) = (ks, m, n)"
    by (metis surj_pair)
  have key: "keyed_by_tsn (pq_chunk_map q)" using assms by (simp add: PayloadQueue_inv_def)
  note spec = pop_up_to_retain_spec [OF inv(5) _ inv(1) inv(3) key r]
  have s: "ks = filter (\<lambda>t. \<not> sna32lte t cum) (pq_sorted q)" "n = vsum dlen m" "keyed_by_tsn m"
    "keys m = filter (\<lambda>k. \<not> (k \<in> set (pq_sorted q) \<and> sna32lte k cum)) (keys (pq_chunk_map q))"
    "map_of m = (\<lambda>t. if t \<in> set (pq_sorted q) \<and> sna32lte t cum then None else map_of (pq_chunk_map q) t)"
    using spec inv(4) by auto
  have keys: "keys m = filter (\<lambda>k. \<not> sna32lte k cum) (keys (pq_chunk_map q))"
    unfolding s(4) inv(4) by (rule filter_cong) auto
  have ms: "mset ks = mset (keys m)" unfolding keys s(1) mset_filter by (simp only: inv(2))
  have get: "map_of m = (\<lambda>t. if sna32lte t cum then None else map_of (pq_chunk_map q) t)"
    using s(5) inv(4) by (auto simp: fun_eq_iff map_of_eq_None_iff)
  have dist: "distinct (keys m)" unfolding keys using inv(1) by simp
  have "PayloadQueue_pop_up_to q cum = q\<lparr>pq_sorted := ks, pq_chunk_map := m, pq_n_bytes := n\<rparr>"
    using r by (simp add: PayloadQueue_pop_up_to_def)
  then show ?thesis
    using ms dist s(1-3) get
    by (simp add: PayloadQueue_inv_def PayloadQueue_get_def fun_eq_iff del: mset_map)
qed

subsection \<open>Window order\<close>

lemma PayloadQueue_windowed_new [simp]: "PayloadQueue_windowed b PayloadQueue_new"
  by (simp add: PayloadQueue_windowed_def PayloadQueue_new_def)

lemma PayloadQueue_windowed_push_no_check:
  assumes "PayloadQueue_windowed b q" "unat (d_tsn p - b) < 2 ^ 31"
  shows "PayloadQueue_windowed b (PayloadQueue_push_no_check q p)"
proof -
  have win: "\<forall>k \<in> set (pq_sorted q @ [d_tsn p]). unat (k - b) < 2 ^ 31"
    using assms by (auto simp: PayloadQueue_windowed_def)
  show ?thesis
    using tsn.sorted_sort [OF win] win by (simp add: PayloadQueue_windowed_def payload_queue)
qed

lemma PayloadQueue_windowed_pop:
  "PayloadQueue_windowed b q \<Longrightarrow> PayloadQueue_windowed b (snd (PayloadQueue_pop q t))"
  by (auto simp: PayloadQueue_windowed_def PayloadQueue_pop_def Let_def split: list.splits option.splits)

lemma PayloadQueue_windowed_sorted_eq:
  "PayloadQueue_windowed b q \<Longrightarrow> pq_sorted q' = pq_sorted q \<Longrightarrow> PayloadQueue_windowed b q'"
  by (simp add: PayloadQueue_windowed_def)

lemma PayloadQueue_windowed_pop_up_to:
  assumes "PayloadQueue_inv q" "PayloadQueue_windowed b q"
  shows "PayloadQueue_windowed b (PayloadQueue_pop_up_to q cum)"
  using assms PayloadQueue_pop_up_to_ok [OF assms(1), of cum]
  by (auto simp: PayloadQueue_windowed_def intro: sorted_filter)

subsection \<open>Gap blocks\<close>

lemma gap_ack_step_cases:
  assumes "unat (t - cum) = n"
  shows "gap_ack_step cum t bs =
    (if n = 0 \<or> 2 ^ 16 \<le> n then bs
     else if bs \<noteq> [] \<and> unat (gab_end (last bs)) + 1 = n
     then butlast bs @ [(last bs)\<lparr>gab_end := of_nat n\<rparr>]
     else bs @ [\<lparr>gab_start = of_nat n, gab_end = of_nat n\<rparr>])"
proof -
  have conv: "ucast (t - cum) = (of_nat n :: u16)" by (simp flip: assms)
  have un: "n < 2 ^ 16 \<Longrightarrow> unat (of_nat n :: u16) = n" by (simp add: unat_of_nat)
  have z: "n < 2 ^ 16 \<Longrightarrow> (of_nat n :: u16) = 0 \<longleftrightarrow> n = 0" using un unat_eq_0 [of "of_nat n :: u16"] by simp
  show ?thesis
    by (auto simp: gap_ack_step_def Let_def conv assms u16_checked_add_1_eq_Some un z word_less_nat_alt)
qed

lemma gap_offsets_simps [simp]:
  "gap_offsets [] = {}"
  "gap_offsets (bs @ [b]) = gap_offsets bs \<union> {unat (gab_start b) .. unat (gab_end b)}"
  by (auto simp: gap_offsets_def)

lemma gap_blocks_ok_snoc:
  "gap_blocks_ok (bs @ [b]) \<longleftrightarrow> gap_blocks_ok bs \<and> 0 < unat (gab_start b) \<and>
    unat (gab_start b) \<le> unat (gab_end b) \<and> (\<forall>a \<in> set bs. unat (gab_end a) + 1 < unat (gab_start b))"
  by (auto simp: gap_blocks_ok_def sorted_wrt_append)

lemma gap_ack_fold:
  assumes "sorted_wrt (\<lambda>s t. unat (s - cum) < unat (t - cum)) ts"
  defines "bs \<equiv> fold (gap_ack_step cum) ts []"
  shows "gap_blocks_ok bs \<and> gap_offsets bs = {n. 0 < n \<and> n < 2 ^ 16 \<and> n \<in> (\<lambda>t. unat (t - cum)) ` set ts} \<and>
    (\<forall>b \<in> set bs. unat (gab_end b) \<in> (\<lambda>t. unat (t - cum)) ` set ts)"
  using assms(1) unfolding bs_def
proof (induction ts rule: rev_induct)
  case Nil
  then show ?case by (auto simp: gap_blocks_ok_def)
next
  case (snoc t ts)
  define n where "n = unat (t - cum)"
  let ?bs = "fold (gap_ack_step cum) ts []"
  have IH: "gap_blocks_ok ?bs" "gap_offsets ?bs = {n. 0 < n \<and> n < 2 ^ 16 \<and> n \<in> (\<lambda>t. unat (t - cum)) ` set ts}"
    "\<forall>b \<in> set ?bs. unat (gab_end b) \<in> (\<lambda>t. unat (t - cum)) ` set ts"
    using snoc by (auto simp: sorted_wrt_append)
  have less: "\<forall>b \<in> set ?bs. unat (gab_end b) < n"
    using IH(3) snoc.prems by (auto simp: sorted_wrt_append n_def)
  have un: "n < 2 ^ 16 \<Longrightarrow> unat (of_nat n :: u16) = n" by (simp add: unat_of_nat)
  note step = gap_ack_step_cases [OF n_def [symmetric], of ?bs]
  have gap: "\<forall>b \<in> set ?bs. unat (gab_end b) + 1 < n" if "?bs = [] \<or> unat (gab_end (last ?bs)) + 1 \<noteq> n"
  proof (cases ?bs rule: rev_cases)
    case (snoc bs' l)
    then have "unat (gab_end l) < n" "unat (gab_end l) + 1 \<noteq> n" using less that by auto
    with snoc IH(1) show ?thesis by (fastforce simp: gap_blocks_ok_snoc)
  qed simp
  have pos: "\<not> (n = 0 \<or> 2 ^ 16 \<le> n) \<Longrightarrow> 0 < n \<and> n < 2 ^ 16" by auto
  consider (skip) "n = 0 \<or> 2 ^ 16 \<le> n"
    | (extend) "0 < n" "n < 2 ^ 16" "?bs \<noteq> []" "unat (gab_end (last ?bs)) + 1 = n"
    | (fresh) "0 < n" "n < 2 ^ 16" "\<forall>b \<in> set ?bs. unat (gab_end b) + 1 < n"
    using gap pos by metis
  then show ?case
  proof cases
    case skip
    then have "gap_ack_step cum t ?bs = ?bs" by (simp add: step)
    with IH skip show ?thesis by (auto simp: n_def [symmetric])
  next
    case extend
    obtain bs' l where bl: "?bs = bs' @ [l]" using extend(3) by (cases ?bs rule: rev_cases) auto
    have "gap_ack_step cum t ?bs = bs' @ [l\<lparr>gab_end := of_nat n\<rparr>]"
      using extend step by (simp add: bl)
    moreover have "{unat (gab_start l) .. n} = {unat (gab_start l) .. unat (gab_end l)} \<union> {n}"
      using extend(4) IH(1) by (auto simp: bl gap_blocks_ok_snoc)
    ultimately show ?thesis
      using IH extend un by (auto simp: bl gap_blocks_ok_snoc n_def [symmetric])
  next
    case fresh
    have "gap_ack_step cum t ?bs = ?bs @ [\<lparr>gab_start = of_nat n, gab_end = of_nat n\<rparr>]"
      using fresh step by (cases "?bs = []") auto
    then show ?thesis
      using IH fresh un by (auto simp: gap_blocks_ok_snoc n_def [symmetric])
  qed
qed

subsection \<open>What a client relies on\<close>

text \<open>
  A store of chunks by TSN: a partial map under an invariant, with a byte count that follows every
  change.
\<close>

locale tsn_store =
  fixes get :: "'q \<Rightarrow> u32 \<Rightarrow> ChunkPayloadData option"
    and push :: "'q \<Rightarrow> ChunkPayloadData \<Rightarrow> 'q"
    and abandon :: "'q \<Rightarrow> u64 \<Rightarrow> (usize \<times> 'q) res"
    and acked :: "'q \<Rightarrow> u32 \<Rightarrow> (usize \<times> 'q) res"
    and num_bytes :: "'q \<Rightarrow> usize"
    and inv :: "'q \<Rightarrow> bool"
  assumes get_push: "inv q \<Longrightarrow> get q (d_tsn p) = None \<Longrightarrow> get (push q p) = (get q)(d_tsn p \<mapsto> p)"
    and inv_push: "inv q \<Longrightarrow> get q (d_tsn p) = None \<Longrightarrow> inv (push q p)"
    and bytes_push: "inv q \<Longrightarrow> get q (d_tsn p) = None \<Longrightarrow> num_bytes (push q p) = num_bytes q + dlen p"
    and abandon_ok: "inv q \<Longrightarrow> \<exists>n q'. abandon q i = Ok (n, q') \<and> inv q' \<and>
      get q' = (\<lambda>t. map_option (abandon_chunk i) (get q t)) \<and> num_bytes q' + n = num_bytes q"
    and acked_ok: "inv q \<Longrightarrow> \<exists>n q'. acked q t = Ok (n, q') \<and> inv q' \<and> num_bytes q' + n = num_bytes q \<and>
      n = (case get q t of None \<Rightarrow> 0 | Some c \<Rightarrow> dlen c) \<and>
      get q' = (get q)(t := map_option
        (\<lambda>c. c\<lparr>d_acked := True, d_retransmit := False, d_user_data := []\<rparr>) (get q t))"
begin

lemma push_all:
  assumes "inv q" "distinct (map d_tsn ps)" "\<forall>p \<in> set ps. get q (d_tsn p) = None"
  shows "inv (fold (\<lambda>p q. push q p) ps q)
    \<and> get (fold (\<lambda>p q. push q p) ps q) = get q ++ map_of (map (\<lambda>p. (d_tsn p, p)) ps)
    \<and> num_bytes (fold (\<lambda>p q. push q p) ps q) = num_bytes q + total_len ps"
  using assms
proof (induction ps arbitrary: q)
  case (Cons p ps)
  then have q: "inv (push q p)" "get (push q p) = (get q)(d_tsn p \<mapsto> p)"
    "num_bytes (push q p) = num_bytes q + dlen p"
    by (auto simp: get_push inv_push bytes_push)
  have "\<forall>r \<in> set ps. get (push q p) (d_tsn r) = None"
    using Cons.prems(2,3) q(2) by (auto simp: image_iff)
  note IH = Cons.IH [OF q(1) _ this, unfolded q(2,3)]
  have "map_of (map (\<lambda>p. (d_tsn p, p)) ps) (d_tsn p) = None"
    using Cons.prems(2) by (auto simp: map_of_eq_None_iff)
  then have "(get q)(d_tsn p \<mapsto> p) ++ map_of (map (\<lambda>p. (d_tsn p, p)) ps)
      = get q ++ (map_of (map (\<lambda>p. (d_tsn p, p)) ps))(d_tsn p \<mapsto> p)"
    by (auto simp: map_add_def split: option.splits)
  then show ?case
    using IH Cons.prems(2)
    by (auto simp only: fold_simps list.map map_of.simps fst_conv snd_conv total_len_simps distinct.simps
        add.assoc)
qed simp

lemma abandon_idem:
  assumes "inv q" "abandon q i = Ok (n, q')" "abandon q' i = Ok (n', q'')"
  shows "get q'' = get q'"
proof -
  have i: "inv q'" and g: "get q' = (\<lambda>t. map_option (abandon_chunk i) (get q t))"
    using abandon_ok [OF assms(1), of i] assms(2) by auto
  have "get q'' = (\<lambda>t. map_option (abandon_chunk i) (get q' t))"
    using abandon_ok [OF i, of i] assms(3) by auto
  then show ?thesis
    by (simp add: g option.map_comp comp_def abandon_chunk_idem)
qed

end

lemma PayloadQueue_get_push_no_check:
  "PayloadQueue_get (PayloadQueue_push_no_check q p) = (PayloadQueue_get q)(d_tsn p \<mapsto> p)"
  by (simp add: payload_queue update_conv fun_eq_iff)

interpretation pq: tsn_store PayloadQueue_get PayloadQueue_push_no_check PayloadQueue_abandon_message
  PayloadQueue_mark_as_acked PayloadQueue_get_num_bytes PayloadQueue_inv
proof
  fix q :: PayloadQueue and p :: ChunkPayloadData and i :: u64 and t :: u32
  assume inv: "PayloadQueue_inv q"
  show "PayloadQueue_get (PayloadQueue_push_no_check q p) = (PayloadQueue_get q)(d_tsn p \<mapsto> p)"
    by (rule PayloadQueue_get_push_no_check)
  show "PayloadQueue_get q (d_tsn p) = None \<Longrightarrow> PayloadQueue_inv (PayloadQueue_push_no_check q p)"
    using inv by (rule PayloadQueue_inv_push_no_check)
  show "PayloadQueue_get_num_bytes (PayloadQueue_push_no_check q p) = PayloadQueue_get_num_bytes q + dlen p"
    by (simp add: PayloadQueue_get_num_bytes_def payload_queue)
  show "\<exists>n q'. PayloadQueue_abandon_message q i = Ok (n, q') \<and> PayloadQueue_inv q' \<and>
      PayloadQueue_get q' = (\<lambda>t. map_option (abandon_chunk i) (PayloadQueue_get q t)) \<and>
      PayloadQueue_get_num_bytes q' + n = PayloadQueue_get_num_bytes q"
    using PayloadQueue_abandon_message_ok [OF inv, of i] by (auto simp: PayloadQueue_get_num_bytes_def)
  show "\<exists>n q'. PayloadQueue_mark_as_acked q t = Ok (n, q') \<and> PayloadQueue_inv q' \<and>
      PayloadQueue_get_num_bytes q' + n = PayloadQueue_get_num_bytes q \<and>
      n = (case PayloadQueue_get q t of None \<Rightarrow> 0 | Some c \<Rightarrow> dlen c) \<and>
      PayloadQueue_get q' = (PayloadQueue_get q)(t := map_option
        (\<lambda>c. c\<lparr>d_acked := True, d_retransmit := False, d_user_data := []\<rparr>) (PayloadQueue_get q t))"
    using PayloadQueue_mark_as_acked_ok [OF inv, of t] by (auto simp: PayloadQueue_get_num_bytes_def)
qed

subsection \<open>Properties\<close>

text \<open>
  C18: The payload queue implements a finite map from TSNs to chunks. Under the invariant every
  operation keeps the invariant and acts on the map as its name says, pushing reports and records a
  duplicate exactly when the TSN is stored or at or below the cumulative TSN, and the two operations
  that subtract from the byte counter never underflow.
\<close>
theorem PayloadQueue_refines_map:
  assumes "PayloadQueue_inv q"
  shows "PayloadQueue_inv (snd (PayloadQueue_push q p cum))
    \<and> (fst (PayloadQueue_push q p cum) \<longleftrightarrow> PayloadQueue_get q (d_tsn p) = None \<and> sna32gt (d_tsn p) cum)
    \<and> PayloadQueue_get (snd (PayloadQueue_push q p cum)) =
        (if fst (PayloadQueue_push q p cum) then (PayloadQueue_get q)(d_tsn p \<mapsto> p) else PayloadQueue_get q)
    \<and> PayloadQueue_inv (PayloadQueue_pop_up_to q cum)
    \<and> PayloadQueue_get (PayloadQueue_pop_up_to q cum) =
        (\<lambda>t. if sna32lte t cum then None else PayloadQueue_get q t)
    \<and> (\<exists>n q'. PayloadQueue_abandon_message q i = Ok (n, q') \<and> PayloadQueue_inv q' \<and>
        PayloadQueue_get q' = (\<lambda>t. map_option (abandon_chunk i) (PayloadQueue_get q t)))
    \<and> (\<exists>n q'. PayloadQueue_mark_as_acked q cum = Ok (n, q') \<and> PayloadQueue_inv q' \<and>
        PayloadQueue_get q' = (PayloadQueue_get q)(cum := map_option
          (\<lambda>c. c\<lparr>d_acked := True, d_retransmit := False, d_user_data := []\<rparr>) (PayloadQueue_get q cum)))"
proof (intro conjI)
  show "fst (PayloadQueue_push q p cum) \<longleftrightarrow> PayloadQueue_get q (d_tsn p) = None \<and> sna32gt (d_tsn p) cum"
    by (auto simp: PayloadQueue_push_eq PayloadQueue_can_push_def PayloadQueue_get_def sna32gt_not_lte)
  show "PayloadQueue_get (snd (PayloadQueue_push q p cum)) =
      (if fst (PayloadQueue_push q p cum) then (PayloadQueue_get q)(d_tsn p \<mapsto> p) else PayloadQueue_get q)"
    by (simp add: PayloadQueue_push_eq PayloadQueue_get_push_no_check) (simp add: PayloadQueue_get_def fun_eq_iff)
qed (use assms PayloadQueue_inv_push PayloadQueue_pop_up_to_ok PayloadQueue_abandon_message_ok
      PayloadQueue_mark_as_acked_ok in \<open>blast+\<close>)

lemma example_queue_inv: "PayloadQueue_inv example_queue"
  by code_simp

theorem PayloadQueue_refines_map_witness:
  "PayloadQueue_inv example_queue
    \<and> PayloadQueue_get (PayloadQueue_pop_up_to example_queue 0) 0xFFFFFFFF = None
    \<and> fst (PayloadQueue_push example_queue (example_chunk 3 []) 0) = True"
proof -
  have "PayloadQueue_get example_queue 3 = None" "sna32gt 3 0" "sna32lte 0xFFFFFFFF 0" by code_simp+
  then show ?thesis
    using PayloadQueue_refines_map [OF example_queue_inv, of "example_chunk 3 []" 0 0] example_queue_inv
    by (simp add: example_chunk_def)
qed

text \<open>
  C15: The gap blocks of a selective acknowledgement are exact: for a queue whose TSNs lie in the
  half-space window from the cumulative TSN, the offsets covered by the blocks are exactly the
  distances from the cumulative TSN to the queued TSNs that fit in 16 bits, and the blocks are
  non-empty, ascending and pairwise separated by at least one missing TSN.
\<close>
theorem gap_ack_blocks_exact:
  assumes "PayloadQueue_inv q" "PayloadQueue_windowed cum q"
  shows "gap_offsets (PayloadQueue_get_gap_ack_blocks q cum) =
      {n. 0 < n \<and> n < 2 ^ 16 \<and> (\<exists>t. PayloadQueue_get q t \<noteq> None \<and> n = unat (t - cum))}
    \<and> gap_blocks_ok (PayloadQueue_get_gap_ack_blocks q cum)"
proof -
  note inv = PayloadQueue_invD [OF assms(1)]
  have "distinct (map (\<lambda>k. unat (k - cum)) (pq_sorted q))"
    using inv(5) tsn.inj_off by (simp add: distinct_map)
  with assms(2) have "sorted_wrt (<) (map (\<lambda>k. unat (k - cum)) (pq_sorted q))"
    by (simp add: strict_sorted_iff PayloadQueue_windowed_def)
  then have "sorted_wrt (\<lambda>s t. unat (s - cum) < unat (t - cum)) (pq_sorted q)"
    by (simp add: sorted_wrt_map)
  from gap_ack_fold [OF this] show ?thesis
    using inv(4) by (auto simp: PayloadQueue_get_gap_ack_blocks_def PayloadQueue_get_def map_of_eq_None_iff
        image_iff)
qed

theorem gap_ack_blocks_exact_witness:
  "gap_blocks_ok (PayloadQueue_get_gap_ack_blocks example_queue 0xFFFFFFFE) \<and>
    PayloadQueue_get_gap_ack_blocks example_queue 0xFFFFFFFE =
      [\<lparr>gab_start = 1, gab_end = 2\<rparr>, \<lparr>gab_start = 4, gab_end = 4\<rparr>]"
proof -
  have s: "pq_sorted example_queue = [0xFFFFFFFF, 0, 2]" by code_simp
  have "PayloadQueue_windowed 0xFFFFFFFE example_queue" by (simp add: PayloadQueue_windowed_def s)
  moreover have "PayloadQueue_get_gap_ack_blocks example_queue 0xFFFFFFFE =
      [\<lparr>gab_start = 1, gab_end = 2\<rparr>, \<lparr>gab_start = 4, gab_end = 4\<rparr>]"
    by (simp add: PayloadQueue_get_gap_ack_blocks_def gap_ack_step_def u16_checked_add_def s)
  ultimately show ?thesis
    using gap_ack_blocks_exact [OF example_queue_inv, of "0xFFFFFFFE"] by simp
qed

end
