(* ===== verification/Pending_Queue.thy ===== *)
theory Pending_Queue
  imports Data_Chunk
begin

text \<open>
  The queue of DATA chunks that have no TSN yet (\<^verbatim>\<open>src/src/queue/pending_queue.rs\<close>): one FIFO for
  ordered and one for unordered messages, and a selection that keeps the fragments of a message
  together once its first fragment has left.

  \<^item> \<open>msg_runs\<close> describes a list of whole messages, \<open>msg_runs (Some i)\<close> one that starts with the rest
    of message \<open>i\<close>. \<open>PendingQueue_inv\<close> says that the two FIFOs have this shape as the selection
    tells, and that both counters are exact.
  \<^item> The locale \<open>chunk_source\<close> is what \<^verbatim>\<open>OutboundQueue::send_next\<close> relies on: what is peeked is what is
    popped.
\<close>

record PendingQueue =
  pd_unordered_queue :: "ChunkPayloadData list"
  pd_ordered_queue :: "ChunkPayloadData list"
  pd_queue_len :: usize
  pd_n_bytes :: usize
  pd_selected :: bool
  pd_unordered_is_selected :: bool

definition PendingQueue_new :: PendingQueue where
  "PendingQueue_new = \<lparr>pd_unordered_queue = [], pd_ordered_queue = [], pd_queue_len = 0, pd_n_bytes = 0,
     pd_selected = False, pd_unordered_is_selected = False\<rparr>"

definition PendingQueue_push :: "PendingQueue \<Rightarrow> ChunkPayloadData \<Rightarrow> PendingQueue" where
  "PendingQueue_push q c =
    (let q = q\<lparr>pd_n_bytes := pd_n_bytes q + dlen c\<rparr>;
         q = (if d_unordered c then q\<lparr>pd_unordered_queue := pd_unordered_queue q @ [c]\<rparr>
              else q\<lparr>pd_ordered_queue := pd_ordered_queue q @ [c]\<rparr>)
     in q\<lparr>pd_queue_len := pd_queue_len q + 1\<rparr>)"

text \<open>
  The body of the loop of \<^verbatim>\<open>start_timed_messages\<close>. A lifetime is given in milliseconds; the sum
  with the current time does not leave the range of \<^verbatim>\<open>Instant\<close>.
\<close>

definition start_timed_chunk :: "instant \<Rightarrow> ChunkPayloadData \<Rightarrow> ChunkPayloadData" where
  "start_timed_chunk now c =
    (if d_deadline c \<noteq> None \<or> d_payload_type c = PPI_Dcep then c
     else case d_reliability c of
            Some (Timed, lifetime) \<Rightarrow> c\<lparr>d_deadline := Some (now + unat lifetime * 1000000)\<rparr>
          | _ \<Rightarrow> c)"

definition start_timed_queue :: "u64 \<Rightarrow> instant \<Rightarrow> ChunkPayloadData list \<Rightarrow> ChunkPayloadData list" where
  "start_timed_queue first_message_id now cs =
    (let fresh = (\<lambda>c. first_message_id \<le> d_message_id c); r = rev cs
     in rev (map (start_timed_chunk now) (takeWhile fresh r) @ dropWhile fresh r))"

definition PendingQueue_start_timed_messages :: "PendingQueue \<Rightarrow> u64 \<Rightarrow> instant \<Rightarrow> PendingQueue" where
  "PendingQueue_start_timed_messages q first_message_id now =
    q\<lparr>pd_ordered_queue := start_timed_queue first_message_id now (pd_ordered_queue q),
      pd_unordered_queue := start_timed_queue first_message_id now (pd_unordered_queue q)\<rparr>"

definition front :: "'a list \<Rightarrow> 'a option" where
  "front xs = (case xs of [] \<Rightarrow> None | x # _ \<Rightarrow> Some x)"

definition PendingQueue_peek :: "PendingQueue \<Rightarrow> ChunkPayloadData option" where
  "PendingQueue_peek q =
    (if pd_selected q then
       (if pd_unordered_is_selected q then front (pd_unordered_queue q) else front (pd_ordered_queue q))
     else case front (pd_unordered_queue q) of
            Some c \<Rightarrow> Some c
          | None \<Rightarrow> front (pd_ordered_queue q))"

definition pop_front_unordered :: "PendingQueue \<Rightarrow> ChunkPayloadData option \<times> PendingQueue" where
  "pop_front_unordered q =
    (case pd_unordered_queue q of [] \<Rightarrow> (None, q) | c # cs \<Rightarrow> (Some c, q\<lparr>pd_unordered_queue := cs\<rparr>))"

definition pop_front_ordered :: "PendingQueue \<Rightarrow> ChunkPayloadData option \<times> PendingQueue" where
  "pop_front_ordered q =
    (case pd_ordered_queue q of [] \<Rightarrow> (None, q) | c # cs \<Rightarrow> (Some c, q\<lparr>pd_ordered_queue := cs\<rparr>))"

definition pending_account :: "ChunkPayloadData option \<Rightarrow> PendingQueue \<Rightarrow> (ChunkPayloadData option \<times> PendingQueue) res" where
  "pending_account popped q =
    (case popped of
       None \<Rightarrow> Ok (None, q)
     | Some p \<Rightarrow>
         rbind (usize_sub (pd_n_bytes q) (dlen p)) (\<lambda>n.
         rbind (usize_sub (pd_queue_len q) 1) (\<lambda>l.
         Ok (Some p, q\<lparr>pd_n_bytes := n, pd_queue_len := l\<rparr>))))"

definition PendingQueue_pop ::
  "PendingQueue \<Rightarrow> bool \<Rightarrow> bool \<Rightarrow> (ChunkPayloadData option \<times> PendingQueue) res" where
  "PendingQueue_pop q beginning_fragment unordered =
    (if pd_selected q then
       (case (if pd_unordered_is_selected q then pop_front_unordered q else pop_front_ordered q) of
          (popped, q) \<Rightarrow>
            pending_account popped
              (case popped of Some p \<Rightarrow> if d_ending_fragment p then q\<lparr>pd_selected := False\<rparr> else q | None \<Rightarrow> q))
     else if \<not> beginning_fragment then Ok (None, q)
     else if unordered then
       (case pop_front_unordered q of
          (popped, q) \<Rightarrow>
            pending_account popped
              (case popped of
                 Some p \<Rightarrow> if \<not> d_ending_fragment p
                           then q\<lparr>pd_selected := True, pd_unordered_is_selected := True\<rparr> else q
               | None \<Rightarrow> q))
     else
       (case pop_front_ordered q of
          (popped, q) \<Rightarrow>
            pending_account popped
              (case popped of
                 Some p \<Rightarrow> if \<not> d_ending_fragment p
                           then q\<lparr>pd_selected := True, pd_unordered_is_selected := False\<rparr> else q
               | None \<Rightarrow> q)))"

definition PendingQueue_compact_ordered_ssns :: "PendingQueue \<Rightarrow> u16 \<Rightarrow> PendingQueue" where
  "PendingQueue_compact_ordered_ssns q stream_identifier =
    q\<lparr>pd_ordered_queue := map (\<lambda>c. if d_stream_identifier c = stream_identifier
        then c\<lparr>d_stream_sequence_number := d_stream_sequence_number c - 1\<rparr> else c) (pd_ordered_queue q)\<rparr>"

definition PendingQueue_get_num_bytes :: "PendingQueue \<Rightarrow> usize" where
  "PendingQueue_get_num_bytes q = pd_n_bytes q"

text \<open>\<^verbatim>\<open>remove_message\<close> returns the byte count and the chunks handed to \<^verbatim>\<open>on_remove\<close>, in order.\<close>

definition PendingQueue_remove_message ::
  "PendingQueue \<Rightarrow> u64 \<Rightarrow> (usize \<times> ChunkPayloadData list \<times> PendingQueue) res" where
  "PendingQueue_remove_message q message_id =
    (let q = (if pd_selected q \<and> (case PendingQueue_peek q of Some c \<Rightarrow> d_message_id c = message_id | None \<Rightarrow> False)
              then q\<lparr>pd_selected := False\<rparr> else q);
         hit = (\<lambda>c. d_message_id c = message_id);
         removed = filter hit (pd_ordered_queue q) @ filter hit (pd_unordered_queue q);
         q = q\<lparr>pd_ordered_queue := filter (\<lambda>c. \<not> hit c) (pd_ordered_queue q),
               pd_unordered_queue := filter (\<lambda>c. \<not> hit c) (pd_unordered_queue q)\<rparr>
     in rbind (usize_sub (pd_n_bytes q) (total_len removed)) (\<lambda>n.
        rbind (usize_sub (pd_queue_len q) (length removed)) (\<lambda>l.
        Ok (total_len removed, removed, q\<lparr>pd_n_bytes := n, pd_queue_len := l\<rparr>))))"

definition PendingQueue_len :: "PendingQueue \<Rightarrow> usize" where
  "PendingQueue_len q = pd_queue_len q"

definition PendingQueue_is_empty :: "PendingQueue \<Rightarrow> bool" where
  "PendingQueue_is_empty q \<longleftrightarrow> PendingQueue_len q = 0"

definition PendingQueue_contains_message :: "PendingQueue \<Rightarrow> u64 \<Rightarrow> bool" where
  "PendingQueue_contains_message q message_id \<longleftrightarrow>
    (\<exists>c \<in> set (pd_unordered_queue q @ pd_ordered_queue q). d_message_id c = message_id)"

definition PendingQueue_contains_stream :: "PendingQueue \<Rightarrow> u16 \<Rightarrow> bool" where
  "PendingQueue_contains_stream q stream_identifier \<longleftrightarrow>
    (\<exists>c \<in> set (pd_unordered_queue q @ pd_ordered_queue q). d_stream_identifier c = stream_identifier)"

subsection \<open>Message structure and invariant\<close>

fun msg_runs :: "u64 option \<Rightarrow> ChunkPayloadData list \<Rightarrow> bool" where
  "msg_runs None [] = True"
| "msg_runs (Some i) [] = False"
| "msg_runs None (c # cs) =
    (d_beginning_fragment c \<and> msg_runs (if d_ending_fragment c then None else Some (d_message_id c)) cs)"
| "msg_runs (Some i) (c # cs) =
    (\<not> d_beginning_fragment c \<and> d_message_id c = i \<and>
     msg_runs (if d_ending_fragment c then None else Some i) cs)"

text \<open>A prefix of a list of whole messages: the last message may be cut.\<close>

fun msg_prefix :: "u64 option \<Rightarrow> ChunkPayloadData list \<Rightarrow> bool" where
  "msg_prefix s [] = True"
| "msg_prefix None (c # cs) =
    (d_beginning_fragment c \<and> msg_prefix (if d_ending_fragment c then None else Some (d_message_id c)) cs)"
| "msg_prefix (Some i) (c # cs) =
    (\<not> d_beginning_fragment c \<and> d_message_id c = i \<and>
     msg_prefix (if d_ending_fragment c then None else Some i) cs)"

definition PendingQueue_shape :: "u64 option \<Rightarrow> PendingQueue \<Rightarrow> bool" where
  "PendingQueue_shape s q \<longleftrightarrow>
    (pd_selected q \<longleftrightarrow> s \<noteq> None) \<and>
    (if pd_selected q \<and> pd_unordered_is_selected q
     then msg_runs s (pd_unordered_queue q) \<and> msg_runs None (pd_ordered_queue q)
     else msg_runs None (pd_unordered_queue q) \<and> msg_runs s (pd_ordered_queue q))"

definition PendingQueue_counts :: "PendingQueue \<Rightarrow> bool" where
  "PendingQueue_counts q \<longleftrightarrow>
    (\<forall>c \<in> set (pd_unordered_queue q). d_unordered c) \<and>
    (\<forall>c \<in> set (pd_ordered_queue q). \<not> d_unordered c) \<and>
    pd_queue_len q = length (pd_unordered_queue q) + length (pd_ordered_queue q) \<and>
    pd_n_bytes q = total_len (pd_unordered_queue q) + total_len (pd_ordered_queue q)"

definition PendingQueue_inv :: "PendingQueue \<Rightarrow> bool" where
  "PendingQueue_inv q \<longleftrightarrow> PendingQueue_counts q \<and> (\<exists>s. PendingQueue_shape s q)"

text \<open>The message that a popped chunk leaves selected.\<close>

definition next_sel :: "ChunkPayloadData \<Rightarrow> u64 option" where
  "next_sel c = (if d_ending_fragment c then None else Some (d_message_id c))"

text \<open>The fragments of one message, as \<^verbatim>\<open>OutboundQueue::push\<close> queues them.\<close>

definition is_message :: "ChunkPayloadData list \<Rightarrow> bool" where
  "is_message cs \<longleftrightarrow> cs \<noteq> [] \<and> msg_runs None cs \<and>
    (\<forall>c \<in> set cs. d_unordered c = d_unordered (hd cs) \<and> d_message_id c = d_message_id (hd cs))"

text \<open>A client that queues messages and sends chunks in any interleaving; the chunks in send order.\<close>

datatype pending_op = Queue "ChunkPayloadData list" | SendOne

definition pending_send_one :: "PendingQueue \<Rightarrow> (ChunkPayloadData option \<times> PendingQueue) res" where
  "pending_send_one q =
    (case PendingQueue_peek q of
       None \<Rightarrow> Ok (None, q)
     | Some c \<Rightarrow> PendingQueue_pop q (d_beginning_fragment c) (d_unordered c))"

fun run_pending :: "pending_op list \<Rightarrow> PendingQueue \<Rightarrow> (ChunkPayloadData list \<times> PendingQueue) res" where
  "run_pending [] q = Ok ([], q)"
| "run_pending (Queue cs # ops) q = run_pending ops (fold (\<lambda>c q. PendingQueue_push q c) cs q)"
| "run_pending (SendOne # ops) q =
    rbind (pending_send_one q) (\<lambda>(c, q).
    rbind (run_pending ops q) (\<lambda>(cs, q).
    Ok (case c of None \<Rightarrow> cs | Some c \<Rightarrow> c # cs, q)))"

definition queued_chunks :: "pending_op list \<Rightarrow> ChunkPayloadData list" where
  "queued_chunks ops = concat (map (\<lambda>op. case op of Queue cs \<Rightarrow> cs | SendOne \<Rightarrow> []) ops)"

text \<open>A client that peeks and pops \<open>n\<close> times.\<close>

primrec drain_chunks ::
  "('q \<Rightarrow> ChunkPayloadData option) \<Rightarrow> ('q \<Rightarrow> bool \<Rightarrow> bool \<Rightarrow> (ChunkPayloadData option \<times> 'q) res) \<Rightarrow>
    nat \<Rightarrow> 'q \<Rightarrow> (ChunkPayloadData list \<times> 'q) res" where
  "drain_chunks peek pop 0 q = Ok ([], q)"
| "drain_chunks peek pop (Suc n) q =
    (case peek q of
       None \<Rightarrow> Ok ([], q)
     | Some c \<Rightarrow>
         rbind (pop q (d_beginning_fragment c) (d_unordered c)) (\<lambda>(p, q).
         rbind (drain_chunks peek pop n q) (\<lambda>(cs, q).
         Ok (case p of None \<Rightarrow> cs | Some p \<Rightarrow> p # cs, q))))"

definition example_fragment :: "bool \<Rightarrow> bool \<Rightarrow> bool \<Rightarrow> u64 \<Rightarrow> bytes \<Rightarrow> ChunkPayloadData" where
  "example_fragment u b e i bs = ChunkPayloadData_default\<lparr>d_unordered := u, d_beginning_fragment := b,
     d_ending_fragment := e, d_message_id := i, d_user_data := bs\<rparr>"

subsection \<open>Peeking and popping\<close>

lemma front_simps [simp]: "front [] = None" "front (x # xs) = Some x"
  by (simp_all add: front_def)

lemma front_eq_None [simp]: "front xs = None \<longleftrightarrow> xs = []"
  by (cases xs) auto

lemma front_eq_Some: "front xs = Some x \<longleftrightarrow> (\<exists>ys. xs = x # ys)"
  by (cases xs) auto

lemma msg_runs_Some_nonempty: "msg_runs (Some i) cs \<Longrightarrow> cs \<noteq> []"
  by (cases cs) auto

lemma PendingQueue_inv_new [simp]: "PendingQueue_inv PendingQueue_new"
  by (auto simp: PendingQueue_inv_def PendingQueue_counts_def PendingQueue_shape_def PendingQueue_new_def)

lemma PendingQueue_peek_None:
  assumes "PendingQueue_inv q"
  shows "PendingQueue_peek q = None \<longleftrightarrow> pd_unordered_queue q = [] \<and> pd_ordered_queue q = []"
  using assms
  by (auto simp: PendingQueue_inv_def PendingQueue_shape_def PendingQueue_peek_def
      dest: msg_runs_Some_nonempty split: if_splits option.splits)

text \<open>A peekable chunk heads the unordered or the ordered FIFO.\<close>

lemma PendingQueue_peek_cases:
  assumes "PendingQueue_counts q" "PendingQueue_shape s q" "PendingQueue_peek q = Some c"
  shows "(if d_unordered c
     then (\<exists>cs. pd_unordered_queue q = c # cs) \<and> msg_runs s (pd_unordered_queue q) \<and>
       msg_runs None (pd_ordered_queue q) \<and> (s \<noteq> None \<longrightarrow> pd_unordered_is_selected q)
     else (\<exists>cs. pd_ordered_queue q = c # cs) \<and> msg_runs s (pd_ordered_queue q) \<and>
       msg_runs None (pd_unordered_queue q) \<and> (s \<noteq> None \<longrightarrow> \<not> pd_unordered_is_selected q))
    \<and> (pd_selected q \<longleftrightarrow> s \<noteq> None)"
proof (cases "pd_selected q")
  case True
  with assms show ?thesis
    by (cases "pd_unordered_is_selected q")
      (auto simp: PendingQueue_peek_def PendingQueue_counts_def PendingQueue_shape_def front_eq_Some)
next
  case False
  with assms show ?thesis
    by (cases "pd_unordered_queue q")
      (auto simp: PendingQueue_peek_def PendingQueue_counts_def PendingQueue_shape_def front_eq_Some)
qed

lemma PendingQueue_pop_peeked:
  assumes "PendingQueue_counts q" "PendingQueue_shape s q" "PendingQueue_peek q = Some c"
  shows "\<exists>q'. PendingQueue_pop q (d_beginning_fragment c) (d_unordered c) = Ok (Some c, q') \<and>
    PendingQueue_counts q' \<and> PendingQueue_shape (next_sel c) q' \<and>
    (s = None \<longleftrightarrow> d_beginning_fragment c) \<and> (\<forall>i. s = Some i \<longrightarrow> d_message_id c = i) \<and>
    pd_n_bytes q = pd_n_bytes q' + dlen c \<and> pd_queue_len q = pd_queue_len q' + 1 \<and>
    pd_unordered_queue q = (if d_unordered c then [c] else []) @ pd_unordered_queue q' \<and>
    pd_ordered_queue q = (if d_unordered c then [] else [c]) @ pd_ordered_queue q'"
proof (cases "d_unordered c")
  case True
  with PendingQueue_peek_cases [OF assms] assms(1) show ?thesis
    by (cases s) (auto simp: PendingQueue_pop_def pop_front_unordered_def pending_account_def
        PendingQueue_counts_def PendingQueue_shape_def next_sel_def)
next
  case False
  with PendingQueue_peek_cases [OF assms] assms(1) show ?thesis
    by (cases s) (auto simp: PendingQueue_pop_def pop_front_ordered_def pending_account_def
        PendingQueue_counts_def PendingQueue_shape_def next_sel_def)
qed

subsection \<open>Pushing, removing, renumbering\<close>

lemma msg_runs_append: "msg_runs s cs \<Longrightarrow> msg_runs None ds \<Longrightarrow> msg_runs s (cs @ ds)"
  by (induction s cs rule: msg_runs.induct) auto

lemma fold_push_fields:
  "pd_unordered_queue (fold (\<lambda>c q. PendingQueue_push q c) cs q) = pd_unordered_queue q @ filter d_unordered cs"
  "pd_ordered_queue (fold (\<lambda>c q. PendingQueue_push q c) cs q) = pd_ordered_queue q @ filter (\<lambda>c. \<not> d_unordered c) cs"
  "pd_queue_len (fold (\<lambda>c q. PendingQueue_push q c) cs q) = pd_queue_len q + length cs"
  "pd_n_bytes (fold (\<lambda>c q. PendingQueue_push q c) cs q) = pd_n_bytes q + total_len cs"
  "pd_selected (fold (\<lambda>c q. PendingQueue_push q c) cs q) = pd_selected q"
  "pd_unordered_is_selected (fold (\<lambda>c q. PendingQueue_push q c) cs q) = pd_unordered_is_selected q"
  by (induction cs arbitrary: q) (auto simp: PendingQueue_push_def Let_def)

lemma total_len_filter: "total_len (filter P cs) + total_len (filter (\<lambda>c. \<not> P c) cs) = total_len cs"
  by (induction cs) auto

lemma PendingQueue_counts_push:
  "PendingQueue_counts q \<Longrightarrow> PendingQueue_counts (fold (\<lambda>c q. PendingQueue_push q c) cs q)"
  using total_len_filter [of d_unordered cs] sum_length_filter_compl [of d_unordered cs]
  by (auto simp: PendingQueue_counts_def fold_push_fields)

lemma is_message_filter:
  assumes "is_message cs"
  shows "filter d_unordered cs = (if d_unordered (hd cs) then cs else [])"
    "filter (\<lambda>c. \<not> d_unordered c) cs = (if d_unordered (hd cs) then [] else cs)"
proof -
  have "\<forall>c \<in> set cs. d_unordered c = d_unordered (hd cs)"
    using assms unfolding is_message_def by blast
  then show "filter d_unordered cs = (if d_unordered (hd cs) then cs else [])"
    "filter (\<lambda>c. \<not> d_unordered c) cs = (if d_unordered (hd cs) then [] else cs)"
    by (cases "d_unordered (hd cs)"; simp add: filter_empty_conv)+
qed

lemma PendingQueue_shape_push:
  assumes "PendingQueue_shape s q" "is_message cs"
  shows "PendingQueue_shape s (fold (\<lambda>c q. PendingQueue_push q c) cs q)"
proof -
  have "msg_runs None cs" using assms(2) unfolding is_message_def by blast
  with assms(1) show ?thesis
    by (simp add: PendingQueue_shape_def fold_push_fields is_message_filter [OF assms(2)] msg_runs_append)
qed

lemma msg_runs_remove:
  "msg_runs s cs \<Longrightarrow> msg_runs (if s = Some i then None else s) (filter (\<lambda>c. d_message_id c \<noteq> i) cs)"
  by (induction s cs rule: msg_runs.induct) (auto split: if_splits)

lemma msg_runs_remove_None:
  "msg_runs None cs \<Longrightarrow> msg_runs None (filter (\<lambda>c. d_message_id c \<noteq> i) cs)"
  using msg_runs_remove [of None cs i] by simp

lemma total_len_filter_le: "total_len (filter P cs) \<le> total_len cs"
  by (induction cs) auto

lemma msg_runs_map:
  assumes "\<And>c. d_beginning_fragment (f c) = d_beginning_fragment c"
    "\<And>c. d_ending_fragment (f c) = d_ending_fragment c" "\<And>c. d_message_id (f c) = d_message_id c"
  shows "msg_runs s (map f cs) = msg_runs s cs"
  using assms by (induction s cs rule: msg_runs.induct) auto

lemma PendingQueue_remove_message_ok:
  assumes "PendingQueue_counts q" "PendingQueue_shape s q"
  shows "\<exists>q'. PendingQueue_remove_message q i =
      Ok (total_len (filter (\<lambda>c. d_message_id c = i) (pd_ordered_queue q @ pd_unordered_queue q)),
          filter (\<lambda>c. d_message_id c = i) (pd_ordered_queue q @ pd_unordered_queue q), q') \<and>
    PendingQueue_counts q' \<and> PendingQueue_shape (if s = Some i then None else s) q' \<and>
    pd_unordered_queue q' = filter (\<lambda>c. d_message_id c \<noteq> i) (pd_unordered_queue q) \<and>
    pd_ordered_queue q' = filter (\<lambda>c. d_message_id c \<noteq> i) (pd_ordered_queue q) \<and>
    pd_n_bytes q = pd_n_bytes q' +
      total_len (filter (\<lambda>c. d_message_id c = i) (pd_ordered_queue q @ pd_unordered_queue q))"
proof -
  let ?sel = "pd_selected q \<and> (case PendingQueue_peek q of Some c \<Rightarrow> d_message_id c = i | None \<Rightarrow> False)"
  let ?hit = "filter (\<lambda>c. d_message_id c = i)" and ?miss = "filter (\<lambda>c. d_message_id c \<noteq> i)"
  have sel: "?sel \<longleftrightarrow> s = Some i"
  proof (cases "s")
    case (Some j)
    then show ?thesis
      using assms(2) by (cases "pd_unordered_queue q"; cases "pd_ordered_queue q")
        (auto simp: PendingQueue_shape_def PendingQueue_peek_def split: if_splits)
  qed (use assms(2) in \<open>auto simp: PendingQueue_shape_def\<close>)
  define q0 where "q0 = (if ?sel then q\<lparr>pd_selected := False\<rparr> else q)"
  have q0: "pd_unordered_queue q0 = pd_unordered_queue q" "pd_ordered_queue q0 = pd_ordered_queue q"
    "pd_n_bytes q0 = pd_n_bytes q" "pd_queue_len q0 = pd_queue_len q"
    "pd_unordered_is_selected q0 = pd_unordered_is_selected q"
    "pd_selected q0 \<longleftrightarrow> pd_selected q \<and> s \<noteq> Some i"
    using sel by (auto simp: q0_def)
  have len: "length (?hit cs) + length (?miss cs) = length cs"
    and tot: "total_len (?hit cs) + total_len (?miss cs) = total_len cs" for cs
    using sum_length_filter_compl [of "\<lambda>c. d_message_id c = i" cs]
      total_len_filter [of "\<lambda>c. d_message_id c = i" cs] by auto
  let ?q' = "q0\<lparr>pd_ordered_queue := ?miss (pd_ordered_queue q), pd_unordered_queue := ?miss (pd_unordered_queue q),
     pd_n_bytes := pd_n_bytes q - total_len (?hit (pd_ordered_queue q @ pd_unordered_queue q)),
     pd_queue_len := pd_queue_len q - length (?hit (pd_ordered_queue q @ pd_unordered_queue q))\<rparr>"
  note sums = len [of "pd_ordered_queue q"] len [of "pd_unordered_queue q"]
    tot [of "pd_ordered_queue q"] tot [of "pd_unordered_queue q"]
  have le: "total_len (?hit (pd_ordered_queue q @ pd_unordered_queue q)) \<le> pd_n_bytes q"
    "length (?hit (pd_ordered_queue q @ pd_unordered_queue q)) \<le> pd_queue_len q"
    using assms(1) sums by (auto simp: PendingQueue_counts_def)
  have "PendingQueue_remove_message q i =
      Ok (total_len (?hit (pd_ordered_queue q @ pd_unordered_queue q)),
          ?hit (pd_ordered_queue q @ pd_unordered_queue q), ?q')"
    unfolding PendingQueue_remove_message_def q0_def [symmetric] Let_def q0 using le q0 by simp
  moreover have "PendingQueue_counts ?q'"
    using assms(1) sums by (auto simp: PendingQueue_counts_def)
  moreover have "PendingQueue_shape (if s = Some i then None else s) ?q'"
    using assms(2) msg_runs_remove [of s _ i] msg_runs_remove [of None _ i] q0(5,6)
    by (cases "s = Some i") (auto simp: PendingQueue_shape_def split: if_splits)
  ultimately show ?thesis using le by simp
qed

lemma PendingQueue_counts_compact:
  "PendingQueue_counts q \<Longrightarrow> PendingQueue_counts (PendingQueue_compact_ordered_ssns q sid)"
  by (auto simp: PendingQueue_counts_def PendingQueue_compact_ordered_ssns_def total_len_def o_def
      intro!: arg_cong [where f = sum_list])

lemma PendingQueue_shape_compact:
  "PendingQueue_shape s q \<Longrightarrow> PendingQueue_shape s (PendingQueue_compact_ordered_ssns q sid)"
  by (simp add: PendingQueue_shape_def PendingQueue_compact_ordered_ssns_def msg_runs_map)

lemma start_timed_chunk_fields [simp]:
  "d_beginning_fragment (start_timed_chunk now c) = d_beginning_fragment c"
  "d_ending_fragment (start_timed_chunk now c) = d_ending_fragment c"
  "d_message_id (start_timed_chunk now c) = d_message_id c"
  "d_unordered (start_timed_chunk now c) = d_unordered c"
  "d_user_data (start_timed_chunk now c) = d_user_data c"
  "d_stream_identifier (start_timed_chunk now c) = d_stream_identifier c"
  "d_stream_sequence_number (start_timed_chunk now c) = d_stream_sequence_number c"
  "d_payload_type (start_timed_chunk now c) = d_payload_type c"
  by (auto simp: start_timed_chunk_def split: option.splits prod.splits ReliabilityType.splits)

text \<open>Starting lifetimes changes nothing but deadlines.\<close>

lemma start_timed_queue_same:
  assumes "\<And>c. g (start_timed_chunk now c) = g c"
  shows "map g (start_timed_queue i now cs) = map g cs"
proof -
  have g: "g \<circ> start_timed_chunk now = g" using assms by (simp add: fun_eq_iff)
  have "map g (rev (map (start_timed_chunk now) xs @ ys)) = rev (map g (xs @ ys))" for xs ys
    by (simp add: rev_map g)
  then show ?thesis
    by (simp only: start_timed_queue_def Let_def takeWhile_dropWhile_id rev_map rev_rev_ident)
qed

text \<open>
  Messages are queued in the order of their identifiers, so starting the suffix of new messages
  is the same as starting every message whose identifier is new.
\<close>

lemma takeWhile_rev_sorted:
  assumes "sorted (map d_message_id cs)"
  shows "rev (map f (takeWhile (\<lambda>c. i \<le> d_message_id c) (rev cs)) @ dropWhile (\<lambda>c. i \<le> d_message_id c) (rev cs))
    = map (\<lambda>c. if i \<le> d_message_id c then f c else c) cs"
  using assms
proof (induction cs rule: rev_induct)
  case (snoc c cs)
  have "map (\<lambda>c. if i \<le> d_message_id c then f c else c) cs = cs" if "\<not> i \<le> d_message_id c"
    using snoc.prems that by (intro map_idI) (auto simp: sorted_append)
  with snoc show ?case by (auto simp: sorted_append)
qed simp

lemma start_timed_queue_sorted:
  "sorted (map d_message_id cs) \<Longrightarrow> start_timed_queue i now cs =
    map (\<lambda>c. if i \<le> d_message_id c then start_timed_chunk now c else c) cs"
  by (simp only: start_timed_queue_def Let_def takeWhile_rev_sorted)

lemma msg_runs_key:
  "map (\<lambda>c. (d_beginning_fragment c, d_ending_fragment c, d_message_id c)) cs =
   map (\<lambda>c. (d_beginning_fragment c, d_ending_fragment c, d_message_id c)) ds \<Longrightarrow>
   msg_runs s cs = msg_runs s ds"
proof (induction cs arbitrary: s ds)
  case (Cons c cs)
  then obtain d ds' where "ds = d # ds'" by (cases ds) auto
  with Cons.prems Cons.IH [of ds'] show ?case by (cases s) simp_all
qed simp

lemma msg_runs_start_timed: "msg_runs s (start_timed_queue i now cs) = msg_runs s cs"
  by (rule msg_runs_key) (simp add: start_timed_queue_same)

lemma start_timed_queue_meta:
  "length (start_timed_queue i now cs) = length cs"
  "total_len (start_timed_queue i now cs) = total_len cs"
  "(\<forall>c \<in> set (start_timed_queue i now cs). P (d_unordered c)) \<longleftrightarrow> (\<forall>c \<in> set cs. P (d_unordered c))"
  "start_timed_queue i now cs = [] \<longleftrightarrow> cs = []"
proof -
  have u: "map d_unordered (start_timed_queue i now cs) = map d_unordered cs"
    and l: "map dlen (start_timed_queue i now cs) = map dlen cs"
    by (simp_all add: start_timed_queue_same)
  show "length (start_timed_queue i now cs) = length cs" using u by (metis length_map)
  then show "start_timed_queue i now cs = [] \<longleftrightarrow> cs = []" by (metis length_0_conv)
  show "total_len (start_timed_queue i now cs) = total_len cs" using l by (simp add: total_len_def)
  have "(\<forall>b \<in> set (map d_unordered (start_timed_queue i now cs)). P b) \<longleftrightarrow> (\<forall>b \<in> set (map d_unordered cs). P b)"
    by (simp only: u)
  then show "(\<forall>c \<in> set (start_timed_queue i now cs). P (d_unordered c)) \<longleftrightarrow> (\<forall>c \<in> set cs. P (d_unordered c))"
    by simp
qed

lemma PendingQueue_counts_start_timed:
  "PendingQueue_counts (PendingQueue_start_timed_messages q i now) = PendingQueue_counts q"
  using start_timed_queue_meta(3) [of i now _ "\<lambda>b. b"] start_timed_queue_meta(3) [of i now _ Not]
  by (simp add: PendingQueue_counts_def PendingQueue_start_timed_messages_def start_timed_queue_meta)

lemma PendingQueue_shape_start_timed:
  "PendingQueue_shape s (PendingQueue_start_timed_messages q i now) = PendingQueue_shape s q"
  by (simp add: PendingQueue_shape_def PendingQueue_start_timed_messages_def msg_runs_start_timed)

subsection \<open>What the sender relies on\<close>

locale chunk_source =
  fixes peek :: "'q \<Rightarrow> ChunkPayloadData option"
    and pop :: "'q \<Rightarrow> bool \<Rightarrow> bool \<Rightarrow> (ChunkPayloadData option \<times> 'q) res"
    and len :: "'q \<Rightarrow> usize"
    and num_bytes :: "'q \<Rightarrow> usize"
    and inv :: "u64 option \<Rightarrow> 'q \<Rightarrow> bool"
  assumes peek_None: "inv s q \<Longrightarrow> peek q = None \<longleftrightarrow> len q = 0"
    and bytes_empty: "inv s q \<Longrightarrow> len q = 0 \<Longrightarrow> num_bytes q = 0"
    and pop_peeked: "inv s q \<Longrightarrow> peek q = Some c \<Longrightarrow>
      \<exists>q'. pop q (d_beginning_fragment c) (d_unordered c) = Ok (Some c, q') \<and> inv (next_sel c) q' \<and>
        num_bytes q = num_bytes q' + dlen c \<and> len q = len q' + 1 \<and>
        (s = None \<longleftrightarrow> d_beginning_fragment c) \<and> (\<forall>i. s = Some i \<longrightarrow> d_message_id c = i)"
begin

lemma msg_prefix_Cons:
  "(s = None \<longleftrightarrow> d_beginning_fragment c) \<Longrightarrow> \<forall>i. s = Some i \<longrightarrow> d_message_id c = i \<Longrightarrow>
    msg_prefix (next_sel c) cs \<Longrightarrow> msg_prefix s (c # cs)"
  by (cases s) (auto simp: next_sel_def)

lemma drain_all:
  assumes "inv s q"
  shows "\<exists>cs q'. drain_chunks peek pop (len q) q = Ok (cs, q') \<and> len q' = 0 \<and>
    length cs = len q \<and> total_len cs = num_bytes q \<and> msg_prefix s cs"
  using assms
proof (induction "len q" arbitrary: q s)
  case 0
  then show ?case using bytes_empty [of s q] by (auto simp: "0.hyps" [symmetric])
next
  case (Suc n)
  have "peek q \<noteq> None" using peek_None [OF Suc.prems] Suc.hyps(2) by simp
  then obtain c where c: "peek q = Some c" by blast
  from pop_peeked [OF Suc.prems c] obtain q1 where q1:
    "pop q (d_beginning_fragment c) (d_unordered c) = Ok (Some c, q1)" "inv (next_sel c) q1"
    "num_bytes q = num_bytes q1 + dlen c" "len q = len q1 + 1"
    "s = None \<longleftrightarrow> d_beginning_fragment c" "\<forall>i. s = Some i \<longrightarrow> d_message_id c = i"
    by blast
  have n: "n = len q1" using q1(4) Suc.hyps(2) by simp
  from Suc.hyps(1) [OF n q1(2)] obtain cs q2 where
    "drain_chunks peek pop (len q1) q1 = Ok (cs, q2)" "len q2 = 0" "length cs = len q1"
    "total_len cs = num_bytes q1" "msg_prefix (next_sel c) cs"
    by blast
  then show ?case
    using q1 c msg_prefix_Cons [OF q1(5,6)] by (auto simp: Suc.hyps(2) [symmetric] n)
qed

end

interpretation pending: chunk_source PendingQueue_peek PendingQueue_pop PendingQueue_len
  PendingQueue_get_num_bytes "\<lambda>s q. PendingQueue_counts q \<and> PendingQueue_shape s q"
proof
  fix s q c
  assume inv: "PendingQueue_counts q \<and> PendingQueue_shape s q"
  then show "PendingQueue_peek q = None \<longleftrightarrow> PendingQueue_len q = 0"
    using PendingQueue_peek_None [of q]
    by (auto simp: PendingQueue_inv_def PendingQueue_len_def PendingQueue_counts_def)
  show "PendingQueue_len q = 0 \<Longrightarrow> PendingQueue_get_num_bytes q = 0"
    using inv by (auto simp: PendingQueue_len_def PendingQueue_get_num_bytes_def PendingQueue_counts_def)
  show "PendingQueue_peek q = Some c \<Longrightarrow>
      \<exists>q'. PendingQueue_pop q (d_beginning_fragment c) (d_unordered c) = Ok (Some c, q') \<and>
        (PendingQueue_counts q' \<and> PendingQueue_shape (next_sel c) q') \<and>
        PendingQueue_get_num_bytes q = PendingQueue_get_num_bytes q' + dlen c \<and>
        PendingQueue_len q = PendingQueue_len q' + 1 \<and>
        (s = None \<longleftrightarrow> d_beginning_fragment c) \<and> (\<forall>i. s = Some i \<longrightarrow> d_message_id c = i)"
    using PendingQueue_pop_peeked [of q s c] inv
    by (auto simp: PendingQueue_get_num_bytes_def PendingQueue_len_def)
qed

subsection \<open>Properties\<close>

lemma run_pending_ok:
  assumes "PendingQueue_counts q" "PendingQueue_shape s q" "\<forall>cs. Queue cs \<in> set ops \<longrightarrow> is_message cs"
  shows "\<exists>out q'. run_pending ops q = Ok (out, q') \<and> PendingQueue_inv q' \<and> msg_prefix s out \<and>
    pd_unordered_queue q @ filter d_unordered (queued_chunks ops) = filter d_unordered out @ pd_unordered_queue q' \<and>
    pd_ordered_queue q @ filter (\<lambda>c. \<not> d_unordered c) (queued_chunks ops)
      = filter (\<lambda>c. \<not> d_unordered c) out @ pd_ordered_queue q'"
  using assms
proof (induction ops arbitrary: q s)
  case Nil
  then show ?case by (auto simp: queued_chunks_def PendingQueue_inv_def)
next
  case (Cons op ops)
  have msgs: "\<forall>cs. Queue cs \<in> set ops \<longrightarrow> is_message cs" using Cons.prems(3) by simp
  show ?case
  proof (cases op)
    case (Queue cs)
    let ?q = "fold (\<lambda>c q. PendingQueue_push q c) cs q"
    have "is_message cs" using Cons.prems(3) Queue by simp
    then have "PendingQueue_counts ?q" "PendingQueue_shape s ?q"
      using Cons.prems by (auto intro: PendingQueue_counts_push PendingQueue_shape_push)
    from Cons.IH [OF this msgs] show ?thesis
      using Queue by (simp add: queued_chunks_def fold_push_fields)
  next
    case SendOne
    show ?thesis
    proof (cases "PendingQueue_peek q")
      case None
      with Cons.IH [OF Cons.prems(1,2) msgs] SendOne show ?thesis
        by (auto simp: pending_send_one_def queued_chunks_def)
    next
      case (Some c)
      from PendingQueue_pop_peeked [OF Cons.prems(1,2) Some] obtain q1 where q1:
        "PendingQueue_pop q (d_beginning_fragment c) (d_unordered c) = Ok (Some c, q1)"
        "PendingQueue_counts q1" "PendingQueue_shape (next_sel c) q1"
        "s = None \<longleftrightarrow> d_beginning_fragment c" "\<forall>i. s = Some i \<longrightarrow> d_message_id c = i"
        "pd_unordered_queue q = (if d_unordered c then [c] else []) @ pd_unordered_queue q1"
        "pd_ordered_queue q = (if d_unordered c then [] else [c]) @ pd_ordered_queue q1"
        by blast
      from Cons.IH [OF q1(2,3) msgs] show ?thesis
        using SendOne Some q1(1,6,7) pending.msg_prefix_Cons [OF q1(4,5)]
        by (auto simp: pending_send_one_def queued_chunks_def)
    qed
  qed
qed

text \<open>
  C14: However queueing of messages and sending of single chunks interleave, the pending queue never
  panics, the chunks leave as whole messages one after the other (only the last may be cut), and
  both the unordered and the ordered chunks leave in the order in which they were queued.
\<close>
theorem pending_messages_not_interleaved:
  assumes "\<forall>cs. Queue cs \<in> set ops \<longrightarrow> is_message cs"
  shows "\<exists>out q. run_pending ops PendingQueue_new = Ok (out, q) \<and> PendingQueue_inv q \<and> msg_prefix None out \<and>
    filter d_unordered (queued_chunks ops) = filter d_unordered out @ pd_unordered_queue q \<and>
    filter (\<lambda>c. \<not> d_unordered c) (queued_chunks ops) = filter (\<lambda>c. \<not> d_unordered c) out @ pd_ordered_queue q"
proof -
  have "PendingQueue_counts PendingQueue_new" "PendingQueue_shape None PendingQueue_new"
    by (simp_all add: PendingQueue_counts_def PendingQueue_shape_def PendingQueue_new_def)
  from run_pending_ok [OF this assms] show ?thesis by (simp add: PendingQueue_new_def)
qed

theorem pending_messages_not_interleaved_witness:
  "\<exists>out q. run_pending
      [Queue [example_fragment False True False 0 [1], example_fragment False False True 0 [2]], SendOne,
       Queue [example_fragment True True True 1 [3]], SendOne, SendOne] PendingQueue_new = Ok (out, q) \<and>
    map d_user_data out = [[1], [2], [3]] \<and> msg_prefix None out"
proof -
  let ?ops = "[Queue [example_fragment False True False 0 [1], example_fragment False False True 0 [2]], SendOne,
       Queue [example_fragment True True True 1 [3]], SendOne, SendOne]"
  have msgs: "\<forall>cs. Queue cs \<in> set ?ops \<longrightarrow> is_message cs"
    by (auto simp: is_message_def example_fragment_def ChunkPayloadData_default_def)
  have out: "rmap (map d_user_data \<circ> fst) (run_pending ?ops PendingQueue_new) = Ok [[1], [2], [3]]"
    by code_simp
  obtain cs q where "run_pending ?ops PendingQueue_new = Ok (cs, q)" "msg_prefix None cs"
    using pending_messages_not_interleaved [OF msgs] by blast
  with out show ?thesis by auto
qed

end
