(* ===== verification/Outbound_Queue.thy ===== *)
theory Outbound_Queue
  imports Payload_Queue Pending_Queue
begin

text \<open>
  The sender's queue (\<^verbatim>\<open>src/src/queue/outbound_queue.rs\<close>): chunks wait in a pending queue until
  \<^verbatim>\<open>send_next\<close> gives them the next TSN and moves them to the flight queue. Abandoning a message
  removes what is pending of it, marks what is in flight of it, and reserves one TSN for a removed
  tail.

  A reference argument \<^verbatim>\<open>next_tsn: &mut u32\<close> is an argument and a component of the result. The
  closing theorem is a ledger: over any sequence of operations every queued byte is pending, in
  flight, or has been released exactly once.
\<close>

record OutboundQueue =
  oq_pending :: PendingQueue
  oq_inflight :: PayloadQueue
  oq_next_message_id :: u64
  oq_next_unstarted_message_id :: u64

definition OutboundQueue_default :: OutboundQueue where
  "OutboundQueue_default = \<lparr>oq_pending = PendingQueue_new, oq_inflight = PayloadQueue_new,
     oq_next_message_id = 0, oq_next_unstarted_message_id = 0\<rparr>"

definition OutboundQueue_next_message_id :: "OutboundQueue \<Rightarrow> u64" where
  "OutboundQueue_next_message_id q = oq_next_message_id q"

definition OutboundQueue_push :: "OutboundQueue \<Rightarrow> ChunkPayloadData list \<Rightarrow> OutboundQueue res" where
  "OutboundQueue_push q chunks =
    (if chunks = [] then Ok q
     else let message_id = oq_next_message_id q in
       case u64_checked_add message_id 1 of
         None \<Rightarrow> Panic
       | Some next \<Rightarrow>
           Ok (q\<lparr>oq_next_message_id := next,
                 oq_pending := fold (\<lambda>chunk p. PendingQueue_push p (chunk\<lparr>d_message_id := message_id\<rparr>))
                   chunks (oq_pending q)\<rparr>))"

definition OutboundQueue_peek_pending :: "OutboundQueue \<Rightarrow> ChunkPayloadData option" where
  "OutboundQueue_peek_pending q = PendingQueue_peek (oq_pending q)"

definition OutboundQueue_start_timed_messages :: "OutboundQueue \<Rightarrow> instant \<Rightarrow> OutboundQueue" where
  "OutboundQueue_start_timed_messages q now =
    (if oq_next_unstarted_message_id q \<noteq> oq_next_message_id q
     then q\<lparr>oq_pending := PendingQueue_start_timed_messages (oq_pending q) (oq_next_unstarted_message_id q) now,
            oq_next_unstarted_message_id := oq_next_message_id q\<rparr>
     else q)"

text \<open>\<^verbatim>\<open>deadline.is_some_and(|deadline| now >= deadline)\<close>\<close>

definition deadline_passed :: "instant \<Rightarrow> ChunkPayloadData \<Rightarrow> bool" where
  "deadline_passed now c \<longleftrightarrow> (case d_deadline c of Some d \<Rightarrow> d \<le> now | None \<Rightarrow> False)"

definition OutboundQueue_expire_pending ::
  "OutboundQueue \<Rightarrow> instant \<Rightarrow> ((u16 \<times> bool \<times> usize) option \<times> OutboundQueue) res" where
  "OutboundQueue_expire_pending q now =
    (case PendingQueue_peek (oq_pending q) of
       None \<Rightarrow> Ok (None, q)
     | Some chunk \<Rightarrow>
         if \<not> d_beginning_fragment chunk \<or> d_user_data chunk = [] \<or> d_payload_type chunk = PPI_Dcep
            \<or> \<not> deadline_passed now chunk
         then Ok (None, q)
         else
           rbind (PendingQueue_remove_message (oq_pending q) (d_message_id chunk)) (\<lambda>(bytes, _, p).
           let p = (if d_unordered chunk then p
                    else PendingQueue_compact_ordered_ssns p (d_stream_identifier chunk))
           in Ok (Some (d_stream_identifier chunk, d_unordered chunk, bytes), q\<lparr>oq_pending := p\<rparr>)))"

definition OutboundQueue_send_next ::
  "OutboundQueue \<Rightarrow> u32 \<Rightarrow> instant \<Rightarrow> (ChunkPayloadData option \<times> u32 \<times> OutboundQueue) res" where
  "OutboundQueue_send_next q next_tsn now =
    (let q = OutboundQueue_start_timed_messages q now in
     case PendingQueue_peek (oq_pending q) of
       None \<Rightarrow> Ok (None, next_tsn, q)
     | Some c \<Rightarrow>
         rbind (PendingQueue_pop (oq_pending q) (d_beginning_fragment c) (d_unordered c)) (\<lambda>(popped, p).
         let q = q\<lparr>oq_pending := p\<rparr> in
         case popped of
           None \<Rightarrow> Ok (None, next_tsn, q)
         | Some chunk \<Rightarrow>
             let chunk = chunk\<lparr>d_tsn := next_tsn, d_since := Some now, d_nsent := 1\<rparr>
             in Ok (Some chunk, next_tsn + 1,
                    q\<lparr>oq_inflight := PayloadQueue_push_no_check (oq_inflight q) chunk\<rparr>)))"

definition OutboundQueue_get :: "OutboundQueue \<Rightarrow> u32 \<Rightarrow> ChunkPayloadData option" where
  "OutboundQueue_get q tsn = PayloadQueue_get (oq_inflight q) tsn"

definition OutboundQueue_get_mut ::
  "OutboundQueue \<Rightarrow> u32 \<Rightarrow> (ChunkPayloadData \<Rightarrow> ChunkPayloadData) \<Rightarrow> OutboundQueue" where
  "OutboundQueue_get_mut q tsn f = q\<lparr>oq_inflight := PayloadQueue_get_mut (oq_inflight q) tsn f\<rparr>"

definition OutboundQueue_pop :: "OutboundQueue \<Rightarrow> u32 \<Rightarrow> ChunkPayloadData option \<times> OutboundQueue" where
  "OutboundQueue_pop q tsn =
    (case PayloadQueue_pop (oq_inflight q) tsn of (c, f) \<Rightarrow> (c, q\<lparr>oq_inflight := f\<rparr>))"

definition OutboundQueue_mark_as_acked :: "OutboundQueue \<Rightarrow> u32 \<Rightarrow> (usize \<times> OutboundQueue) res" where
  "OutboundQueue_mark_as_acked q tsn =
    rmap (\<lambda>(n, f). (n, q\<lparr>oq_inflight := f\<rparr>)) (PayloadQueue_mark_as_acked (oq_inflight q) tsn)"

definition OutboundQueue_is_abandoned :: "OutboundQueue \<Rightarrow> u32 \<Rightarrow> bool" where
  "OutboundQueue_is_abandoned q tsn \<longleftrightarrow>
    (case PayloadQueue_get (oq_inflight q) tsn of Some c \<Rightarrow> d_abandoned c | None \<Rightarrow> False)"

text \<open>
  The closure given to \<^verbatim>\<open>remove_message\<close> keeps the last removed chunk, emptied, as the terminal
  marker.
\<close>

definition OutboundQueue_abandon_message ::
  "OutboundQueue \<Rightarrow> u64 \<Rightarrow> u16 \<Rightarrow> u32 \<Rightarrow> ((u16 \<times> usize) option \<times> u32 \<times> OutboundQueue) res" where
  "OutboundQueue_abandon_message q message_id stream next_tsn =
    rbind (PayloadQueue_abandon_message (oq_inflight q) message_id) (\<lambda>(inflight_bytes, f).
    rbind (PendingQueue_remove_message (oq_pending q) message_id) (\<lambda>(bytes, removed, p).
    let q = q\<lparr>oq_inflight := f, oq_pending := p\<rparr>;
        terminal = (if removed = [] then None else Some ((last removed)\<lparr>d_user_data := []\<rparr>))
    in case terminal of
         None \<Rightarrow> Ok (Some (stream, bytes + inflight_bytes), next_tsn, q)
       | Some chunk \<Rightarrow>
           let chunk = chunk\<lparr>d_tsn := next_tsn, d_beginning_fragment := False, d_ending_fragment := True,
                             d_abandoned := True, d_retransmit := False\<rparr>
           in Ok (Some (stream, bytes + inflight_bytes), next_tsn + 1,
                  q\<lparr>oq_inflight := PayloadQueue_push_no_check (oq_inflight q) chunk\<rparr>)))"

definition OutboundQueue_abandon ::
  "OutboundQueue \<Rightarrow> u32 \<Rightarrow> u32 \<Rightarrow> ((u16 \<times> usize) option \<times> u32 \<times> OutboundQueue) res" where
  "OutboundQueue_abandon q tsn next_tsn =
    (case PayloadQueue_get (oq_inflight q) tsn of
       None \<Rightarrow> Ok (None, next_tsn, q)
     | Some chunk \<Rightarrow>
         if d_abandoned chunk then Ok (Some (d_stream_identifier chunk, 0), next_tsn, q)
         else OutboundQueue_abandon_message q (d_message_id chunk) (d_stream_identifier chunk) next_tsn)"

definition OutboundQueue_expire_pending_tail ::
  "OutboundQueue \<Rightarrow> instant \<Rightarrow> u32 \<Rightarrow> ((u16 \<times> u64 \<times> usize) option \<times> u32 \<times> OutboundQueue) res" where
  "OutboundQueue_expire_pending_tail q now next_tsn =
    (case PendingQueue_peek (oq_pending q) of
       None \<Rightarrow> Ok (None, next_tsn, q)
     | Some chunk \<Rightarrow>
         if d_beginning_fragment chunk \<or> d_payload_type chunk = PPI_Dcep \<or> \<not> deadline_passed now chunk
         then Ok (None, next_tsn, q)
         else
           rbind (OutboundQueue_abandon_message q (d_message_id chunk) (d_stream_identifier chunk) next_tsn)
             (\<lambda>(r, next_tsn, q).
             Ok (map_option (\<lambda>(id, bytes). (id, d_message_id chunk, bytes)) r, next_tsn, q)))"

definition OutboundQueue_expired_inflight :: "OutboundQueue \<Rightarrow> instant \<Rightarrow> u32 list" where
  "OutboundQueue_expired_inflight q now =
    filter (\<lambda>tsn. case PayloadQueue_get (oq_inflight q) tsn of
        None \<Rightarrow> False
      | Some c \<Rightarrow> \<not> d_abandoned c \<and> deadline_passed now c \<and>
          (\<not> d_acked c \<or> PendingQueue_contains_message (oq_pending q) (d_message_id c)))
      (pq_sorted (oq_inflight q))"

definition OutboundQueue_mark_all_to_retransmit :: "OutboundQueue \<Rightarrow> OutboundQueue" where
  "OutboundQueue_mark_all_to_retransmit q =
    q\<lparr>oq_inflight := PayloadQueue_mark_all_to_retransmit (oq_inflight q)\<rparr>"

definition OutboundQueue_pending_contains_stream :: "OutboundQueue \<Rightarrow> u16 \<Rightarrow> bool" where
  "OutboundQueue_pending_contains_stream q stream = PendingQueue_contains_stream (oq_pending q) stream"

definition OutboundQueue_contains_stream :: "OutboundQueue \<Rightarrow> u16 \<Rightarrow> bool" where
  "OutboundQueue_contains_stream q stream \<longleftrightarrow>
    OutboundQueue_pending_contains_stream q stream \<or> PayloadQueue_contains_stream (oq_inflight q) stream"

definition OutboundQueue_pending_len :: "OutboundQueue \<Rightarrow> usize" where
  "OutboundQueue_pending_len q = PendingQueue_len (oq_pending q)"

definition OutboundQueue_pending_bytes :: "OutboundQueue \<Rightarrow> usize" where
  "OutboundQueue_pending_bytes q = PendingQueue_get_num_bytes (oq_pending q)"

definition OutboundQueue_earliest_outstanding_tsn :: "OutboundQueue \<Rightarrow> u32 option" where
  "OutboundQueue_earliest_outstanding_tsn q =
    find (\<lambda>tsn. case PayloadQueue_get (oq_inflight q) tsn of
        Some c \<Rightarrow> \<not> d_acked c \<and> \<not> d_abandoned c | None \<Rightarrow> False) (pq_sorted (oq_inflight q))"

definition OutboundQueue_inflight_len :: "OutboundQueue \<Rightarrow> usize" where
  "OutboundQueue_inflight_len q = PayloadQueue_len (oq_inflight q)"

definition OutboundQueue_inflight_bytes :: "OutboundQueue \<Rightarrow> usize" where
  "OutboundQueue_inflight_bytes q = PayloadQueue_get_num_bytes (oq_inflight q)"

subsection \<open>Invariant and ledger\<close>

definition OutboundQueue_inv :: "OutboundQueue \<Rightarrow> bool" where
  "OutboundQueue_inv q \<longleftrightarrow> PendingQueue_inv (oq_pending q) \<and> PayloadQueue_inv (oq_inflight q)"

text \<open>All TSNs in flight are among the \<open>n\<close> that precede \<open>next_tsn\<close>.\<close>

definition flight_before :: "nat \<Rightarrow> u32 \<Rightarrow> OutboundQueue \<Rightarrow> bool" where
  "flight_before n next_tsn q \<longleftrightarrow>
    (\<forall>t. OutboundQueue_get q t \<noteq> None \<longrightarrow> 0 < unat (next_tsn - t) \<and> unat (next_tsn - t) \<le> n)"

text \<open>A chunk apart from its deadline, the only thing that starting lifetimes changes.\<close>

definition untimed :: "ChunkPayloadData \<Rightarrow> ChunkPayloadData" where
  "untimed c = c\<lparr>d_deadline := None\<rparr>"

definition buffered_bytes :: "OutboundQueue \<Rightarrow> nat" where
  "buffered_bytes q = OutboundQueue_pending_bytes q + OutboundQueue_inflight_bytes q"

text \<open>The fragments of one message before it has an identifier.\<close>

definition is_fragments :: "ChunkPayloadData list \<Rightarrow> bool" where
  "is_fragments cs \<longleftrightarrow>
    (\<forall>i < length cs. (d_beginning_fragment (cs ! i) \<longleftrightarrow> i = 0) \<and>
      (d_ending_fragment (cs ! i) \<longleftrightarrow> i = length cs - 1) \<and> d_unordered (cs ! i) = d_unordered (cs ! 0))"

datatype outbound_op =
    OPush "ChunkPayloadData list" | OSend instant | OAck u32 | OPop u32 | OAbandon u32
  | OExpire instant | OExpireTail instant

text \<open>One operation: the bytes it releases, the next TSN and the queue.\<close>

definition outbound_step :: "outbound_op \<Rightarrow> u32 \<Rightarrow> OutboundQueue \<Rightarrow> (nat \<times> u32 \<times> OutboundQueue) res" where
  "outbound_step op next q =
    (case op of
       OPush cs \<Rightarrow> rmap (\<lambda>q. (0, next, q)) (OutboundQueue_push q cs)
     | OSend now \<Rightarrow> rmap (\<lambda>(_, next, q). (0, next, q)) (OutboundQueue_send_next q next now)
     | OAck t \<Rightarrow> rmap (\<lambda>(n, q). (n, next, q)) (OutboundQueue_mark_as_acked q t)
     | OPop t \<Rightarrow> (case OutboundQueue_pop q t of (c, q) \<Rightarrow> Ok (case c of None \<Rightarrow> 0 | Some c \<Rightarrow> dlen c, next, q))
     | OAbandon t \<Rightarrow> rmap (\<lambda>(r, next, q). (case r of None \<Rightarrow> 0 | Some (_, n) \<Rightarrow> n, next, q))
         (OutboundQueue_abandon q t next)
     | OExpire now \<Rightarrow> rmap (\<lambda>(r, q). (case r of None \<Rightarrow> 0 | Some (_, _, n) \<Rightarrow> n, next, q))
         (OutboundQueue_expire_pending q now)
     | OExpireTail now \<Rightarrow> rmap (\<lambda>(r, next, q). (case r of None \<Rightarrow> 0 | Some (_, _, n) \<Rightarrow> n, next, q))
         (OutboundQueue_expire_pending_tail q now next))"

fun outbound_run :: "outbound_op list \<Rightarrow> u32 \<Rightarrow> OutboundQueue \<Rightarrow> (nat \<times> u32 \<times> OutboundQueue) res" where
  "outbound_run [] next q = Ok (0, next, q)"
| "outbound_run (op # ops) next q =
    rbind (outbound_step op next q) (\<lambda>(n, next, q).
    rbind (outbound_run ops next q) (\<lambda>(m, next, q).
    Ok (n + m, next, q)))"

definition pushed_bytes :: "outbound_op list \<Rightarrow> nat" where
  "pushed_bytes ops = sum_list (map (\<lambda>op. case op of OPush cs \<Rightarrow> total_len cs | _ \<Rightarrow> 0) ops)"

definition example_outbound :: OutboundQueue where
  "example_outbound = (case OutboundQueue_push OutboundQueue_default
      [example_fragment False True False 0 [1, 2], example_fragment False False True 0 [3]] of
     Ok q \<Rightarrow> q | _ \<Rightarrow> OutboundQueue_default)"

text \<open>
  What an operation that may reserve one TSN does to the queue: \<open>n\<close> bytes are released, and the flight
  queue holds the same TSNs or also the next one.
\<close>

definition reserves_at_most_one :: "OutboundQueue \<Rightarrow> u32 \<Rightarrow> nat \<Rightarrow> u32 \<Rightarrow> OutboundQueue \<Rightarrow> bool" where
  "reserves_at_most_one q next n next' q' \<longleftrightarrow>
    OutboundQueue_inv q' \<and> buffered_bytes q' + n = buffered_bytes q \<and>
    oq_next_message_id q' = oq_next_message_id q \<and>
    (next' = next \<and> dom (OutboundQueue_get q') = dom (OutboundQueue_get q) \<or>
     next' = next + 1 \<and> dom (OutboundQueue_get q') = insert next (dom (OutboundQueue_get q)))"

subsection \<open>Each operation\<close>

named_theorems outbound \<open>accessors of the outbound queue\<close>

declare OutboundQueue_get_def [outbound] OutboundQueue_pending_bytes_def [outbound]
  OutboundQueue_inflight_bytes_def [outbound] buffered_bytes_def [outbound]
  PendingQueue_get_num_bytes_def [outbound] PayloadQueue_get_num_bytes_def [outbound]
  OutboundQueue_pending_len_def [outbound] PendingQueue_len_def [outbound]

lemma OutboundQueue_inv_default [simp]: "OutboundQueue_inv OutboundQueue_default"
  by (simp add: OutboundQueue_inv_def OutboundQueue_default_def)

lemma msg_runs_tail_fragments:
  assumes "cs \<noteq> []" "\<forall>i < length cs. \<not> d_beginning_fragment (cs ! i) \<and> (d_ending_fragment (cs ! i) \<longleftrightarrow> i = length cs - 1)"
    "\<forall>c \<in> set cs. d_message_id c = m"
  shows "msg_runs (Some m) cs"
  using assms
proof (induction cs)
  case (Cons c cs)
  have c: "\<not> d_beginning_fragment c" "d_ending_fragment c \<longleftrightarrow> cs = []" "d_message_id c = m"
    using Cons.prems(2) [rule_format, of 0] Cons.prems(3) by auto
  have "\<forall>i < length cs. \<not> d_beginning_fragment (cs ! i) \<and> (d_ending_fragment (cs ! i) \<longleftrightarrow> i = length cs - 1)"
  proof (intro allI impI)
    fix i assume "i < length cs"
    then show "\<not> d_beginning_fragment (cs ! i) \<and> (d_ending_fragment (cs ! i) \<longleftrightarrow> i = length cs - 1)"
      using Cons.prems(2) [rule_format, of "Suc i"] by auto
  qed
  then show ?case using c Cons.IH Cons.prems(3) by (cases "cs = []") auto
qed simp

lemma is_message_fragments:
  assumes "is_fragments cs" "cs \<noteq> []"
  shows "is_message (map (\<lambda>c. c\<lparr>d_message_id := m\<rparr>) cs)"
proof -
  obtain c ds where cs: "cs = c # ds" using assms(2) by (cases cs) auto
  have c: "d_beginning_fragment c" "d_ending_fragment c \<longleftrightarrow> ds = []"
    using assms(1) [unfolded is_fragments_def, rule_format, of 0] by (auto simp: cs)
  have ds: "\<not> d_beginning_fragment (ds ! i) \<and> (d_ending_fragment (ds ! i) \<longleftrightarrow> i = length ds - 1) \<and>
      d_unordered (ds ! i) = d_unordered c" if "i < length ds" for i
    using assms(1) [unfolded is_fragments_def, rule_format, of "Suc i"] that by (auto simp: cs)
  then have "\<forall>d \<in> set ds. d_unordered d = d_unordered c" by (auto simp: in_set_conv_nth)
  moreover have "ds \<noteq> [] \<Longrightarrow> msg_runs (Some m) (map (\<lambda>c. c\<lparr>d_message_id := m\<rparr>) ds)"
    using ds by (intro msg_runs_tail_fragments) auto
  ultimately show ?thesis using c by (cases "ds = []") (simp_all add: is_message_def cs)
qed

lemma total_len_map_same: "(\<And>c. dlen (f c) = dlen c) \<Longrightarrow> total_len (map f cs) = total_len cs"
  by (induction cs) auto

lemma fold_push_map:
  "fold (\<lambda>c p. PendingQueue_push p (f c)) cs p = fold (\<lambda>c p. PendingQueue_push p c) (map f cs) p"
  by (simp add: fold_map comp_def)

lemma OutboundQueue_push_ok:
  assumes "OutboundQueue_inv q" "is_fragments cs" "unat (oq_next_message_id q) + 1 < 2 ^ 64"
  shows "\<exists>q'. OutboundQueue_push q cs = Ok q' \<and> OutboundQueue_inv q' \<and> oq_inflight q' = oq_inflight q \<and>
    buffered_bytes q' = buffered_bytes q + total_len cs \<and>
    oq_next_message_id q' = oq_next_message_id q + (if cs = [] then 0 else 1)"
proof (cases "cs = []")
  case False
  let ?cs = "map (\<lambda>c. c\<lparr>d_message_id := oq_next_message_id q\<rparr>) cs"
  let ?p = "fold (\<lambda>c p. PendingQueue_push p c) ?cs (oq_pending q)"
  have "PendingQueue_inv ?p"
    using assms(1) is_message_fragments [OF assms(2) False]
    by (auto simp: OutboundQueue_inv_def PendingQueue_inv_def intro: PendingQueue_counts_push PendingQueue_shape_push)
  moreover have "pd_n_bytes ?p = pd_n_bytes (oq_pending q) + total_len cs"
    by (simp add: fold_push_fields total_len_map_same)
  ultimately show ?thesis
    using assms(1,3) False
    by (auto simp: OutboundQueue_push_def u64_checked_add_def word_add_overflow OutboundQueue_inv_def outbound Let_def
        fold_push_map [of "\<lambda>c. c\<lparr>d_message_id := oq_next_message_id q\<rparr>"])
qed (use assms in \<open>auto simp: OutboundQueue_push_def\<close>)

lemma OutboundQueue_inv_start_timed:
  assumes "OutboundQueue_inv q"
  shows "OutboundQueue_inv (OutboundQueue_start_timed_messages q now) \<and>
    oq_inflight (OutboundQueue_start_timed_messages q now) = oq_inflight q \<and>
    oq_next_message_id (OutboundQueue_start_timed_messages q now) = oq_next_message_id q \<and>
    pd_n_bytes (oq_pending (OutboundQueue_start_timed_messages q now)) = pd_n_bytes (oq_pending q) \<and>
    pd_queue_len (oq_pending (OutboundQueue_start_timed_messages q now)) = pd_queue_len (oq_pending q)"
  using assms
  by (auto simp: OutboundQueue_start_timed_messages_def OutboundQueue_inv_def PendingQueue_inv_def
      PendingQueue_counts_start_timed PendingQueue_shape_start_timed)
    (simp_all add: PendingQueue_start_timed_messages_def)

lemma front_map: "map_option f (front xs) = front (map f xs)"
  by (cases xs) (simp_all add: front_def)

lemma PendingQueue_peek_map_cong:
  assumes "map f (pd_ordered_queue p) = map f (pd_ordered_queue q)" "map f (pd_unordered_queue p) = map f (pd_unordered_queue q)"
    "pd_selected p = pd_selected q" "pd_unordered_is_selected p = pd_unordered_is_selected q"
  shows "map_option f (PendingQueue_peek p) = map_option f (PendingQueue_peek q)"
proof -
  have o: "map_option f (front (pd_ordered_queue p)) = map_option f (front (pd_ordered_queue q))"
    and u: "map_option f (front (pd_unordered_queue p)) = map_option f (front (pd_unordered_queue q))"
    unfolding front_map by (simp_all only: assms)
  show ?thesis using o u assms(3,4) by (auto simp: PendingQueue_peek_def split: option.splits)
qed

lemma untimed_start [simp]: "untimed (start_timed_chunk now c) = untimed c"
  by (auto simp: untimed_def start_timed_chunk_def split: option.splits prod.splits ReliabilityType.splits)

lemma OutboundQueue_start_timed_untimed:
  defines "p now q \<equiv> oq_pending (OutboundQueue_start_timed_messages q now)"
  shows "map untimed (pd_ordered_queue (p now q)) = map untimed (pd_ordered_queue (oq_pending q))"
    "map untimed (pd_unordered_queue (p now q)) = map untimed (pd_unordered_queue (oq_pending q))"
    "map_option untimed (PendingQueue_peek (p now q)) = map_option untimed (PendingQueue_peek (oq_pending q))"
proof -
  show o: "map untimed (pd_ordered_queue (p now q)) = map untimed (pd_ordered_queue (oq_pending q))"
    and u: "map untimed (pd_unordered_queue (p now q)) = map untimed (pd_unordered_queue (oq_pending q))"
    by (simp_all add: p_def OutboundQueue_start_timed_messages_def PendingQueue_start_timed_messages_def
        start_timed_queue_same)
  show "map_option untimed (PendingQueue_peek (p now q)) = map_option untimed (PendingQueue_peek (oq_pending q))"
    by (rule PendingQueue_peek_map_cong [OF o u])
      (simp_all add: p_def OutboundQueue_start_timed_messages_def PendingQueue_start_timed_messages_def)
qed

text \<open>The chunk sent is the one that peeking shows, and it alone leaves the pending queue.\<close>

lemma OutboundQueue_send_next_takes_peeked:
  assumes "OutboundQueue_inv q" "OutboundQueue_send_next q next now = Ok (Some c, next', q')"
  shows "\<exists>d. PendingQueue_peek (oq_pending q) = Some d \<and>
    c = d\<lparr>d_deadline := d_deadline c, d_tsn := next, d_since := Some now, d_nsent := 1\<rparr> \<and>
    map untimed (pd_ordered_queue (oq_pending q)) =
      (if d_unordered d then [] else [untimed d]) @ map untimed (pd_ordered_queue (oq_pending q')) \<and>
    map untimed (pd_unordered_queue (oq_pending q)) =
      (if d_unordered d then [untimed d] else []) @ map untimed (pd_unordered_queue (oq_pending q'))"
proof -
  define q0 where "q0 = OutboundQueue_start_timed_messages q now"
  note un = OutboundQueue_start_timed_untimed [of q now, folded q0_def]
  have "OutboundQueue_inv q0" using OutboundQueue_inv_start_timed [OF assms(1)] by (simp add: q0_def)
  then obtain s where s: "PendingQueue_counts (oq_pending q0)" "PendingQueue_shape s (oq_pending q0)"
    by (auto simp: OutboundQueue_inv_def PendingQueue_inv_def)
  have "PendingQueue_peek (oq_pending q0) \<noteq> None"
    using assms(2)
    by (auto simp: OutboundQueue_send_next_def Let_def q0_def [symmetric] outbound split: option.splits)
  then obtain e where e: "PendingQueue_peek (oq_pending q0) = Some e" by blast
  from PendingQueue_pop_peeked [OF s e] obtain p where p:
    "PendingQueue_pop (oq_pending q0) (d_beginning_fragment e) (d_unordered e) = Ok (Some e, p)"
    "pd_unordered_queue (oq_pending q0) = (if d_unordered e then [e] else []) @ pd_unordered_queue p"
    "pd_ordered_queue (oq_pending q0) = (if d_unordered e then [] else [e]) @ pd_ordered_queue p"
    by blast
  obtain d where d: "PendingQueue_peek (oq_pending q) = Some d" "untimed e = untimed d"
    using un(3) e by (cases "PendingQueue_peek (oq_pending q)") auto
  have u: "d_unordered e = d_unordered d" using arg_cong [OF d(2), of d_unordered] by (simp add: untimed_def)
  have q': "c = e\<lparr>d_tsn := next, d_since := Some now, d_nsent := 1\<rparr>" "oq_pending q' = p"
    using assms(2) e p(1) by (auto simp: OutboundQueue_send_next_def Let_def q0_def [symmetric] outbound)
  have "c = d\<lparr>d_deadline := d_deadline c, d_tsn := next, d_since := Some now, d_nsent := 1\<rparr>"
    using d(2) by (cases d; cases e) (simp add: q'(1) untimed_def)
  moreover have "map untimed (pd_ordered_queue (oq_pending q)) =
      (if d_unordered d then [] else [untimed d]) @ map untimed (pd_ordered_queue (oq_pending q'))"
    "map untimed (pd_unordered_queue (oq_pending q)) =
      (if d_unordered d then [untimed d] else []) @ map untimed (pd_unordered_queue (oq_pending q'))"
    unfolding un(1,2) [symmetric] p(2,3) by (simp_all add: d(2) u q'(2))
  ultimately show ?thesis using d(1) by blast
qed

lemma OutboundQueue_send_next_ok:
  assumes "OutboundQueue_inv q" "OutboundQueue_get q next = None"
  shows "\<exists>r next' q'. OutboundQueue_send_next q next now = Ok (r, next', q') \<and> OutboundQueue_inv q' \<and>
    buffered_bytes q' = buffered_bytes q \<and> oq_next_message_id q' = oq_next_message_id q \<and>
    (case r of
       None \<Rightarrow> next' = next \<and> OutboundQueue_pending_len q = 0 \<and> oq_inflight q' = oq_inflight q
     | Some c \<Rightarrow> next' = next + 1 \<and> d_tsn c = next \<and> d_nsent c = 1 \<and> d_since c = Some now \<and>
         OutboundQueue_get q' = (OutboundQueue_get q)(next \<mapsto> c) \<and>
         OutboundQueue_pending_len q = OutboundQueue_pending_len q' + 1)"
proof -
  define q0 where "q0 = OutboundQueue_start_timed_messages q now"
  have q0: "OutboundQueue_inv q0" "oq_inflight q0 = oq_inflight q" "oq_next_message_id q0 = oq_next_message_id q"
    "pd_n_bytes (oq_pending q0) = pd_n_bytes (oq_pending q)"
    "pd_queue_len (oq_pending q0) = pd_queue_len (oq_pending q)"
    using OutboundQueue_inv_start_timed [OF assms(1)] by (auto simp: q0_def)
  then obtain s where s: "PendingQueue_counts (oq_pending q0)" "PendingQueue_shape s (oq_pending q0)"
    by (auto simp: OutboundQueue_inv_def PendingQueue_inv_def)
  show ?thesis
  proof (cases "PendingQueue_peek (oq_pending q0)")
    case None
    moreover have "pd_queue_len (oq_pending q0) = 0"
      using None s pending.peek_None [of "oq_pending q0" s] by (simp add: PendingQueue_len_def)
    ultimately show ?thesis
      using q0 by (simp add: OutboundQueue_send_next_def Let_def q0_def [symmetric] outbound)
  next
    case (Some c)
    from PendingQueue_pop_peeked [OF s Some] obtain p where p:
      "PendingQueue_pop (oq_pending q0) (d_beginning_fragment c) (d_unordered c) = Ok (Some c, p)"
      "PendingQueue_inv p" "pd_n_bytes (oq_pending q0) = pd_n_bytes p + dlen c"
      "pd_queue_len (oq_pending q0) = pd_queue_len p + 1"
      by (auto simp: PendingQueue_inv_def)
    let ?c = "c\<lparr>d_tsn := next, d_since := Some now, d_nsent := 1\<rparr>"
    have fresh: "PayloadQueue_get (oq_inflight q0) (d_tsn ?c) = None"
      using assms(2) q0(2) by (simp add: outbound)
    have f: "PayloadQueue_inv (PayloadQueue_push_no_check (oq_inflight q0) ?c)"
      "PayloadQueue_get (PayloadQueue_push_no_check (oq_inflight q0) ?c) = (PayloadQueue_get (oq_inflight q0))(next \<mapsto> ?c)"
      "PayloadQueue_get_num_bytes (PayloadQueue_push_no_check (oq_inflight q0) ?c)
        = PayloadQueue_get_num_bytes (oq_inflight q0) + dlen c"
      using q0(1) fresh pq.inv_push pq.get_push pq.bytes_push by (auto simp: OutboundQueue_inv_def)
    show ?thesis
      using Some p f q0 by (simp add: OutboundQueue_send_next_def Let_def q0_def [symmetric] OutboundQueue_inv_def
          outbound fun_eq_iff)
  qed
qed

lemma OutboundQueue_mark_as_acked_ok:
  assumes "OutboundQueue_inv q"
  shows "\<exists>n q'. OutboundQueue_mark_as_acked q t = Ok (n, q') \<and> OutboundQueue_inv q' \<and>
    buffered_bytes q' + n = buffered_bytes q \<and> oq_next_message_id q' = oq_next_message_id q \<and>
    dom (OutboundQueue_get q') = dom (OutboundQueue_get q)"
  using assms PayloadQueue_mark_as_acked_ok [of "oq_inflight q" t]
  by (auto simp: OutboundQueue_mark_as_acked_def OutboundQueue_inv_def outbound split: if_splits)

lemma OutboundQueue_pop_ok:
  assumes "OutboundQueue_inv q" "OutboundQueue_pop q t = (c, q')"
  shows "OutboundQueue_inv q' \<and>
    buffered_bytes q' + (case c of None \<Rightarrow> 0 | Some c \<Rightarrow> dlen c) = buffered_bytes q \<and>
    oq_next_message_id q' = oq_next_message_id q \<and> dom (OutboundQueue_get q') \<subseteq> dom (OutboundQueue_get q)"
proof (cases "pq_sorted (oq_inflight q) = [] \<or> hd (pq_sorted (oq_inflight q)) \<noteq> t")
  case True
  then show ?thesis using assms PayloadQueue_pop_other [OF True] by (auto simp: OutboundQueue_pop_def)
next
  case False
  then obtain ts where "pq_sorted (oq_inflight q) = t # ts" by (cases "pq_sorted (oq_inflight q)") auto
  moreover have "PayloadQueue_inv (oq_inflight q)" using assms(1) by (simp add: OutboundQueue_inv_def)
  ultimately obtain d f where "PayloadQueue_pop (oq_inflight q) t = (Some d, f)" "PayloadQueue_inv f"
    "PayloadQueue_get f = (PayloadQueue_get (oq_inflight q))(t := None)"
    "pq_n_bytes f + dlen d = pq_n_bytes (oq_inflight q)"
    using PayloadQueue_pop_ok [of "oq_inflight q" t ts] by blast
  then show ?thesis
    using assms by (auto simp: OutboundQueue_pop_def OutboundQueue_inv_def outbound split: if_splits)
qed

lemma OutboundQueue_abandon_message_ok:
  fixes i :: u64
  assumes "OutboundQueue_inv q" "OutboundQueue_get q next = None"
  defines "tail \<equiv> filter (\<lambda>c. d_message_id c = i) (pd_ordered_queue (oq_pending q) @ pd_unordered_queue (oq_pending q))"
  shows "\<exists>n next' q'. OutboundQueue_abandon_message q i sid next = Ok (Some (sid, n), next', q') \<and>
    OutboundQueue_inv q' \<and> buffered_bytes q' + n = buffered_bytes q \<and>
    oq_next_message_id q' = oq_next_message_id q \<and>
    \<not> PendingQueue_contains_message (oq_pending q') i \<and>
    pd_ordered_queue (oq_pending q') = filter (\<lambda>c. d_message_id c \<noteq> i) (pd_ordered_queue (oq_pending q)) \<and>
    pd_unordered_queue (oq_pending q') = filter (\<lambda>c. d_message_id c \<noteq> i) (pd_unordered_queue (oq_pending q)) \<and>
    next' = (if tail = [] then next else next + 1) \<and>
    (\<forall>t. t \<noteq> next \<longrightarrow> OutboundQueue_get q' t = map_option (abandon_chunk i) (OutboundQueue_get q t)) \<and>
    (if tail = [] then OutboundQueue_get q' next = None
     else \<exists>c. OutboundQueue_get q' next = Some c \<and> d_tsn c = next \<and> d_message_id c = i \<and> d_abandoned c \<and>
       d_user_data c = [] \<and> d_ending_fragment c \<and> \<not> d_beginning_fragment c)"
proof -
  obtain s where s: "PendingQueue_counts (oq_pending q)" "PendingQueue_shape s (oq_pending q)"
    and f: "PayloadQueue_inv (oq_inflight q)"
    using assms(1) by (auto simp: OutboundQueue_inv_def PendingQueue_inv_def)
  from PayloadQueue_abandon_message_ok [OF f, of i] obtain f' where f':
    "PayloadQueue_abandon_message (oq_inflight q) i = Ok (message_bytes i (oq_inflight q), f')" "PayloadQueue_inv f'"
    "PayloadQueue_get f' = (\<lambda>t. map_option (abandon_chunk i) (PayloadQueue_get (oq_inflight q) t))"
    "pq_n_bytes f' + message_bytes i (oq_inflight q) = pq_n_bytes (oq_inflight q)"
    by blast
  from PendingQueue_remove_message_ok [OF s, of i] obtain p where p:
    "PendingQueue_remove_message (oq_pending q) i = Ok (total_len tail, tail, p)" "PendingQueue_inv p"
    "pd_unordered_queue p = filter (\<lambda>c. d_message_id c \<noteq> i) (pd_unordered_queue (oq_pending q))"
    "pd_ordered_queue p = filter (\<lambda>c. d_message_id c \<noteq> i) (pd_ordered_queue (oq_pending q))"
    "pd_n_bytes (oq_pending q) = pd_n_bytes p + total_len tail"
    unfolding tail_def PendingQueue_inv_def by metis
  have none: "\<not> PendingQueue_contains_message p i"
    by (auto simp: PendingQueue_contains_message_def p(3,4))
  have fresh: "PayloadQueue_get f' next = None" using assms(2) f'(3) by (simp add: outbound)
  show ?thesis
  proof (cases "tail = []")
    case True
    then show ?thesis
      using p f' none fresh by (simp add: OutboundQueue_abandon_message_def OutboundQueue_inv_def outbound)
  next
    case False
    have id: "d_message_id (last tail) = i" using last_in_set [OF False] by (auto simp: tail_def)
    let ?c = "(last tail)\<lparr>d_user_data := [], d_tsn := next, d_beginning_fragment := False,
      d_ending_fragment := True, d_abandoned := True, d_retransmit := False\<rparr>"
    have g: "PayloadQueue_inv (PayloadQueue_push_no_check f' ?c)"
      "PayloadQueue_get (PayloadQueue_push_no_check f' ?c) = (PayloadQueue_get f')(next \<mapsto> ?c)"
      "pq_n_bytes (PayloadQueue_push_no_check f' ?c) = pq_n_bytes f'"
      using f'(2) fresh pq.inv_push [of f' ?c] pq.get_push [of f' ?c] pq.bytes_push [of f' ?c]
      by (auto simp: PayloadQueue_get_num_bytes_def)
    show ?thesis
      using False p f' none g id
      by (simp add: OutboundQueue_abandon_message_def OutboundQueue_inv_def outbound Let_def)
  qed
qed

lemma OutboundQueue_abandon_message_reserves:
  assumes "OutboundQueue_inv q" "OutboundQueue_get q next = None"
  shows "\<exists>n next' q'. OutboundQueue_abandon_message q i sid next = Ok (Some (sid, n), next', q') \<and>
    reserves_at_most_one q next n next' q'"
proof -
  obtain n next' q' where r: "OutboundQueue_abandon_message q i sid next = Ok (Some (sid, n), next', q')"
    "OutboundQueue_inv q'" "buffered_bytes q' + n = buffered_bytes q" "oq_next_message_id q' = oq_next_message_id q"
    "\<forall>u. u \<noteq> next \<longrightarrow> OutboundQueue_get q' u = map_option (abandon_chunk i) (OutboundQueue_get q u)"
    "next' = next \<and> OutboundQueue_get q' next = None \<or> next' = next + 1 \<and> OutboundQueue_get q' next \<noteq> None"
    using OutboundQueue_abandon_message_ok [OF assms, of i sid] by (force split: if_splits)
  then have d: "u \<noteq> next \<Longrightarrow> u \<in> dom (OutboundQueue_get q') \<longleftrightarrow> u \<in> dom (OutboundQueue_get q)" for u
    by (simp add: domIff)
  have "dom (OutboundQueue_get q') = dom (OutboundQueue_get q)" if "OutboundQueue_get q' next = None"
    using that assms(2) d by (intro set_eqI) (metis domIff)
  moreover have "dom (OutboundQueue_get q') = insert next (dom (OutboundQueue_get q))"
    if "OutboundQueue_get q' next \<noteq> None"
    using that d by (intro set_eqI) (metis domIff insert_iff)
  ultimately show ?thesis using r unfolding reserves_at_most_one_def by metis
qed

lemma OutboundQueue_abandon_reserves:
  assumes "OutboundQueue_inv q" "OutboundQueue_get q next = None"
  shows "\<exists>r next' q'. OutboundQueue_abandon q t next = Ok (r, next', q') \<and>
    reserves_at_most_one q next (case r of None \<Rightarrow> 0 | Some (_, n) \<Rightarrow> n) next' q'"
  using assms(1) OutboundQueue_abandon_message_reserves [OF assms]
  by (fastforce simp: OutboundQueue_abandon_def reserves_at_most_one_def split: option.splits)

lemma OutboundQueue_expire_pending_tail_reserves:
  assumes "OutboundQueue_inv q" "OutboundQueue_get q next = None"
  shows "\<exists>r next' q'. OutboundQueue_expire_pending_tail q now next = Ok (r, next', q') \<and>
    reserves_at_most_one q next (case r of None \<Rightarrow> 0 | Some (_, _, n) \<Rightarrow> n) next' q'"
proof (cases "PendingQueue_peek (oq_pending q)")
  case None
  then show ?thesis
    using assms by (simp add: OutboundQueue_expire_pending_tail_def reserves_at_most_one_def)
next
  case (Some c)
  then show ?thesis
    using assms(1) OutboundQueue_abandon_message_reserves [OF assms, of "d_message_id c" "d_stream_identifier c"]
    by (auto simp: OutboundQueue_expire_pending_tail_def reserves_at_most_one_def)
qed

lemma OutboundQueue_expire_pending_ok:
  assumes "OutboundQueue_inv q"
  shows "\<exists>r q'. OutboundQueue_expire_pending q now = Ok (r, q') \<and> OutboundQueue_inv q' \<and>
    buffered_bytes q' + (case r of None \<Rightarrow> 0 | Some (_, _, n) \<Rightarrow> n) = buffered_bytes q \<and>
    oq_inflight q' = oq_inflight q \<and> oq_next_message_id q' = oq_next_message_id q"
proof (cases "PendingQueue_peek (oq_pending q)")
  case None
  then show ?thesis using assms by (simp add: OutboundQueue_expire_pending_def)
next
  case (Some c)
  obtain s where s: "PendingQueue_counts (oq_pending q)" "PendingQueue_shape s (oq_pending q)"
    using assms by (auto simp: OutboundQueue_inv_def PendingQueue_inv_def)
  from PendingQueue_remove_message_ok [OF s, of "d_message_id c"] obtain n cs p s' where p:
    "PendingQueue_remove_message (oq_pending q) (d_message_id c) = Ok (n, cs, p)"
    "PendingQueue_counts p" "PendingQueue_shape s' p" "pd_n_bytes (oq_pending q) = pd_n_bytes p + n"
    by blast
  let ?p = "if d_unordered c then p else PendingQueue_compact_ordered_ssns p (d_stream_identifier c)"
  have "PendingQueue_inv ?p"
    using p(2,3) PendingQueue_counts_compact [OF p(2)] PendingQueue_shape_compact [OF p(3)]
    unfolding PendingQueue_inv_def by auto
  moreover have "pd_n_bytes ?p = pd_n_bytes p" by (simp add: PendingQueue_compact_ordered_ssns_def)
  ultimately show ?thesis
    using Some p assms by (simp add: OutboundQueue_expire_pending_def OutboundQueue_inv_def outbound Let_def)
qed

subsection \<open>TSNs in flight\<close>

lemma flight_before_fresh: "flight_before n next q \<Longrightarrow> OutboundQueue_get q next = None"
  by (auto simp: flight_before_def)

lemma flight_before_same:
  "flight_before n next q \<Longrightarrow> dom (OutboundQueue_get q') \<subseteq> dom (OutboundQueue_get q) \<Longrightarrow> flight_before (n + 1) next q'"
  by (fastforce simp: flight_before_def dom_def)

lemma flight_before_next:
  assumes "flight_before n next q" "n + 1 < 2 ^ 32"
    and "dom (OutboundQueue_get q') \<subseteq> insert next (dom (OutboundQueue_get q))"
  shows "flight_before (n + 1) (next + 1) q'"
  unfolding flight_before_def
proof (intro allI impI)
  fix t assume "OutboundQueue_get q' t \<noteq> None"
  then have "t = next \<or> OutboundQueue_get q t \<noteq> None" using assms(3) by (auto simp: dom_def)
  then have le: "unat (next - t) \<le> n" using assms(1) by (auto simp: flight_before_def)
  have "next + 1 - t = (next - t) + 1" by simp
  then have "unat (next + 1 - t) = unat (next - t) + 1"
    using le assms(2) by (simp only: unat_word_ariths) simp
  with le show "0 < unat (next + 1 - t) \<and> unat (next + 1 - t) \<le> n + 1" by simp
qed

lemma reserves_flight_before:
  assumes "flight_before n next q" "n + 1 < 2 ^ 32" "reserves_at_most_one q next k next' q'"
  shows "flight_before (n + 1) next' q'"
  using assms(3) flight_before_same [OF assms(1), of q'] flight_before_next [OF assms(1,2), of q']
  by (auto simp: reserves_at_most_one_def)

lemma OutboundQueue_get_cong: "oq_inflight q' = oq_inflight q \<Longrightarrow> OutboundQueue_get q' = OutboundQueue_get q"
  by (simp add: OutboundQueue_get_def fun_eq_iff)

lemma outbound_step_ok:
  assumes "OutboundQueue_inv q" "flight_before n next q" "n + 1 < 2 ^ 32"
    "unat (oq_next_message_id q) \<le> n" "\<forall>cs. op = OPush cs \<longrightarrow> is_fragments cs"
  shows "\<exists>r next' q'. outbound_step op next q = Ok (r, next', q') \<and> OutboundQueue_inv q' \<and>
    flight_before (n + 1) next' q' \<and> unat (oq_next_message_id q') \<le> n + 1 \<and>
    buffered_bytes q' + r = buffered_bytes q + pushed_bytes [op]"
proof -
  note fresh = flight_before_fresh [OF assms(2)]
  note same = flight_before_same [OF assms(2)] and nxt = flight_before_next [OF assms(2,3)]
  note res = reserves_flight_before [OF assms(2,3)]
  show ?thesis
  proof (cases op)
    case (OPush cs)
    have "unat (oq_next_message_id q) + 1 < 2 ^ 64" using assms(3,4) by simp
    with OutboundQueue_push_ok [OF assms(1), of cs] assms(5) OPush obtain q' where q':
      "OutboundQueue_push q cs = Ok q'" "OutboundQueue_inv q'" "oq_inflight q' = oq_inflight q"
      "buffered_bytes q' = buffered_bytes q + total_len cs"
      "oq_next_message_id q' = oq_next_message_id q + (if cs = [] then 0 else 1)" by blast
    have "unat (oq_next_message_id q') \<le> n + 1"
      using assms(3,4) by (auto simp: q'(5) unat_word_ariths)
    moreover have "OutboundQueue_get q' = OutboundQueue_get q"
      by (rule OutboundQueue_get_cong [OF q'(3)])
    ultimately show ?thesis
      using q' OPush same [of q'] by (simp add: outbound_step_def pushed_bytes_def)
  next
    case (OSend now)
    from OutboundQueue_send_next_ok [OF assms(1) fresh, of now] obtain r next' q' where r:
      "OutboundQueue_send_next q next now = Ok (r, next', q')" "OutboundQueue_inv q'"
      "buffered_bytes q' = buffered_bytes q" "oq_next_message_id q' = oq_next_message_id q"
      "case r of None \<Rightarrow> next' = next \<and> OutboundQueue_pending_len q = 0 \<and> oq_inflight q' = oq_inflight q
       | Some c \<Rightarrow> next' = next + 1 \<and> d_tsn c = next \<and> d_nsent c = 1 \<and> d_since c = Some now \<and>
           OutboundQueue_get q' = (OutboundQueue_get q)(next \<mapsto> c) \<and>
           OutboundQueue_pending_len q = OutboundQueue_pending_len q' + 1" by blast
    have "flight_before (n + 1) next' q'"
      using r(5) same [of q'] nxt [of q'] OutboundQueue_get_cong [of q' q] by (cases r) auto
    with r OSend assms(4) show ?thesis by (simp add: outbound_step_def pushed_bytes_def)
  next
    case (OAck t)
    with OutboundQueue_mark_as_acked_ok [OF assms(1), of t] assms(4) show ?thesis
      using same by (auto simp: outbound_step_def pushed_bytes_def)
  next
    case (OPop t)
    obtain c q' where p: "OutboundQueue_pop q t = (c, q')" by fastforce
    with OutboundQueue_pop_ok [OF assms(1) p] OPop assms(4) show ?thesis
      using same [of q'] by (simp add: outbound_step_def pushed_bytes_def)
  next
    case (OAbandon t)
    with OutboundQueue_abandon_reserves [OF assms(1) fresh, of t] assms(4) show ?thesis
      using res by (fastforce simp: outbound_step_def pushed_bytes_def reserves_at_most_one_def)
  next
    case (OExpire now)
    from OutboundQueue_expire_pending_ok [OF assms(1), of now] obtain r q' where r:
      "OutboundQueue_expire_pending q now = Ok (r, q')" "OutboundQueue_inv q'"
      "buffered_bytes q' + (case r of None \<Rightarrow> 0 | Some (_, _, n) \<Rightarrow> n) = buffered_bytes q"
      "oq_inflight q' = oq_inflight q" "oq_next_message_id q' = oq_next_message_id q" by blast
    with OExpire assms(4) show ?thesis
      using same [of q'] OutboundQueue_get_cong [OF r(4)] by (simp add: outbound_step_def pushed_bytes_def)
  next
    case (OExpireTail now)
    with OutboundQueue_expire_pending_tail_reserves [OF assms(1) fresh, of now] assms(4) show ?thesis
      using res by (fastforce simp: outbound_step_def pushed_bytes_def reserves_at_most_one_def)
  qed
qed

lemma outbound_run_ok:
  assumes "OutboundQueue_inv q" "flight_before n next q" "n + length ops < 2 ^ 32"
    "unat (oq_next_message_id q) \<le> n" "\<forall>cs. OPush cs \<in> set ops \<longrightarrow> is_fragments cs"
  shows "\<exists>r next' q'. outbound_run ops next q = Ok (r, next', q') \<and> OutboundQueue_inv q' \<and>
    buffered_bytes q' + r = buffered_bytes q + pushed_bytes ops"
  using assms
proof (induction ops arbitrary: n "next" q)
  case Nil
  then show ?case by (simp add: pushed_bytes_def)
next
  case (Cons op ops)
  have n: "n + 1 + length ops < 2 ^ 32" "n + 1 < 2 ^ 32" using Cons.prems(3) by auto
  obtain r next1 q1 where s: "outbound_step op next q = Ok (r, next1, q1)" "OutboundQueue_inv q1"
    "flight_before (n + 1) next1 q1" "unat (oq_next_message_id q1) \<le> n + 1"
    "buffered_bytes q1 + r = buffered_bytes q + pushed_bytes [op]"
    using outbound_step_ok [OF Cons.prems(1,2) n(2) Cons.prems(4), of op] Cons.prems(5) by auto
  obtain r' next2 q2 where "outbound_run ops next1 q1 = Ok (r', next2, q2)" "OutboundQueue_inv q2"
    "buffered_bytes q2 + r' = buffered_bytes q1 + pushed_bytes ops"
    using Cons.IH [OF s(2,3) n(1) s(4)] Cons.prems(5) by auto
  with s show ?case by (simp add: pushed_bytes_def)
qed

subsection \<open>Properties\<close>

text \<open>
  C17: Sending the next chunk: while the TSN is not in flight, \<^verbatim>\<open>send_next\<close> does not panic, returns
  nothing exactly when nothing is pending, and otherwise takes the chunk that peeking at the pending
  queue shows, puts it in flight under that TSN, stamped with the time and one transmission and with
  every other field but the deadline as it was queued, and steps the TSN by one. That chunk was the
  head of the queue of its kind, ordered or unordered, and is all that leaves the two queues: the
  other chunks stay in order and change in nothing but the deadline. No byte is lost or duplicated.
\<close>
theorem OutboundQueue_send_next_correct:
  assumes "OutboundQueue_inv q" "OutboundQueue_get q next = None"
  shows "\<exists>r next' q'. OutboundQueue_send_next q next now = Ok (r, next', q') \<and> OutboundQueue_inv q' \<and>
    buffered_bytes q' = buffered_bytes q \<and>
    (case r of
       None \<Rightarrow> OutboundQueue_pending_len q = 0 \<and> next' = next \<and> oq_inflight q' = oq_inflight q
     | Some c \<Rightarrow> OutboundQueue_pending_len q = OutboundQueue_pending_len q' + 1 \<and> next' = next + 1 \<and>
         d_tsn c = next \<and> d_nsent c = 1 \<and> d_since c = Some now \<and>
         OutboundQueue_get q' = (OutboundQueue_get q)(next \<mapsto> c) \<and>
         (\<exists>d. PendingQueue_peek (oq_pending q) = Some d \<and>
           c = d\<lparr>d_deadline := d_deadline c, d_tsn := next, d_since := Some now, d_nsent := 1\<rparr> \<and>
           map untimed (pd_ordered_queue (oq_pending q)) =
             (if d_unordered d then [] else [untimed d]) @ map untimed (pd_ordered_queue (oq_pending q')) \<and>
           map untimed (pd_unordered_queue (oq_pending q)) =
             (if d_unordered d then [untimed d] else []) @ map untimed (pd_unordered_queue (oq_pending q'))))"
proof -
  obtain r next' q' where r: "OutboundQueue_send_next q next now = Ok (r, next', q')" "OutboundQueue_inv q'"
    "buffered_bytes q' = buffered_bytes q"
    "case r of
       None \<Rightarrow> next' = next \<and> OutboundQueue_pending_len q = 0 \<and> oq_inflight q' = oq_inflight q
     | Some c \<Rightarrow> next' = next + 1 \<and> d_tsn c = next \<and> d_nsent c = 1 \<and> d_since c = Some now \<and>
         OutboundQueue_get q' = (OutboundQueue_get q)(next \<mapsto> c) \<and>
         OutboundQueue_pending_len q = OutboundQueue_pending_len q' + 1"
    using OutboundQueue_send_next_ok [OF assms, of now] by blast
  show ?thesis
  proof (cases r)
    case None
    with r show ?thesis by (intro exI [of _ r] exI [of _ next'] exI [of _ q']) simp
  next
    case (Some c)
    note taken = OutboundQueue_send_next_takes_peeked [OF assms(1) r(1) [unfolded Some]]
    from r Some taken show ?thesis
      by (intro exI [of _ r] exI [of _ next'] exI [of _ q']) (simp only: option.case simp_thms)
  qed
qed

lemma example_outbound_inv: "OutboundQueue_inv example_outbound"
proof -
  let ?cs = "[example_fragment False True False 0 [1, 2], example_fragment False False True 0 [3]]"
  have "is_fragments ?cs"
    by (auto simp: is_fragments_def less_Suc_eq example_fragment_def ChunkPayloadData_default_def nth_Cons')
  moreover have "unat (oq_next_message_id OutboundQueue_default) + 1 < 2 ^ 64"
    by (simp add: OutboundQueue_default_def)
  ultimately obtain q where "OutboundQueue_push OutboundQueue_default ?cs = Ok q" "OutboundQueue_inv q"
    using OutboundQueue_push_ok [OF OutboundQueue_inv_default] by blast
  then show ?thesis by (simp add: example_outbound_def)
qed

theorem OutboundQueue_send_next_correct_witness:
  "\<exists>c q'. OutboundQueue_send_next example_outbound 7 5 = Ok (Some c, 8, q') \<and> d_tsn c = 7 \<and>
    buffered_bytes q' = 3 \<and> length (pd_ordered_queue (oq_pending q')) = 1 \<and>
    (\<exists>d. PendingQueue_peek (oq_pending example_outbound) = Some d \<and> d_user_data c = d_user_data d)"
proof -
  have fresh: "OutboundQueue_get example_outbound 7 = None" by code_simp
  have len: "OutboundQueue_pending_len example_outbound = 2" "buffered_bytes example_outbound = 3" by code_simp+
  have queued: "length (pd_ordered_queue (oq_pending example_outbound)) = 2"
    "\<not> d_unordered (the (PendingQueue_peek (oq_pending example_outbound)))" by code_simp+
  obtain c q' d where s: "OutboundQueue_send_next example_outbound 7 5 = Ok (Some c, 8, q')" "d_tsn c = 7"
    "buffered_bytes q' = 3" "PendingQueue_peek (oq_pending example_outbound) = Some d"
    "c = d\<lparr>d_deadline := d_deadline c, d_tsn := 7, d_since := Some 5, d_nsent := 1\<rparr>"
    "map untimed (pd_ordered_queue (oq_pending example_outbound)) =
      (if d_unordered d then [] else [untimed d]) @ map untimed (pd_ordered_queue (oq_pending q'))"
    using OutboundQueue_send_next_correct [OF example_outbound_inv fresh, of 5] len
    by (auto split: option.splits simp del: map_eq_append_conv)
  have "d_user_data c = d_user_data d" by (subst s(5)) simp
  moreover have "length (pd_ordered_queue (oq_pending q')) = 1"
    using arg_cong [OF s(6), of length] queued s(4) by simp
  ultimately show ?thesis using s(1-4) by blast
qed




text \<open>
  C13: The ledger of the sender: for any sequence of fewer than \<open>2 ^ 32\<close> operations (queueing messages,
  sending, acknowledging, popping, abandoning, expiring) from an empty queue and any initial TSN, no
  operation panics, and the bytes queued are exactly the bytes still pending or in flight plus the
  bytes reported as released.
\<close>
theorem outbound_ledger:
  assumes "length ops < 2 ^ 32" "\<forall>cs. OPush cs \<in> set ops \<longrightarrow> is_fragments cs"
  shows "\<exists>released next q. outbound_run ops initial_tsn OutboundQueue_default = Ok (released, next, q) \<and>
    OutboundQueue_inv q \<and> pushed_bytes ops = OutboundQueue_pending_bytes q + OutboundQueue_inflight_bytes q + released"
proof -
  have "flight_before 0 initial_tsn OutboundQueue_default" "buffered_bytes OutboundQueue_default = 0"
    "unat (oq_next_message_id OutboundQueue_default) \<le> 0"
    by (simp_all add: flight_before_def OutboundQueue_default_def outbound PayloadQueue_get_def PayloadQueue_new_def
        PendingQueue_new_def)
  with outbound_run_ok [OF OutboundQueue_inv_default, of 0 initial_tsn ops] assms show ?thesis
    by (auto simp: buffered_bytes_def)
qed

theorem outbound_ledger_witness:
  "\<exists>released next q. outbound_run
      [OPush [example_fragment False True False 0 [1, 2], example_fragment False False True 0 [3]],
       OSend 5, OAck 9, OAbandon 9, OPop 9] 9 OutboundQueue_default = Ok (released, next, q) \<and>
    3 = OutboundQueue_pending_bytes q + OutboundQueue_inflight_bytes q + released"
proof -
  let ?cs = "[example_fragment False True False 0 [1, 2], example_fragment False False True 0 [3]]"
  let ?ops = "[OPush ?cs, OSend 5, OAck 9, OAbandon 9, OPop 9]"
  have "is_fragments ?cs"
    by (auto simp: is_fragments_def less_Suc_eq example_fragment_def ChunkPayloadData_default_def nth_Cons')
  then have "\<forall>cs. OPush cs \<in> set ?ops \<longrightarrow> is_fragments cs" by simp
  moreover have "length ?ops < 2 ^ 32" by simp
  ultimately obtain r n q where "outbound_run ?ops 9 OutboundQueue_default = Ok (r, n, q)"
    "pushed_bytes ?ops = OutboundQueue_pending_bytes q + OutboundQueue_inflight_bytes q + r"
    using outbound_ledger [of ?ops 9] by blast
  moreover have "pushed_bytes ?ops = 3" by code_simp
  ultimately show ?thesis by (metis (no_types, lifting))
qed

end
