(* ===== verification/Wire_Params.thy ===== *)
theory Wire_Params
  imports Sctp_Util
begin

text \<open>
  The variable-length parameters of INIT, HEARTBEAT and RE-CONFIG chunks (\<^verbatim>\<open>src/src/param\<close>).

  \<^item> \<^verbatim>\<open>Box<dyn Param>\<close> is the datatype \<open>Param\<close> with one constructor per implementing struct; the
    methods of the trait \<^verbatim>\<open>Param\<close> are functions by cases on it.
  \<^item> \<open>X_unmarshal\<close> takes the raw bytes from the parameter to the end of the enclosing chunk value.
    Slices and reads that do not fit panic, so that absence of panics is a theorem here.
  \<^item> \<open>X_marshal_to\<close> appends to the buffer. The 16-bit length field is the truncated value length
    plus four, an addition that panics on overflow.
\<close>

subsection \<open>Chunk types\<close>

type_synonym ChunkType = u8

definition CT_PAYLOAD_DATA :: ChunkType where "CT_PAYLOAD_DATA = 0"

definition CT_INIT :: ChunkType where "CT_INIT = 1"

definition CT_INIT_ACK :: ChunkType where "CT_INIT_ACK = 2"

definition CT_SACK :: ChunkType where "CT_SACK = 3"

definition CT_HEARTBEAT :: ChunkType where "CT_HEARTBEAT = 4"

definition CT_HEARTBEAT_ACK :: ChunkType where "CT_HEARTBEAT_ACK = 5"

definition CT_ABORT :: ChunkType where "CT_ABORT = 6"

definition CT_SHUTDOWN :: ChunkType where "CT_SHUTDOWN = 7"

definition CT_SHUTDOWN_ACK :: ChunkType where "CT_SHUTDOWN_ACK = 8"

definition CT_ERROR :: ChunkType where "CT_ERROR = 9"

definition CT_COOKIE_ECHO :: ChunkType where "CT_COOKIE_ECHO = 10"

definition CT_COOKIE_ACK :: ChunkType where "CT_COOKIE_ACK = 11"

definition CT_SHUTDOWN_COMPLETE :: ChunkType where "CT_SHUTDOWN_COMPLETE = 14"

definition CT_RECONFIG :: ChunkType where "CT_RECONFIG = 130"

definition CT_FORWARD_TSN :: ChunkType where "CT_FORWARD_TSN = 192"

definition CT_I_FORWARD_TSN :: ChunkType where "CT_I_FORWARD_TSN = 194"

subsection \<open>Parameter types\<close>

datatype (plugins only: code) ParamType =
    HeartbeatInfo | Ipv4Addr | Ipv6Addr | StateCookie | UnrecognizedParam | CookiePreservative | HostNameAddr
  | SupportedAddrTypes | OutSsnResetReq | IncSsnResetReq | SsnTsnResetReq | ReconfigResp | AddOutStreamsReq
  | AddIncStreamsReq | Random | ChunkList | ReqHmacAlgo | Padding | SupportedExt | ForwardTsnSupp | AddIpAddr
  | DelIpaddr | ErrClauseInd | SetPriAddr | SuccessInd | AdaptLayerInd | UnknownParam u16

definition ParamType_from :: "u16 \<Rightarrow> ParamType" where
  "ParamType_from v =
    (if v = 1 then HeartbeatInfo else if v = 5 then Ipv4Addr else if v = 6 then Ipv6Addr
     else if v = 7 then StateCookie else if v = 8 then UnrecognizedParam else if v = 9 then CookiePreservative
     else if v = 11 then HostNameAddr else if v = 12 then SupportedAddrTypes else if v = 13 then OutSsnResetReq
     else if v = 14 then IncSsnResetReq else if v = 15 then SsnTsnResetReq else if v = 16 then ReconfigResp
     else if v = 17 then AddOutStreamsReq else if v = 18 then AddIncStreamsReq else if v = 32770 then Random
     else if v = 32771 then ChunkList else if v = 32772 then ReqHmacAlgo else if v = 32773 then Padding
     else if v = 32776 then SupportedExt else if v = 49152 then ForwardTsnSupp else if v = 49153 then AddIpAddr
     else if v = 49154 then DelIpaddr else if v = 49155 then ErrClauseInd else if v = 49156 then SetPriAddr
     else if v = 49157 then SuccessInd else UnknownParam v)"

primrec u16_from_ParamType :: "ParamType \<Rightarrow> u16" where
  "u16_from_ParamType HeartbeatInfo = 1"
| "u16_from_ParamType Ipv4Addr = 5"
| "u16_from_ParamType Ipv6Addr = 6"
| "u16_from_ParamType StateCookie = 7"
| "u16_from_ParamType UnrecognizedParam = 8"
| "u16_from_ParamType CookiePreservative = 9"
| "u16_from_ParamType HostNameAddr = 11"
| "u16_from_ParamType SupportedAddrTypes = 12"
| "u16_from_ParamType OutSsnResetReq = 13"
| "u16_from_ParamType IncSsnResetReq = 14"
| "u16_from_ParamType SsnTsnResetReq = 15"
| "u16_from_ParamType ReconfigResp = 16"
| "u16_from_ParamType AddOutStreamsReq = 17"
| "u16_from_ParamType AddIncStreamsReq = 18"
| "u16_from_ParamType Random = 32770"
| "u16_from_ParamType ChunkList = 32771"
| "u16_from_ParamType ReqHmacAlgo = 32772"
| "u16_from_ParamType Padding = 32773"
| "u16_from_ParamType SupportedExt = 32776"
| "u16_from_ParamType ForwardTsnSupp = 49152"
| "u16_from_ParamType AddIpAddr = 49153"
| "u16_from_ParamType DelIpaddr = 49154"
| "u16_from_ParamType ErrClauseInd = 49155"
| "u16_from_ParamType SetPriAddr = 49156"
| "u16_from_ParamType SuccessInd = 49157"
| "u16_from_ParamType AdaptLayerInd = 49158"
| "u16_from_ParamType (UnknownParam param_type) = param_type"

subsection \<open>Parameter values\<close>

datatype ReconfigResult =
    SuccessNop | SuccessPerformed | Denied | ErrorWrongSsn | ErrorRequestAlreadyInProgress
  | ErrorBadSequenceNumber | InProgress | UnknownResult

definition ReconfigResult_from :: "u32 \<Rightarrow> ReconfigResult" where
  "ReconfigResult_from v =
    (if v = 0 then SuccessNop else if v = 1 then SuccessPerformed else if v = 2 then Denied
     else if v = 3 then ErrorWrongSsn else if v = 4 then ErrorRequestAlreadyInProgress
     else if v = 5 then ErrorBadSequenceNumber else if v = 6 then InProgress else UnknownResult)"

text \<open>\<^verbatim>\<open>result as u32\<close>: the last variant has the discriminant after its predecessor's.\<close>

primrec ReconfigResult_as_u32 :: "ReconfigResult \<Rightarrow> u32" where
  "ReconfigResult_as_u32 SuccessNop = 0"
| "ReconfigResult_as_u32 SuccessPerformed = 1"
| "ReconfigResult_as_u32 Denied = 2"
| "ReconfigResult_as_u32 ErrorWrongSsn = 3"
| "ReconfigResult_as_u32 ErrorRequestAlreadyInProgress = 4"
| "ReconfigResult_as_u32 ErrorBadSequenceNumber = 5"
| "ReconfigResult_as_u32 InProgress = 6"
| "ReconfigResult_as_u32 UnknownResult = 7"

datatype HmacAlgorithm = HmacResv1 | HmacSha128 | HmacResv2 | HmacSha256 | UnknownHmac

definition HmacAlgorithm_from :: "u16 \<Rightarrow> HmacAlgorithm" where
  "HmacAlgorithm_from v =
    (if v = 0 then HmacResv1 else if v = 1 then HmacSha128 else if v = 2 then HmacResv2
     else if v = 3 then HmacSha256 else UnknownHmac)"

primrec HmacAlgorithm_as_u16 :: "HmacAlgorithm \<Rightarrow> u16" where
  "HmacAlgorithm_as_u16 HmacResv1 = 0"
| "HmacAlgorithm_as_u16 HmacSha128 = 1"
| "HmacAlgorithm_as_u16 HmacResv2 = 2"
| "HmacAlgorithm_as_u16 HmacSha256 = 3"
| "HmacAlgorithm_as_u16 UnknownHmac = 4"

record ParamOutgoingResetRequest =
  rr_reconfig_request_sequence_number :: u32
  rr_reconfig_response_sequence_number :: u32
  rr_sender_last_tsn :: u32
  rr_stream_identifiers :: "u16 list"

record ParamReconfigResponse =
  rs_reconfig_response_sequence_number :: u32
  rs_result :: ReconfigResult

datatype Param =
    ParamChunkList "ChunkType list"
  | ParamForwardTsnSupported
  | ParamHeartbeatInfo bytes
  | ParamOutgoingResetRequest ParamOutgoingResetRequest
  | ParamRandom bytes
  | ParamReconfigResponse ParamReconfigResponse
  | ParamRequestedHmacAlgorithm "HmacAlgorithm list"
  | ParamStateCookie bytes
  | ParamSupportedAddressTypes "ParamType list"
  | ParamSupportedExtensions "ChunkType list"
  | ParamUnknown u16 bytes

subsection \<open>Header\<close>

record ParamHeader =
  ph_typ :: ParamType
  ph_value_length :: u16

definition PARAM_HEADER_LENGTH :: usize where "PARAM_HEADER_LENGTH = 4"

definition ParamHeader_unmarshal :: "bytes \<Rightarrow> ParamHeader res" where
  "ParamHeader_unmarshal raw =
    (if length raw < PARAM_HEADER_LENGTH then Err ErrParamHeaderTooShort
     else
       rbind (get_u16 raw) (\<lambda>(t, r).
       rbind (get_u16 r) (\<lambda>(l, _).
       let len = unat l in
       if len < PARAM_HEADER_LENGTH \<or> length raw < len then Err ErrParamHeaderTooShort
       else Ok \<lparr>ph_typ = ParamType_from t, ph_value_length = as_u16 (len - PARAM_HEADER_LENGTH)\<rparr>)))"

definition ParamHeader_marshal_to :: "ParamHeader \<Rightarrow> bytes \<Rightarrow> bytes res" where
  "ParamHeader_marshal_to h writer =
    rbind (u16_add (ph_value_length h) (as_u16 PARAM_HEADER_LENGTH)) (\<lambda>l.
    Ok (writer @ put_u16 (u16_from_ParamType (ph_typ h)) @ put_u16 l))"

definition ParamHeader_value_length :: "ParamHeader \<Rightarrow> usize" where
  "ParamHeader_value_length h = unat (ph_value_length h)"

text \<open>The value of a parameter: \<^verbatim>\<open>raw.slice(PARAM_HEADER_LENGTH..PARAM_HEADER_LENGTH + value_length)\<close>.\<close>

definition param_value :: "bytes \<Rightarrow> ParamHeader \<Rightarrow> bytes res" where
  "param_value raw header = slice raw PARAM_HEADER_LENGTH (PARAM_HEADER_LENGTH + ParamHeader_value_length header)"

subsection \<open>Lengths and types\<close>

definition PARAM_OUTGOING_RESET_REQUEST_STREAM_IDENTIFIERS_OFFSET :: usize where
  "PARAM_OUTGOING_RESET_REQUEST_STREAM_IDENTIFIERS_OFFSET = 12"

primrec Param_value_length :: "Param \<Rightarrow> usize" where
  "Param_value_length (ParamChunkList chunk_types) = length chunk_types"
| "Param_value_length ParamForwardTsnSupported = 0"
| "Param_value_length (ParamHeartbeatInfo heartbeat_information) = length heartbeat_information"
| "Param_value_length (ParamOutgoingResetRequest p) =
    PARAM_OUTGOING_RESET_REQUEST_STREAM_IDENTIFIERS_OFFSET + length (rr_stream_identifiers p) * 2"
| "Param_value_length (ParamRandom random_data) = length random_data"
| "Param_value_length (ParamReconfigResponse p) = 8"
| "Param_value_length (ParamRequestedHmacAlgorithm available_algorithms) = 2 * length available_algorithms"
| "Param_value_length (ParamStateCookie cookie) = length cookie"
| "Param_value_length (ParamSupportedAddressTypes address_types) = length address_types * 2"
| "Param_value_length (ParamSupportedExtensions chunk_types) = length chunk_types"
| "Param_value_length (ParamUnknown typ value) = length value"

primrec Param_typ :: "Param \<Rightarrow> ParamType" where
  "Param_typ (ParamChunkList chunk_types) = ChunkList"
| "Param_typ ParamForwardTsnSupported = ForwardTsnSupp"
| "Param_typ (ParamHeartbeatInfo heartbeat_information) = HeartbeatInfo"
| "Param_typ (ParamOutgoingResetRequest p) = OutSsnResetReq"
| "Param_typ (ParamRandom random_data) = Random"
| "Param_typ (ParamReconfigResponse p) = ReconfigResp"
| "Param_typ (ParamRequestedHmacAlgorithm available_algorithms) = ReqHmacAlgo"
| "Param_typ (ParamStateCookie cookie) = StateCookie"
| "Param_typ (ParamSupportedAddressTypes address_types) = SupportedAddrTypes"
| "Param_typ (ParamSupportedExtensions chunk_types) = SupportedExt"
| "Param_typ (ParamUnknown typ value) = UnknownParam typ"

definition Param_header :: "Param \<Rightarrow> ParamHeader" where
  "Param_header p = \<lparr>ph_typ = Param_typ p, ph_value_length = as_u16 (Param_value_length p)\<rparr>"

subsection \<open>Decoding\<close>

text \<open>The loops that read a number of 16-bit values; a loop over all bytes reads the bytes themselves.\<close>

fun get_u16s :: "nat \<Rightarrow> bytes \<Rightarrow> u16 list res" where
  "get_u16s 0 reader = Ok []"
| "get_u16s (Suc n) reader =
    rbind (get_u16 reader) (\<lambda>(x, reader). rbind (get_u16s n reader) (\<lambda>xs. Ok (x # xs)))"

definition ParamChunkList_unmarshal :: "bytes \<Rightarrow> Param res" where
  "ParamChunkList_unmarshal raw =
    rbind (ParamHeader_unmarshal raw) (\<lambda>header.
    if ph_typ header \<noteq> ChunkList then Err ErrParamTypeUnexpected
    else rbind (param_value raw header) (\<lambda>reader. Ok (ParamChunkList reader)))"

definition ParamForwardTsnSupported_unmarshal :: "bytes \<Rightarrow> Param res" where
  "ParamForwardTsnSupported_unmarshal raw =
    rbind (ParamHeader_unmarshal raw) (\<lambda>_. Ok ParamForwardTsnSupported)"

definition ParamHeartbeatInfo_unmarshal :: "bytes \<Rightarrow> Param res" where
  "ParamHeartbeatInfo_unmarshal raw =
    rbind (ParamHeader_unmarshal raw) (\<lambda>header.
    rbind (param_value raw header) (\<lambda>v. Ok (ParamHeartbeatInfo v)))"

definition ParamOutgoingResetRequest_unmarshal :: "bytes \<Rightarrow> Param res" where
  "ParamOutgoingResetRequest_unmarshal raw =
    rbind (ParamHeader_unmarshal raw) (\<lambda>header.
    let vl = ParamHeader_value_length header in
    if vl < PARAM_OUTGOING_RESET_REQUEST_STREAM_IDENTIFIERS_OFFSET then Err ErrSsnResetRequestParamTooShort
    else if (vl - PARAM_OUTGOING_RESET_REQUEST_STREAM_IDENTIFIERS_OFFSET) mod 2 \<noteq> 0
    then Err ErrSsnResetRequestParamInvalidLength
    else
      rbind (param_value raw header) (\<lambda>reader.
      rbind (get_u32 reader) (\<lambda>(a, reader).
      rbind (get_u32 reader) (\<lambda>(b, reader).
      rbind (get_u32 reader) (\<lambda>(c, reader).
      let lim = (vl - PARAM_OUTGOING_RESET_REQUEST_STREAM_IDENTIFIERS_OFFSET) div 2 in
      rbind (get_u16s lim reader) (\<lambda>ids.
      Ok (ParamOutgoingResetRequest
            \<lparr>rr_reconfig_request_sequence_number = a, rr_reconfig_response_sequence_number = b,
             rr_sender_last_tsn = c, rr_stream_identifiers = ids\<rparr>)))))))"

definition ParamRandom_unmarshal :: "bytes \<Rightarrow> Param res" where
  "ParamRandom_unmarshal raw =
    rbind (ParamHeader_unmarshal raw) (\<lambda>header.
    rbind (param_value raw header) (\<lambda>v. Ok (ParamRandom v)))"

definition ParamReconfigResponse_unmarshal :: "bytes \<Rightarrow> Param res" where
  "ParamReconfigResponse_unmarshal raw =
    rbind (ParamHeader_unmarshal raw) (\<lambda>header.
    if ParamHeader_value_length header < 8 then Err ErrReconfigRespParamTooShort
    else
      rbind (param_value raw header) (\<lambda>reader.
      rbind (get_u32 reader) (\<lambda>(a, reader).
      rbind (get_u32 reader) (\<lambda>(b, reader).
      Ok (ParamReconfigResponse
            \<lparr>rs_reconfig_response_sequence_number = a, rs_result = ReconfigResult_from b\<rparr>)))))"

fun read_hmac_algorithms :: "bytes \<Rightarrow> HmacAlgorithm list res" where
  "read_hmac_algorithms (x # y # reader) =
    (let a = HmacAlgorithm_from (be16 x y) in
     if a = HmacSha128 \<or> a = HmacSha256
     then rbind (read_hmac_algorithms reader) (\<lambda>as. Ok (a # as))
     else Err ErrInvalidAlgorithmType)"
| "read_hmac_algorithms reader = Ok []"

definition ParamRequestedHmacAlgorithm_unmarshal :: "bytes \<Rightarrow> Param res" where
  "ParamRequestedHmacAlgorithm_unmarshal raw =
    rbind (ParamHeader_unmarshal raw) (\<lambda>header.
    rbind (param_value raw header) (\<lambda>reader.
    rbind (read_hmac_algorithms reader) (\<lambda>as. Ok (ParamRequestedHmacAlgorithm as))))"

definition ParamStateCookie_unmarshal :: "bytes \<Rightarrow> Param res" where
  "ParamStateCookie_unmarshal raw =
    rbind (ParamHeader_unmarshal raw) (\<lambda>header.
    rbind (param_value raw header) (\<lambda>v. Ok (ParamStateCookie v)))"

definition ParamSupportedAddressTypes_unmarshal :: "bytes \<Rightarrow> Param res" where
  "ParamSupportedAddressTypes_unmarshal raw =
    rbind (ParamHeader_unmarshal raw) (\<lambda>header.
    if ParamHeader_value_length header mod 2 \<noteq> 0 then Err ErrSupportedAddressTypesParamInvalidLength
    else
      rbind (param_value raw header) (\<lambda>reader.
      rbind (get_u16s (length reader div 2) reader) (\<lambda>ts.
      Ok (ParamSupportedAddressTypes (map ParamType_from ts)))))"

definition ParamSupportedExtensions_unmarshal :: "bytes \<Rightarrow> Param res" where
  "ParamSupportedExtensions_unmarshal raw =
    rbind (ParamHeader_unmarshal raw) (\<lambda>header.
    rbind (param_value raw header) (\<lambda>reader. Ok (ParamSupportedExtensions reader)))"

definition ParamUnknown_unmarshal :: "bytes \<Rightarrow> Param res" where
  "ParamUnknown_unmarshal raw =
    rbind (ParamHeader_unmarshal raw) (\<lambda>header.
    rbind (param_value raw header) (\<lambda>v. Ok (ParamUnknown (u16_from_ParamType (ph_typ header)) v)))"

definition build_param :: "bytes \<Rightarrow> Param res" where
  "build_param raw_param =
    (if length raw_param < PARAM_HEADER_LENGTH then Err ErrParamHeaderTooShort
     else
       rbind (slice raw_param 0 2) (\<lambda>reader.
       rbind (get_u16 reader) (\<lambda>(raw_type, _).
       case ParamType_from raw_type of
         ForwardTsnSupp \<Rightarrow> ParamForwardTsnSupported_unmarshal raw_param
       | SupportedExt \<Rightarrow> ParamSupportedExtensions_unmarshal raw_param
       | Random \<Rightarrow> ParamRandom_unmarshal raw_param
       | ReqHmacAlgo \<Rightarrow> ParamRequestedHmacAlgorithm_unmarshal raw_param
       | ChunkList \<Rightarrow> ParamChunkList_unmarshal raw_param
       | StateCookie \<Rightarrow> ParamStateCookie_unmarshal raw_param
       | SupportedAddrTypes \<Rightarrow> ParamSupportedAddressTypes_unmarshal raw_param
       | HeartbeatInfo \<Rightarrow> ParamHeartbeatInfo_unmarshal raw_param
       | OutSsnResetReq \<Rightarrow> ParamOutgoingResetRequest_unmarshal raw_param
       | ReconfigResp \<Rightarrow> ParamReconfigResponse_unmarshal raw_param
       | _ \<Rightarrow>
           if \<not> bit raw_type 15 then Err (ErrParamTypeUnhandled raw_type)
           else ParamUnknown_unmarshal raw_param)))"

subsection \<open>Encoding\<close>

primrec Param_value_bytes :: "Param \<Rightarrow> bytes" where
  "Param_value_bytes (ParamChunkList chunk_types) = chunk_types"
| "Param_value_bytes ParamForwardTsnSupported = []"
| "Param_value_bytes (ParamHeartbeatInfo heartbeat_information) = heartbeat_information"
| "Param_value_bytes (ParamOutgoingResetRequest p) =
    put_u32 (rr_reconfig_request_sequence_number p) @ put_u32 (rr_reconfig_response_sequence_number p)
    @ put_u32 (rr_sender_last_tsn p) @ concat (map put_u16 (rr_stream_identifiers p))"
| "Param_value_bytes (ParamRandom random_data) = random_data"
| "Param_value_bytes (ParamReconfigResponse p) =
    put_u32 (rs_reconfig_response_sequence_number p) @ put_u32 (ReconfigResult_as_u32 (rs_result p))"
| "Param_value_bytes (ParamRequestedHmacAlgorithm available_algorithms) =
    concat (map (\<lambda>a. put_u16 (HmacAlgorithm_as_u16 a)) available_algorithms)"
| "Param_value_bytes (ParamStateCookie cookie) = cookie"
| "Param_value_bytes (ParamSupportedAddressTypes address_types) =
    concat (map (\<lambda>t. put_u16 (u16_from_ParamType t)) address_types)"
| "Param_value_bytes (ParamSupportedExtensions chunk_types) = chunk_types"
| "Param_value_bytes (ParamUnknown typ value) = value"

definition Param_marshal_to :: "Param \<Rightarrow> bytes \<Rightarrow> bytes res" where
  "Param_marshal_to p buf = rbind (ParamHeader_marshal_to (Param_header p) buf) (\<lambda>buf. Ok (buf @ Param_value_bytes p))"

definition Param_marshal :: "Param \<Rightarrow> bytes res" where
  "Param_marshal p = Param_marshal_to p []"

text \<open>A fresh state cookie is 32 random bytes, an argument.\<close>

definition ParamStateCookie_new :: "bytes \<Rightarrow> Param" where
  "ParamStateCookie_new random32 = ParamStateCookie random32"

subsection \<open>What can be sent\<close>

text \<open>
  The parameters that survive a round trip: the value fits the length field, HMAC algorithms are
  the two that the decoder accepts, an unknown parameter has a type that \<^verbatim>\<open>build_param\<close> neither
  handles nor rejects, and an address type is not the one that \<^verbatim>\<open>ParamType::from\<close> does not know.
\<close>

definition known_address_type :: "ParamType \<Rightarrow> bool" where
  "known_address_type t \<longleftrightarrow> ParamType_from (u16_from_ParamType t) = t"

fun Param_wf :: "Param \<Rightarrow> bool" where
  "Param_wf (ParamRequestedHmacAlgorithm as) \<longleftrightarrow>
    2 * length as < 65532 \<and> (\<forall>a \<in> set as. a = HmacSha128 \<or> a = HmacSha256)"
| "Param_wf (ParamSupportedAddressTypes ts) \<longleftrightarrow> 2 * length ts < 65532 \<and> (\<forall>t \<in> set ts. known_address_type t)"
| "Param_wf (ParamUnknown typ value) \<longleftrightarrow>
    length value < 65532 \<and> bit typ 15 \<and>
    ParamType_from typ \<notin> {ForwardTsnSupp, SupportedExt, Random, ReqHmacAlgo, ChunkList}"
| "Param_wf p \<longleftrightarrow> Param_value_length p < 65532"

text \<open>A decoder of parameters never panics and never claims more bytes than it was given.\<close>

definition param_decoder :: "(bytes \<Rightarrow> Param res) \<Rightarrow> bool" where
  "param_decoder f \<longleftrightarrow>
    (\<forall>raw. f raw \<noteq> Panic \<and> (\<forall>p. f raw = Ok p \<longrightarrow> 4 + Param_value_length p \<le> length raw))"

subsection \<open>Headers\<close>

lemma get_u16_split: "2 \<le> length b \<Longrightarrow> \<exists>x r. b = put_u16 x @ r"
proof (cases b rule: get_u16.cases)
  case (1 x y r)
  then have "b = put_u16 (be16 x y) @ r" by (simp add: put_be16)
  then show ?thesis by blast
qed simp_all

lemma ParamHeader_unmarshal_length:
  "ParamHeader_unmarshal raw = Ok h \<Longrightarrow> 4 + ParamHeader_value_length h \<le> length raw"
  by (auto simp: ParamHeader_unmarshal_def ParamHeader_value_length_def PARAM_HEADER_LENGTH_def Let_def
      unat_sub_if_size split: if_splits)

lemma ParamHeader_unmarshal_no_panic [no_panic]: "ParamHeader_unmarshal raw \<noteq> Panic"
  by (auto simp: ParamHeader_unmarshal_def PARAM_HEADER_LENGTH_def rbind_eq_Panic Let_def
      dest!: get_u16_length)

lemma param_value_ok:
  assumes "ParamHeader_unmarshal raw = Ok h"
  obtains v where "param_value raw h = Ok v" "length v = ParamHeader_value_length h" "4 + length v \<le> length raw"
  using ParamHeader_unmarshal_length [OF assms]
  by (auto simp: param_value_def slice_def PARAM_HEADER_LENGTH_def)

lemma u16_of_ParamType_from [simp]: "u16_from_ParamType (ParamType_from v) = v"
  by (simp add: ParamType_from_def)

lemma ParamHeader_marshal_to_eq:
  assumes "Param_value_length p < 65532"
  shows "ParamHeader_marshal_to (Param_header p) buf =
    Ok (buf @ put_u16 (u16_from_ParamType (Param_typ p)) @ put_u16 (as_u16 (Param_value_length p + 4)))"
proof -
  have "\<not> as_u16 (Param_value_length p) + 4 < (as_u16 (Param_value_length p))"
    using assms by (simp add: word_add_overflow unat_of_nat)
  then show ?thesis
    by (simp add: ParamHeader_marshal_to_def Param_header_def u16_add_def PARAM_HEADER_LENGTH_def)
qed

lemma Param_marshal_eq:
  assumes "Param_value_length p < 65532"
  shows "Param_marshal p =
    Ok (put_u16 (u16_from_ParamType (Param_typ p)) @ put_u16 (as_u16 (Param_value_length p + 4)) @ Param_value_bytes p)"
  using assms by (simp add: Param_marshal_def Param_marshal_to_def ParamHeader_marshal_to_eq)

lemma ParamHeader_roundtrip:
  assumes "length v < 65532"
  shows "ParamHeader_unmarshal (put_u16 t @ put_u16 (as_u16 (length v + 4)) @ v @ rest) =
    Ok \<lparr>ph_typ = ParamType_from t, ph_value_length = as_u16 (length v)\<rparr>"
proof -
  have "unat (as_u16 (length v + 4)) = length v + 4" using assms by (simp only: unat_of_nat) simp
  then show ?thesis
    by (simp add: ParamHeader_unmarshal_def PARAM_HEADER_LENGTH_def buf_simps Let_def del: of_nat_add)
qed

lemma param_value_roundtrip:
  assumes "length v < 65532"
  shows "param_value (put_u16 t @ put_u16 l @ v @ rest) \<lparr>ph_typ = ty, ph_value_length = as_u16 (length v)\<rparr> = Ok v"
proof -
  have "unat (as_u16 (length v)) = length v" using assms by (simp only: unat_of_nat) simp
  then show ?thesis by (simp add: param_value_def PARAM_HEADER_LENGTH_def ParamHeader_value_length_def slice_def)
qed

lemma length_concat_u16 [simp]: "length (concat (map (\<lambda>x. put_u16 (f x)) xs)) = 2 * length xs"
  by (induction xs) auto

lemma length_concat_put_u16 [simp]: "length (concat (map put_u16 xs)) = 2 * length xs"
  using length_concat_u16 [of "\<lambda>x. x"] by simp

lemma length_Param_value_bytes [simp]: "length (Param_value_bytes p) = Param_value_length p"
  by (cases p) (auto simp: PARAM_OUTGOING_RESET_REQUEST_STREAM_IDENTIFIERS_OFFSET_def)

lemma get_u16s_roundtrip: "get_u16s (length xs) (concat (map put_u16 xs) @ rest) = Ok xs"
  by (induction xs) (simp_all add: buf_simps)

lemma get_u16s_no_panic: "2 * n \<le> length reader \<Longrightarrow> get_u16s n reader \<noteq> Panic"
proof (induction n arbitrary: reader)
  case (Suc n)
  then show ?case by (auto simp: rbind_eq_Panic dest!: get_u16_length)
qed simp

lemma get_u16s_length: "get_u16s n reader = Ok xs \<Longrightarrow> length xs = n"
  by (induction n arbitrary: reader xs) auto

lemma read_hmac_roundtrip:
  "\<forall>a \<in> set as. a = HmacSha128 \<or> a = HmacSha256 \<Longrightarrow>
    read_hmac_algorithms (concat (map (\<lambda>a. put_u16 (HmacAlgorithm_as_u16 a)) as)) = Ok as"
proof (induction as)
  case (Cons a as)
  then have "HmacAlgorithm_from (HmacAlgorithm_as_u16 a) = a" by (auto simp: HmacAlgorithm_from_def)
  with Cons show ?case by (auto simp: put_u16_def be16_put)
qed simp

lemma read_hmac_no_panic: "read_hmac_algorithms reader \<noteq> Panic"
  by (induction reader rule: read_hmac_algorithms.induct) (auto simp: Let_def rbind_eq_Panic)

lemma read_hmac_length: "read_hmac_algorithms reader = Ok as \<Longrightarrow> 2 * length as \<le> length reader"
  by (induction reader arbitrary: as rule: read_hmac_algorithms.induct) (auto simp: Let_def split: if_splits)

lemma ReconfigResult_roundtrip [simp]: "ReconfigResult_from (ReconfigResult_as_u32 r) = r"
  by (cases r) (simp_all add: ReconfigResult_from_def)

lemma known_address_types_roundtrip:
  "\<forall>t \<in> set ts. known_address_type t \<Longrightarrow> map (ParamType_from \<circ> u16_from_ParamType) ts = ts"
  by (induction ts) (auto simp: known_address_type_def)

lemma Param_wf_length: "Param_wf p \<Longrightarrow> Param_value_length p < 65532"
  by (cases p) auto

subsection \<open>All parameters\<close>

lemmas param_unmarshal_defs =
  ParamForwardTsnSupported_unmarshal_def ParamSupportedExtensions_unmarshal_def ParamRandom_unmarshal_def
  ParamRequestedHmacAlgorithm_unmarshal_def ParamChunkList_unmarshal_def ParamStateCookie_unmarshal_def
  ParamSupportedAddressTypes_unmarshal_def ParamHeartbeatInfo_unmarshal_def
  ParamOutgoingResetRequest_unmarshal_def ParamReconfigResponse_unmarshal_def ParamUnknown_unmarshal_def

lemma build_param_unfold:
  "build_param (put_u16 t @ put_u16 l @ r) =
    (case ParamType_from t of
         ForwardTsnSupp \<Rightarrow> ParamForwardTsnSupported_unmarshal (put_u16 t @ put_u16 l @ r)
       | SupportedExt \<Rightarrow> ParamSupportedExtensions_unmarshal (put_u16 t @ put_u16 l @ r)
       | Random \<Rightarrow> ParamRandom_unmarshal (put_u16 t @ put_u16 l @ r)
       | ReqHmacAlgo \<Rightarrow> ParamRequestedHmacAlgorithm_unmarshal (put_u16 t @ put_u16 l @ r)
       | ChunkList \<Rightarrow> ParamChunkList_unmarshal (put_u16 t @ put_u16 l @ r)
       | StateCookie \<Rightarrow> ParamStateCookie_unmarshal (put_u16 t @ put_u16 l @ r)
       | SupportedAddrTypes \<Rightarrow> ParamSupportedAddressTypes_unmarshal (put_u16 t @ put_u16 l @ r)
       | HeartbeatInfo \<Rightarrow> ParamHeartbeatInfo_unmarshal (put_u16 t @ put_u16 l @ r)
       | OutSsnResetReq \<Rightarrow> ParamOutgoingResetRequest_unmarshal (put_u16 t @ put_u16 l @ r)
       | ReconfigResp \<Rightarrow> ParamReconfigResponse_unmarshal (put_u16 t @ put_u16 l @ r)
       | _ \<Rightarrow> if \<not> bit t 15 then Err (ErrParamTypeUnhandled t)
              else ParamUnknown_unmarshal (put_u16 t @ put_u16 l @ r))"
proof -
  have "slice (put_u16 t @ put_u16 l @ r) 0 2 = Ok (put_u16 t)" by (simp add: slice_def)
  then show ?thesis
    using get_u16_put_u16 [of t "[]"] by (simp add: build_param_def PARAM_HEADER_LENGTH_def)
qed

text \<open>A value placed behind its header reads back, whatever follows it.\<close>

lemma build_param_roundtrip:
  assumes "Param_wf p"
  shows "build_param (put_u16 (u16_from_ParamType (Param_typ p)) @ put_u16 (as_u16 (Param_value_length p + 4))
    @ Param_value_bytes p @ rest) = Ok p"
proof -
  let ?v = "Param_value_bytes p"
  have len: "length ?v < 65532" using Param_wf_length [OF assms] by simp
  have lenv: "unat (as_u16 (Param_value_length p)) = Param_value_length p"
    using Param_wf_length [OF assms] by (simp only: unat_of_nat) simp
  note rt = ParamHeader_roundtrip [OF len, of _ rest, unfolded length_Param_value_bytes]
    param_value_roundtrip [OF len, of _ _ rest, unfolded length_Param_value_bytes]
  show ?thesis
  proof (cases p)
    case (ParamOutgoingResetRequest x)
    then show ?thesis using rt lenv get_u16s_roundtrip [of "rr_stream_identifiers x" "[]"]
      by (simp add: build_param_unfold ParamType_from_def param_unmarshal_defs buf_simps
          ParamHeader_value_length_def PARAM_OUTGOING_RESET_REQUEST_STREAM_IDENTIFIERS_OFFSET_def Let_def
          del: of_nat_add of_nat_mult)
  next
    case (ParamReconfigResponse x)
    then show ?thesis using rt lenv get_u32_put_u32 [of _ "[]"]
      by (simp add: build_param_unfold ParamType_from_def param_unmarshal_defs buf_simps
          ParamHeader_value_length_def)
  next
    case (ParamSupportedAddressTypes ts)
    then show ?thesis
      using rt lenv assms get_u16s_roundtrip [of "map u16_from_ParamType ts" "[]"] known_address_types_roundtrip [of ts]
      by (simp add: build_param_unfold ParamType_from_def [of 12] param_unmarshal_defs
          ParamHeader_value_length_def comp_def del: of_nat_add of_nat_mult)
  next
    case (ParamRequestedHmacAlgorithm as)
    then show ?thesis using rt assms read_hmac_roundtrip [of as]
      by (simp add: build_param_unfold ParamType_from_def param_unmarshal_defs del: of_nat_add of_nat_mult)
  next
    case (ParamUnknown ty v)
    then have "bit ty 15" "ParamType_from ty \<notin> {ForwardTsnSupp, SupportedExt, Random, ReqHmacAlgo, ChunkList}"
      using assms by auto
    moreover from this have "ParamType_from ty \<notin> {StateCookie, SupportedAddrTypes, HeartbeatInfo, OutSsnResetReq, ReconfigResp}"
      by (auto simp: ParamType_from_def split: if_splits)
    moreover have "ParamUnknown_unmarshal (put_u16 ty @ put_u16 (as_u16 (length v + 4)) @ v @ rest) = Ok p"
      using rt ParamUnknown by (simp add: ParamUnknown_unmarshal_def del: of_nat_add)
    ultimately show ?thesis using ParamUnknown by (simp add: build_param_unfold del: of_nat_add split: ParamType.split)
  qed (use rt in \<open>simp_all add: build_param_unfold ParamType_from_def param_unmarshal_defs
          del: of_nat_add of_nat_mult\<close>)
qed

text \<open>
  A decoder that reads the header and then decodes the value, which lies within the raw bytes,
  neither panics nor claims more bytes than there are.
\<close>

lemma param_decoderI:
  assumes "\<And>raw. f raw = rbind (ParamHeader_unmarshal raw) (\<lambda>h. g raw h)"
    and "\<And>raw h v. ParamHeader_unmarshal raw = Ok h \<Longrightarrow> param_value raw h = Ok v \<Longrightarrow>
      length v = ParamHeader_value_length h \<Longrightarrow> 4 + length v \<le> length raw \<Longrightarrow>
      g raw h \<noteq> Panic \<and> (\<forall>p. g raw h = Ok p \<longrightarrow> Param_value_length p \<le> length v)"
  shows "param_decoder f"
  unfolding param_decoder_def
proof (intro allI conjI impI)
  fix raw
  show "f raw \<noteq> Panic"
  proof (cases "ParamHeader_unmarshal raw")
    case (Ok h)
    from param_value_ok [OF this] assms(2) [OF this] show ?thesis by (metis Ok assms(1) rbind.simps(1))
  qed (use ParamHeader_unmarshal_no_panic [of raw] in \<open>simp_all add: assms(1)\<close>)
  fix p assume "f raw = Ok p"
  then obtain h where h: "ParamHeader_unmarshal raw = Ok h" "g raw h = Ok p" by (auto simp: assms(1))
  from param_value_ok [OF h(1)] obtain v where
    "param_value raw h = Ok v" "length v = ParamHeader_value_length h" "4 + length v \<le> length raw" .
  with assms(2) [OF h(1) this] h(2) show "4 + Param_value_length p \<le> length raw" by auto
qed

lemma param_decoders:
  "param_decoder ParamForwardTsnSupported_unmarshal" "param_decoder ParamSupportedExtensions_unmarshal"
  "param_decoder ParamRandom_unmarshal" "param_decoder ParamRequestedHmacAlgorithm_unmarshal"
  "param_decoder ParamChunkList_unmarshal" "param_decoder ParamStateCookie_unmarshal"
  "param_decoder ParamSupportedAddressTypes_unmarshal" "param_decoder ParamHeartbeatInfo_unmarshal"
  "param_decoder ParamReconfigResponse_unmarshal" "param_decoder ParamUnknown_unmarshal"
  by (rule param_decoderI, simp only: param_unmarshal_defs,
      auto simp: rbind_eq_Panic read_hmac_no_panic get_u16s_no_panic dest!: read_hmac_length get_u16s_length get_lengths)+

lemma param_decoder_reset_request: "param_decoder ParamOutgoingResetRequest_unmarshal"
proof (rule param_decoderI, simp only: ParamOutgoingResetRequest_unmarshal_def, intro conjI allI impI)
  fix raw h v
  assume v: "param_value raw h = Ok v" "length v = ParamHeader_value_length h"
  let ?g = "let vl = ParamHeader_value_length h in
    if vl < PARAM_OUTGOING_RESET_REQUEST_STREAM_IDENTIFIERS_OFFSET then Err ErrSsnResetRequestParamTooShort
    else if (vl - PARAM_OUTGOING_RESET_REQUEST_STREAM_IDENTIFIERS_OFFSET) mod 2 \<noteq> 0
    then Err ErrSsnResetRequestParamInvalidLength
    else
      rbind (param_value raw h) (\<lambda>reader.
      rbind (get_u32 reader) (\<lambda>(a, reader).
      rbind (get_u32 reader) (\<lambda>(b, reader).
      rbind (get_u32 reader) (\<lambda>(c, reader).
      let lim = (vl - PARAM_OUTGOING_RESET_REQUEST_STREAM_IDENTIFIERS_OFFSET) div 2 in
      rbind (get_u16s lim reader) (\<lambda>ids.
      Ok (ParamOutgoingResetRequest
            \<lparr>rr_reconfig_request_sequence_number = a, rr_reconfig_response_sequence_number = b,
             rr_sender_last_tsn = c, rr_stream_identifiers = ids\<rparr>))))))"
  have *: "get_u16s n r = Panic \<Longrightarrow> length r < 2 * n" for n r using get_u16s_no_panic not_less by blast
  show "?g \<noteq> Panic"
    using v by (auto simp: Let_def rbind_eq_Panic PARAM_OUTGOING_RESET_REQUEST_STREAM_IDENTIFIERS_OFFSET_def
        dest!: get_u32_length *)
  fix p assume "?g = Ok p"
  then show "Param_value_length p \<le> length v"
    using v by (auto simp: Let_def PARAM_OUTGOING_RESET_REQUEST_STREAM_IDENTIFIERS_OFFSET_def
        dest!: get_u16s_length split: if_splits)
qed

lemma build_param_cases:
  "(\<exists>e. build_param raw = Err e) \<or> (\<exists>f. param_decoder f \<and> build_param raw = f raw)"
proof (cases "length raw < 4")
  case False
  then obtain t r' where t: "raw = put_u16 t @ r'" using get_u16_split [of raw] by auto
  with False obtain l r where "r' = put_u16 l @ r" using get_u16_split [of r'] by auto
  with t show ?thesis
    using param_decoders param_decoder_reset_request
    by (cases "ParamType_from t"; cases "bit t 15") (auto simp only: build_param_unfold ParamType.case if_True if_False
        simp_thms)
qed (simp add: build_param_def PARAM_HEADER_LENGTH_def)

lemma build_param_decoder: "param_decoder build_param"
  using build_param_cases by (metis param_decoder_def res.distinct(1,5))

lemma build_param_no_panic [no_panic]: "build_param raw \<noteq> Panic"
  using build_param_decoder by (simp add: param_decoder_def)

lemma build_param_length: "build_param raw = Ok p \<Longrightarrow> 4 + Param_value_length p \<le> length raw"
  using build_param_decoder by (simp add: param_decoder_def)

subsection \<open>Properties\<close>

text \<open>
  C36: Parameters survive the wire: every parameter that can be sent is marshalled without a panic,
  and \<^verbatim>\<open>build_param\<close> reads it back from the result, whatever bytes follow in the chunk.
\<close>
theorem param_roundtrip:
  assumes "Param_wf p"
  shows "\<exists>b. Param_marshal p = Ok b \<and> length b = PARAM_HEADER_LENGTH + Param_value_length p \<and>
    build_param (b @ rest) = Ok p"
  using build_param_roundtrip [OF assms, of rest] Param_marshal_eq [OF Param_wf_length [OF assms]]
  by (simp add: PARAM_HEADER_LENGTH_def)

theorem param_roundtrip_witness:
  "\<exists>b. Param_marshal (ParamSupportedExtensions [CT_RECONFIG, CT_FORWARD_TSN]) = Ok b \<and>
    build_param (b @ [0, 0]) = Ok (ParamSupportedExtensions [CT_RECONFIG, CT_FORWARD_TSN])"
  using param_roundtrip [of "ParamSupportedExtensions [CT_RECONFIG, CT_FORWARD_TSN]" "[0, 0]"] by auto

text \<open>
  C39: One parameter type is lost on the way: the adaptation layer indication has a wire code, but
  decoding this code does not give it back, and every other type reads back as itself.
\<close>
theorem adaptation_layer_type_lost:
  "ParamType_from (u16_from_ParamType t) = t \<longleftrightarrow>
    t \<noteq> AdaptLayerInd \<and> (\<forall>v. t = UnknownParam v \<longrightarrow> ParamType_from v = UnknownParam v)"
  by (cases t) (auto simp: ParamType_from_def)

theorem adaptation_layer_type_lost_witness:
  "ParamType_from (u16_from_ParamType AdaptLayerInd) = UnknownParam 49158 \<and>
    ParamType_from (u16_from_ParamType AdaptLayerInd) \<noteq> AdaptLayerInd"
  using adaptation_layer_type_lost [of AdaptLayerInd] by (simp add: ParamType_from_def)

end
