(* ===== verification/Wire_Chunks.thy ===== *)
theory Wire_Chunks
  imports Wire_Params Data_Chunk
begin

text \<open>
  The chunks of an SCTP packet (\<^verbatim>\<open>src/src/chunk\<close>): one record per struct, and for each its header,
  value length, decoder, encoder and check. \<^verbatim>\<open>Box<dyn Chunk>\<close> is the datatype \<open>Chunk\<close>, and the
  methods of the trait \<^verbatim>\<open>Chunk\<close> dispatch on it. Decoders take the raw bytes from the chunk to the
  end of the packet; encoders append to the buffer. Loops over offsets are recursive functions with
  the offset as an argument.
\<close>

subsection \<open>Error causes\<close>

record ErrorCause =
  ec_code :: u16
  ec_raw :: bytes

definition ErrorCause_default :: ErrorCause where
  "ErrorCause_default = \<lparr>ec_code = 0, ec_raw = []\<rparr>"

definition OUT_OF_RESOURCE :: u16 where "OUT_OF_RESOURCE = 4"

definition UNRECOGNIZED_CHUNK_TYPE :: u16 where "UNRECOGNIZED_CHUNK_TYPE = 6"

definition USER_INITIATED_ABORT :: u16 where "USER_INITIATED_ABORT = 12"

definition PROTOCOL_VIOLATION :: u16 where "PROTOCOL_VIOLATION = 13"

definition ERROR_CAUSE_HEADER_LENGTH :: usize where "ERROR_CAUSE_HEADER_LENGTH = 4"

definition ErrorCause_unmarshal :: "bytes \<Rightarrow> ErrorCause res" where
  "ErrorCause_unmarshal buf =
    (if length buf < ERROR_CAUSE_HEADER_LENGTH then Err ErrErrorCauseTooSmall
     else
       rbind (get_u16 buf) (\<lambda>(code, reader).
       rbind (get_u16 reader) (\<lambda>(len, _).
       if unat len < ERROR_CAUSE_HEADER_LENGTH then Err ErrErrorCauseTooSmall
       else
         let value_length = unat len - ERROR_CAUSE_HEADER_LENGTH in
         if length buf < ERROR_CAUSE_HEADER_LENGTH + value_length then Err ErrErrorCauseTooSmall
         else
           rbind (slice buf ERROR_CAUSE_HEADER_LENGTH (ERROR_CAUSE_HEADER_LENGTH + value_length)) (\<lambda>raw.
           Ok \<lparr>ec_code = code, ec_raw = raw\<rparr>))))"

definition ErrorCause_marshal :: "ErrorCause \<Rightarrow> bytes" where
  "ErrorCause_marshal e =
    put_u16 (ec_code e) @ put_u16 (as_u16 (length (ec_raw e) + ERROR_CAUSE_HEADER_LENGTH)) @ ec_raw e"

definition ErrorCause_length :: "ErrorCause \<Rightarrow> usize" where
  "ErrorCause_length e = length (ec_raw e) + ERROR_CAUSE_HEADER_LENGTH"

subsection \<open>Chunk header\<close>

record ChunkHeader =
  ch_typ :: ChunkType
  ch_flags :: u8
  ch_value_length :: u16

definition CHUNK_HEADER_SIZE :: usize where "CHUNK_HEADER_SIZE = 4"

text \<open>The loop over the at most three bytes behind the value of the last chunk, from the last one down.\<close>

fun check_padding :: "bytes \<Rightarrow> usize \<Rightarrow> nat \<Rightarrow> unit res" where
  "check_padding raw value_length 0 = Ok ()"
| "check_padding raw value_length (Suc i) =
    rbind (index raw (CHUNK_HEADER_SIZE + (value_length + Suc i - 1))) (\<lambda>b.
    if b \<noteq> 0 then Err ErrChunkHeaderPaddingNonZero else check_padding raw value_length i)"

definition ChunkHeader_unmarshal :: "bytes \<Rightarrow> ChunkHeader res" where
  "ChunkHeader_unmarshal raw =
    (if length raw < CHUNK_HEADER_SIZE then Err ErrChunkHeaderTooSmall
     else
       rbind (get_u8 raw) (\<lambda>(t, reader).
       rbind (get_u8 reader) (\<lambda>(flags, reader).
       rbind (get_u16 reader) (\<lambda>(len, _).
       if unat len < CHUNK_HEADER_SIZE then Err ErrChunkHeaderInvalidLength
       else if length raw < unat len then Err ErrChunkHeaderNotEnoughSpace
       else
         rbind (if length raw - unat len < 4
                then check_padding raw (unat len - CHUNK_HEADER_SIZE) (length raw - unat len) else Ok ()) (\<lambda>_.
         Ok \<lparr>ch_typ = t, ch_flags = flags, ch_value_length = len - as_u16 CHUNK_HEADER_SIZE\<rparr>)))))"

definition ChunkHeader_marshal_to :: "ChunkHeader \<Rightarrow> bytes \<Rightarrow> bytes res" where
  "ChunkHeader_marshal_to h writer =
    rbind (u16_add (ch_value_length h) (as_u16 CHUNK_HEADER_SIZE)) (\<lambda>l.
    Ok (writer @ [ch_typ h, ch_flags h] @ put_u16 l))"

definition ChunkHeader_value_length :: "ChunkHeader \<Rightarrow> usize" where
  "ChunkHeader_value_length h = unat (ch_value_length h)"

text \<open>The value of a chunk: \<^verbatim>\<open>raw.slice(CHUNK_HEADER_SIZE..CHUNK_HEADER_SIZE + header.value_length())\<close>.\<close>

definition chunk_value :: "bytes \<Rightarrow> ChunkHeader \<Rightarrow> bytes res" where
  "chunk_value raw header = slice raw CHUNK_HEADER_SIZE (CHUNK_HEADER_SIZE + ChunkHeader_value_length header)"

subsection \<open>ABORT and ERROR\<close>

type_synonym ChunkAbort = "ErrorCause list"
type_synonym ChunkError = "ErrorCause list"

function error_causes_loop :: "bytes \<Rightarrow> usize \<Rightarrow> usize \<Rightarrow> ErrorCause list res" where
  "error_causes_loop raw offset value_end =
    (if offset + ERROR_CAUSE_HEADER_LENGTH \<le> value_end then
       rbind (slice raw offset value_end) (\<lambda>b.
       rbind (ErrorCause_unmarshal b) (\<lambda>e.
       rbind (error_causes_loop raw (offset + ErrorCause_length e) value_end) (\<lambda>es. Ok (e # es))))
     else Ok [])"
  by pat_completeness auto
termination
  by (relation "measure (\<lambda>(raw, offset, value_end). value_end - offset)")
    (auto simp: ERROR_CAUSE_HEADER_LENGTH_def ErrorCause_length_def)

definition error_causes_length :: "ErrorCause list \<Rightarrow> usize" where
  "error_causes_length es = fold (\<lambda>ec l. l + ErrorCause_length ec) es 0"

definition ChunkAbort_header :: "ChunkAbort \<Rightarrow> ChunkHeader" where
  "ChunkAbort_header c = \<lparr>ch_typ = CT_ABORT, ch_flags = 0, ch_value_length = as_u16 (error_causes_length c)\<rparr>"

definition ChunkAbort_unmarshal :: "bytes \<Rightarrow> ChunkAbort res" where
  "ChunkAbort_unmarshal raw =
    rbind (ChunkHeader_unmarshal raw) (\<lambda>header.
    if ch_typ header \<noteq> CT_ABORT then Err ErrChunkTypeNotAbort
    else error_causes_loop raw CHUNK_HEADER_SIZE (CHUNK_HEADER_SIZE + ChunkHeader_value_length header))"

definition ChunkAbort_marshal_to :: "ChunkAbort \<Rightarrow> bytes \<Rightarrow> bytes res" where
  "ChunkAbort_marshal_to c buf =
    rbind (ChunkHeader_marshal_to (ChunkAbort_header c) buf) (\<lambda>buf.
    Ok (buf @ concat (map ErrorCause_marshal c)))"

definition ChunkError_header :: "ChunkError \<Rightarrow> ChunkHeader" where
  "ChunkError_header c = \<lparr>ch_typ = CT_ERROR, ch_flags = 0, ch_value_length = as_u16 (error_causes_length c)\<rparr>"

definition ChunkError_unmarshal :: "bytes \<Rightarrow> ChunkError res" where
  "ChunkError_unmarshal raw =
    rbind (ChunkHeader_unmarshal raw) (\<lambda>header.
    if ch_typ header \<noteq> CT_ERROR then Err ErrChunkTypeNotCt
    else error_causes_loop raw CHUNK_HEADER_SIZE (CHUNK_HEADER_SIZE + ChunkHeader_value_length header))"

definition ChunkError_marshal_to :: "ChunkError \<Rightarrow> bytes \<Rightarrow> bytes res" where
  "ChunkError_marshal_to c buf =
    rbind (ChunkHeader_marshal_to (ChunkError_header c) buf) (\<lambda>buf.
    Ok (buf @ concat (map ErrorCause_marshal c)))"

subsection \<open>Chunks without a value\<close>

definition empty_header :: "ChunkType \<Rightarrow> ChunkHeader" where
  "empty_header t = \<lparr>ch_typ = t, ch_flags = 0, ch_value_length = 0\<rparr>"

definition ChunkCookieAck_unmarshal :: "bytes \<Rightarrow> unit res" where
  "ChunkCookieAck_unmarshal raw =
    rbind (ChunkHeader_unmarshal raw) (\<lambda>header.
    if ch_typ header \<noteq> CT_COOKIE_ACK then Err ErrChunkTypeNotCookieAck else Ok ())"

definition ChunkShutdownAck_unmarshal :: "bytes \<Rightarrow> unit res" where
  "ChunkShutdownAck_unmarshal raw =
    rbind (ChunkHeader_unmarshal raw) (\<lambda>header.
    if ch_typ header \<noteq> CT_SHUTDOWN_ACK then Err ErrChunkTypeNotShutdownAck else Ok ())"

definition ChunkShutdownComplete_unmarshal :: "bytes \<Rightarrow> unit res" where
  "ChunkShutdownComplete_unmarshal raw =
    rbind (ChunkHeader_unmarshal raw) (\<lambda>header.
    if ch_typ header \<noteq> CT_SHUTDOWN_COMPLETE then Err ErrChunkTypeNotShutdownComplete else Ok ())"

subsection \<open>COOKIE ECHO\<close>

type_synonym ChunkCookieEcho = bytes

definition ChunkCookieEcho_header :: "ChunkCookieEcho \<Rightarrow> ChunkHeader" where
  "ChunkCookieEcho_header cookie =
    \<lparr>ch_typ = CT_COOKIE_ECHO, ch_flags = 0, ch_value_length = as_u16 (length cookie)\<rparr>"

definition ChunkCookieEcho_unmarshal :: "bytes \<Rightarrow> ChunkCookieEcho res" where
  "ChunkCookieEcho_unmarshal raw =
    rbind (ChunkHeader_unmarshal raw) (\<lambda>header.
    if ch_typ header \<noteq> CT_COOKIE_ECHO then Err ErrChunkTypeNotCookieEcho else chunk_value raw header)"

definition ChunkCookieEcho_marshal_to :: "ChunkCookieEcho \<Rightarrow> bytes \<Rightarrow> bytes res" where
  "ChunkCookieEcho_marshal_to cookie buf =
    rbind (ChunkHeader_marshal_to (ChunkCookieEcho_header cookie) buf) (\<lambda>buf. Ok (buf @ cookie))"

subsection \<open>HEARTBEAT and HEARTBEAT ACK\<close>

type_synonym ChunkHeartbeat = "Param list"
type_synonym ChunkHeartbeatAck = "Param list"

definition ChunkHeartbeat_value_length :: "ChunkHeartbeat \<Rightarrow> usize" where
  "ChunkHeartbeat_value_length params =
    fold (\<lambda>p l. l + PARAM_HEADER_LENGTH + Param_value_length p) params 0"

definition ChunkHeartbeat_header :: "ChunkHeartbeat \<Rightarrow> ChunkHeader" where
  "ChunkHeartbeat_header params =
    \<lparr>ch_typ = CT_HEARTBEAT, ch_flags = 0, ch_value_length = as_u16 (ChunkHeartbeat_value_length params)\<rparr>"

definition ChunkHeartbeat_unmarshal :: "bytes \<Rightarrow> ChunkHeartbeat res" where
  "ChunkHeartbeat_unmarshal raw =
    rbind (ChunkHeader_unmarshal raw) (\<lambda>header.
    if ch_typ header \<noteq> CT_HEARTBEAT then Err ErrChunkTypeNotHeartbeat
    else if ChunkHeader_value_length header < PARAM_HEADER_LENGTH then Err ErrHeartbeatNotLongEnoughInfo
    else
      rbind (chunk_value raw header) (\<lambda>b.
      rbind (build_param b) (\<lambda>p.
      if ph_typ (Param_header p) \<noteq> HeartbeatInfo then Err ErrHeartbeatParam else Ok [p])))"

fun marshal_params :: "Param list \<Rightarrow> bytes \<Rightarrow> bytes res" where
  "marshal_params [] buf = Ok buf"
| "marshal_params (p # ps) buf = rbind (Param_marshal p) (\<lambda>b. marshal_params ps (buf @ b))"

definition ChunkHeartbeat_marshal_to :: "ChunkHeartbeat \<Rightarrow> bytes \<Rightarrow> bytes res" where
  "ChunkHeartbeat_marshal_to params buf =
    rbind (ChunkHeader_marshal_to (ChunkHeartbeat_header params) buf) (\<lambda>buf. marshal_params params buf)"

text \<open>Parameters with zero padding behind each but the last, as INIT and HEARTBEAT ACK write them.\<close>

fun padded_params_length :: "Param list \<Rightarrow> usize" where
  "padded_params_length [] = 0"
| "padded_params_length (p # ps) =
    (let p_len = PARAM_HEADER_LENGTH + Param_value_length p in
     p_len + (if ps \<noteq> [] then get_padding_size p_len else 0) + padded_params_length ps)"

fun marshal_padded_params :: "Param list \<Rightarrow> bytes \<Rightarrow> bytes res" where
  "marshal_padded_params [] buf = Ok buf"
| "marshal_padded_params (p # ps) buf =
    rbind (Param_marshal p) (\<lambda>pp.
    marshal_padded_params ps (buf @ pp @ (if ps \<noteq> [] then replicate (get_padding_size (length pp)) 0 else [])))"

definition ChunkHeartbeatAck_header :: "ChunkHeartbeatAck \<Rightarrow> ChunkHeader" where
  "ChunkHeartbeatAck_header params =
    \<lparr>ch_typ = CT_HEARTBEAT_ACK, ch_flags = 0, ch_value_length = as_u16 (padded_params_length params)\<rparr>"

definition ChunkHeartbeatAck_unmarshal :: "bytes \<Rightarrow> ChunkHeartbeatAck res" where
  "ChunkHeartbeatAck_unmarshal raw =
    rbind (ChunkHeader_unmarshal raw) (\<lambda>header.
    if ch_typ header \<noteq> CT_HEARTBEAT_ACK then Err ErrChunkTypeNotHeartbeatAck
    else if ChunkHeader_value_length header < PARAM_HEADER_LENGTH then Err ErrHeartbeatNotLongEnoughInfo
    else
      rbind (chunk_value raw header) (\<lambda>b.
      rbind (build_param b) (\<lambda>p.
      if ph_typ (Param_header p) \<noteq> HeartbeatInfo then Err ErrHeartbeatParam else Ok [p])))"

definition ChunkHeartbeatAck_marshal_to :: "ChunkHeartbeatAck \<Rightarrow> bytes \<Rightarrow> bytes res" where
  "ChunkHeartbeatAck_marshal_to params buf =
    (if length params \<noteq> 1 then Err ErrHeartbeatAckParams
     else if ph_typ (Param_header (params ! 0)) \<noteq> HeartbeatInfo then Err ErrHeartbeatAckNotHeartbeatInfo
     else
       rbind (ChunkHeader_marshal_to (ChunkHeartbeatAck_header params) buf) (\<lambda>buf.
       marshal_padded_params params buf))"

subsection \<open>SHUTDOWN\<close>

type_synonym ChunkShutdown = u32

definition CUMULATIVE_TSN_ACK_LENGTH :: usize where "CUMULATIVE_TSN_ACK_LENGTH = 4"

definition ChunkShutdown_header :: "ChunkShutdown \<Rightarrow> ChunkHeader" where
  "ChunkShutdown_header c =
    \<lparr>ch_typ = CT_SHUTDOWN, ch_flags = 0, ch_value_length = as_u16 CUMULATIVE_TSN_ACK_LENGTH\<rparr>"

definition ChunkShutdown_unmarshal :: "bytes \<Rightarrow> ChunkShutdown res" where
  "ChunkShutdown_unmarshal raw =
    rbind (ChunkHeader_unmarshal raw) (\<lambda>header.
    if ch_typ header \<noteq> CT_SHUTDOWN then Err ErrChunkTypeNotShutdown
    else if ChunkHeader_value_length header \<noteq> CUMULATIVE_TSN_ACK_LENGTH then Err ErrInvalidChunkSize
    else rbind (chunk_value raw header) (\<lambda>reader. rmap fst (get_u32 reader)))"

definition ChunkShutdown_marshal_to :: "ChunkShutdown \<Rightarrow> bytes \<Rightarrow> bytes res" where
  "ChunkShutdown_marshal_to cumulative_tsn_ack buf =
    rbind (ChunkHeader_marshal_to (ChunkShutdown_header cumulative_tsn_ack) buf) (\<lambda>buf.
    Ok (buf @ put_u32 cumulative_tsn_ack))"

subsection \<open>SACK\<close>

record ChunkSelectiveAck =
  sa_cumulative_tsn_ack :: u32
  sa_advertised_receiver_window_credit :: u32
  sa_gap_ack_blocks :: "GapAckBlock list"
  sa_duplicate_tsn :: "u32 list"

definition SELECTIVE_ACK_HEADER_SIZE :: usize where "SELECTIVE_ACK_HEADER_SIZE = 12"

definition ChunkSelectiveAck_value_length :: "ChunkSelectiveAck \<Rightarrow> usize" where
  "ChunkSelectiveAck_value_length c =
    SELECTIVE_ACK_HEADER_SIZE + length (sa_gap_ack_blocks c) * 4 + length (sa_duplicate_tsn c) * 4"

definition ChunkSelectiveAck_header :: "ChunkSelectiveAck \<Rightarrow> ChunkHeader" where
  "ChunkSelectiveAck_header c =
    \<lparr>ch_typ = CT_SACK, ch_flags = 0, ch_value_length = as_u16 (ChunkSelectiveAck_value_length c)\<rparr>"

fun get_gap_ack_blocks :: "nat \<Rightarrow> bytes \<Rightarrow> (GapAckBlock list \<times> bytes) res" where
  "get_gap_ack_blocks 0 reader = Ok ([], reader)"
| "get_gap_ack_blocks (Suc n) reader =
    rbind (get_u16 reader) (\<lambda>(start, reader).
    rbind (get_u16 reader) (\<lambda>(stop, reader).
    rbind (get_gap_ack_blocks n reader) (\<lambda>(gs, reader).
    Ok (\<lparr>gab_start = start, gab_end = stop\<rparr> # gs, reader))))"

fun get_u32s :: "nat \<Rightarrow> bytes \<Rightarrow> u32 list res" where
  "get_u32s 0 reader = Ok []"
| "get_u32s (Suc n) reader =
    rbind (get_u32 reader) (\<lambda>(x, reader). rbind (get_u32s n reader) (\<lambda>xs. Ok (x # xs)))"

definition ChunkSelectiveAck_unmarshal :: "bytes \<Rightarrow> ChunkSelectiveAck res" where
  "ChunkSelectiveAck_unmarshal raw =
    rbind (ChunkHeader_unmarshal raw) (\<lambda>header.
    if ch_typ header \<noteq> CT_SACK then Err ErrChunkTypeNotSack
    else if ChunkHeader_value_length header < SELECTIVE_ACK_HEADER_SIZE then Err ErrSackSizeNotLargeEnoughInfo
    else
      rbind (chunk_value raw header) (\<lambda>reader.
      rbind (get_u32 reader) (\<lambda>(cumulative_tsn_ack, reader).
      rbind (get_u32 reader) (\<lambda>(a_rwnd, reader).
      rbind (get_u16 reader) (\<lambda>(gaps, reader).
      rbind (get_u16 reader) (\<lambda>(dups, reader).
      if ChunkHeader_value_length header < SELECTIVE_ACK_HEADER_SIZE + (4 * unat gaps + 4 * unat dups)
      then Err ErrSackSizeNotLargeEnoughInfo
      else
        rbind (get_gap_ack_blocks (unat gaps) reader) (\<lambda>(gap_ack_blocks, reader).
        rbind (get_u32s (unat dups) reader) (\<lambda>duplicate_tsn.
        Ok \<lparr>sa_cumulative_tsn_ack = cumulative_tsn_ack, sa_advertised_receiver_window_credit = a_rwnd,
            sa_gap_ack_blocks = gap_ack_blocks, sa_duplicate_tsn = duplicate_tsn\<rparr>))))))))"

definition ChunkSelectiveAck_marshal_to :: "ChunkSelectiveAck \<Rightarrow> bytes \<Rightarrow> bytes res" where
  "ChunkSelectiveAck_marshal_to c writer =
    rbind (ChunkHeader_marshal_to (ChunkSelectiveAck_header c) writer) (\<lambda>writer.
    Ok (writer @ put_u32 (sa_cumulative_tsn_ack c) @ put_u32 (sa_advertised_receiver_window_credit c)
      @ put_u16 (as_u16 (length (sa_gap_ack_blocks c))) @ put_u16 (as_u16 (length (sa_duplicate_tsn c)))
      @ concat (map (\<lambda>g. put_u16 (gab_start g) @ put_u16 (gab_end g)) (sa_gap_ack_blocks c))
      @ concat (map put_u32 (sa_duplicate_tsn c))))"

subsection \<open>RE-CONFIG\<close>

record ChunkReconfig =
  rc_param_a :: "Param option"
  rc_param_b :: "Param option"

definition ChunkReconfig_value_length :: "ChunkReconfig \<Rightarrow> usize" where
  "ChunkReconfig_value_length c =
    (let l = PARAM_HEADER_LENGTH;
         (l, param_a_value_length) =
           (case rc_param_a c of Some param_a \<Rightarrow> (l + Param_value_length param_a, Param_value_length param_a)
            | None \<Rightarrow> (l, 0))
     in case rc_param_b c of
          Some param_b \<Rightarrow>
            l + (PARAM_HEADER_LENGTH + Param_value_length param_b
                 + get_padding_size (PARAM_HEADER_LENGTH + param_a_value_length))
        | None \<Rightarrow> l)"

definition ChunkReconfig_header :: "ChunkReconfig \<Rightarrow> ChunkHeader" where
  "ChunkReconfig_header c =
    \<lparr>ch_typ = CT_RECONFIG, ch_flags = 0, ch_value_length = as_u16 (ChunkReconfig_value_length c)\<rparr>"

definition ChunkReconfig_unmarshal :: "bytes \<Rightarrow> ChunkReconfig res" where
  "ChunkReconfig_unmarshal raw =
    rbind (ChunkHeader_unmarshal raw) (\<lambda>header.
    if ch_typ header \<noteq> CT_RECONFIG then Err ErrChunkTypeNotReconfig
    else if ChunkHeader_value_length header < PARAM_HEADER_LENGTH then Err ErrChunkTooShort
    else
      rbind (chunk_value raw header) (\<lambda>b.
      rbind (build_param b) (\<lambda>param_a.
      let padding = get_padding_size (PARAM_HEADER_LENGTH + Param_value_length param_a);
          offset = CHUNK_HEADER_SIZE + PARAM_HEADER_LENGTH + Param_value_length param_a + padding in
      if CHUNK_HEADER_SIZE + ChunkHeader_value_length header > offset then
        rbind (slice raw offset (CHUNK_HEADER_SIZE + ChunkHeader_value_length header)) (\<lambda>b.
        rbind (build_param b) (\<lambda>param_b.
        Ok \<lparr>rc_param_a = Some param_a, rc_param_b = Some param_b\<rparr>))
      else Ok \<lparr>rc_param_a = Some param_a, rc_param_b = None\<rparr>)))"

definition ChunkReconfig_marshal_to :: "ChunkReconfig \<Rightarrow> bytes \<Rightarrow> bytes res" where
  "ChunkReconfig_marshal_to c writer =
    rbind (ChunkHeader_marshal_to (ChunkReconfig_header c) writer) (\<lambda>writer.
    case rc_param_a c of
      None \<Rightarrow> Err ErrChunkReconfigInvalidParamA
    | Some param_a \<Rightarrow>
        rbind (Param_marshal param_a) (\<lambda>a.
        case rc_param_b c of
          None \<Rightarrow> Ok (writer @ a)
        | Some param_b \<Rightarrow>
            rbind (Param_marshal param_b) (\<lambda>b.
            Ok (writer @ a
              @ replicate (get_padding_size (PARAM_HEADER_LENGTH + Param_value_length param_a)) 0 @ b))))"

definition ChunkReconfig_check :: "ChunkReconfig \<Rightarrow> unit res" where
  "ChunkReconfig_check c =
    (case rc_param_a c of
       None \<Rightarrow> Err ErrChunkReconfigInvalidParamA
     | Some param_a \<Rightarrow>
         (case rc_param_b c of
            None \<Rightarrow> Ok ()
          | Some param_b \<Rightarrow>
              if (ph_typ (Param_header param_a), ph_typ (Param_header param_b)) \<in>
                {(OutSsnResetReq, IncSsnResetReq), (AddOutStreamsReq, AddIncStreamsReq),
                 (ReconfigResp, OutSsnResetReq), (ReconfigResp, ReconfigResp)}
              then Ok () else Err ErrChunkReconfigInvalidParamCombination))"

subsection \<open>FORWARD TSN and I-FORWARD TSN\<close>

record ChunkForwardTsnStream =
  fs_identifier :: u16
  fs_sequence :: u16

record ChunkForwardTsn =
  ft_new_cumulative_tsn :: u32
  ft_streams :: "ChunkForwardTsnStream list"

definition NEW_CUMULATIVE_TSN_LENGTH :: usize where "NEW_CUMULATIVE_TSN_LENGTH = 4"

definition FORWARD_TSN_STREAM_LENGTH :: usize where "FORWARD_TSN_STREAM_LENGTH = 4"

definition ChunkForwardTsnStream_unmarshal :: "bytes \<Rightarrow> ChunkForwardTsnStream res" where
  "ChunkForwardTsnStream_unmarshal buf =
    (if length buf < FORWARD_TSN_STREAM_LENGTH then Err ErrChunkTooShort
     else
       rbind (get_u16 buf) (\<lambda>(identifier, reader).
       rbind (get_u16 reader) (\<lambda>(sequence, _).
       Ok \<lparr>fs_identifier = identifier, fs_sequence = sequence\<rparr>)))"

definition ChunkForwardTsnStream_marshal :: "ChunkForwardTsnStream \<Rightarrow> bytes" where
  "ChunkForwardTsnStream_marshal s = put_u16 (fs_identifier s) @ put_u16 (fs_sequence s)"

function forward_tsn_streams_loop :: "bytes \<Rightarrow> usize \<Rightarrow> usize \<Rightarrow> usize \<Rightarrow> ChunkForwardTsnStream list res" where
  "forward_tsn_streams_loop buf value_end offset remaining =
    (if remaining > 0 then
       rbind (slice buf offset value_end) (\<lambda>b.
       rbind (ChunkForwardTsnStream_unmarshal b) (\<lambda>s.
       rbind (usize_sub remaining FORWARD_TSN_STREAM_LENGTH) (\<lambda>remaining.
       rbind (forward_tsn_streams_loop buf value_end (offset + FORWARD_TSN_STREAM_LENGTH) remaining) (\<lambda>ss.
       Ok (s # ss)))))
     else Ok [])"
  by pat_completeness auto
termination
  by (relation "measure (\<lambda>(buf, value_end, offset, remaining). remaining)")
    (auto simp: usize_sub_eq_Ok FORWARD_TSN_STREAM_LENGTH_def)

definition ChunkForwardTsn_value_length :: "ChunkForwardTsn \<Rightarrow> usize" where
  "ChunkForwardTsn_value_length c = NEW_CUMULATIVE_TSN_LENGTH + FORWARD_TSN_STREAM_LENGTH * length (ft_streams c)"

definition ChunkForwardTsn_header :: "ChunkForwardTsn \<Rightarrow> ChunkHeader" where
  "ChunkForwardTsn_header c =
    \<lparr>ch_typ = CT_FORWARD_TSN, ch_flags = 0, ch_value_length = as_u16 (ChunkForwardTsn_value_length c)\<rparr>"

definition ChunkForwardTsn_unmarshal :: "bytes \<Rightarrow> ChunkForwardTsn res" where
  "ChunkForwardTsn_unmarshal buf =
    rbind (ChunkHeader_unmarshal buf) (\<lambda>header.
    if ch_typ header \<noteq> CT_FORWARD_TSN then Err ErrChunkTypeNotForwardTsn
    else if ChunkHeader_value_length header < NEW_CUMULATIVE_TSN_LENGTH then Err ErrChunkTooShort
    else
      let offset = CHUNK_HEADER_SIZE + NEW_CUMULATIVE_TSN_LENGTH in
      rbind (chunk_value buf header) (\<lambda>reader.
      rbind (get_u32 reader) (\<lambda>(new_cumulative_tsn, _).
      let value_end = CHUNK_HEADER_SIZE + ChunkHeader_value_length header in
      rbind (usize_sub value_end offset) (\<lambda>remaining.
      rbind (forward_tsn_streams_loop buf value_end offset remaining) (\<lambda>streams.
      Ok \<lparr>ft_new_cumulative_tsn = new_cumulative_tsn, ft_streams = streams\<rparr>)))))"

definition ChunkForwardTsn_marshal_to :: "ChunkForwardTsn \<Rightarrow> bytes \<Rightarrow> bytes res" where
  "ChunkForwardTsn_marshal_to c writer =
    rbind (ChunkHeader_marshal_to (ChunkForwardTsn_header c) writer) (\<lambda>writer.
    Ok (writer @ put_u32 (ft_new_cumulative_tsn c) @ concat (map ChunkForwardTsnStream_marshal (ft_streams c))))"

record ChunkIForwardTsnStream =
  ifs_identifier :: u16
  ifs_unordered :: bool
  ifs_mid :: u32

record ChunkIForwardTsn =
  ift_new_cumulative_tsn :: u32
  ift_streams :: "ChunkIForwardTsnStream list"

definition I_FORWARD_TSN_STREAM_ENTRY_LENGTH :: usize where "I_FORWARD_TSN_STREAM_ENTRY_LENGTH = 8"

function i_forward_tsn_streams_loop :: "bytes \<Rightarrow> usize \<Rightarrow> usize \<Rightarrow> ChunkIForwardTsnStream list res" where
  "i_forward_tsn_streams_loop buf value_end offset =
    (if offset + I_FORWARD_TSN_STREAM_ENTRY_LENGTH \<le> value_end then
       rbind (slice buf offset value_end) (\<lambda>entry_buf.
       rbind (get_u16 entry_buf) (\<lambda>(identifier, entry_buf).
       rbind (get_u8 entry_buf) (\<lambda>(flags, entry_buf).
       rbind (get_u8 entry_buf) (\<lambda>(reserved, entry_buf).
       rbind (get_u32 entry_buf) (\<lambda>(mid, _).
       rbind (i_forward_tsn_streams_loop buf value_end (offset + I_FORWARD_TSN_STREAM_ENTRY_LENGTH)) (\<lambda>ss.
       Ok (\<lparr>ifs_identifier = identifier, ifs_unordered = (flags AND 1 \<noteq> 0), ifs_mid = mid\<rparr> # ss)))))))
     else Ok [])"
  by pat_completeness auto
termination
  by (relation "measure (\<lambda>(buf, value_end, offset). value_end - offset)")
    (auto simp: I_FORWARD_TSN_STREAM_ENTRY_LENGTH_def)

definition ChunkIForwardTsn_value_length :: "ChunkIForwardTsn \<Rightarrow> usize" where
  "ChunkIForwardTsn_value_length c = 4 + I_FORWARD_TSN_STREAM_ENTRY_LENGTH * length (ift_streams c)"

definition ChunkIForwardTsn_header :: "ChunkIForwardTsn \<Rightarrow> ChunkHeader" where
  "ChunkIForwardTsn_header c =
    \<lparr>ch_typ = CT_I_FORWARD_TSN, ch_flags = 0, ch_value_length = as_u16 (ChunkIForwardTsn_value_length c)\<rparr>"

definition ChunkIForwardTsn_unmarshal :: "bytes \<Rightarrow> ChunkIForwardTsn res" where
  "ChunkIForwardTsn_unmarshal buf =
    rbind (ChunkHeader_unmarshal buf) (\<lambda>header.
    if ch_typ header \<noteq> CT_I_FORWARD_TSN then Err ErrChunkTypeNotForwardTsn
    else
      let value_end = CHUNK_HEADER_SIZE + ChunkHeader_value_length header in
      if ChunkHeader_value_length header < NEW_CUMULATIVE_TSN_LENGTH then Err ErrChunkTooShort
      else
        rbind (slice buf CHUNK_HEADER_SIZE value_end) (\<lambda>reader.
        rbind (get_u32 reader) (\<lambda>(new_cumulative_tsn, _).
        rbind (i_forward_tsn_streams_loop buf value_end (CHUNK_HEADER_SIZE + NEW_CUMULATIVE_TSN_LENGTH)) (\<lambda>streams.
        Ok \<lparr>ift_new_cumulative_tsn = new_cumulative_tsn, ift_streams = streams\<rparr>))))"

definition ChunkIForwardTsn_marshal_to :: "ChunkIForwardTsn \<Rightarrow> bytes \<Rightarrow> bytes res" where
  "ChunkIForwardTsn_marshal_to c writer =
    rbind (ChunkHeader_marshal_to (ChunkIForwardTsn_header c) writer) (\<lambda>writer.
    Ok (writer @ put_u32 (ift_new_cumulative_tsn c)
      @ concat (map (\<lambda>s. put_u16 (ifs_identifier s) @ [if ifs_unordered s then 1 else 0] @ [0] @ put_u32 (ifs_mid s))
          (ift_streams c))))"

subsection \<open>INIT and INIT ACK\<close>

record ChunkInit =
  ci_is_ack :: bool
  ci_initiate_tag :: u32
  ci_advertised_receiver_window_credit :: u32
  ci_num_outbound_streams :: u16
  ci_num_inbound_streams :: u16
  ci_initial_tsn :: u32
  ci_params :: "Param list"

definition ChunkInit_default :: ChunkInit where
  "ChunkInit_default =
    \<lparr>ci_is_ack = False, ci_initiate_tag = 0, ci_advertised_receiver_window_credit = 0,
     ci_num_outbound_streams = 0, ci_num_inbound_streams = 0, ci_initial_tsn = 0, ci_params = []\<rparr>"

definition INIT_CHUNK_MIN_LENGTH :: usize where "INIT_CHUNK_MIN_LENGTH = 16"

definition INIT_OPTIONAL_VAR_HEADER_LENGTH :: usize where "INIT_OPTIONAL_VAR_HEADER_LENGTH = 4"

definition ChunkInit_value_length :: "ChunkInit \<Rightarrow> usize" where
  "ChunkInit_value_length c = 4 + 4 + 2 + 2 + 4 + padded_params_length (ci_params c)"

definition ChunkInit_header :: "ChunkInit \<Rightarrow> ChunkHeader" where
  "ChunkInit_header c =
    \<lparr>ch_typ = (if ci_is_ack c then CT_INIT_ACK else CT_INIT), ch_flags = 0,
     ch_value_length = as_u16 (ChunkInit_value_length c)\<rparr>"

text \<open>
  The loop over the parameters. The signed remaining length is \<open>value_end - offset\<close>, so that it is at
  least four exactly when the offset is at most \<open>value_end - 4\<close>.
\<close>

function init_params_loop :: "bytes \<Rightarrow> usize \<Rightarrow> usize \<Rightarrow> Param list res" where
  "init_params_loop raw value_end offset =
    (if offset + INIT_OPTIONAL_VAR_HEADER_LENGTH \<le> value_end then
       rbind (slice raw offset value_end) (\<lambda>b.
       rbind (build_param b) (\<lambda>p.
       let p_len = PARAM_HEADER_LENGTH + Param_value_length p;
           len_plus_padding = p_len + get_padding_size p_len in
       rbind (init_params_loop raw value_end (offset + len_plus_padding)) (\<lambda>ps. Ok (p # ps))))
     else Ok [])"
  by pat_completeness auto
termination
  by (relation "measure (\<lambda>(raw, value_end, offset). value_end - offset)")
    (auto simp: INIT_OPTIONAL_VAR_HEADER_LENGTH_def PARAM_HEADER_LENGTH_def)

definition ChunkInit_unmarshal :: "bytes \<Rightarrow> ChunkInit res" where
  "ChunkInit_unmarshal raw =
    rbind (ChunkHeader_unmarshal raw) (\<lambda>header.
    if \<not> (ch_typ header = CT_INIT \<or> ch_typ header = CT_INIT_ACK) then Err ErrChunkTypeNotTypeInit
    else if ChunkHeader_value_length header < INIT_CHUNK_MIN_LENGTH then Err ErrChunkValueNotLongEnough
    else if ch_flags header \<noteq> 0 then Err ErrChunkTypeInitFlagZero
    else
      rbind (chunk_value raw header) (\<lambda>reader.
      rbind (get_u32 reader) (\<lambda>(initiate_tag, reader).
      rbind (get_u32 reader) (\<lambda>(a_rwnd, reader).
      rbind (get_u16 reader) (\<lambda>(num_outbound_streams, reader).
      rbind (get_u16 reader) (\<lambda>(num_inbound_streams, reader).
      rbind (get_u32 reader) (\<lambda>(initial_tsn, _).
      let offset = CHUNK_HEADER_SIZE + INIT_CHUNK_MIN_LENGTH;
          value_end = CHUNK_HEADER_SIZE + ChunkHeader_value_length header in
      rbind (init_params_loop raw value_end offset) (\<lambda>params.
      Ok \<lparr>ci_is_ack = (ch_typ header = CT_INIT_ACK), ci_initiate_tag = initiate_tag,
          ci_advertised_receiver_window_credit = a_rwnd, ci_num_outbound_streams = num_outbound_streams,
          ci_num_inbound_streams = num_inbound_streams, ci_initial_tsn = initial_tsn,
          ci_params = params\<rparr>))))))))"

definition ChunkInit_marshal_to :: "ChunkInit \<Rightarrow> bytes \<Rightarrow> bytes res" where
  "ChunkInit_marshal_to c writer =
    rbind (ChunkHeader_marshal_to (ChunkInit_header c) writer) (\<lambda>writer.
    marshal_padded_params (ci_params c)
      (writer @ put_u32 (ci_initiate_tag c) @ put_u32 (ci_advertised_receiver_window_credit c)
        @ put_u16 (ci_num_outbound_streams c) @ put_u16 (ci_num_inbound_streams c) @ put_u32 (ci_initial_tsn c)))"

definition ChunkInit_check :: "ChunkInit \<Rightarrow> unit res" where
  "ChunkInit_check c =
    (if ci_initiate_tag c = 0 then Err ErrChunkTypeInitInitiateTagZero
     else if ci_num_inbound_streams c = 0 then Err ErrInitInboundStreamRequestZero
     else if ci_num_outbound_streams c = 0 then Err ErrInitOutboundStreamRequestZero
     else if ci_advertised_receiver_window_credit c < 1500 then Err ErrInitAdvertisedReceiver1500
     else Ok ())"

definition set_supported_extensions :: "ChunkInit \<Rightarrow> ChunkInit" where
  "set_supported_extensions c =
    c\<lparr>ci_params := ci_params c @ [ParamSupportedExtensions [CT_RECONFIG, CT_FORWARD_TSN]]\<rparr>"

subsection \<open>DATA\<close>

definition PAYLOAD_DATA_ENDING_FRAGMENT_BITMASK :: u8 where "PAYLOAD_DATA_ENDING_FRAGMENT_BITMASK = 1"

definition PAYLOAD_DATA_BEGINING_FRAGMENT_BITMASK :: u8 where "PAYLOAD_DATA_BEGINING_FRAGMENT_BITMASK = 2"

definition PAYLOAD_DATA_UNORDERED_BITMASK :: u8 where "PAYLOAD_DATA_UNORDERED_BITMASK = 4"

definition PAYLOAD_DATA_IMMEDIATE_SACK :: u8 where "PAYLOAD_DATA_IMMEDIATE_SACK = 8"

definition PAYLOAD_DATA_HEADER_SIZE :: usize where "PAYLOAD_DATA_HEADER_SIZE = 12"

definition ChunkPayloadData_value_length :: "ChunkPayloadData \<Rightarrow> usize" where
  "ChunkPayloadData_value_length c = PAYLOAD_DATA_HEADER_SIZE + length (d_user_data c)"

definition ChunkPayloadData_header :: "ChunkPayloadData \<Rightarrow> ChunkHeader" where
  "ChunkPayloadData_header c =
    (let flags = 0;
         flags = (if d_ending_fragment c then 1 else flags);
         flags = (if d_beginning_fragment c then flags OR push_bit 1 1 else flags);
         flags = (if d_unordered c then flags OR push_bit 2 1 else flags);
         flags = (if d_immediate_sack c then flags OR push_bit 3 1 else flags)
     in \<lparr>ch_typ = CT_PAYLOAD_DATA, ch_flags = flags, ch_value_length = as_u16 (ChunkPayloadData_value_length c)\<rparr>)"

definition ChunkPayloadData_unmarshal :: "bytes \<Rightarrow> ChunkPayloadData res" where
  "ChunkPayloadData_unmarshal raw =
    rbind (ChunkHeader_unmarshal raw) (\<lambda>header.
    if ch_typ header \<noteq> CT_PAYLOAD_DATA then Err ErrChunkTypeNotPayloadData
    else if ChunkHeader_value_length header < PAYLOAD_DATA_HEADER_SIZE then Err ErrChunkPayloadSmall
    else
      rbind (chunk_value raw header) (\<lambda>reader.
      rbind (get_u32 reader) (\<lambda>(tsn, reader).
      rbind (get_u16 reader) (\<lambda>(stream_identifier, reader).
      rbind (get_u16 reader) (\<lambda>(stream_sequence_number, reader).
      rbind (get_u32 reader) (\<lambda>(payload_type, _).
      rbind (slice raw (CHUNK_HEADER_SIZE + PAYLOAD_DATA_HEADER_SIZE)
          (CHUNK_HEADER_SIZE + ChunkHeader_value_length header)) (\<lambda>user_data.
      Ok (ChunkPayloadData_default
        \<lparr>d_unordered := (ch_flags header AND PAYLOAD_DATA_UNORDERED_BITMASK \<noteq> 0),
         d_beginning_fragment := (ch_flags header AND PAYLOAD_DATA_BEGINING_FRAGMENT_BITMASK \<noteq> 0),
         d_ending_fragment := (ch_flags header AND PAYLOAD_DATA_ENDING_FRAGMENT_BITMASK \<noteq> 0),
         d_immediate_sack := (ch_flags header AND PAYLOAD_DATA_IMMEDIATE_SACK \<noteq> 0),
         d_tsn := tsn, d_stream_identifier := stream_identifier,
         d_stream_sequence_number := stream_sequence_number,
         d_payload_type := ppi_from_u32 payload_type, d_user_data := user_data\<rparr>))))))))"

definition ChunkPayloadData_marshal_to :: "ChunkPayloadData \<Rightarrow> bytes \<Rightarrow> bytes res" where
  "ChunkPayloadData_marshal_to c writer =
    rbind (ChunkHeader_marshal_to (ChunkPayloadData_header c) writer) (\<lambda>writer.
    Ok (writer @ put_u32 (d_tsn c) @ put_u16 (d_stream_identifier c) @ put_u16 (d_stream_sequence_number c)
      @ put_u32 (ppi_as_u32 (d_payload_type c)) @ d_user_data c))"

subsection \<open>Any chunk\<close>

datatype Chunk =
    CInit ChunkInit
  | CAbort ChunkAbort
  | CCookieEcho ChunkCookieEcho
  | CCookieAck
  | CHeartbeat ChunkHeartbeat
  | CHeartbeatAck ChunkHeartbeatAck
  | CPayloadData ChunkPayloadData
  | CSelectiveAck ChunkSelectiveAck
  | CReconfig ChunkReconfig
  | CForwardTsn ChunkForwardTsn
  | CIForwardTsn ChunkIForwardTsn
  | CError ChunkError
  | CShutdown ChunkShutdown
  | CShutdownAck
  | CShutdownComplete

primrec Chunk_value_length :: "Chunk \<Rightarrow> usize" where
  "Chunk_value_length (CInit c) = ChunkInit_value_length c"
| "Chunk_value_length (CAbort c) = error_causes_length c"
| "Chunk_value_length (CCookieEcho c) = length c"
| "Chunk_value_length CCookieAck = 0"
| "Chunk_value_length (CHeartbeat c) = ChunkHeartbeat_value_length c"
| "Chunk_value_length (CHeartbeatAck c) = padded_params_length c"
| "Chunk_value_length (CPayloadData c) = ChunkPayloadData_value_length c"
| "Chunk_value_length (CSelectiveAck c) = ChunkSelectiveAck_value_length c"
| "Chunk_value_length (CReconfig c) = ChunkReconfig_value_length c"
| "Chunk_value_length (CForwardTsn c) = ChunkForwardTsn_value_length c"
| "Chunk_value_length (CIForwardTsn c) = ChunkIForwardTsn_value_length c"
| "Chunk_value_length (CError c) = error_causes_length c"
| "Chunk_value_length (CShutdown c) = CUMULATIVE_TSN_ACK_LENGTH"
| "Chunk_value_length CShutdownAck = 0"
| "Chunk_value_length CShutdownComplete = 0"

primrec Chunk_marshal_to :: "Chunk \<Rightarrow> bytes \<Rightarrow> bytes res" where
  "Chunk_marshal_to (CInit c) = ChunkInit_marshal_to c"
| "Chunk_marshal_to (CAbort c) = ChunkAbort_marshal_to c"
| "Chunk_marshal_to (CCookieEcho c) = ChunkCookieEcho_marshal_to c"
| "Chunk_marshal_to CCookieAck = ChunkHeader_marshal_to (empty_header CT_COOKIE_ACK)"
| "Chunk_marshal_to (CHeartbeat c) = ChunkHeartbeat_marshal_to c"
| "Chunk_marshal_to (CHeartbeatAck c) = ChunkHeartbeatAck_marshal_to c"
| "Chunk_marshal_to (CPayloadData c) = ChunkPayloadData_marshal_to c"
| "Chunk_marshal_to (CSelectiveAck c) = ChunkSelectiveAck_marshal_to c"
| "Chunk_marshal_to (CReconfig c) = ChunkReconfig_marshal_to c"
| "Chunk_marshal_to (CForwardTsn c) = ChunkForwardTsn_marshal_to c"
| "Chunk_marshal_to (CIForwardTsn c) = ChunkIForwardTsn_marshal_to c"
| "Chunk_marshal_to (CError c) = ChunkError_marshal_to c"
| "Chunk_marshal_to (CShutdown c) = ChunkShutdown_marshal_to c"
| "Chunk_marshal_to CShutdownAck = ChunkHeader_marshal_to (empty_header CT_SHUTDOWN_ACK)"
| "Chunk_marshal_to CShutdownComplete = ChunkHeader_marshal_to (empty_header CT_SHUTDOWN_COMPLETE)"

primrec Chunk_check :: "Chunk \<Rightarrow> unit res" where
  "Chunk_check (CInit c) = ChunkInit_check c"
| "Chunk_check (CAbort c) = Ok ()"
| "Chunk_check (CCookieEcho c) = Ok ()"
| "Chunk_check CCookieAck = Ok ()"
| "Chunk_check (CHeartbeat c) = Ok ()"
| "Chunk_check (CHeartbeatAck c) = Ok ()"
| "Chunk_check (CPayloadData c) = Ok ()"
| "Chunk_check (CSelectiveAck c) = Ok ()"
| "Chunk_check (CReconfig c) = ChunkReconfig_check c"
| "Chunk_check (CForwardTsn c) = Ok ()"
| "Chunk_check (CIForwardTsn c) = Ok ()"
| "Chunk_check (CError c) = Ok ()"
| "Chunk_check (CShutdown c) = Ok ()"
| "Chunk_check CShutdownAck = Ok ()"
| "Chunk_check CShutdownComplete = Ok ()"

text \<open>The \<^verbatim>\<open>match ct\<close> of the packet decoders: a chunk of the type found in its first byte.\<close>

definition decode_chunk :: "ChunkType \<Rightarrow> bytes \<Rightarrow> Chunk res" where
  "decode_chunk ct raw =
    (if ct = CT_INIT then rmap CInit (ChunkInit_unmarshal raw)
     else if ct = CT_INIT_ACK then rmap CInit (ChunkInit_unmarshal raw)
     else if ct = CT_ABORT then rmap CAbort (ChunkAbort_unmarshal raw)
     else if ct = CT_COOKIE_ECHO then rmap CCookieEcho (ChunkCookieEcho_unmarshal raw)
     else if ct = CT_COOKIE_ACK then rmap (\<lambda>_. CCookieAck) (ChunkCookieAck_unmarshal raw)
     else if ct = CT_HEARTBEAT then rmap CHeartbeat (ChunkHeartbeat_unmarshal raw)
     else if ct = CT_PAYLOAD_DATA then rmap CPayloadData (ChunkPayloadData_unmarshal raw)
     else if ct = CT_SACK then rmap CSelectiveAck (ChunkSelectiveAck_unmarshal raw)
     else if ct = CT_RECONFIG then rmap CReconfig (ChunkReconfig_unmarshal raw)
     else if ct = CT_FORWARD_TSN then rmap CForwardTsn (ChunkForwardTsn_unmarshal raw)
     else if ct = CT_I_FORWARD_TSN then rmap CIForwardTsn (ChunkIForwardTsn_unmarshal raw)
     else if ct = CT_ERROR then rmap CError (ChunkError_unmarshal raw)
     else if ct = CT_SHUTDOWN then rmap CShutdown (ChunkShutdown_unmarshal raw)
     else if ct = CT_SHUTDOWN_ACK then rmap (\<lambda>_. CShutdownAck) (ChunkShutdownAck_unmarshal raw)
     else if ct = CT_SHUTDOWN_COMPLETE then rmap (\<lambda>_. CShutdownComplete) (ChunkShutdownComplete_unmarshal raw)
     else Err ErrUnmarshalUnknownChunkType)"

end
