(* ===== verification/Wire_Codec.thy ===== *)
theory Wire_Codec
  imports Wire_Chunks
begin

text \<open>
  The chunk codec is safe and lossless: no chunk decoder panics on any bytes, and every chunk that
  satisfies \<open>Chunk_wf\<close> reads back from its encoding, followed by any bytes that can follow a chunk in
  a packet (\<open>tail_ok\<close>). Of a DATA chunk only the wire fields survive (\<open>wire_view\<close>).
\<close>

declare error_causes_loop.simps [simp del] forward_tsn_streams_loop.simps [simp del]
  i_forward_tsn_streams_loop.simps [simp del] init_params_loop.simps [simp del]

lemmas wire_consts = CHUNK_HEADER_SIZE_def PARAM_HEADER_LENGTH_def ERROR_CAUSE_HEADER_LENGTH_def
  NEW_CUMULATIVE_TSN_LENGTH_def FORWARD_TSN_STREAM_LENGTH_def I_FORWARD_TSN_STREAM_ENTRY_LENGTH_def
  INIT_CHUNK_MIN_LENGTH_def INIT_OPTIONAL_VAR_HEADER_LENGTH_def PAYLOAD_DATA_HEADER_SIZE_def
  SELECTIVE_ACK_HEADER_SIZE_def CUMULATIVE_TSN_ACK_LENGTH_def

lemmas chunk_types = CT_PAYLOAD_DATA_def CT_INIT_def CT_INIT_ACK_def CT_SACK_def CT_HEARTBEAT_def
  CT_HEARTBEAT_ACK_def CT_ABORT_def CT_SHUTDOWN_def CT_SHUTDOWN_ACK_def CT_ERROR_def CT_COOKIE_ECHO_def
  CT_COOKIE_ACK_def CT_SHUTDOWN_COMPLETE_def CT_RECONFIG_def CT_FORWARD_TSN_def CT_I_FORWARD_TSN_def

subsection \<open>What can be sent and what arrives\<close>

text \<open>The bytes that may follow a chunk: fewer than four are padding and must be zero.\<close>

definition tail_ok :: "bytes \<Rightarrow> bool" where
  "tail_ok rest \<longleftrightarrow> length rest < 4 \<longrightarrow> (\<forall>b \<in> set rest. b = 0)"

definition wire_view :: "ChunkPayloadData \<Rightarrow> ChunkPayloadData" where
  "wire_view c = ChunkPayloadData_default
    \<lparr>d_unordered := d_unordered c, d_beginning_fragment := d_beginning_fragment c,
     d_ending_fragment := d_ending_fragment c, d_immediate_sack := d_immediate_sack c, d_tsn := d_tsn c,
     d_stream_identifier := d_stream_identifier c, d_stream_sequence_number := d_stream_sequence_number c,
     d_payload_type := d_payload_type c, d_user_data := d_user_data c\<rparr>"

fun Chunk_on_wire :: "Chunk \<Rightarrow> Chunk" where
  "Chunk_on_wire (CPayloadData c) = CPayloadData (wire_view c)"
| "Chunk_on_wire c = c"

fun Chunk_wf :: "Chunk \<Rightarrow> bool" where
  "Chunk_wf (CInit c) \<longleftrightarrow> ChunkInit_value_length c < 65532 \<and> (\<forall>p \<in> set (ci_params c). Param_wf p)"
| "Chunk_wf (CHeartbeat ps) \<longleftrightarrow> (\<exists>b. ps = [ParamHeartbeatInfo b] \<and> length b < 65528)"
| "Chunk_wf (CHeartbeatAck ps) \<longleftrightarrow> False"
| "Chunk_wf (CReconfig c) \<longleftrightarrow> ChunkReconfig_value_length c < 65532 \<and>
    (\<exists>a. rc_param_a c = Some a \<and> Param_wf a) \<and> (\<forall>b. rc_param_b c = Some b \<longrightarrow> Param_wf b)"
| "Chunk_wf c \<longleftrightarrow> Chunk_value_length c < 65532"

primrec Chunk_type :: "Chunk \<Rightarrow> ChunkType" where
  "Chunk_type (CInit c) = (if ci_is_ack c then CT_INIT_ACK else CT_INIT)"
| "Chunk_type (CAbort c) = CT_ABORT"
| "Chunk_type (CCookieEcho c) = CT_COOKIE_ECHO"
| "Chunk_type CCookieAck = CT_COOKIE_ACK"
| "Chunk_type (CHeartbeat c) = CT_HEARTBEAT"
| "Chunk_type (CHeartbeatAck c) = CT_HEARTBEAT_ACK"
| "Chunk_type (CPayloadData c) = CT_PAYLOAD_DATA"
| "Chunk_type (CSelectiveAck c) = CT_SACK"
| "Chunk_type (CReconfig c) = CT_RECONFIG"
| "Chunk_type (CForwardTsn c) = CT_FORWARD_TSN"
| "Chunk_type (CIForwardTsn c) = CT_I_FORWARD_TSN"
| "Chunk_type (CError c) = CT_ERROR"
| "Chunk_type (CShutdown c) = CT_SHUTDOWN"
| "Chunk_type CShutdownAck = CT_SHUTDOWN_ACK"
| "Chunk_type CShutdownComplete = CT_SHUTDOWN_COMPLETE"

text \<open>A chunk as header and value.\<close>

definition chunk_bytes :: "ChunkType \<Rightarrow> u8 \<Rightarrow> bytes \<Rightarrow> bytes" where
  "chunk_bytes t f v = [t, f] @ put_u16 (as_u16 (length v + 4)) @ v"

text \<open>The bytes of parameters with padding between them.\<close>

definition param_bytes :: "Param \<Rightarrow> bytes" where
  "param_bytes p = put_u16 (u16_from_ParamType (Param_typ p)) @ put_u16 (as_u16 (Param_value_length p + 4)) @ Param_value_bytes p"

fun padded_params :: "Param list \<Rightarrow> bytes" where
  "padded_params [] = []"
| "padded_params (p # ps) =
    param_bytes p @ (if ps \<noteq> [] then replicate (get_padding_size (4 + Param_value_length p)) 0 else []) @ padded_params ps"

text \<open>The raw bytes start with a chunk of this type, flags and value, and \<open>h\<close> is its header.\<close>

definition chunk_at :: "bytes \<Rightarrow> ChunkHeader \<Rightarrow> ChunkType \<Rightarrow> u8 \<Rightarrow> bytes \<Rightarrow> bool" where
  "chunk_at raw h t f v \<longleftrightarrow> ChunkHeader_unmarshal raw = Ok h \<and> ch_typ h = t \<and> ch_flags h = f \<and>
    ChunkHeader_value_length h = length v \<and> chunk_value raw h = Ok v \<and> slice raw 4 (4 + length v) = Ok v"

text \<open>The chunk is written as these flags and this value, and reads back from wherever they stand.\<close>

definition codec :: "Chunk \<Rightarrow> u8 \<Rightarrow> bytes \<Rightarrow> bool" where
  "codec c f v \<longleftrightarrow> length v = Chunk_value_length c \<and> length v < 65532 \<and>
    (\<forall>buf. Chunk_marshal_to c buf = Ok (buf @ chunk_bytes (Chunk_type c) f v)) \<and>
    (\<forall>raw h. chunk_at raw h (Chunk_type c) f v \<longrightarrow> decode_chunk (Chunk_type c) raw = Ok (Chunk_on_wire c))"

subsection \<open>The header\<close>

lemma check_padding_no_panic:
  "4 + value_length + n \<le> length raw \<Longrightarrow> check_padding raw value_length n \<noteq> Panic"
  by (induction n) (auto simp: rbind_eq_Panic wire_consts)

lemma unat_minus_4: "\<not> unat x < 4 \<Longrightarrow> unat (x - 4) = unat x - 4" for x :: u16
  by (simp add: unat_sub_if_size)

lemma ChunkHeader_unmarshal_no_panic [no_panic]: "ChunkHeader_unmarshal raw \<noteq> Panic"
  by (auto simp: ChunkHeader_unmarshal_def wire_consts rbind_eq_Panic check_padding_no_panic
      dest!: get_lengths split: if_splits)

lemma ChunkHeader_unmarshal_length:
  "ChunkHeader_unmarshal raw = Ok h \<Longrightarrow> 4 + ChunkHeader_value_length h \<le> length raw"
  by (auto simp: ChunkHeader_unmarshal_def ChunkHeader_value_length_def wire_consts unat_minus_4 split: if_splits)

lemma chunk_value_ok:
  assumes "ChunkHeader_unmarshal raw = Ok h"
  obtains v where "chunk_value raw h = Ok v" "length v = ChunkHeader_value_length h"
  using ChunkHeader_unmarshal_length [OF assms] by (auto simp: chunk_value_def slice_def wire_consts)

lemma check_padding_zero:
  assumes "\<forall>b \<in> set rest. b = 0" "4 + value_length = length pre" "n \<le> length rest"
  shows "check_padding (pre @ rest) value_length n = Ok ()"
  using assms(3)
proof (induction n)
  case (Suc n)
  then have "(pre @ rest) ! (4 + (value_length + n)) = 0"
    using assms(1,2) by (simp add: nth_append add.assoc [symmetric])
  with Suc show ?case using assms(2) by (simp add: index_def wire_consts)
qed simp

lemma ChunkHeader_roundtrip:
  assumes "length v < 65532" "tail_ok rest"
  shows "ChunkHeader_unmarshal (chunk_bytes t f v @ rest) =
    Ok \<lparr>ch_typ = t, ch_flags = f, ch_value_length = as_u16 (length v)\<rparr>"
proof -
  have u: "unat (as_u16 (length v + 4)) = length v + 4" using assms(1) by (simp only: unat_of_nat) simp
  have c: "length rest < 4 \<Longrightarrow> check_padding (chunk_bytes t f v @ rest) (length v) (length rest) = Ok ()"
    using assms(2) by (intro check_padding_zero) (auto simp: tail_ok_def chunk_bytes_def)
  have "get_u16 (put_u16 (as_u16 (length v + 4)) @ v @ rest) = Ok (as_u16 (length v + 4), v @ rest)"
    by (rule get_u16_put_u16)
  then show ?thesis using u c
    by (simp add: ChunkHeader_unmarshal_def wire_consts chunk_bytes_def del: of_nat_add) simp
qed

lemma chunk_value_roundtrip:
  assumes "length v < 65532"
  shows "chunk_value (chunk_bytes t f v @ rest) \<lparr>ch_typ = t', ch_flags = f', ch_value_length = as_u16 (length v)\<rparr> = Ok v"
proof -
  have "unat (as_u16 (length v)) = length v" using assms by (simp only: unat_of_nat) simp
  then show ?thesis by (simp add: chunk_value_def wire_consts ChunkHeader_value_length_def slice_def chunk_bytes_def)
qed

lemma ChunkHeader_marshal_to_eq:
  assumes "n < 65532"
  shows "ChunkHeader_marshal_to \<lparr>ch_typ = t, ch_flags = f, ch_value_length = as_u16 n\<rparr> buf =
    Ok (buf @ [t, f] @ put_u16 (as_u16 (n + 4)))"
proof -
  have "\<not> as_u16 n + 4 < as_u16 n" using assms by (simp add: word_add_overflow unat_of_nat)
  then show ?thesis by (simp add: ChunkHeader_marshal_to_def u16_add_def wire_consts)
qed

subsection \<open>Loops never panic\<close>

lemma ErrorCause_unmarshal_no_panic [no_panic]: "ErrorCause_unmarshal buf \<noteq> Panic"
  by (auto simp: ErrorCause_unmarshal_def wire_consts rbind_eq_Panic Let_def dest!: get_lengths)

lemma error_causes_loop_no_panic [no_panic]:
  "value_end \<le> length raw \<Longrightarrow> error_causes_loop raw offset value_end \<noteq> Panic"
proof (induction raw offset value_end rule: error_causes_loop.induct)
  case (1 raw offset value_end)
  then show ?case
    by (subst error_causes_loop.simps) (auto simp: rbind_eq_Panic ErrorCause_unmarshal_no_panic slice_eq_Ok wire_consts)
qed

lemma ChunkForwardTsnStream_unmarshal_no_panic [no_panic]: "ChunkForwardTsnStream_unmarshal buf \<noteq> Panic"
  by (auto simp: ChunkForwardTsnStream_unmarshal_def wire_consts rbind_eq_Panic dest!: get_lengths)

lemma ChunkForwardTsnStream_unmarshal_length: "ChunkForwardTsnStream_unmarshal buf = Ok s \<Longrightarrow> 4 \<le> length buf"
  by (auto simp: ChunkForwardTsnStream_unmarshal_def wire_consts split: if_splits)

lemma forward_tsn_streams_loop_no_panic [no_panic]:
  "value_end \<le> length buf \<Longrightarrow> remaining = value_end - offset \<Longrightarrow>
    forward_tsn_streams_loop buf value_end offset remaining \<noteq> Panic"
proof (induction remaining arbitrary: offset rule: less_induct)
  case (less remaining)
  have "forward_tsn_streams_loop buf value_end (offset + 4) (remaining - 4) \<noteq> Panic" if "4 \<le> remaining"
    using less.prems that by (intro less.IH) auto
  with less.prems show ?case
    by (subst forward_tsn_streams_loop.simps)
      (auto simp: rbind_eq_Panic ChunkForwardTsnStream_unmarshal_no_panic slice_eq_Ok wire_consts
        usize_sub_eq_Panic usize_sub_eq_Ok dest!: ChunkForwardTsnStream_unmarshal_length)
qed

lemma i_forward_tsn_streams_loop_no_panic [no_panic]:
  "value_end \<le> length buf \<Longrightarrow> i_forward_tsn_streams_loop buf value_end offset \<noteq> Panic"
proof (induction "value_end - offset" arbitrary: offset rule: less_induct)
  case less
  have "i_forward_tsn_streams_loop buf value_end (offset + 8) \<noteq> Panic" if "offset + 8 \<le> value_end"
    using less.prems that by (intro less.hyps) auto
  with less.prems show ?case
    by (subst i_forward_tsn_streams_loop.simps)
      (auto simp: rbind_eq_Panic wire_consts dest!: slice_length get_lengths)
qed

lemma init_params_loop_no_panic [no_panic]:
  "value_end \<le> length raw \<Longrightarrow> init_params_loop raw value_end offset \<noteq> Panic"
proof (induction raw value_end offset rule: init_params_loop.induct)
  case (1 raw value_end offset)
  then show ?case
    by (subst init_params_loop.simps) (auto simp: rbind_eq_Panic build_param_no_panic wire_consts Let_def)
qed

lemma get_gap_ack_blocks_length:
  "get_gap_ack_blocks n reader = Ok (gs, r) \<Longrightarrow> length reader = 4 * n + length r \<and> length gs = n"
proof (induction n arbitrary: reader gs)
  case (Suc n)
  then show ?case by (fastforce dest: get_u16_length)
qed simp

lemma get_gap_ack_blocks_no_panic: "4 * n \<le> length reader \<Longrightarrow> get_gap_ack_blocks n reader \<noteq> Panic"
proof (induction n arbitrary: reader)
  case (Suc n)
  then show ?case by (auto simp: rbind_eq_Panic dest!: get_u16_length)
qed simp

lemma get_u32s_no_panic: "4 * n \<le> length reader \<Longrightarrow> get_u32s n reader \<noteq> Panic"
proof (induction n arbitrary: reader)
  case (Suc n)
  then show ?case by (auto simp: rbind_eq_Panic dest!: get_u32_length)
qed simp

subsection \<open>Decoders never panic\<close>

text \<open>A decoder that reads the header first: its continuation may use that the value is there.\<close>

lemma header_bind_no_panic:
  assumes "\<And>h v. ChunkHeader_unmarshal raw = Ok h \<Longrightarrow> chunk_value raw h = Ok v \<Longrightarrow>
      length v = ChunkHeader_value_length h \<Longrightarrow> 4 + ChunkHeader_value_length h \<le> length raw \<Longrightarrow> g h \<noteq> Panic"
  shows "rbind (ChunkHeader_unmarshal raw) g \<noteq> Panic"
proof (cases "ChunkHeader_unmarshal raw")
  case (Ok h)
  obtain v where "chunk_value raw h = Ok v" "length v = ChunkHeader_value_length h" using chunk_value_ok [OF Ok] .
  with assms [OF Ok] ChunkHeader_unmarshal_length [OF Ok] Ok show ?thesis by simp
qed (use ChunkHeader_unmarshal_no_panic [of raw] in simp_all)

lemma simple_decoders_no_panic [no_panic]:
  "ChunkAbort_unmarshal raw \<noteq> Panic" "ChunkError_unmarshal raw \<noteq> Panic" "ChunkCookieAck_unmarshal raw \<noteq> Panic"
  "ChunkShutdownAck_unmarshal raw \<noteq> Panic" "ChunkShutdownComplete_unmarshal raw \<noteq> Panic"
  "ChunkCookieEcho_unmarshal raw \<noteq> Panic" "ChunkHeartbeat_unmarshal raw \<noteq> Panic"
  "ChunkHeartbeatAck_unmarshal raw \<noteq> Panic" "ChunkShutdown_unmarshal raw \<noteq> Panic"
  unfolding ChunkAbort_unmarshal_def ChunkError_unmarshal_def ChunkCookieAck_unmarshal_def
    ChunkShutdownAck_unmarshal_def ChunkShutdownComplete_unmarshal_def ChunkCookieEcho_unmarshal_def
    ChunkHeartbeat_unmarshal_def ChunkHeartbeatAck_unmarshal_def ChunkShutdown_unmarshal_def
  by (rule header_bind_no_panic;
      auto simp: rbind_eq_Panic wire_consts build_param_no_panic error_causes_loop_no_panic)+

lemma ChunkSelectiveAck_unmarshal_no_panic [no_panic]: "ChunkSelectiveAck_unmarshal raw \<noteq> Panic"
  unfolding ChunkSelectiveAck_unmarshal_def
proof (rule header_bind_no_panic)
  fix h v assume v: "chunk_value raw h = Ok v" "length v = ChunkHeader_value_length h"
  have *: "get_gap_ack_blocks n r = Panic \<Longrightarrow> length r < 4 * n" "get_u32s n r = Panic \<Longrightarrow> length r < 4 * n" for n r
    using get_gap_ack_blocks_no_panic get_u32s_no_panic not_less by blast+
  show "(if ch_typ h \<noteq> CT_SACK then Err ErrChunkTypeNotSack
    else if ChunkHeader_value_length h < SELECTIVE_ACK_HEADER_SIZE then Err ErrSackSizeNotLargeEnoughInfo
    else
      rbind (chunk_value raw h) (\<lambda>reader.
      rbind (get_u32 reader) (\<lambda>(cumulative_tsn_ack, reader).
      rbind (get_u32 reader) (\<lambda>(a_rwnd, reader).
      rbind (get_u16 reader) (\<lambda>(gaps, reader).
      rbind (get_u16 reader) (\<lambda>(dups, reader).
      if ChunkHeader_value_length h < SELECTIVE_ACK_HEADER_SIZE + (4 * unat gaps + 4 * unat dups)
      then Err ErrSackSizeNotLargeEnoughInfo
      else
        rbind (get_gap_ack_blocks (unat gaps) reader) (\<lambda>(gap_ack_blocks, reader).
        rbind (get_u32s (unat dups) reader) (\<lambda>duplicate_tsn.
        Ok \<lparr>sa_cumulative_tsn_ack = cumulative_tsn_ack, sa_advertised_receiver_window_credit = a_rwnd,
            sa_gap_ack_blocks = gap_ack_blocks, sa_duplicate_tsn = duplicate_tsn\<rparr>)))))))) \<noteq> Panic"
    using v by (auto simp: rbind_eq_Panic wire_consts dest!: get_lengths get_gap_ack_blocks_length *)
qed

lemma ChunkReconfig_unmarshal_no_panic [no_panic]: "ChunkReconfig_unmarshal raw \<noteq> Panic"
  unfolding ChunkReconfig_unmarshal_def
  by (rule header_bind_no_panic) (auto simp: rbind_eq_Panic wire_consts build_param_no_panic Let_def)

lemma forward_decoders_no_panic [no_panic]:
  "ChunkForwardTsn_unmarshal raw \<noteq> Panic" "ChunkIForwardTsn_unmarshal raw \<noteq> Panic"
  unfolding ChunkForwardTsn_unmarshal_def ChunkIForwardTsn_unmarshal_def
  by (rule header_bind_no_panic; auto simp: rbind_eq_Panic wire_consts Let_def forward_tsn_streams_loop_no_panic
      i_forward_tsn_streams_loop_no_panic usize_sub_eq_Panic usize_sub_eq_Ok dest!: slice_length)+

lemma ChunkInit_unmarshal_no_panic [no_panic]: "ChunkInit_unmarshal raw \<noteq> Panic"
  unfolding ChunkInit_unmarshal_def
  by (rule header_bind_no_panic) (auto simp: rbind_eq_Panic wire_consts Let_def init_params_loop_no_panic dest!: get_lengths)

lemma ChunkPayloadData_unmarshal_no_panic [no_panic]: "ChunkPayloadData_unmarshal raw \<noteq> Panic"
  unfolding ChunkPayloadData_unmarshal_def
  by (rule header_bind_no_panic) (auto simp: rbind_eq_Panic wire_consts dest!: get_lengths)

lemma decode_chunk_no_panic [no_panic]: "decode_chunk ct raw \<noteq> Panic"
  by (simp add: decode_chunk_def no_panic)

subsection \<open>Round trips of lists\<close>

text \<open>
  A suffix of the value: where the loop stands at \<open>offset\<close>, the bytes up to \<open>value_end\<close> are those of
  the elements still to be read.
\<close>

lemma slice_suffix:
  assumes "slice raw offset value_end = Ok (xs @ ys)"
  shows "slice raw (offset + length xs) value_end = Ok ys"
proof -
  have b: "offset \<le> value_end" "value_end \<le> length raw" and eq: "take (value_end - offset) (drop offset raw) = xs @ ys"
    using assms by (simp_all add: slice_eq_Ok)
  have "length xs + length ys = value_end - offset" using slice_length [OF assms] by simp
  with b(1) have "offset + length xs \<le> value_end" by linarith
  moreover have "drop (length xs) (take (value_end - offset) (drop offset raw)) = ys" unfolding eq by simp
  then have "take (value_end - (offset + length xs)) (drop (offset + length xs) raw) = ys"
    by (simp add: drop_take add.commute)
  ultimately show ?thesis using b(2) unfolding slice_def by simp
qed

lemma slice_bounds: "slice raw a b = Ok xs \<Longrightarrow> a + length xs = b"
  by (auto simp: slice_eq_Ok)

lemma ErrorCause_roundtrip:
  assumes "length (ec_raw e) < 65532"
  shows "ErrorCause_unmarshal (ErrorCause_marshal e @ rest) = Ok e"
proof -
  have "unat (as_u16 (length (ec_raw e) + 4)) = length (ec_raw e) + 4" using assms by (simp only: unat_of_nat) simp
  then show ?thesis
    by (simp add: ErrorCause_unmarshal_def ErrorCause_marshal_def wire_consts buf_simps slice_def Let_def del: of_nat_add)
qed

lemma length_ErrorCause_marshal [simp]: "length (ErrorCause_marshal e) = ErrorCause_length e"
  by (simp add: ErrorCause_marshal_def ErrorCause_length_def wire_consts)

lemma error_causes_length_eq: "error_causes_length es = length (concat (map ErrorCause_marshal es))"
proof -
  have "fold (\<lambda>ec l. l + ErrorCause_length ec) es n = n + length (concat (map ErrorCause_marshal es))" for n
    by (induction es arbitrary: n) auto
  then show ?thesis by (simp add: error_causes_length_def)
qed

lemma error_causes_roundtrip:
  "slice raw offset value_end = Ok (concat (map ErrorCause_marshal es)) \<Longrightarrow> \<forall>e \<in> set es. length (ec_raw e) < 65532 \<Longrightarrow>
    error_causes_loop raw offset value_end = Ok es"
proof (induction es arbitrary: offset)
  case Nil
  then have "offset = value_end" using slice_bounds by fastforce
  then show ?case by (subst error_causes_loop.simps) (simp add: wire_consts)
next
  case (Cons e es)
  then have "error_causes_loop raw (offset + ErrorCause_length e) value_end = Ok es"
    using slice_suffix [of raw offset value_end "ErrorCause_marshal e"] by simp
  moreover have "offset + 4 \<le> value_end"
    using slice_bounds [OF Cons.prems(1)] by (simp add: ErrorCause_length_def wire_consts)
  ultimately show ?case
    using Cons.prems ErrorCause_roundtrip [of e "concat (map ErrorCause_marshal es)"]
    by (subst error_causes_loop.simps) (simp add: wire_consts)
qed

lemma forward_streams_roundtrip:
  "slice buf offset value_end = Ok (concat (map ChunkForwardTsnStream_marshal ss)) \<Longrightarrow> remaining = value_end - offset \<Longrightarrow>
    forward_tsn_streams_loop buf value_end offset remaining = Ok ss"
proof (induction ss arbitrary: offset remaining)
  case Nil
  then have "remaining = 0" using slice_bounds by fastforce
  then show ?case by (subst forward_tsn_streams_loop.simps) simp
next
  case (Cons s ss)
  have len: "length (ChunkForwardTsnStream_marshal s) = 4" by (simp add: ChunkForwardTsnStream_marshal_def)
  have ve: "value_end = offset + 4 + length (concat (map ChunkForwardTsnStream_marshal ss))"
    using slice_bounds [OF Cons.prems(1)] len by simp
  have "forward_tsn_streams_loop buf value_end (offset + 4) (remaining - 4) = Ok ss"
    using Cons.prems len slice_suffix [of buf offset value_end "ChunkForwardTsnStream_marshal s"]
    by (intro Cons.IH) simp_all
  moreover have "ChunkForwardTsnStream_unmarshal (ChunkForwardTsnStream_marshal s @ r) = Ok s" for r
    by (simp add: ChunkForwardTsnStream_unmarshal_def ChunkForwardTsnStream_marshal_def wire_consts buf_simps)
  ultimately show ?case using Cons.prems ve
    by (subst forward_tsn_streams_loop.simps) (simp add: wire_consts)
qed

lemma i_forward_streams_roundtrip:
  "slice buf offset value_end = Ok (concat (map (\<lambda>s. put_u16 (ifs_identifier s) @ [if ifs_unordered s then 1 else 0] @ [0]
      @ put_u32 (ifs_mid s)) ss)) \<Longrightarrow>
    i_forward_tsn_streams_loop buf value_end offset = Ok ss"
proof (induction ss arbitrary: offset)
  case Nil
  then have "offset = value_end" using slice_bounds by fastforce
  then show ?case by (subst i_forward_tsn_streams_loop.simps) (simp add: wire_consts)
next
  case (Cons s ss)
  let ?e = "put_u16 (ifs_identifier s) @ [if ifs_unordered s then 1 else 0] @ [0] @ put_u32 (ifs_mid s)"
  have "i_forward_tsn_streams_loop buf value_end (offset + 8) = Ok ss"
    using Cons.prems slice_suffix [of buf offset value_end ?e] by (intro Cons.IH) simp
  moreover have "offset + 8 \<le> value_end" using slice_bounds [OF Cons.prems] by simp
  ultimately show ?case using Cons.prems
    by (subst i_forward_tsn_streams_loop.simps) (simp add: wire_consts buf_simps)
qed

lemma gap_blocks_roundtrip:
  "get_gap_ack_blocks (length gs) (concat (map (\<lambda>g. put_u16 (gab_start g) @ put_u16 (gab_end g)) gs) @ rest) = Ok (gs, rest)"
  by (induction gs) (simp_all add: buf_simps)

lemma get_u32s_roundtrip: "get_u32s (length xs) (concat (map put_u32 xs) @ rest) = Ok xs"
  by (induction xs) (simp_all add: buf_simps)

lemma Param_marshal_bytes: "Param_wf p \<Longrightarrow> Param_marshal p = Ok (param_bytes p)"
  by (simp add: Param_marshal_eq Param_wf_length param_bytes_def)

lemma length_param_bytes [simp]: "length (param_bytes p) = 4 + Param_value_length p"
  by (simp add: param_bytes_def)

lemma build_param_bytes: "Param_wf p \<Longrightarrow> build_param (param_bytes p @ rest) = Ok p"
  using build_param_roundtrip [of p rest] by (simp add: param_bytes_def)

lemma length_padded_params: "length (padded_params ps) = padded_params_length ps"
  by (induction ps) (auto simp: wire_consts Let_def)

lemma marshal_padded_params_eq:
  "\<forall>p \<in> set ps. Param_wf p \<Longrightarrow> marshal_padded_params ps buf = Ok (buf @ padded_params ps)"
  by (induction ps arbitrary: buf) (simp_all add: Param_marshal_bytes)

lemma init_params_roundtrip:
  "slice raw offset value_end = Ok (padded_params ps) \<Longrightarrow> \<forall>p \<in> set ps. Param_wf p \<Longrightarrow>
    init_params_loop raw value_end offset = Ok ps"
proof (induction ps arbitrary: offset)
  case Nil
  then have "offset = value_end" using slice_bounds by fastforce
  then show ?case by (subst init_params_loop.simps) (simp add: wire_consts)
next
  case (Cons p ps)
  let ?n = "4 + Param_value_length p + get_padding_size (4 + Param_value_length p)"
  have b: "build_param (padded_params (p # ps)) = Ok p" using Cons.prems(2) build_param_bytes by simp
  have 4: "offset + 4 \<le> value_end" using slice_bounds [OF Cons.prems(1)] by simp
  have "init_params_loop raw value_end (offset + ?n) = Ok ps"
  proof (cases "ps = []")
    case True
    then have "value_end = offset + (4 + Param_value_length p)" using slice_bounds [OF Cons.prems(1)] by simp
    then show ?thesis using True by (subst init_params_loop.simps) (simp add: wire_consts)
  next
    case False
    then have "slice raw offset value_end =
        Ok ((param_bytes p @ replicate (get_padding_size (4 + Param_value_length p)) 0) @ padded_params ps)"
      using Cons.prems(1) by simp
    from slice_suffix [OF this] show ?thesis using Cons.prems(2) by (intro Cons.IH) (simp_all add: add.assoc)
  qed
  then show ?case using Cons.prems(1) b 4
    by (subst init_params_loop.simps) (simp add: wire_consts Let_def add.assoc)
qed

subsection \<open>Round trips of chunks\<close>

lemma unat_as_u16: "n < 65536 \<Longrightarrow> unat (as_u16 n) = n"
  by (simp only: unat_of_nat) simp

lemma value_slice: "slice (chunk_bytes t f v @ rest) 4 (4 + length v) = Ok v"
  by (simp add: slice_def chunk_bytes_def)

text \<open>
  Decoders see a header with the value's length and the value; what is left to show for each chunk is
  how it reads its value.
\<close>

lemma decode_at:
  assumes "length v < 65532" "tail_ok rest"
  shows "\<exists>h. chunk_at (chunk_bytes t f v @ rest) h t f v"
proof
  show "chunk_at (chunk_bytes t f v @ rest) \<lparr>ch_typ = t, ch_flags = f, ch_value_length = as_u16 (length v)\<rparr> t f v"
    using assms ChunkHeader_roundtrip chunk_value_roundtrip value_slice
    by (simp add: chunk_at_def ChunkHeader_value_length_def unat_as_u16)
qed

lemma simple_roundtrips:
  assumes "tail_ok rest"
  shows "ChunkCookieAck_unmarshal (chunk_bytes CT_COOKIE_ACK 0 [] @ rest) = Ok ()"
    "ChunkShutdownAck_unmarshal (chunk_bytes CT_SHUTDOWN_ACK 0 [] @ rest) = Ok ()"
    "ChunkShutdownComplete_unmarshal (chunk_bytes CT_SHUTDOWN_COMPLETE 0 [] @ rest) = Ok ()"
  using assms ChunkHeader_roundtrip [of "[]"]
  by (simp_all add: ChunkCookieAck_unmarshal_def ChunkShutdownAck_unmarshal_def ChunkShutdownComplete_unmarshal_def)

lemma cookie_echo_roundtrip:
  "chunk_at raw h CT_COOKIE_ECHO 0 c \<Longrightarrow> ChunkCookieEcho_unmarshal raw = Ok c"
  by (simp add: ChunkCookieEcho_unmarshal_def chunk_at_def)

lemma shutdown_roundtrip: "chunk_at raw h CT_SHUTDOWN 0 (put_u32 tsn) \<Longrightarrow> ChunkShutdown_unmarshal raw = Ok tsn"
  using get_u32_put_u32 [of tsn "[]"] by (simp add: ChunkShutdown_unmarshal_def chunk_at_def wire_consts)

lemma causes_roundtrip:
  assumes "chunk_at raw h t 0 (concat (map ErrorCause_marshal es))" "error_causes_length es < 65532"
  shows "t = CT_ABORT \<Longrightarrow> ChunkAbort_unmarshal raw = Ok es" "t = CT_ERROR \<Longrightarrow> ChunkError_unmarshal raw = Ok es"
proof -
  let ?v = "concat (map ErrorCause_marshal es)"
  have "\<forall>e \<in> set es. length (ec_raw e) < 65532"
  proof
    fix e assume "e \<in> set es"
    then have "length (ErrorCause_marshal e) \<le> length ?v"
      by (auto simp: length_concat comp_def intro: member_le_sum_list)
    with assms(2) show "length (ec_raw e) < 65532" unfolding error_causes_length_eq by (simp add: ErrorCause_length_def)
  qed
  then have "error_causes_loop raw 4 (4 + length ?v) = Ok es"
    using assms(1) unfolding chunk_at_def by (intro error_causes_roundtrip) auto
  then show "t = CT_ABORT \<Longrightarrow> ChunkAbort_unmarshal raw = Ok es" "t = CT_ERROR \<Longrightarrow> ChunkError_unmarshal raw = Ok es"
    using assms(1) by (simp_all add: chunk_at_def ChunkAbort_unmarshal_def ChunkError_unmarshal_def wire_consts)
qed

lemma heartbeat_roundtrip:
  assumes "chunk_at raw h CT_HEARTBEAT 0 (param_bytes (ParamHeartbeatInfo b))" "length b < 65532"
  shows "ChunkHeartbeat_unmarshal raw = Ok [ParamHeartbeatInfo b]"
  using assms build_param_bytes [of "ParamHeartbeatInfo b" "[]"]
  by (simp add: chunk_at_def ChunkHeartbeat_unmarshal_def Param_header_def wire_consts)

lemma sack_roundtrip:
  assumes "chunk_at raw h CT_SACK 0 (put_u32 (sa_cumulative_tsn_ack c)
      @ put_u32 (sa_advertised_receiver_window_credit c)
      @ put_u16 (as_u16 (length (sa_gap_ack_blocks c))) @ put_u16 (as_u16 (length (sa_duplicate_tsn c)))
      @ concat (map (\<lambda>g. put_u16 (gab_start g) @ put_u16 (gab_end g)) (sa_gap_ack_blocks c))
      @ concat (map put_u32 (sa_duplicate_tsn c)))" "ChunkSelectiveAck_value_length c < 65532"
  shows "ChunkSelectiveAck_unmarshal raw = Ok c"
proof -
  have g: "length (concat (map (\<lambda>g. put_u16 (gab_start g) @ put_u16 (gab_end g)) gs)) = 4 * length gs" for gs
    by (induction gs) simp_all
  have d: "length (concat (map put_u32 ds)) = 4 * length ds" for ds by (induction ds) simp_all
  have counts: "unat (as_u16 (length (sa_gap_ack_blocks c))) = length (sa_gap_ack_blocks c)"
    "unat (as_u16 (length (sa_duplicate_tsn c))) = length (sa_duplicate_tsn c)"
    using assms(2) by (auto simp: ChunkSelectiveAck_value_length_def wire_consts intro!: unat_as_u16)
  note h = assms(1) [unfolded chunk_at_def]
  have l: "ChunkHeader_value_length h = 12 + (4 * length (sa_gap_ack_blocks c) + 4 * length (sa_duplicate_tsn c))"
    using h by (simp add: g d)
  show ?thesis
    using h gap_blocks_roundtrip [of "sa_gap_ack_blocks c" "concat (map put_u32 (sa_duplicate_tsn c))"]
      get_u32s_roundtrip [of "sa_duplicate_tsn c" "[]"]
    by (simp add: ChunkSelectiveAck_unmarshal_def l counts wire_consts get_u32_put_u32 get_u16_put_u16 g d)
qed

lemma length_forward_streams [simp]: "length (concat (map ChunkForwardTsnStream_marshal ss)) = 4 * length ss"
  by (induction ss) (simp_all add: ChunkForwardTsnStream_marshal_def)

lemma forward_roundtrip:
  assumes "chunk_at raw h CT_FORWARD_TSN 0
    (put_u32 (ft_new_cumulative_tsn c) @ concat (map ChunkForwardTsnStream_marshal (ft_streams c)))"
  shows "ChunkForwardTsn_unmarshal raw = Ok c"
proof -
  let ?n = "4 + 4 * length (ft_streams c)"
  have "slice raw (4 + length (put_u32 (ft_new_cumulative_tsn c))) (4 + ?n)
      = Ok (concat (map ChunkForwardTsnStream_marshal (ft_streams c)))"
    using assms by (intro slice_suffix) (simp add: chunk_at_def)
  then have "forward_tsn_streams_loop raw (4 + ?n) 8 (?n - 4) = Ok (ft_streams c)"
    by (intro forward_streams_roundtrip) simp_all
  with assms show ?thesis
    by (simp add: chunk_at_def ChunkForwardTsn_unmarshal_def wire_consts get_u32_put_u32 Let_def)
qed

lemma i_forward_roundtrip:
  assumes "chunk_at raw h CT_I_FORWARD_TSN 0 (put_u32 (ift_new_cumulative_tsn c)
      @ concat (map (\<lambda>s. put_u16 (ifs_identifier s) @ [if ifs_unordered s then 1 else 0] @ [0] @ put_u32 (ifs_mid s))
          (ift_streams c)))" (is "chunk_at raw h _ 0 (_ @ ?ss)")
  shows "ChunkIForwardTsn_unmarshal raw = Ok c"
proof -
  define ss where "ss = ?ss"
  note h = assms [folded ss_def, unfolded chunk_at_def]
  have "slice raw (4 + length (put_u32 (ift_new_cumulative_tsn c))) (4 + (4 + length ss)) = Ok ss"
    using h by (intro slice_suffix) simp
  then have "i_forward_tsn_streams_loop raw (4 + (4 + length ss)) 8 = Ok (ift_streams c)"
    unfolding ss_def by (intro i_forward_streams_roundtrip) simp
  with h show ?thesis
    by (simp add: ChunkIForwardTsn_unmarshal_def wire_consts get_u32_put_u32 Let_def)
qed

lemma reconfig_roundtrip:
  assumes "chunk_at raw h CT_RECONFIG 0 v" "Param_wf a" "\<forall>b. pb = Some b \<longrightarrow> Param_wf b"
    and v: "v = param_bytes a @ (case pb of None \<Rightarrow> []
      | Some b \<Rightarrow> replicate (get_padding_size (4 + Param_value_length a)) 0 @ param_bytes b)"
  shows "ChunkReconfig_unmarshal raw = Ok \<lparr>rc_param_a = Some a, rc_param_b = pb\<rparr>"
proof -
  note h = assms(1) [unfolded chunk_at_def]
  have a: "build_param v = Ok a" using v assms(2) build_param_bytes by simp
  have l: "\<not> length v < 4" using v by simp
  show ?thesis
  proof (cases pb)
    case None
    then have "length v = 4 + Param_value_length a" using v by simp
    with h a None show ?thesis by (simp add: ChunkReconfig_unmarshal_def wire_consts Let_def)
  next
    case (Some b)
    let ?n = "4 + Param_value_length a + get_padding_size (4 + Param_value_length a)"
    have "v = (param_bytes a @ replicate (get_padding_size (4 + Param_value_length a)) 0) @ param_bytes b"
      using v Some by simp
    then have sl: "slice raw (4 + ?n) (4 + length v) = Ok (param_bytes b)"
      using slice_suffix [of raw 4 "4 + length v" "param_bytes a @ replicate (get_padding_size (4 + Param_value_length a)) 0"] h
      by (simp add: add.assoc)
    have "build_param (param_bytes b) = Ok b" using build_param_bytes [of b "[]"] assms(3) Some by simp
    moreover have "4 + ?n < 4 + length v" using v Some by simp
    ultimately show ?thesis using h a l sl Some
      by (simp add: ChunkReconfig_unmarshal_def wire_consts Let_def add.assoc)
  qed
qed

lemma init_roundtrip:
  assumes "chunk_at raw h (if ci_is_ack c then CT_INIT_ACK else CT_INIT) 0
      (put_u32 (ci_initiate_tag c) @ put_u32 (ci_advertised_receiver_window_credit c)
        @ put_u16 (ci_num_outbound_streams c) @ put_u16 (ci_num_inbound_streams c) @ put_u32 (ci_initial_tsn c)
        @ padded_params (ci_params c))" (is "chunk_at raw h _ 0 ?v") "\<forall>p \<in> set (ci_params c). Param_wf p"
  shows "ChunkInit_unmarshal raw = Ok c"
proof -
  let ?fixed = "put_u32 (ci_initiate_tag c) @ put_u32 (ci_advertised_receiver_window_credit c)
        @ put_u16 (ci_num_outbound_streams c) @ put_u16 (ci_num_inbound_streams c) @ put_u32 (ci_initial_tsn c)"
  note h = assms(1) [unfolded chunk_at_def]
  have "slice raw (4 + length ?fixed) (4 + length ?v) = Ok (padded_params (ci_params c))"
    using h by (intro slice_suffix) simp
  then have "init_params_loop raw (4 + length ?v) 20 = Ok (ci_params c)"
    using assms(2) by (intro init_params_roundtrip) simp_all
  with h show ?thesis
    by (simp add: ChunkInit_unmarshal_def wire_consts get_u32_put_u32 get_u16_put_u16 Let_def chunk_types)
qed

lemma data_flags:
  "ch_flags (ChunkPayloadData_header c) AND PAYLOAD_DATA_UNORDERED_BITMASK \<noteq> 0 \<longleftrightarrow> d_unordered c"
  "ch_flags (ChunkPayloadData_header c) AND PAYLOAD_DATA_BEGINING_FRAGMENT_BITMASK \<noteq> 0 \<longleftrightarrow> d_beginning_fragment c"
  "ch_flags (ChunkPayloadData_header c) AND PAYLOAD_DATA_ENDING_FRAGMENT_BITMASK \<noteq> 0 \<longleftrightarrow> d_ending_fragment c"
  "ch_flags (ChunkPayloadData_header c) AND PAYLOAD_DATA_IMMEDIATE_SACK \<noteq> 0 \<longleftrightarrow> d_immediate_sack c"
  by (simp_all add: ChunkPayloadData_header_def Let_def PAYLOAD_DATA_UNORDERED_BITMASK_def
      PAYLOAD_DATA_BEGINING_FRAGMENT_BITMASK_def PAYLOAD_DATA_ENDING_FRAGMENT_BITMASK_def
      PAYLOAD_DATA_IMMEDIATE_SACK_def)

lemma data_roundtrip:
  assumes "chunk_at raw h CT_PAYLOAD_DATA (ch_flags (ChunkPayloadData_header c))
    (put_u32 (d_tsn c) @ put_u16 (d_stream_identifier c) @ put_u16 (d_stream_sequence_number c)
      @ put_u32 (ppi_as_u32 (d_payload_type c)) @ d_user_data c)" (is "chunk_at raw h _ ?f ?v")
  shows "ChunkPayloadData_unmarshal raw = Ok (wire_view c)"
proof -
  let ?fixed = "put_u32 (d_tsn c) @ put_u16 (d_stream_identifier c) @ put_u16 (d_stream_sequence_number c)
      @ put_u32 (ppi_as_u32 (d_payload_type c))"
  note h = assms(1) [unfolded chunk_at_def]
  have "slice raw (4 + length ?fixed) (4 + length ?v) = Ok (d_user_data c)"
    using h by (intro slice_suffix) simp
  with h show ?thesis
    by (simp add: ChunkPayloadData_unmarshal_def wire_consts get_u32_put_u32 get_u16_put_u16 data_flags
        wire_view_def ppi_roundtrip del: ppi_from_u32.simps)
qed

subsection \<open>The codec\<close>

lemma codecI:
  assumes "length v = Chunk_value_length c" "length v < 65532"
    "\<And>buf. Chunk_marshal_to c buf = rbind (ChunkHeader_marshal_to \<lparr>ch_typ = Chunk_type c, ch_flags = f,
        ch_value_length = as_u16 (Chunk_value_length c)\<rparr> buf) (\<lambda>buf. Ok (buf @ v))"
    "\<And>raw h. chunk_at raw h (Chunk_type c) f v \<Longrightarrow> decode_chunk (Chunk_type c) raw = Ok (Chunk_on_wire c)"
  shows "codec c f v"
  using assms by (auto simp: codec_def ChunkHeader_marshal_to_eq chunk_bytes_def simp del: of_nat_add)

text \<open>Which bytes follow the header of each chunk.\<close>

lemma codec_CInit:
  assumes "Chunk_wf c" "c = CInit x"
  shows "\<exists>f v. codec c f v"
proof -
  let ?v = "put_u32 (ci_initiate_tag x) @ put_u32 (ci_advertised_receiver_window_credit x)
        @ put_u16 (ci_num_outbound_streams x) @ put_u16 (ci_num_inbound_streams x) @ put_u32 (ci_initial_tsn x)
        @ padded_params (ci_params x)"
  have wf: "ChunkInit_value_length x < 65532" "\<forall>p \<in> set (ci_params x). Param_wf p" using assms by auto
  have "codec c 0 ?v"
  proof (rule codecI)
    show "length ?v = Chunk_value_length c" using assms(2) by (simp add: ChunkInit_value_length_def length_padded_params)
    with wf(1) assms(2) show "length ?v < 65532" by simp
    show "decode_chunk (Chunk_type c) raw = Ok (Chunk_on_wire c)" if "chunk_at raw h (Chunk_type c) 0 ?v" for raw h
      using init_roundtrip [of raw h x] that wf(2) assms(2) by (simp add: decode_chunk_def chunk_types)
  qed (use assms(2) wf(2) in \<open>simp add: ChunkInit_marshal_to_def ChunkInit_header_def marshal_padded_params_eq\<close>)
  then show ?thesis by blast
qed

lemma codec_CHeartbeat:
  assumes "Chunk_wf c" "c = CHeartbeat ps"
  shows "\<exists>f v. codec c f v"
proof -
  obtain b where b: "ps = [ParamHeartbeatInfo b]" "length b < 65528" using assms by auto
  have "codec c 0 (param_bytes (ParamHeartbeatInfo b))"
    using b assms(2) heartbeat_roundtrip [of _ _ b]
    by (intro codecI) (auto simp: ChunkHeartbeat_value_length_def ChunkHeartbeat_marshal_to_def
        ChunkHeartbeat_header_def Param_marshal_bytes wire_consts decode_chunk_def chunk_types)
  then show ?thesis by blast
qed

lemma codec_CReconfig:
  assumes "Chunk_wf c" "c = CReconfig x"
  shows "\<exists>f v. codec c f v"
proof -
  obtain a where a: "rc_param_a x = Some a" "Param_wf a" "ChunkReconfig_value_length x < 65532"
    and b: "\<forall>b. rc_param_b x = Some b \<longrightarrow> Param_wf b" using assms by auto
  let ?v = "param_bytes a @ (case rc_param_b x of None \<Rightarrow> []
      | Some b \<Rightarrow> replicate (get_padding_size (4 + Param_value_length a)) 0 @ param_bytes b)"
  have "codec c 0 ?v"
  proof (rule codecI)
    show l: "length ?v = Chunk_value_length c"
      using assms(2) a(1) by (simp add: ChunkReconfig_value_length_def wire_consts split: option.split)
    then show "length ?v < 65532" using assms(2) a(3) by simp
    show "Chunk_marshal_to c buf = rbind (ChunkHeader_marshal_to \<lparr>ch_typ = Chunk_type c, ch_flags = 0,
        ch_value_length = as_u16 (Chunk_value_length c)\<rparr> buf) (\<lambda>buf. Ok (buf @ ?v))" for buf
      using assms(2) a b by (simp add: ChunkReconfig_marshal_to_def ChunkReconfig_header_def Param_marshal_bytes
          wire_consts split: option.split)
    show "decode_chunk (Chunk_type c) raw = Ok (Chunk_on_wire c)" if "chunk_at raw h (Chunk_type c) 0 ?v" for raw h
      using reconfig_roundtrip [of raw h ?v a "rc_param_b x"] that a b assms(2)
      by (simp add: decode_chunk_def chunk_types)
  qed
  then show ?thesis by blast
qed

lemma codec_CPayloadData:
  assumes "Chunk_wf c" "c = CPayloadData x"
  shows "\<exists>f v. codec c f v"
proof -
  have "codec c (ch_flags (ChunkPayloadData_header x)) (put_u32 (d_tsn x) @ put_u16 (d_stream_identifier x)
      @ put_u16 (d_stream_sequence_number x) @ put_u32 (ppi_as_u32 (d_payload_type x)) @ d_user_data x)"
    using assms data_roundtrip [of _ _ x]
    by (intro codecI) (auto simp: ChunkPayloadData_value_length_def ChunkPayloadData_marshal_to_def wire_consts
        decode_chunk_def chunk_types ChunkPayloadData_header_def Let_def simp del: of_nat_add)
  then show ?thesis by blast
qed

lemma codec_CSelectiveAck:
  assumes "Chunk_wf c" "c = CSelectiveAck x"
  shows "\<exists>f v. codec c f v"
proof -
  have g: "length (concat (map (\<lambda>g. put_u16 (gab_start g) @ put_u16 (gab_end g)) gs)) = 4 * length gs" for gs
    by (induction gs) simp_all
  have d: "length (concat (map put_u32 ds)) = 4 * length ds" for ds by (induction ds) simp_all
  have "codec c 0 (put_u32 (sa_cumulative_tsn_ack x) @ put_u32 (sa_advertised_receiver_window_credit x)
      @ put_u16 (as_u16 (length (sa_gap_ack_blocks x))) @ put_u16 (as_u16 (length (sa_duplicate_tsn x)))
      @ concat (map (\<lambda>g. put_u16 (gab_start g) @ put_u16 (gab_end g)) (sa_gap_ack_blocks x))
      @ concat (map put_u32 (sa_duplicate_tsn x)))"
    using assms sack_roundtrip [of _ _ x]
    by (intro codecI) (auto simp: ChunkSelectiveAck_value_length_def ChunkSelectiveAck_marshal_to_def wire_consts
        ChunkSelectiveAck_header_def decode_chunk_def chunk_types g d simp del: of_nat_add of_nat_mult)
  then show ?thesis by blast
qed

lemma codec_CForwardTsn:
  assumes "Chunk_wf c" "c = CForwardTsn x"
  shows "\<exists>f v. codec c f v"
proof -
  have "codec c 0 (put_u32 (ft_new_cumulative_tsn x) @ concat (map ChunkForwardTsnStream_marshal (ft_streams x)))"
    using assms forward_roundtrip [of _ _ x]
    by (intro codecI) (auto simp: ChunkForwardTsn_value_length_def ChunkForwardTsn_marshal_to_def wire_consts
        ChunkForwardTsn_header_def decode_chunk_def chunk_types simp del: of_nat_add of_nat_mult)
  then show ?thesis by blast
qed

lemma codec_CIForwardTsn:
  assumes "Chunk_wf c" "c = CIForwardTsn x"
  shows "\<exists>f v. codec c f v"
proof -
  have "length (concat (map (\<lambda>s. put_u16 (ifs_identifier s) @ [if ifs_unordered s then 1 else 0] @ [0] @ put_u32 (ifs_mid s)) ss))
      = 8 * length ss" for ss by (induction ss) simp_all
  then have "codec c 0 (put_u32 (ift_new_cumulative_tsn x) @ concat (map (\<lambda>s. put_u16 (ifs_identifier s)
      @ [if ifs_unordered s then 1 else 0] @ [0] @ put_u32 (ifs_mid s)) (ift_streams x)))"
    using assms i_forward_roundtrip [of _ _ x]
    by (intro codecI) (auto simp: ChunkIForwardTsn_value_length_def ChunkIForwardTsn_marshal_to_def wire_consts
        ChunkIForwardTsn_header_def decode_chunk_def chunk_types simp del: of_nat_add of_nat_mult)
  then show ?thesis by blast
qed

lemma codec_CAbort:
  assumes "Chunk_wf c" "c = CAbort es"
  shows "\<exists>f v. codec c f v"
proof -
  have "codec c 0 (concat (map ErrorCause_marshal es))"
    using assms causes_roundtrip(1) [of _ _ CT_ABORT es]
    by (intro codecI) (auto simp: error_causes_length_eq ChunkAbort_marshal_to_def ChunkAbort_header_def
        decode_chunk_def chunk_types)
  then show ?thesis by blast
qed

lemma codec_CError:
  assumes "Chunk_wf c" "c = CError es"
  shows "\<exists>f v. codec c f v"
proof -
  have "codec c 0 (concat (map ErrorCause_marshal es))"
    using assms causes_roundtrip(2) [of _ _ CT_ERROR es]
    by (intro codecI) (auto simp: error_causes_length_eq ChunkError_marshal_to_def ChunkError_header_def
        decode_chunk_def chunk_types)
  then show ?thesis by blast
qed

lemma codec_simple:
  "length b < 65532 \<Longrightarrow> \<exists>f v. codec (CCookieEcho b) f v" "\<exists>f v. codec (CShutdown tsn) f v"
  "\<exists>f v. codec CCookieAck f v" "\<exists>f v. codec CShutdownAck f v" "\<exists>f v. codec CShutdownComplete f v"
proof -
  show "\<exists>f v. codec (CCookieEcho b) f v" if "length b < 65532"
    using that cookie_echo_roundtrip [of _ _ b]
    by (intro exI [of _ 0] exI [of _ b] codecI) (auto simp: ChunkCookieEcho_marshal_to_def ChunkCookieEcho_header_def
        decode_chunk_def chunk_types)
  show "\<exists>f v. codec (CShutdown tsn) f v"
    using shutdown_roundtrip [of _ _ tsn]
    by (intro exI [of _ 0] exI [of _ "put_u32 tsn"] codecI) (auto simp: ChunkShutdown_marshal_to_def
        ChunkShutdown_header_def decode_chunk_def chunk_types wire_consts)
  show "\<exists>f v. codec CCookieAck f v" "\<exists>f v. codec CShutdownAck f v" "\<exists>f v. codec CShutdownComplete f v"
    by (intro exI [of _ 0] exI [of _ "[]"] codecI; auto simp: empty_header_def ChunkHeader_marshal_to_eq
        decode_chunk_def chunk_types chunk_at_def ChunkCookieAck_unmarshal_def ChunkShutdownAck_unmarshal_def
        ChunkShutdownComplete_unmarshal_def ChunkHeader_marshal_to_def u16_add_def)+
qed

lemma codec_chunk:
  assumes "Chunk_wf c"
  shows "\<exists>f v. codec c f v"
  using assms codec_CInit [OF assms] codec_CHeartbeat [OF assms] codec_CReconfig [OF assms] codec_CPayloadData [OF assms] codec_CSelectiveAck [OF assms] codec_CForwardTsn [OF assms] codec_CIForwardTsn [OF assms] codec_CAbort [OF assms] codec_CError [OF assms] codec_simple
  by (cases c) auto

end
