(* ===== verification/Wire_Packet.thy ===== *)
theory Wire_Packet
  imports Wire_Codec
begin

text \<open>
  SCTP packets (\<^verbatim>\<open>src/src/packet.rs\<close>). The CRC32c of the \<^verbatim>\<open>crc\<close> crate is the argument \<open>crc\<close>, a
  function of the bytes fed to the digest; every statement holds for any such function. The two
  decoding loops of the source, of \<^verbatim>\<open>Packet::unmarshal\<close> from offset 12 and of
  \<^verbatim>\<open>PartialDecode::finish\<close> from offset 0 of the remaining bytes, are the function \<open>parse_chunks\<close>.
\<close>

definition PACKET_HEADER_SIZE :: usize where "PACKET_HEADER_SIZE = 12"

definition INITIATE_TAG_LENGTH :: usize where "INITIATE_TAG_LENGTH = 4"

record CommonHeader =
  hd_source_port :: u16
  hd_destination_port :: u16
  hd_verification_tag :: u32

record PartialDecode =
  pd_common_header :: CommonHeader
  pd_remaining :: bytes
  pd_first_chunk_type :: ChunkType
  pd_initiate_tag :: "u32 option"
  pd_cookie :: "bytes option"

record Packet =
  pk_common_header :: CommonHeader
  pk_chunks :: "Chunk list"

subsection \<open>Decoding\<close>

function parse_chunks :: "bytes \<Rightarrow> usize \<Rightarrow> Chunk list res" where
  "parse_chunks raw offset =
    (if offset = length raw then Ok []
     else if offset + CHUNK_HEADER_SIZE > length raw then Err ErrParseSctpChunkNotEnoughData
     else
       rbind (index raw offset) (\<lambda>ct.
       rbind (slice raw offset (length raw)) (\<lambda>b.
       rbind (decode_chunk ct b) (\<lambda>c.
       let chunk_value_padding = get_padding_size (Chunk_value_length c) in
       rbind (parse_chunks raw (offset + (CHUNK_HEADER_SIZE + Chunk_value_length c + chunk_value_padding))) (\<lambda>cs.
       Ok (c # cs))))))"
  by pat_completeness auto
termination
  by (relation "measure (\<lambda>(raw, offset). length raw - offset)") (auto simp: CHUNK_HEADER_SIZE_def)

declare parse_chunks.simps [simp del]

definition PartialDecode_unmarshal :: "(bytes \<Rightarrow> u32) \<Rightarrow> bytes \<Rightarrow> PartialDecode res" where
  "PartialDecode_unmarshal crc raw =
    (if length raw < PACKET_HEADER_SIZE then Err ErrPacketRawTooSmall
     else
       rbind (get_u16 raw) (\<lambda>(source_port, reader).
       rbind (get_u16 reader) (\<lambda>(destination_port, reader).
       rbind (get_u32 reader) (\<lambda>(verification_tag, reader).
       rbind (get_u32_le reader) (\<lambda>(their_checksum, reader).
       rbind (generate_packet_checksum crc raw) (\<lambda>our_checksum.
       if their_checksum \<noteq> our_checksum then Err ErrChecksumMismatch
       else if length reader < CHUNK_HEADER_SIZE then Err ErrParseSctpChunkNotEnoughData
       else
         rbind (ChunkHeader_unmarshal reader) (\<lambda>header.
         rbind (slice reader CHUNK_HEADER_SIZE (length reader)) (\<lambda>reader.
         rbind
           (if ch_typ header = CT_INIT \<or> ch_typ header = CT_INIT_ACK then
              if ChunkHeader_value_length header < INITIATE_TAG_LENGTH then Err ErrChunkValueNotLongEnough
              else rbind (get_u32 reader) (\<lambda>(tag, _). Ok (Some tag, None))
            else if ch_typ header = CT_COOKIE_ECHO then
              let stop = PACKET_HEADER_SIZE + CHUNK_HEADER_SIZE + ChunkHeader_value_length header in
              if stop > length raw then Err ErrChunkValueNotLongEnough
              else rbind (slice raw (PACKET_HEADER_SIZE + CHUNK_HEADER_SIZE) stop) (\<lambda>c. Ok (None, Some c))
            else Ok (None, None))
           (\<lambda>(initiate_tag, cookie).
         rbind (slice raw PACKET_HEADER_SIZE (length raw)) (\<lambda>remaining.
         Ok \<lparr>pd_common_header =
               \<lparr>hd_source_port = source_port, hd_destination_port = destination_port,
                hd_verification_tag = verification_tag\<rparr>,
             pd_remaining = remaining, pd_first_chunk_type = ch_typ header, pd_initiate_tag = initiate_tag,
             pd_cookie = cookie\<rparr>))))))))))"

definition PartialDecode_finish :: "PartialDecode \<Rightarrow> Packet res" where
  "PartialDecode_finish pd =
    rbind (parse_chunks (pd_remaining pd) 0) (\<lambda>chunks.
    Ok \<lparr>pk_common_header = pd_common_header pd, pk_chunks = chunks\<rparr>)"

definition Packet_unmarshal :: "(bytes \<Rightarrow> u32) \<Rightarrow> bytes \<Rightarrow> Packet res" where
  "Packet_unmarshal crc raw =
    (if length raw < PACKET_HEADER_SIZE then Err ErrPacketRawTooSmall
     else
       rbind (get_u16 raw) (\<lambda>(source_port, reader).
       rbind (get_u16 reader) (\<lambda>(destination_port, reader).
       rbind (get_u32 reader) (\<lambda>(verification_tag, reader).
       rbind (get_u32_le reader) (\<lambda>(their_checksum, reader).
       rbind (generate_packet_checksum crc raw) (\<lambda>our_checksum.
       if their_checksum \<noteq> our_checksum then Err ErrChecksumMismatch
       else
         rbind (parse_chunks raw PACKET_HEADER_SIZE) (\<lambda>chunks.
         Ok \<lparr>pk_common_header =
               \<lparr>hd_source_port = source_port, hd_destination_port = destination_port,
                hd_verification_tag = verification_tag\<rparr>,
             pk_chunks = chunks\<rparr>)))))))"

subsection \<open>Encoding\<close>

fun marshal_chunks :: "Chunk list \<Rightarrow> bytes \<Rightarrow> bytes res" where
  "marshal_chunks [] writer = Ok writer"
| "marshal_chunks (c # cs) writer =
    rbind (Chunk_marshal_to c writer) (\<lambda>writer.
    let padding_needed = get_padding_size (length writer) in
    marshal_chunks cs (if padding_needed \<noteq> 0 then writer @ replicate padding_needed 0 else writer))"

definition Packet_marshal_to :: "(bytes \<Rightarrow> u32) \<Rightarrow> Packet \<Rightarrow> bytes \<Rightarrow> bytes res" where
  "Packet_marshal_to crc p writer =
    (let h = pk_common_header p;
         writer = writer @ put_u16 (hd_source_port h) @ put_u16 (hd_destination_port h)
           @ put_u32 (hd_verification_tag h);
         checksum_pos = length writer;
         writer = writer @ [0, 0, 0, 0]
     in
     rbind (marshal_chunks (pk_chunks p) writer) (\<lambda>writer.
     let checksum = crc writer in
     Ok (take checksum_pos writer @ put_u32_le checksum @ drop (checksum_pos + 4) writer)))"

definition Packet_marshal :: "(bytes \<Rightarrow> u32) \<Rightarrow> Packet \<Rightarrow> bytes res" where
  "Packet_marshal crc p = Packet_marshal_to crc p []"

subsection \<open>Checks\<close>

fun check_packet_chunks :: "Packet \<Rightarrow> Chunk list \<Rightarrow> unit res" where
  "check_packet_chunks p [] = Ok ()"
| "check_packet_chunks p (c # cs) =
    (case c of
       CInit ci \<Rightarrow>
         if \<not> ci_is_ack ci then
           if length (pk_chunks p) \<noteq> 1 then Err ErrInitChunkBundled
           else if hd_verification_tag (pk_common_header p) \<noteq> 0 then Err ErrInitChunkVerifyTagNotZero
           else check_packet_chunks p cs
         else check_packet_chunks p cs
     | _ \<Rightarrow> check_packet_chunks p cs)"

definition check_packet :: "Packet \<Rightarrow> unit res" where
  "check_packet p =
    (if hd_source_port (pk_common_header p) = 0 then Err ErrSctpPacketSourcePortZero
     else if hd_destination_port (pk_common_header p) = 0 then Err ErrSctpPacketDestinationPortZero
     else check_packet_chunks p (pk_chunks p))"

text \<open>The packet as the receiver sees it.\<close>

definition Packet_on_wire :: "Packet \<Rightarrow> Packet" where
  "Packet_on_wire p = p\<lparr>pk_chunks := map Chunk_on_wire (pk_chunks p)\<rparr>"

definition example_packet :: Packet where
  "example_packet =
    \<lparr>pk_common_header = \<lparr>hd_source_port = 5000, hd_destination_port = 5001, hd_verification_tag = 7\<rparr>,
     pk_chunks = [CCookieEcho [1, 2, 3],
       CPayloadData (ChunkPayloadData_default\<lparr>d_tsn := 9, d_user_data := [1, 2, 3, 4, 5], d_nsent := 2\<rparr>)]\<rparr>"

subsection \<open>No panics\<close>

lemma parse_chunks_no_panic [no_panic]: "parse_chunks raw offset \<noteq> Panic"
proof (induction raw offset rule: parse_chunks.induct)
  case (1 raw offset)
  then show ?case
    by (subst parse_chunks.simps) (auto simp: rbind_eq_Panic decode_chunk_no_panic wire_consts Let_def)
qed

lemma generate_packet_checksum_eq:
  "12 \<le> length raw \<Longrightarrow> generate_packet_checksum crc raw = Ok (crc (take 8 raw @ [0, 0, 0, 0] @ drop 12 raw))"
  by (simp add: generate_packet_checksum_def slice_def)

lemma Packet_unmarshal_no_panic [no_panic]: "Packet_unmarshal crc raw \<noteq> Panic"
  by (auto simp: Packet_unmarshal_def PACKET_HEADER_SIZE_def rbind_eq_Panic generate_packet_checksum_eq
      parse_chunks_no_panic dest!: get_lengths)

lemma PartialDecode_unmarshal_no_panic [no_panic]: "PartialDecode_unmarshal crc raw \<noteq> Panic"
  by (auto simp: PartialDecode_unmarshal_def PACKET_HEADER_SIZE_def INITIATE_TAG_LENGTH_def rbind_eq_Panic
      generate_packet_checksum_eq Let_def wire_consts ChunkHeader_unmarshal_no_panic
      dest!: get_lengths slice_length ChunkHeader_unmarshal_length split: if_splits)

lemma PartialDecode_finish_no_panic [no_panic]: "PartialDecode_finish pd \<noteq> Panic"
  by (simp add: PartialDecode_finish_def rbind_eq_Panic parse_chunks_no_panic)

subsection \<open>Round trip\<close>

lemma Chunk_value_length_on_wire [simp]: "Chunk_value_length (Chunk_on_wire c) = Chunk_value_length c"
  by (cases c) (simp_all add: ChunkPayloadData_value_length_def wire_view_def)

lemma length_chunk_bytes [simp]: "length (chunk_bytes t f v) = 4 + length v"
  by (simp add: chunk_bytes_def)

text \<open>One chunk in the middle of a packet, with its padding.\<close>

lemma parse_one_chunk:
  assumes "codec c f v" "tail_ok (replicate (get_padding_size (length v)) 0 @ out)"
    and "parse_chunks (pre @ (chunk_bytes (Chunk_type c) f v @ replicate (get_padding_size (length v)) 0) @ out)
      (length pre + (4 + length v + get_padding_size (length v))) = Ok cs"
  shows "parse_chunks (pre @ (chunk_bytes (Chunk_type c) f v @ replicate (get_padding_size (length v)) 0) @ out) (length pre)
    = Ok (Chunk_on_wire c # cs)"
proof -
  let ?b = "chunk_bytes (Chunk_type c) f v @ replicate (get_padding_size (length v)) 0 @ out"
  let ?raw = "pre @ ?b"
  have v: "length v = Chunk_value_length c" "length v < 65532" using assms(1) by (auto simp: codec_def)
  from decode_at [OF v(2) assms(2)] obtain h where "chunk_at ?b h (Chunk_type c) f v" by blast
  then have d: "decode_chunk (Chunk_type c) ?b = Ok (Chunk_on_wire c)" using assms(1) unfolding codec_def by blast
  have i: "index ?raw (length pre) = Ok (Chunk_type c)" by (simp add: index_def nth_append chunk_bytes_def)
  have sl: "slice ?raw (length pre) (length ?raw) = Ok ?b" by (simp add: slice_def)
  have "length pre \<noteq> length ?raw" "\<not> length pre + 4 > length ?raw" by simp_all
  then have "parse_chunks ?raw (length pre) = Ok (Chunk_on_wire c # cs)"
    using assms(3)
    by (subst parse_chunks.simps) (simp only: if_False i sl d rbind.simps Let_def Chunk_value_length_on_wire
        CHUNK_HEADER_SIZE_def append_assoc v(1) [symmetric])
  then show ?thesis by simp
qed

lemma marshal_chunks_Cons:
  assumes "codec c f v" "length buf mod 4 = 0"
  defines "b \<equiv> chunk_bytes (Chunk_type c) f v @ replicate (get_padding_size (length v)) 0"
  shows "marshal_chunks (c # cs) buf = marshal_chunks cs (buf @ b)" "length b mod 4 = 0" "length (buf @ b) mod 4 = 0"
proof -
  obtain k where k: "length buf = 4 * k" using assms(2) by auto
  have pad: "get_padding_size (length (buf @ chunk_bytes (Chunk_type c) f v)) = get_padding_size (length v)"
    using k get_padding_size_add4 [of "length v" "k + 1"] by (simp add: algebra_simps)
  then show "marshal_chunks (c # cs) buf = marshal_chunks cs (buf @ b)"
    using assms(1) by (cases "get_padding_size (length v) = 0") (simp_all add: codec_def Let_def b_def)
  show b: "length b mod 4 = 0" using padded_mod [of "length v"] by (simp add: b_def add.assoc)
  show "length (buf @ b) mod 4 = 0" using mod_add_eq [of "length buf" 4 "length b"] assms(2) b by simp
qed

lemma marshal_chunks_roundtrip:
  assumes "\<forall>c \<in> set cs. Chunk_wf c" "length buf mod 4 = 0"
  shows "\<exists>out. marshal_chunks cs buf = Ok (buf @ out) \<and> length out mod 4 = 0 \<and>
    (\<forall>pre. parse_chunks (pre @ out) (length pre) = Ok (map Chunk_on_wire cs))"
  using assms
proof (induction cs arbitrary: buf)
  case Nil
  then show ?case by (intro exI [of _ "[]"]) (simp add: parse_chunks.simps)
next
  case (Cons c cs)
  from codec_chunk obtain f v where v: "codec c f v" using Cons.prems(1) by fastforce
  let ?n = "get_padding_size (length v)"
  let ?c = "chunk_bytes (Chunk_type c) f v @ replicate ?n 0"
  note step = marshal_chunks_Cons [OF v Cons.prems(2)]
  from Cons.IH [OF _ step(3)] obtain out where out: "marshal_chunks cs (buf @ ?c) = Ok ((buf @ ?c) @ out)"
    "length out mod 4 = 0" "\<forall>pre. parse_chunks (pre @ out) (length pre) = Ok (map Chunk_on_wire cs)"
    using Cons.prems(1) by auto
  have tail: "tail_ok (replicate ?n 0 @ out)"
  proof (cases "out = []")
    case False
    then have "4 \<le> length out" using out(2) by (cases "length out < 4") auto
    then show ?thesis by (simp add: tail_ok_def)
  qed (simp add: tail_ok_def)
  have "parse_chunks (pre @ ?c @ out) (length pre) = Ok (Chunk_on_wire c # map Chunk_on_wire cs)" for pre
  proof (rule parse_one_chunk [OF v tail])
    show "parse_chunks (pre @ ?c @ out) (length pre + (4 + length v + ?n)) = Ok (map Chunk_on_wire cs)"
      using out(3) [THEN spec, of "pre @ ?c"] by simp
  qed
  moreover have "marshal_chunks (c # cs) buf = Ok (buf @ ?c @ out)"
    using step(1) [of cs] out(1) by simp
  moreover have "length (?c @ out) mod 4 = 0" 
    using mod_add_eq [of "length ?c" 4 "length out"] out(2) step(2) by (simp add: add.assoc)
  ultimately show ?case by (intro exI [of _ "?c @ out"]) simp
qed

lemma Packet_marshal_bytes:
  assumes "\<forall>c \<in> set (pk_chunks p). Chunk_wf c"
  shows "\<exists>out. Packet_marshal crc p = Ok (put_u16 (hd_source_port (pk_common_header p))
      @ put_u16 (hd_destination_port (pk_common_header p)) @ put_u32 (hd_verification_tag (pk_common_header p))
      @ put_u32_le (crc (put_u16 (hd_source_port (pk_common_header p))
      @ put_u16 (hd_destination_port (pk_common_header p)) @ put_u32 (hd_verification_tag (pk_common_header p))
      @ [0, 0, 0, 0] @ out)) @ out)
    \<and> length out mod 4 = 0 \<and> (\<forall>pre. parse_chunks (pre @ out) (length pre) = Ok (map Chunk_on_wire (pk_chunks p)))"
proof -
  let ?h = "put_u16 (hd_source_port (pk_common_header p)) @ put_u16 (hd_destination_port (pk_common_header p))
    @ put_u32 (hd_verification_tag (pk_common_header p))"
  from marshal_chunks_roundtrip [OF assms, of "?h @ [0, 0, 0, 0]"] obtain out where
    "marshal_chunks (pk_chunks p) (?h @ [0, 0, 0, 0]) = Ok ((?h @ [0, 0, 0, 0]) @ out)" "length out mod 4 = 0"
    "\<forall>pre. parse_chunks (pre @ out) (length pre) = Ok (map Chunk_on_wire (pk_chunks p))" by auto
  then show ?thesis by (intro exI [of _ out]) (simp add: Packet_marshal_def Packet_marshal_to_def Let_def)
qed

text \<open>The size of a packet: the common header, and each chunk with its header and its padding.\<close>

lemma marshal_chunks_length:
  assumes "\<forall>c \<in> set cs. Chunk_wf c" "length buf mod 4 = 0" "marshal_chunks cs buf = Ok out"
  shows "length out = length buf + (\<Sum>c \<leftarrow> cs. 4 + Chunk_value_length c + get_padding_size (Chunk_value_length c))"
  using assms
proof (induction cs arbitrary: buf)
  case (Cons c cs)
  from codec_chunk obtain f v where v: "codec c f v" using Cons.prems(1) by fastforce
  note step = marshal_chunks_Cons [OF v Cons.prems(2)]
  from Cons.IH [OF _ step(3) Cons.prems(3) [unfolded step(1)]] Cons.prems(1) v show ?case by (simp add: codec_def)
qed simp

lemma Packet_marshal_length:
  assumes "\<forall>c \<in> set (pk_chunks p). Chunk_wf c"
  shows "\<exists>b. Packet_marshal crc p = Ok b \<and>
    length b = 12 + (\<Sum>c \<leftarrow> pk_chunks p. 4 + Chunk_value_length c + get_padding_size (Chunk_value_length c))"
proof -
  let ?h = "put_u16 (hd_source_port (pk_common_header p)) @ put_u16 (hd_destination_port (pk_common_header p))
    @ put_u32 (hd_verification_tag (pk_common_header p)) @ [0, 0, 0, 0]"
  have h: "length ?h mod 4 = 0" by simp
  obtain w where w: "marshal_chunks (pk_chunks p) ?h = Ok w" using marshal_chunks_roundtrip [OF assms h] by blast
  show ?thesis
    using w marshal_chunks_length [OF assms h w]
    by (simp add: Packet_marshal_def Packet_marshal_to_def Let_def)
qed

lemma Packet_unmarshal_parts:
  assumes "raw = put_u16 sp @ put_u16 dp @ put_u32 tag @ put_u32_le cs @ r"
  shows "Packet_unmarshal crc raw =
    (if cs \<noteq> crc (put_u16 sp @ put_u16 dp @ put_u32 tag @ [0, 0, 0, 0] @ r) then Err ErrChecksumMismatch
     else rbind (parse_chunks raw 12) (\<lambda>chunks. Ok \<lparr>pk_common_header =
       \<lparr>hd_source_port = sp, hd_destination_port = dp, hd_verification_tag = tag\<rparr>, pk_chunks = chunks\<rparr>))"
  using assms by (simp add: Packet_unmarshal_def PACKET_HEADER_SIZE_def buf_simps generate_packet_checksum_eq)

subsection \<open>The two decoders\<close>

lemma parse_chunks_shift: "parse_chunks (pre @ r) (length pre + offset) = parse_chunks r offset"
proof (induction "length r - offset" arbitrary: offset rule: less_induct)
  case less
  have *: "slice (pre @ r) (length pre + offset) (length (pre @ r)) = slice r offset (length r)"
    "index (pre @ r) (length pre + offset) = index r offset"
    by (simp_all add: slice_def index_def nth_append)
  have "parse_chunks (pre @ r) (length pre + (offset + (4 + n))) = parse_chunks r (offset + (4 + n))"
    if "offset + 4 \<le> length r" for n
    using that by (intro less.hyps) simp
  then show ?case
    by (subst (1 2) parse_chunks.simps) (simp add: wire_consts * [simplified] Let_def add.assoc cong: rbind_cong)
qed

lemma decode_chunk_header:
  assumes "decode_chunk ct raw = Ok c"
  shows "\<exists>h. ChunkHeader_unmarshal raw = Ok h \<and> (ct = CT_INIT \<or> ct = CT_INIT_ACK \<longrightarrow> 16 \<le> ChunkHeader_value_length h)"
proof -
  have "\<exists>h. ChunkHeader_unmarshal raw = Ok h"
    using assms by (auto simp: decode_chunk_def ChunkInit_unmarshal_def ChunkAbort_unmarshal_def
        ChunkCookieEcho_unmarshal_def ChunkCookieAck_unmarshal_def ChunkHeartbeat_unmarshal_def
        ChunkPayloadData_unmarshal_def ChunkSelectiveAck_unmarshal_def ChunkReconfig_unmarshal_def
        ChunkForwardTsn_unmarshal_def ChunkIForwardTsn_unmarshal_def ChunkError_unmarshal_def
        ChunkShutdown_unmarshal_def ChunkShutdownAck_unmarshal_def ChunkShutdownComplete_unmarshal_def
        split: if_splits)
  then show ?thesis using assms
    by (auto simp: decode_chunk_def ChunkInit_unmarshal_def wire_consts split: if_splits)
qed

lemma ChunkHeader_typ: "ChunkHeader_unmarshal raw = Ok h \<Longrightarrow> index raw 0 = Ok (ch_typ h)"
  by (auto simp: ChunkHeader_unmarshal_def index_def get_u8_eq_Ok split: if_splits)

text \<open>With the header taken apart, both decoders accept the same bytes when there is a first chunk.\<close>

lemma PartialDecode_parts:
  assumes "raw = put_u16 sp @ put_u16 dp @ put_u32 tag @ put_u32_le cs @ r"
    and "cs = crc (put_u16 sp @ put_u16 dp @ put_u32 tag @ [0, 0, 0, 0] @ r)"
    and "ChunkHeader_unmarshal r = Ok h" "ch_typ h = CT_INIT \<or> ch_typ h = CT_INIT_ACK \<longrightarrow> 4 \<le> ChunkHeader_value_length h"
  shows "\<exists>pd. PartialDecode_unmarshal crc raw = Ok pd \<and> pd_remaining pd = r \<and> pd_first_chunk_type pd = ch_typ h \<and>
    pd_common_header pd = \<lparr>hd_source_port = sp, hd_destination_port = dp, hd_verification_tag = tag\<rparr>"
proof -
  have len: "4 + ChunkHeader_value_length h \<le> length r" by (rule ChunkHeader_unmarshal_length [OF assms(3)])
  obtain tag' where tag': "ch_typ h = CT_INIT \<or> ch_typ h = CT_INIT_ACK \<Longrightarrow> \<exists>r'. get_u32 (drop 4 r) = Ok (tag', r')"
  proof (cases "get_u32 (drop 4 r)")
    case Panic
    then show ?thesis using that [of 0] len assms(4) by auto
  qed (use that in auto)
  have cookie: "slice raw 16 (16 + ChunkHeader_value_length h) = Ok (take (ChunkHeader_value_length h) (drop 4 r))"
    using assms(1) len by (simp add: slice_def)
  have g: "get_u16 raw = Ok (sp, put_u16 dp @ put_u32 tag @ put_u32_le cs @ r)"
    "get_u16 (put_u16 dp @ put_u32 tag @ put_u32_le cs @ r) = Ok (dp, put_u32 tag @ put_u32_le cs @ r)"
    "generate_packet_checksum crc raw = Ok cs" "slice raw 12 (length raw) = Ok r" "length raw = 12 + length r"
    "slice r 4 (length r) = Ok (drop 4 r)"
    using assms(1,2) len by (simp_all add: buf_simps generate_packet_checksum_eq slice_def)
  show ?thesis
    using len cookie g tag' assms(3,4)
    by (auto simp: PartialDecode_unmarshal_def PACKET_HEADER_SIZE_def INITIATE_TAG_LENGTH_def wire_consts buf_simps Let_def
        not_le)
qed

lemma PartialDecode_unmarshal_parts:
  assumes "raw = put_u16 sp @ put_u16 dp @ put_u32 tag @ put_u32_le cs @ r" "PartialDecode_unmarshal crc raw = Ok pd"
  shows "cs = crc (put_u16 sp @ put_u16 dp @ put_u32 tag @ [0, 0, 0, 0] @ r)" "pd_remaining pd = r" "4 \<le> length r"
    "pd_common_header pd = \<lparr>hd_source_port = sp, hd_destination_port = dp, hd_verification_tag = tag\<rparr>"
  using assms
  by (auto simp: PartialDecode_unmarshal_def PACKET_HEADER_SIZE_def wire_consts buf_simps Let_def
      generate_packet_checksum_eq rbind_eq_Ok slice_def split: if_splits)

lemma parse_chunks_first:
  assumes "parse_chunks r 0 = Ok chunks"
  shows "chunks = [] \<longleftrightarrow> r = []"
    and "r \<noteq> [] \<Longrightarrow> \<exists>h. ChunkHeader_unmarshal r = Ok h \<and>
      (ch_typ h = CT_INIT \<or> ch_typ h = CT_INIT_ACK \<longrightarrow> 16 \<le> ChunkHeader_value_length h)"
proof -
  show "chunks = [] \<longleftrightarrow> r = []"
    using assms by (subst (asm) parse_chunks.simps) (auto simp: rbind_eq_Ok Let_def split: if_splits)
next
  assume "r \<noteq> []"
  then obtain ct c where "index r 0 = Ok ct" "decode_chunk ct r = Ok c"
    using assms by (subst (asm) parse_chunks.simps) (auto simp: rbind_eq_Ok Let_def slice_def split: if_splits)
  moreover from decode_chunk_header [OF this(2)] obtain h where "ChunkHeader_unmarshal r = Ok h"
    "ct = CT_INIT \<or> ct = CT_INIT_ACK \<longrightarrow> 16 \<le> ChunkHeader_value_length h" by auto
  ultimately show "\<exists>h. ChunkHeader_unmarshal r = Ok h \<and>
      (ch_typ h = CT_INIT \<or> ch_typ h = CT_INIT_ACK \<longrightarrow> 16 \<le> ChunkHeader_value_length h)"
    using ChunkHeader_typ [of r h] by auto
qed

lemma raw_parts:
  assumes "12 \<le> length raw"
  obtains sp dp tag cs r where "raw = put_u16 sp @ put_u16 dp @ put_u32 tag @ put_u32_le cs @ r"
proof -
  obtain sp r1 where 1: "raw = put_u16 sp @ r1" "10 \<le> length r1" using get_u16_split [of raw] assms by fastforce
  obtain dp r2 where 2: "r1 = put_u16 dp @ r2" "8 \<le> length r2" using get_u16_split [of r1] 1 by fastforce
  obtain a b c d e f g h r where 3: "r2 = [a, b, c, d, e, f, g, h] @ r"
    using 2(2) by (auto simp: numeral_eq_Suc Suc_le_length_iff)
  have "raw = put_u16 sp @ put_u16 dp @ put_u32 (be32 a b c d) @ put_u32_le (be32 h g f e) @ r"
    unfolding 1 2 3 by (simp add: put_be32 put_u32_le_def)
  then show ?thesis by (rule that)
qed

lemma Chunk_type_decoded:
  assumes "decode_chunk ct raw = Ok c" "index raw 0 = Ok ct"
  shows "Chunk_type c = ct"
proof -
  have "ch_typ h = ct" if "ChunkHeader_unmarshal raw = Ok h" for h
    using ChunkHeader_typ [OF that] assms(2) by simp
  then show ?thesis
    using assms(1)
    by (auto simp: decode_chunk_def ChunkInit_unmarshal_def wire_consts split: if_splits)
qed

lemma Chunk_type_on_wire [simp]: "Chunk_type (Chunk_on_wire c) = Chunk_type c"
  by (cases c) auto

lemma get_u32_take: "get_u32 (take n xs) = Ok (t, r) \<Longrightarrow> get_u32 xs = Ok (t, r @ drop n xs)"
  unfolding get_u32_eq_Ok by (metis append.assoc append_take_drop_id)

lemma init_tag_decoded:
  assumes "decode_chunk ct raw = Ok (CInit i)"
  shows "\<exists>r'. get_u32 (drop 4 raw) = Ok (ci_initiate_tag i, r')"
  using assms
  by (auto simp: decode_chunk_def ChunkInit_unmarshal_def wire_consts chunk_value_def slice_def rbind_eq_Ok
      dest!: get_u32_take split: if_splits)

lemma PartialDecode_initiate_tag:
  assumes "raw = put_u16 sp @ put_u16 dp @ put_u32 tag @ put_u32_le cs @ r" "PartialDecode_unmarshal crc raw = Ok pd"
    "get_u32 (drop 4 r) = Ok (t, r')" "pd_first_chunk_type pd = CT_INIT"
  shows "pd_initiate_tag pd = Some t"
  using assms
  by (auto simp: PartialDecode_unmarshal_def PACKET_HEADER_SIZE_def wire_consts buf_simps Let_def
      generate_packet_checksum_eq rbind_eq_Ok slice_def split: if_splits)

text \<open>What a receiver learns from the bytes of a packet: its header and chunks, and of the first chunk the type.\<close>

lemma packet_delivered:
  assumes "\<forall>c \<in> set (pk_chunks p). Chunk_wf c" "pk_chunks p = c # cs"
  obtains b pd where "Packet_marshal crc p = Ok b" "PartialDecode_unmarshal crc b = Ok pd"
    "PartialDecode_finish pd = Ok (Packet_on_wire p)" "pd_common_header pd = pk_common_header p"
    "pd_first_chunk_type pd = Chunk_type c" "\<forall>i. c = CInit i \<and> \<not> ci_is_ack i \<longrightarrow> pd_initiate_tag pd = Some (ci_initiate_tag i)"
proof -
  let ?h = "pk_common_header p"
  let ?pre = "put_u16 (hd_source_port ?h) @ put_u16 (hd_destination_port ?h) @ put_u32 (hd_verification_tag ?h)"
  obtain out where out: "Packet_marshal crc p = Ok (?pre @ put_u32_le (crc (?pre @ [0, 0, 0, 0] @ out)) @ out)"
    "\<forall>pre. parse_chunks (pre @ out) (length pre) = Ok (map Chunk_on_wire (pk_chunks p))"
    using Packet_marshal_bytes [OF assms(1), of crc] by auto
  let ?b = "put_u16 (hd_source_port ?h) @ put_u16 (hd_destination_port ?h) @ put_u32 (hd_verification_tag ?h) @
    put_u32_le (crc (put_u16 (hd_source_port ?h) @ put_u16 (hd_destination_port ?h) @ put_u32 (hd_verification_tag ?h) @
      [0, 0, 0, 0] @ out)) @ out"
  have parse: "parse_chunks out 0 = Ok (map Chunk_on_wire (pk_chunks p))" using out(2) [THEN spec, of "[]"] by simp
  then have ne: "out \<noteq> []" using parse_chunks_first(1) [OF parse] assms(2) by auto
  obtain ct where ct: "index out 0 = Ok ct" "decode_chunk ct out = Ok (Chunk_on_wire c)"
    using parse ne assms(2)
    by (subst (asm) parse_chunks.simps) (auto simp: rbind_eq_Ok Let_def slice_def split: if_splits)
  obtain h where h: "ChunkHeader_unmarshal out = Ok h"
    "ch_typ h = CT_INIT \<or> ch_typ h = CT_INIT_ACK \<longrightarrow> 4 \<le> ChunkHeader_value_length h"
    using parse_chunks_first(2) [OF parse ne] by auto
  have t: "ch_typ h = Chunk_type c" using ChunkHeader_typ [OF h(1)] Chunk_type_decoded [OF ct(2,1)] ct(1) by simp
  obtain pd where pd: "PartialDecode_unmarshal crc ?b = Ok pd" "pd_remaining pd = out" "pd_first_chunk_type pd = ch_typ h"
    "pd_common_header pd = ?h"
    using PartialDecode_parts [OF refl refl h, where crc = crc] by fastforce
  show ?thesis
  proof (rule that [of ?b pd])
    show "PartialDecode_finish pd = Ok (Packet_on_wire p)"
      using parse pd by (simp add: PartialDecode_finish_def Packet_on_wire_def)
    show "\<forall>i. c = CInit i \<and> \<not> ci_is_ack i \<longrightarrow> pd_initiate_tag pd = Some (ci_initiate_tag i)"
      using init_tag_decoded [of ct out] ct PartialDecode_initiate_tag [OF refl pd(1)] pd(3) t by auto
  qed (use out pd t in auto)
qed

subsection \<open>Properties\<close>

text \<open>
  C33: Packets survive the wire: a packet of well-formed chunks is marshalled without a panic, to a
  multiple of four bytes, and decoding the result yields the packet, with of each DATA chunk the
  fields that the wire format carries, whatever function computes the checksum.
\<close>
theorem packet_roundtrip:
  assumes "\<forall>c \<in> set (pk_chunks p). Chunk_wf c"
  shows "\<exists>b. Packet_marshal crc p = Ok b \<and> length b mod 4 = 0 \<and> Packet_unmarshal crc b = Ok (Packet_on_wire p)"
proof -
  let ?h = "pk_common_header p"
  obtain out where out: "Packet_marshal crc p = Ok (put_u16 (hd_source_port ?h) @ put_u16 (hd_destination_port ?h)
      @ put_u32 (hd_verification_tag ?h) @ put_u32_le (crc (put_u16 (hd_source_port ?h)
      @ put_u16 (hd_destination_port ?h) @ put_u32 (hd_verification_tag ?h) @ [0, 0, 0, 0] @ out)) @ out)"
    "length out mod 4 = 0" "\<forall>pre. parse_chunks (pre @ out) (length pre) = Ok (map Chunk_on_wire (pk_chunks p))"
    using Packet_marshal_bytes [OF assms, of crc] by auto
  let ?pre = "put_u16 (hd_source_port ?h) @ put_u16 (hd_destination_port ?h)
      @ put_u32 (hd_verification_tag ?h) @ put_u32_le (crc (put_u16 (hd_source_port ?h)
      @ put_u16 (hd_destination_port ?h) @ put_u32 (hd_verification_tag ?h) @ [0, 0, 0, 0] @ out))"
  have "parse_chunks (?pre @ out) 12 = Ok (map Chunk_on_wire (pk_chunks p))"
    using out(3) [THEN spec, of ?pre] by simp
  then have "Packet_unmarshal crc (?pre @ out) = Ok (Packet_on_wire p)"
    by (subst Packet_unmarshal_parts) (auto simp: Packet_on_wire_def)
  with out(1,2) show ?thesis by simp presburger
qed

theorem packet_roundtrip_witness:
  "\<exists>b. Packet_marshal (\<lambda>_. 5) example_packet = Ok b \<and> Packet_unmarshal (\<lambda>_. 5) b = Ok (Packet_on_wire example_packet)"
  using packet_roundtrip [of example_packet "\<lambda>_. 5"]
  by (auto simp: example_packet_def ChunkPayloadData_value_length_def wire_consts ChunkPayloadData_default_def)

text \<open>
  C34: Whatever bytes arrive, the decoders of packets do not panic: \<^verbatim>\<open>Packet::unmarshal\<close>, the first
  stage \<^verbatim>\<open>PartialDecode::unmarshal\<close>, and the second stage \<^verbatim>\<open>finish\<close> on whatever the first returned.
\<close>
theorem packet_decoding_never_panics:
  "Packet_unmarshal crc raw \<noteq> Panic \<and> PartialDecode_unmarshal crc raw \<noteq> Panic \<and>
    rbind (PartialDecode_unmarshal crc raw) PartialDecode_finish \<noteq> Panic"
  by (simp add: no_panic)

text \<open>
  C35: Decoding in two stages is decoding: the endpoint's first stage followed by the association's
  second stage accepts exactly the packets with at least one chunk that \<^verbatim>\<open>Packet::unmarshal\<close>
  accepts, with the same result.
\<close>
theorem two_stage_decoding:
  "rbind (PartialDecode_unmarshal crc raw) PartialDecode_finish = Ok p \<longleftrightarrow>
    Packet_unmarshal crc raw = Ok p \<and> pk_chunks p \<noteq> []"
proof (cases "12 \<le> length raw")
  case True
  from raw_parts [OF True] obtain sp dp tag cs r where raw: "raw = put_u16 sp @ put_u16 dp @ put_u32 tag @ put_u32_le cs @ r" .
  have shift: "parse_chunks raw 12 = parse_chunks r 0"
    using parse_chunks_shift [of "put_u16 sp @ put_u16 dp @ put_u32 tag @ put_u32_le cs" r 0] raw by simp
  show ?thesis
  proof
    assume "rbind (PartialDecode_unmarshal crc raw) PartialDecode_finish = Ok p"
    then obtain pd where pd: "PartialDecode_unmarshal crc raw = Ok pd" "PartialDecode_finish pd = Ok p"
      by (auto simp: rbind_eq_Ok)
    note parts = PartialDecode_unmarshal_parts [OF raw pd(1)]
    from pd(2) parts have "parse_chunks r 0 = Ok (pk_chunks p)"
      "p = \<lparr>pk_common_header = \<lparr>hd_source_port = sp, hd_destination_port = dp, hd_verification_tag = tag\<rparr>,
        pk_chunks = pk_chunks p\<rparr>"
      by (auto simp: PartialDecode_finish_def rbind_eq_Ok)
    moreover have "r \<noteq> []" using parts(3) by auto
    ultimately show "Packet_unmarshal crc raw = Ok p \<and> pk_chunks p \<noteq> []"
      using parts(1) parse_chunks_first(1) by (auto simp: Packet_unmarshal_parts [OF raw] shift)
  next
    assume p: "Packet_unmarshal crc raw = Ok p \<and> pk_chunks p \<noteq> []"
    then have c: "parse_chunks r 0 = Ok (pk_chunks p)"
      "p = \<lparr>pk_common_header = \<lparr>hd_source_port = sp, hd_destination_port = dp, hd_verification_tag = tag\<rparr>,
        pk_chunks = pk_chunks p\<rparr>" "cs = crc (put_u16 sp @ put_u16 dp @ put_u32 tag @ [0, 0, 0, 0] @ r)"
      by (auto simp: Packet_unmarshal_parts [OF raw] shift rbind_eq_Ok split: if_splits)
    with p parse_chunks_first [OF c(1)] obtain h where "ChunkHeader_unmarshal r = Ok h"
      "ch_typ h = CT_INIT \<or> ch_typ h = CT_INIT_ACK \<longrightarrow> 4 \<le> ChunkHeader_value_length h" by auto
    from PartialDecode_parts [where crc = crc, OF raw c(3) this] c(1,2)
    show "rbind (PartialDecode_unmarshal crc raw) PartialDecode_finish = Ok p"
      by (auto simp: PartialDecode_finish_def)
  qed
qed (simp add: Packet_unmarshal_def PartialDecode_unmarshal_def PACKET_HEADER_SIZE_def)

end
