(* ===== verification/Assoc_State.thy ===== *)
theory Assoc_State
  imports Stream_State Sctp_Timer Outbound_Queue Wire_Packet
begin

text \<open>
  The state of an association (\<^verbatim>\<open>Association\<close> of \<^verbatim>\<open>src/src/association/mod.rs\<close>) with the events it
  hands to the application and the endpoint (\<^verbatim>\<open>src/src/shared.rs\<close>), and its constructors. The fields
  of \<^verbatim>\<open>Association\<close> carry the prefix \<open>a_\<close>.

  A method that cannot fail takes the association and returns it updated. A method that can fail or
  panic returns its result paired with the association, because the caller keeps the association
  after an error: \<open>abind\<close> runs the rest of a method on the value of a call and passes an error or a
  panic through with the state of that moment.
\<close>

subsection \<open>Results with a state\<close>

definition abind :: "'a res \<times> 's \<Rightarrow> ('a \<Rightarrow> 's \<Rightarrow> 'b res \<times> 's) \<Rightarrow> 'b res \<times> 's" where
  "abind m f = (case m of (Ok x, s) \<Rightarrow> f x s | (Err e, s) \<Rightarrow> (Err e, s) | (Panic, s) \<Rightarrow> (Panic, s))"

text \<open>\<^verbatim>\<open>let _ = call\<close>: an error is dropped, a panic is not.\<close>

definition aignore :: "'a res \<times> 's \<Rightarrow> ('s \<Rightarrow> 'b res \<times> 's) \<Rightarrow> 'b res \<times> 's" where
  "aignore m f = (case m of (Panic, s) \<Rightarrow> (Panic, s) | (_, s) \<Rightarrow> f s)"

text \<open>A \<^verbatim>\<open>for\<close> loop whose body may return early with an error.\<close>

fun afor :: "'x list \<Rightarrow> ('x \<Rightarrow> 's \<Rightarrow> unit res \<times> 's) \<Rightarrow> 's \<Rightarrow> unit res \<times> 's" where
  "afor [] f s = (Ok (), s)"
| "afor (x # xs) f s = abind (f x s) (\<lambda>_ s. afor xs f s)"

text \<open>The same with variables that the body updates.\<close>

fun afold :: "('x \<Rightarrow> 'v \<Rightarrow> 's \<Rightarrow> 'v res \<times> 's) \<Rightarrow> 'x list \<Rightarrow> 'v \<Rightarrow> 's \<Rightarrow> 'v res \<times> 's" where
  "afold f [] v s = (Ok v, s)"
| "afold f (x # xs) v s = abind (f x v s) (\<lambda>v s. afold f xs v s)"

text \<open>A call that neither reads nor changes the association.\<close>

definition alift :: "'a res \<Rightarrow> 's \<Rightarrow> 'a res \<times> 's" where
  "alift r s = (r, s)"

subsection \<open>Addresses and datagrams\<close>

datatype IpAddr = V4 u32 | V6 "128 word"

type_synonym SocketAddr = "IpAddr \<times> u16"

datatype EcnCodepoint = Ect0 | Ect1 | Ce

definition EcnCodepoint_from_bits :: "u8 \<Rightarrow> EcnCodepoint option" where
  "EcnCodepoint_from_bits x =
    (let y = x AND 3 in if y = 2 then Some Ect0 else if y = 1 then Some Ect1 else if y = 3 then Some Ce else None)"

datatype Payload = PayloadPartialDecode PartialDecode | RawEncode "bytes list"

record Transmit =
  tr_now :: instant
  tr_remote :: SocketAddr
  tr_ecn :: "EcnCodepoint option"
  tr_local_ip :: "IpAddr option"
  tr_payload :: Payload

subsection \<open>Events\<close>

datatype AssociationError =
    HandshakeError error
  | TransportError
  | ReceiveBufferExhausted
  | AssociationClosed
  | ApplicationClosed
  | Reset
  | TimedOut
  | LocallyClosed

datatype Event =
    Connected
  | HandshakeFailed AssociationError
  | AssociationLost AssociationError
  | EStream StreamEvent
  | DataChannelStatsFinal DataChannelStats
  | DatagramReceived

datatype AssociationEvent = Datagram Transmit

datatype EndpointEvent = Drained

subsection \<open>Pending reset completions\<close>

text \<open>A multiset of stream identifiers, kept as a map to positive counts.\<close>

type_synonym PendingResetCompletions = "(u16, usize) hash_map"

definition PRC_insert :: "PendingResetCompletions \<Rightarrow> u16 \<Rightarrow> PendingResetCompletions" where
  "PRC_insert m sid = AList.update sid (case map_of m sid of Some n \<Rightarrow> n + 1 | None \<Rightarrow> 1) m"

definition PRC_contains :: "PendingResetCompletions \<Rightarrow> u16 \<Rightarrow> bool" where
  "PRC_contains m sid \<longleftrightarrow> contains_key m sid"

definition PRC_take_one :: "PendingResetCompletions \<Rightarrow> u16 \<Rightarrow> bool \<times> PendingResetCompletions" where
  "PRC_take_one m sid =
    (case map_of m sid of
       Some n \<Rightarrow> (True, if n - 1 = 0 then AList.delete sid m else AList.update sid (n - 1) m)
     | None \<Rightarrow> (False, m))"

subsection \<open>Deferred forward TSNs\<close>

datatype DeferredForwardTsnKind = DOrdered u16 u32 | DUnordered u32

record DeferredForwardTsn =
  dft_generation_boundary :: "u32 option"
  dft_kind :: DeferredForwardTsnKind

subsection \<open>The association\<close>

record Association =
  a_side :: Side
  a_state :: AssociationState
  a_handshake_completed :: bool
  a_max_send_message_size :: u32
  a_max_receive_message_size :: u32
  a_inflight_queue_length :: usize
  a_will_send_shutdown :: bool
  a_next_stream_generation :: u64
  a_bytes_received :: usize
  a_bytes_sent :: usize
  a_peer_verification_tag :: u32
  a_my_verification_tag :: u32
  a_my_next_tsn :: u32
  a_peer_last_tsn :: u32
  a_min_tsn2measure_rtt :: u32
  a_will_send_forward_tsn :: bool
  a_will_retransmit_fast :: bool
  a_will_retransmit_reconfig :: bool
  a_will_send_shutdown_ack :: bool
  a_will_send_shutdown_complete :: bool
  a_my_next_rsn :: u32
  a_reconfigs :: "(u32, ChunkReconfig) hash_map"
  a_reconfig_reset_streams :: "(u32, u16 list) hash_map"
  a_active_reconfig :: "u32 option"
  a_pending_reset_streams :: "u16 list"
  a_reconfig_requests :: "(u32, ParamOutgoingResetRequest) hash_map"
  a_deferred_reset_data :: "(u32, ChunkPayloadData) hash_map"
  a_max_completed_reconfig_rsn :: "u32 option"
  a_peer_last_reconfig_rsn :: u32
  a_peer_reconfig_rsn_initialized :: bool
  a_pending_reset_completions :: PendingResetCompletions
  a_failed_reset_streams :: "u16 list"
  a_retiring_streams :: "(u16, u32 list) hash_map"
  a_ready_stream_finishes :: PendingResetCompletions
  a_delivered_stream_finishes :: PendingResetCompletions
  a_deferred_forward_tsns :: "(u16, DeferredForwardTsn list) hash_map"
  a_remote_addr :: SocketAddr
  a_local_ip :: "IpAddr option"
  a_source_port :: u16
  a_destination_port :: u16
  a_my_max_num_inbound_streams :: u16
  a_my_max_num_outbound_streams :: u16
  a_my_cookie :: "bytes option"
  a_payload_queue :: PayloadQueue
  a_outbound_queue :: OutboundQueue
  a_control_queue :: "Packet list"
  a_stream_queue :: "u16 list"
  a_mtu :: u32
  a_max_payload_size :: u32
  a_cumulative_tsn_ack_point :: u32
  a_advanced_peer_tsn_ack_point :: u32
  a_use_forward_tsn :: bool
  a_rto_mgr :: RtoManager
  a_timers :: TimerTable
  a_max_receive_buffer_size :: u32
  a_cwnd :: u32
  a_rwnd :: u32
  a_ssthresh :: u32
  a_partial_bytes_acked :: u32
  a_in_fast_recovery :: bool
  a_fast_recover_exit_point :: u32
  a_stored_init :: "ChunkInit option"
  a_stored_cookie_echo :: "bytes option"
  a_streams :: "(u16, StreamState) hash_map"
  a_events :: "Event list"
  a_endpoint_events :: "EndpointEvent list"
  a_error :: "AssociationError option"
  a_delayed_ack_triggered :: bool
  a_immediate_ack_triggered :: bool
  a_stats :: AssociationStats
  a_ack_state :: AckState
  a_ack_mode :: AckMode

definition Association_default :: Association where
  "Association_default =
    \<lparr>a_side = Client, a_state = Closed, a_handshake_completed = False, a_max_send_message_size = 0,
     a_max_receive_message_size = 0, a_inflight_queue_length = 0, a_will_send_shutdown = False,
     a_next_stream_generation = 0, a_bytes_received = 0, a_bytes_sent = 0, a_peer_verification_tag = 0,
     a_my_verification_tag = 0, a_my_next_tsn = 0, a_peer_last_tsn = 0, a_min_tsn2measure_rtt = 0,
     a_will_send_forward_tsn = False, a_will_retransmit_fast = False, a_will_retransmit_reconfig = False,
     a_will_send_shutdown_ack = False, a_will_send_shutdown_complete = False, a_my_next_rsn = 0,
     a_reconfigs = [], a_reconfig_reset_streams = [], a_active_reconfig = None, a_pending_reset_streams = [],
     a_reconfig_requests = [], a_deferred_reset_data = [], a_max_completed_reconfig_rsn = None,
     a_peer_last_reconfig_rsn = 0, a_peer_reconfig_rsn_initialized = False, a_pending_reset_completions = [],
     a_failed_reset_streams = [], a_retiring_streams = [], a_ready_stream_finishes = [],
     a_delivered_stream_finishes = [], a_deferred_forward_tsns = [], a_remote_addr = (V4 0, 0),
     a_local_ip = None, a_source_port = 0, a_destination_port = 0, a_my_max_num_inbound_streams = 0,
     a_my_max_num_outbound_streams = 0, a_my_cookie = None, a_payload_queue = PayloadQueue_new,
     a_outbound_queue = OutboundQueue_default, a_control_queue = [], a_stream_queue = [], a_mtu = 0,
     a_max_payload_size = 0, a_cumulative_tsn_ack_point = 0, a_advanced_peer_tsn_ack_point = 0,
     a_use_forward_tsn = False, a_rto_mgr = RtoManager_default, a_timers = TimerTable_default,
     a_max_receive_buffer_size = 0, a_cwnd = 0, a_rwnd = 0, a_ssthresh = 0, a_partial_bytes_acked = 0,
     a_in_fast_recovery = False, a_fast_recover_exit_point = 0, a_stored_init = None,
     a_stored_cookie_echo = None, a_streams = [], a_events = [], a_endpoint_events = [], a_error = None,
     a_delayed_ack_triggered = False, a_immediate_ack_triggered = False, a_stats = AssociationStats_default,
     a_ack_state = Idle, a_ack_mode = Normal\<rparr>"

definition u32_mul :: "u32 \<Rightarrow> u32 \<Rightarrow> u32 res" where
  "u32_mul a b = (if unat a * unat b < 2 ^ 32 then Ok (a * b) else Panic)"

definition new_common ::
  "TransportConfig \<Rightarrow> u32 \<Rightarrow> SocketAddr \<Rightarrow> IpAddr option \<Rightarrow> Side \<Rightarrow> u32 \<Rightarrow> u32 \<Rightarrow> Association res" where
  "new_common config max_payload_size remote_addr local_ip side verification_tag initial_tsn =
    rbind (u32_add max_payload_size COMMON_HEADER_SIZE) (\<lambda>mtu.
    rbind (u32_add mtu DATA_CHUNK_HEADER_SIZE) (\<lambda>mtu.
    rbind (u32_mul 4 mtu) (\<lambda>mtu4.
    rbind (u32_mul 2 mtu) (\<lambda>mtu2.
    Ok (Association_default\<lparr>
      a_side := side, a_handshake_completed := False,
      a_max_receive_buffer_size := tc_max_receive_buffer_size config,
      a_max_send_message_size := tc_max_send_message_size config,
      a_max_receive_message_size := tc_max_receive_message_size config,
      a_my_max_num_outbound_streams := tc_max_num_outbound_streams config,
      a_my_max_num_inbound_streams := tc_max_num_inbound_streams config,
      a_max_payload_size := max_payload_size,
      a_rto_mgr := RtoManager_new (tc_rto_initial_ms config) (tc_rto_min_ms config) (tc_rto_max_ms config),
      a_timers := TimerTable_new (tc_max_init_retransmits config) (tc_max_data_retransmits config)
        (tc_rto_max_ms config),
      a_mtu := mtu, a_cwnd := min mtu4 (max mtu2 4380), a_remote_addr := remote_addr, a_local_ip := local_ip,
      a_source_port := tc_local_port config, a_destination_port := tc_remote_port config,
      a_my_verification_tag := verification_tag, a_my_next_tsn := initial_tsn, a_my_next_rsn := initial_tsn,
      a_min_tsn2measure_rtt := initial_tsn, a_cumulative_tsn_ack_point := initial_tsn - 1,
      a_advanced_peer_tsn_ack_point := initial_tsn - 1, a_error := None\<rparr>)))))"

definition set_state :: "AssociationState \<Rightarrow> Association \<Rightarrow> Association" where
  "set_state new_state a = a\<lparr>a_state := new_state\<rparr>"

definition create_packet :: "Association \<Rightarrow> Chunk list \<Rightarrow> Packet" where
  "create_packet a chunks =
    \<lparr>pk_common_header = \<lparr>hd_source_port = a_source_port a, hd_destination_port = a_destination_port a,
       hd_verification_tag = a_peer_verification_tag a\<rparr>, pk_chunks = chunks\<rparr>"

definition push_event :: "Event \<Rightarrow> Association \<Rightarrow> Association" where
  "push_event e a = a\<lparr>a_events := a_events a @ [e]\<rparr>"

definition push_control :: "Packet list \<Rightarrow> Association \<Rightarrow> Association" where
  "push_control ps a = a\<lparr>a_control_queue := a_control_queue a @ ps\<rparr>"

definition upd_timers :: "(TimerTable \<Rightarrow> TimerTable) \<Rightarrow> Association \<Rightarrow> Association" where
  "upd_timers f a = a\<lparr>a_timers := f (a_timers a)\<rparr>"

definition upd_stream :: "u16 \<Rightarrow> (StreamState \<Rightarrow> StreamState) \<Rightarrow> Association \<Rightarrow> Association" where
  "upd_stream sid f a = a\<lparr>a_streams := update_key sid f (a_streams a)\<rparr>"

subsection \<open>Reasoning about results with a state\<close>

lemma abind_simps [simp]:
  "abind (Ok x, s) f = f x s" "abind (Err e, s) f = (Err e, s)" "abind (Panic, s) f = (Panic, s)"
  by (simp_all add: abind_def)

lemma abind_cong [fundef_cong]:
  "m = m' \<Longrightarrow> (\<And>x s. m' = (Ok x, s) \<Longrightarrow> f x s = f' x s) \<Longrightarrow> abind m f = abind m' f'"
  by (auto simp: abind_def split: prod.split res.split)

lemma abind_eq_Ok: "abind m f = (Ok y, t) \<longleftrightarrow> (\<exists>x s. m = (Ok x, s) \<and> f x s = (Ok y, t))"
  by (cases m; cases "fst m") auto

lemma alift_eq_Ok: "alift r s = (Ok x, t) \<longleftrightarrow> r = Ok x \<and> t = s"
  by (auto simp: alift_def)

end
