(* ===== verification/Assoc_Streams.thy ===== *)
theory Assoc_Streams
  imports Assoc_State
begin

text \<open>
  The stream table of an association (\<^verbatim>\<open>src/src/association/mod.rs\<close>): creating and removing
  streams, the receive window, stream resets with their completion events, and closing the
  association. \<open>upd_stream\<close> is \<^verbatim>\<open>streams.get_mut\<close> followed by an assignment.
\<close>

subsection \<open>Creating streams and the receive window\<close>

text \<open>Whether a stream was created; \<^verbatim>\<open>None\<close> of the source is \<open>False\<close>.\<close>

definition create_stream :: "u16 \<Rightarrow> bool \<Rightarrow> PayloadProtocolIdentifier \<Rightarrow> Association \<Rightarrow> bool \<times> Association" where
  "create_stream stream_identifier accept default_payload_type a =
    (let generation = a_next_stream_generation a in
     case u64_checked_add generation 1 of
       None \<Rightarrow> (False, a)
     | Some g \<Rightarrow>
         let a = a\<lparr>a_next_stream_generation := g\<rparr>;
             s = StreamState_new (a_side a) stream_identifier (a_max_payload_size a)
               (a_max_receive_message_size a) default_payload_type;
             s = s\<lparr>ss_stats := (ss_stats s)\<lparr>dcs_generation := generation\<rparr>,
               ss_first_message_id := OutboundQueue_next_message_id (a_outbound_queue a)\<rparr>;
             a = (if accept
                  then push_event (EStream (Opened stream_identifier))
                    (a\<lparr>a_stream_queue := a_stream_queue a @ [stream_identifier]\<rparr>)
                  else a)
         in (True, a\<lparr>a_streams := AList.update stream_identifier s (a_streams a)\<rparr>))"

definition get_or_create_stream :: "u16 \<Rightarrow> Association \<Rightarrow> bool \<times> Association" where
  "get_or_create_stream stream_identifier a =
    (if contains_key (a_streams a) stream_identifier then (True, a)
     else create_stream stream_identifier True PPI_Unknown a)"

fun sum_u32 :: "usize list \<Rightarrow> u32 \<Rightarrow> u32 res" where
  "sum_u32 [] acc = Ok acc"
| "sum_u32 (n # ns) acc = rbind (u32_add acc (as_u32 n)) (\<lambda>acc. sum_u32 ns acc)"

definition get_my_receiver_window_credit :: "Association \<Rightarrow> u32 res" where
  "get_my_receiver_window_credit a =
    rbind (sum_u32 (map get_num_bytes_in_reassembly_queue (vals (a_streams a))) 0) (\<lambda>bytes_queued.
    rbind (sum_u32 (map dlen (vals (a_deferred_reset_data a))) bytes_queued) (\<lambda>bytes_queued.
    Ok (u32_saturating_sub (a_max_receive_buffer_size a) bytes_queued)))"

definition stream_is_readable :: "StreamState \<Rightarrow> bool" where
  "stream_is_readable s \<longleftrightarrow> ss_state s = RS_Readable \<or> ss_state s = RS_ReadWritable"

definition receive_capacity_exhausted :: "Association \<Rightarrow> bool res" where
  "receive_capacity_exhausted a =
    rbind (get_my_receiver_window_credit a) (\<lambda>credit.
    Ok (credit = 0 \<and>
        (a_deferred_reset_data a \<noteq> [] \<or>
         (\<exists>s \<in> set (vals (a_streams a)). get_num_bytes_in_reassembly_queue s > 0)) \<and>
        PayloadQueue_is_empty (a_payload_queue a) \<and>
        \<not> (\<exists>s \<in> set (vals (a_streams a)).
             stream_is_readable s \<and> ReassemblyQueue_is_readable (ss_reassembly_queue s))))"

subsection \<open>Which resets are pending\<close>

fun as_reset_request :: "Param option \<Rightarrow> ParamOutgoingResetRequest option" where
  "as_reset_request (Some (ParamOutgoingResetRequest r)) = Some r"
| "as_reset_request _ = None"

text \<open>The first outgoing reset request among the two parameters of a chunk.\<close>

definition reconfig_reset_request :: "ChunkReconfig \<Rightarrow> ParamOutgoingResetRequest option" where
  "reconfig_reset_request c =
    (case as_reset_request (rc_param_a c) of Some r \<Rightarrow> Some r | None \<Rightarrow> as_reset_request (rc_param_b c))"

definition reset_request_affects_stream :: "ParamOutgoingResetRequest \<Rightarrow> u16 \<Rightarrow> bool" where
  "reset_request_affects_stream request stream_id \<longleftrightarrow>
    rr_stream_identifiers request = [] \<or> stream_id \<in> set (rr_stream_identifiers request)"

definition has_pending_reset_for_stream :: "Association \<Rightarrow> u16 \<Rightarrow> bool" where
  "has_pending_reset_for_stream a stream_id \<longleftrightarrow>
    (\<exists>c \<in> set (vals (a_reconfigs a)).
       case reconfig_reset_request c of Some p \<Rightarrow> reset_request_affects_stream p stream_id | None \<Rightarrow> False)"

definition stream_reset_in_progress :: "Association \<Rightarrow> u16 \<Rightarrow> bool" where
  "stream_reset_in_progress a stream_id \<longleftrightarrow>
    stream_id \<in> set (a_pending_reset_streams a) \<or> has_pending_reset_for_stream a stream_id"

definition stream_reset_blocked :: "Association \<Rightarrow> u16 \<Rightarrow> bool" where
  "stream_reset_blocked a stream_id \<longleftrightarrow>
    PRC_contains (a_pending_reset_completions a) stream_id \<or> stream_id \<in> set (a_failed_reset_streams a) \<or>
    contains_key (a_retiring_streams a) stream_id \<or> stream_reset_in_progress a stream_id"

definition reconfig_stream_ids :: "ChunkReconfig \<Rightarrow> u16 list" where
  "reconfig_stream_ids c = (case reconfig_reset_request c of Some p \<Rightarrow> rr_stream_identifiers p | None \<Rightarrow> [])"

fun packet_reconfig_request_rsn_in :: "Chunk list \<Rightarrow> u32 option" where
  "packet_reconfig_request_rsn_in [] = None"
| "packet_reconfig_request_rsn_in (c # cs) =
    (case c of
       CReconfig r \<Rightarrow>
         (case reconfig_reset_request r of
            Some p \<Rightarrow> Some (rr_reconfig_request_sequence_number p)
          | None \<Rightarrow> packet_reconfig_request_rsn_in cs)
     | _ \<Rightarrow> packet_reconfig_request_rsn_in cs)"

definition packet_reconfig_request_rsn :: "Packet \<Rightarrow> u32 option" where
  "packet_reconfig_request_rsn p = packet_reconfig_request_rsn_in (pk_chunks p)"

fun update_sender_last_tsn :: "u32 \<Rightarrow> Param option \<Rightarrow> Param option" where
  "update_sender_last_tsn sender_last_tsn (Some (ParamOutgoingResetRequest r)) =
    Some (ParamOutgoingResetRequest (r\<lparr>rr_sender_last_tsn := sender_last_tsn\<rparr>))"
| "update_sender_last_tsn sender_last_tsn p = p"

definition reconfig_with_sender_last_tsn :: "ChunkReconfig \<Rightarrow> u32 \<Rightarrow> ChunkReconfig" where
  "reconfig_with_sender_last_tsn c sender_last_tsn =
    \<lparr>rc_param_a = update_sender_last_tsn sender_last_tsn (rc_param_a c),
     rc_param_b = update_sender_last_tsn sender_last_tsn (rc_param_b c)\<rparr>"

definition stream_has_unacked_data :: "Association \<Rightarrow> u16 \<Rightarrow> bool" where
  "stream_has_unacked_data a stream_id \<longleftrightarrow> OutboundQueue_contains_stream (a_outbound_queue a) stream_id"

definition reconfig_has_unacked_data :: "Association \<Rightarrow> u32 \<Rightarrow> bool" where
  "reconfig_has_unacked_data a rsn \<longleftrightarrow>
    (case map_of (a_reconfigs a) rsn of
       None \<Rightarrow> False
     | Some c \<Rightarrow>
         let stream_ids = reconfig_stream_ids c in
         if stream_ids = []
         then OutboundQueue_pending_len (a_outbound_queue a) \<noteq> 0 \<or> OutboundQueue_inflight_len (a_outbound_queue a) \<noteq> 0
         else \<exists>sid \<in> set stream_ids. stream_has_unacked_data a sid)"

definition refresh_unsent_reconfig :: "u32 \<Rightarrow> Association \<Rightarrow> Packet option \<times> Association" where
  "refresh_unsent_reconfig rsn a =
    (let sender_last_tsn = a_my_next_tsn a - 1 in
     case map_of (a_reconfigs a) rsn of
       None \<Rightarrow> (None, a)
     | Some c \<Rightarrow>
         let reconfig = reconfig_with_sender_last_tsn c sender_last_tsn;
             a = a\<lparr>a_reconfigs := AList.update rsn reconfig (a_reconfigs a)\<rparr>
         in (Some (create_packet a [CReconfig reconfig]), a))"

subsection \<open>Removing streams\<close>

definition queue_stream_finished :: "u16 \<Rightarrow> bool \<Rightarrow> Association \<Rightarrow> Association" where
  "queue_stream_finished stream_identifier ready a =
    (let a = push_event (EStream (Finished stream_identifier)) a;
         a = a\<lparr>a_pending_reset_completions := PRC_insert (a_pending_reset_completions a) stream_identifier\<rparr>
     in if ready then a\<lparr>a_ready_stream_finishes := PRC_insert (a_ready_stream_finishes a) stream_identifier\<rparr> else a)"

definition unregister_stream :: "u16 \<Rightarrow> bool \<Rightarrow> Association \<Rightarrow> Association" where
  "unregister_stream stream_identifier emit_stream_finished a =
    (case map_of (a_streams a) stream_identifier of
       Some s \<Rightarrow>
         let a = a\<lparr>a_streams := AList.delete stream_identifier (a_streams a)\<rparr>;
             a = push_event (DataChannelStatsFinal (ss_stats s)) a
         in if emit_stream_finished then queue_stream_finished stream_identifier True a else a
     | None \<Rightarrow> a)"

definition set_open_boundaries :: "u32 \<Rightarrow> DeferredForwardTsn list \<Rightarrow> DeferredForwardTsn list" where
  "set_open_boundaries sender_last_tsn updates =
    map (\<lambda>u. if dft_generation_boundary u = None then u\<lparr>dft_generation_boundary := Some sender_last_tsn\<rparr> else u) updates"

definition retire_stream :: "u16 \<Rightarrow> u32 \<Rightarrow> Association \<Rightarrow> Association" where
  "retire_stream stream_identifier sender_last_tsn a =
    (if contains_key (a_retiring_streams a) stream_identifier then
       let a = a\<lparr>a_retiring_streams :=
                 update_key stream_identifier (\<lambda>b. b @ [sender_last_tsn]) (a_retiring_streams a),
               a_deferred_forward_tsns :=
                 update_key stream_identifier (set_open_boundaries sender_last_tsn) (a_deferred_forward_tsns a)\<rparr>
       in queue_stream_finished stream_identifier False a
     else
       let has_readable_data =
         (case map_of (a_streams a) stream_identifier of
            Some s \<Rightarrow> stream_is_readable s \<and> get_num_bytes_in_reassembly_queue s \<noteq> 0
          | None \<Rightarrow> False)
       in
       if \<not> has_readable_data then
         unregister_stream stream_identifier True
           (a\<lparr>a_deferred_forward_tsns := AList.delete stream_identifier (a_deferred_forward_tsns a)\<rparr>)
       else
         let a = a\<lparr>a_deferred_forward_tsns :=
                   update_key stream_identifier (set_open_boundaries sender_last_tsn) (a_deferred_forward_tsns a),
                 a_retiring_streams := AList.update stream_identifier [sender_last_tsn] (a_retiring_streams a)\<rparr>
         in queue_stream_finished stream_identifier False a)"

definition inherit_stream_state :: "u16 \<Rightarrow> RecvSendState \<Rightarrow> Association \<Rightarrow> Association" where
  "inherit_stream_state stream_identifier inherited_state a =
    upd_stream stream_identifier
      (\<lambda>s. s\<lparr>ss_state := RecvSendState_from (RecvSendState_as_u8 (ss_state s) AND RecvSendState_as_u8 inherited_state)\<rparr>) a"

subsection \<open>Outcomes of resets\<close>

fun emit_reset_complete :: "u16 list \<Rightarrow> Association \<Rightarrow> Association" where
  "emit_reset_complete [] a = a"
| "emit_reset_complete (sid # ids) a =
    (let (notify, prc) = PRC_take_one (a_pending_reset_completions a) sid;
         a = a\<lparr>a_pending_reset_completions := prc,
               a_failed_reset_streams := removeAll sid (a_failed_reset_streams a)\<rparr>;
         reset_blocked = stream_reset_blocked a sid;
         a = (if \<not> reset_blocked then
                let application_closed = (notify \<and>
                  (case map_of (a_streams a) sid of Some s \<Rightarrow> \<not> stream_is_readable s | None \<Rightarrow> False))
                in if application_closed then unregister_stream sid False a
                   else upd_stream sid (\<lambda>s. s\<lparr>ss_sequence_number := 0\<rparr>) a
              else a);
         a = (if notify then push_event (EStream (ResetComplete sid)) a else a)
     in emit_reset_complete ids a)"

fun emit_reset_failed :: "u16 list \<Rightarrow> StreamResetError \<Rightarrow> Association \<Rightarrow> Association" where
  "emit_reset_failed [] reason a = a"
| "emit_reset_failed (sid # ids) reason a =
    (let (_, prc) = PRC_take_one (a_pending_reset_completions a) sid;
         a = a\<lparr>a_pending_reset_completions := prc,
               a_failed_reset_streams := List.insert sid (a_failed_reset_streams a)\<rparr>
     in emit_reset_failed ids reason (push_event (EStream (ResetFailed sid reason)) a))"

text \<open>The outcome \<^verbatim>\<open>Ok(())\<close> is \<open>None\<close>, \<^verbatim>\<open>Err(reason)\<close> is \<open>Some reason\<close>.\<close>

definition finish_reconfig :: "u32 \<Rightarrow> StreamResetError option \<Rightarrow> Association \<Rightarrow> bool \<times> Association" where
  "finish_reconfig rsn outcome a =
    (if a_active_reconfig a \<noteq> Some rsn then (False, a)
     else
       let fallback_ids = (case map_of (a_reconfigs a) rsn of Some c \<Rightarrow> reconfig_stream_ids c | None \<Rightarrow> []);
           a = a\<lparr>a_reconfigs := AList.delete rsn (a_reconfigs a)\<rparr>;
           ids = (case map_of (a_reconfig_reset_streams a) rsn of Some ids \<Rightarrow> ids | None \<Rightarrow> fallback_ids);
           a = a\<lparr>a_reconfig_reset_streams := AList.delete rsn (a_reconfig_reset_streams a),
                 a_active_reconfig := None, a_will_retransmit_reconfig := False\<rparr>;
           a = upd_timers (\<lambda>t. TimerTable_stop t Reconfig) a;
           a = (case outcome of
                  None \<Rightarrow> emit_reset_complete ids a
                | Some reason \<Rightarrow> emit_reset_failed ids reason a)
       in (True, a))"

subsection \<open>Closing\<close>

definition close_all_timers :: "Association \<Rightarrow> Association" where
  "close_all_timers a = fold (\<lambda>t a. upd_timers (\<lambda>tt. TimerTable_stop tt t) a) Timer_VALUES a"

definition close_with_reason :: "AssociationError \<Rightarrow> Association \<Rightarrow> Association" where
  "close_with_reason reason a =
    (if a_state a \<noteq> Closed then
       let a = set_state Closed a;
           a = close_all_timers a;
           a = fold (\<lambda>si a. unregister_stream si False a) (keys (a_streams a)) a;
           a = a\<lparr>a_pending_reset_completions := [], a_failed_reset_streams := [], a_retiring_streams := [],
                 a_ready_stream_finishes := [], a_delivered_stream_finishes := [], a_deferred_forward_tsns := [],
                 a_pending_reset_streams := [], a_reconfigs := [], a_reconfig_reset_streams := [],
                 a_reconfig_requests := [], a_deferred_reset_data := [], a_control_queue := [],
                 a_active_reconfig := None, a_will_retransmit_reconfig := False\<rparr>
       in push_event (AssociationLost reason) a
     else a)"

definition Association_close :: "Association \<Rightarrow> Association" where
  "Association_close a = close_with_reason AssociationClosed a"

definition abort_receive_capacity :: "Association \<Rightarrow> Association" where
  "abort_receive_capacity a =
    (let a = close_with_reason ReceiveBufferExhausted a
     in push_control [create_packet a [CAbort [\<lparr>ec_code = OUT_OF_RESOURCE, ec_raw = []\<rparr>]]] a)"

end
