(* ===== verification/Assoc_Ack.thy ===== *)
theory Assoc_Ack
  imports Assoc_State
begin

text \<open>
  Acknowledgements (\<^verbatim>\<open>src/src/association/mod.rs\<close>, from \<^verbatim>\<open>process_selective_ack\<close> to
  \<^verbatim>\<open>postprocess_sack\<close>, with \<^verbatim>\<open>handle_sack\<close> and \<^verbatim>\<open>advance_peer_tsn_ack_point\<close>): what a SACK takes out
  of the flight, the round-trip measurement, congestion control and fast retransmission.

  A \<^verbatim>\<open>while\<close> loop over TSNs whose condition depends on the TSN only runs over the list of these TSNs
  (\<open>tsns_up_to\<close>, \<open>tsns_before\<close>). The loop of \<^verbatim>\<open>advance_peer_tsn_ack_point\<close> meets a different chunk
  of the flight in every round; its fuel is the number of chunks in flight.
\<close>

subsection \<open>Ranges of TSNs\<close>

function tsns_up_to :: "u32 \<Rightarrow> u32 \<Rightarrow> u32 list" where
  "tsns_up_to i last_tsn = (if sna32lte i last_tsn then i # tsns_up_to (i + 1) last_tsn else [])"
  by pat_completeness auto
termination
proof (relation "measure (\<lambda>(i, d). if sna32lte i d then unat (d - i) + 1 else 0)", goal_cases)
  case (2 i d)
  then show ?case
    by (cases "d = i") (auto simp: sna32lte_off unat_pred_off unat_gt_0 intro!: diff_less)
qed simp

function tsns_before :: "u32 \<Rightarrow> u32 \<Rightarrow> u32 list" where
  "tsns_before i stop = (if sna32lt i stop then i # tsns_before (i + 1) stop else [])"
  by pat_completeness auto
termination
proof (relation "measure (\<lambda>(i, d). unat (d - i))", goal_cases)
  case (2 i d)
  then show ?case by (cases "d = i") (auto simp: sna32lt_off unat_pred_off)
qed simp

declare tsns_up_to.simps [simp del] tsns_before.simps [simp del]


subsection \<open>Processing a SACK\<close>

definition duration_millis :: "nat \<Rightarrow> u64" where
  "duration_millis d = of_nat (d div 1000000)"

text \<open>An RTT measurement from a chunk that was sent once.\<close>

definition measure_rtt :: "ChunkPayloadData \<Rightarrow> instant \<Rightarrow> Association \<Rightarrow> unit res \<times> Association" where
  "measure_rtt c now a =
    (let a = a\<lparr>a_min_tsn2measure_rtt := a_my_next_tsn a\<rparr> in
     case d_since c of
       Some since \<Rightarrow>
         (case RtoManager_set_new_rtt (a_rto_mgr a) (duration_millis (now - since)) of
            Ok (_, m) \<Rightarrow> (Ok (), a\<lparr>a_rto_mgr := m\<rparr>)
          | Err e \<Rightarrow> (Err e, a)
          | Panic \<Rightarrow> (Panic, a))
     | None \<Rightarrow> (Ok (), a))"

text \<open>The stream's share of the acknowledged bytes, unless the chunk belongs to an older stream of that number.\<close>

definition add_acked :: "Association \<Rightarrow> ChunkPayloadData \<Rightarrow> int \<Rightarrow> (u16, int) hash_map \<Rightarrow> (u16, int) hash_map" where
  "add_acked a c n_bytes_acked m =
    (if (case map_of (a_streams a) (d_stream_identifier c) of
           Some stream \<Rightarrow> d_message_id c < ss_first_message_id stream | None \<Rightarrow> False)
     then m
     else AList.update (d_stream_identifier c)
       ((case map_of m (d_stream_identifier c) of Some n \<Rightarrow> n | None \<Rightarrow> 0) + n_bytes_acked) m)"

definition ack_cumulative ::
  "instant \<Rightarrow> u32 \<Rightarrow> (u16, int) hash_map \<times> bool \<Rightarrow> Association \<Rightarrow> ((u16, int) hash_map \<times> bool) res \<times> Association" where
  "ack_cumulative now i v a =
    (let (bytes_acked_per_stream, newly_acked_data) = v in
     case OutboundQueue_pop (a_outbound_queue a) i of
       (None, q) \<Rightarrow> (Err ErrInflightQueueTsnPop, a\<lparr>a_outbound_queue := q\<rparr>)
     | (Some c, q) \<Rightarrow>
         let a = a\<lparr>a_outbound_queue := q\<rparr>;
             newly_acked_data = (newly_acked_data \<or> (\<not> d_acked c \<and> d_nsent c > 0))
         in
         abind
           (if \<not> d_acked c \<and> \<not> d_abandoned c then
              let m = add_acked a c (int (dlen c)) bytes_acked_per_stream in
              if d_nsent c = 1 \<and> sna32gte (d_tsn c) (a_min_tsn2measure_rtt a)
              then abind (measure_rtt c now a) (\<lambda>_ a. (Ok m, a))
              else (Ok m, a)
            else (Ok bytes_acked_per_stream, a)) (\<lambda>m a.
         (Ok (m, newly_acked_data),
          if a_in_fast_recovery a \<and> d_tsn c = a_fast_recover_exit_point a
          then a\<lparr>a_in_fast_recovery := False\<rparr> else a)))"

definition gap_tsns :: "u32 \<Rightarrow> GapAckBlock list \<Rightarrow> u32 list" where
  "gap_tsns cumulative_tsn_ack blocks =
    concat (map (\<lambda>g. map (\<lambda>i. cumulative_tsn_ack + of_nat i) [unat (gab_start g)..<unat (gab_end g) + 1]) blocks)"

definition ack_gap ::
  "instant \<Rightarrow> u32 \<Rightarrow> (u16, int) hash_map \<times> bool \<times> u32 \<Rightarrow> Association
    \<Rightarrow> ((u16, int) hash_map \<times> bool \<times> u32) res \<times> Association" where
  "ack_gap now tsn v a =
    (let (bytes_acked_per_stream, newly_acked_data, htna) = v in
     case OutboundQueue_get (a_outbound_queue a) tsn of
       None \<Rightarrow> (Err ErrTsnRequestNotExist, a)
     | Some c0 \<Rightarrow>
         let newly_acked_data = (newly_acked_data \<or> (\<not> d_acked c0 \<and> d_nsent c0 > 0));
             is_acked = d_acked c0
         in
         abind
           (if \<not> is_acked then
              (case OutboundQueue_mark_as_acked (a_outbound_queue a) tsn of
                 Ok (n, q) \<Rightarrow> (Ok (int n), a\<lparr>a_outbound_queue := q\<rparr>)
               | Err e \<Rightarrow> (Err e, a)
               | Panic \<Rightarrow> (Panic, a))
            else (Ok 0, a)) (\<lambda>n_bytes_acked a.
         case OutboundQueue_get (a_outbound_queue a) tsn of
           None \<Rightarrow> (Err ErrTsnRequestNotExist, a)
         | Some c \<Rightarrow>
             if \<not> is_acked \<and> \<not> d_abandoned c then
               let m = add_acked a c n_bytes_acked bytes_acked_per_stream in
               abind (if d_nsent c = 1 then measure_rtt c now a else (Ok (), a)) (\<lambda>_ a.
               (Ok (m, newly_acked_data, if sna32lt htna tsn then tsn else htna), a))
             else (Ok (bytes_acked_per_stream, newly_acked_data, htna), a)))"

definition process_selective_ack ::
  "ChunkSelectiveAck \<Rightarrow> instant \<Rightarrow> Association \<Rightarrow> ((u16, int) hash_map \<times> u32) res \<times> Association" where
  "process_selective_ack d now a =
    (let earliest_outstanding = OutboundQueue_earliest_outstanding_tsn (a_outbound_queue a) in
     abind (afold (ack_cumulative now)
         (tsns_up_to (a_cumulative_tsn_ack_point a + 1) (sa_cumulative_tsn_ack d)) ([], False) a)
       (\<lambda>(bytes_acked_per_stream, newly_acked_data) a.
     abind (afold (ack_gap now) (gap_tsns (sa_cumulative_tsn_ack d) (sa_gap_ack_blocks d))
         (bytes_acked_per_stream, newly_acked_data, sa_cumulative_tsn_ack d) a)
       (\<lambda>(bytes_acked_per_stream, newly_acked_data, htna) a.
     let a = (if newly_acked_data then upd_timers (\<lambda>t. TimerTable_reset_retrans t T3RTX) a else a);
         a = (if (case earliest_outstanding of
                    Some tsn \<Rightarrow> sna32lte tsn (sa_cumulative_tsn_ack d) \<or>
                      (case OutboundQueue_get (a_outbound_queue a) tsn of Some c \<Rightarrow> d_acked c | None \<Rightarrow> False)
                  | None \<Rightarrow> False)
              then upd_timers (\<lambda>t. TimerTable_set t T3RTX None) a else a)
     in (Ok (bytes_acked_per_stream, htna), a))))"

subsection \<open>Congestion control\<close>

definition on_cumulative_tsn_ack_point_advanced :: "int \<Rightarrow> instant \<Rightarrow> Association \<Rightarrow> unit res \<times> Association" where
  "on_cumulative_tsn_ack_point_advanced total_bytes_acked now a =
    (let a = (if OutboundQueue_inflight_len (a_outbound_queue a) = 0
              then upd_timers (\<lambda>t. TimerTable_stop t T3RTX) a
              else upd_timers (\<lambda>t. TimerTable_restart_if_stale t T3RTX now (RtoManager_get_rto (a_rto_mgr a))) a)
     in
     if a_cwnd a \<le> a_ssthresh a then
       if \<not> a_in_fast_recovery a \<and> OutboundQueue_pending_len (a_outbound_queue a) \<noteq> 0 then
         (case u32_add (a_cwnd a) (min (of_int total_bytes_acked) (a_cwnd a)) of
            Ok cwnd \<Rightarrow> (Ok (), a\<lparr>a_cwnd := cwnd\<rparr>) | Err e \<Rightarrow> (Err e, a) | Panic \<Rightarrow> (Panic, a))
       else (Ok (), a)
     else
       (case u32_add (a_partial_bytes_acked a) (of_int total_bytes_acked) of
          Ok partial_bytes_acked \<Rightarrow>
            let a = a\<lparr>a_partial_bytes_acked := partial_bytes_acked\<rparr> in
            if a_partial_bytes_acked a \<ge> a_cwnd a \<and> OutboundQueue_pending_len (a_outbound_queue a) \<noteq> 0 then
              let a = a\<lparr>a_partial_bytes_acked := a_partial_bytes_acked a - a_cwnd a\<rparr> in
              (case u32_add (a_cwnd a) (a_mtu a) of
                 Ok cwnd \<Rightarrow> (Ok (), a\<lparr>a_cwnd := cwnd\<rparr>) | Err e \<Rightarrow> (Err e, a) | Panic \<Rightarrow> (Panic, a))
            else (Ok (), a)
        | Err e \<Rightarrow> (Err e, a)
        | Panic \<Rightarrow> (Panic, a)))"

definition enter_fast_recovery :: "u32 \<Rightarrow> Association \<Rightarrow> unit res \<times> Association" where
  "enter_fast_recovery htna a =
    (let a = a\<lparr>a_in_fast_recovery := True, a_fast_recover_exit_point := htna\<rparr> in
     case u32_mul 4 (a_mtu a) of
       Ok mtu4 \<Rightarrow>
         let a = a\<lparr>a_ssthresh := max (a_cwnd a div 2) mtu4\<rparr>
         in (Ok (), a\<lparr>a_cwnd := a_ssthresh a, a_partial_bytes_acked := 0, a_will_retransmit_fast := True\<rparr>)
     | Err e \<Rightarrow> (Err e, a)
     | Panic \<Rightarrow> (Panic, a))"

definition miss_chunk :: "u32 \<Rightarrow> u32 \<Rightarrow> Association \<Rightarrow> unit res \<times> Association" where
  "miss_chunk htna tsn a =
    (case OutboundQueue_get (a_outbound_queue a) tsn of
       None \<Rightarrow> (Err ErrTsnRequestNotExist, a)
     | Some c \<Rightarrow>
         if \<not> d_acked c \<and> \<not> d_abandoned c \<and> d_miss_indicator c < 3 then
           let a = a\<lparr>a_outbound_queue := OutboundQueue_get_mut (a_outbound_queue a) tsn
                       (\<lambda>c. c\<lparr>d_miss_indicator := d_miss_indicator c + 1\<rparr>)\<rparr>
           in if d_miss_indicator c + 1 = 3 \<and> \<not> a_in_fast_recovery a then enter_fast_recovery htna a else (Ok (), a)
         else (Ok (), a))"

definition process_fast_retransmission :: "u32 \<Rightarrow> u32 \<Rightarrow> bool \<Rightarrow> Association \<Rightarrow> unit res \<times> Association" where
  "process_fast_retransmission cum_tsn_ack_point htna cum_tsn_ack_point_advanced a =
    abind
      (if \<not> a_in_fast_recovery a \<or> cum_tsn_ack_point_advanced then
         let max_tsn = (if \<not> a_in_fast_recovery a then htna
                        else cum_tsn_ack_point + as_u32 (OutboundQueue_inflight_len (a_outbound_queue a)) + 1)
         in afor (tsns_before (cum_tsn_ack_point + 1) max_tsn) (miss_chunk htna) a
       else (Ok (), a)) (\<lambda>_ a.
    (Ok (), if a_in_fast_recovery a \<and> cum_tsn_ack_point_advanced then a\<lparr>a_will_retransmit_fast := True\<rparr> else a))"

subsection \<open>The advanced peer acknowledgement point\<close>

primrec advance_over_abandoned :: "nat \<Rightarrow> OutboundQueue \<Rightarrow> u32 \<Rightarrow> u32" where
  "advance_over_abandoned 0 q point = point"
| "advance_over_abandoned (Suc fuel) q point =
    (if OutboundQueue_is_abandoned q (point + 1) then advance_over_abandoned fuel q (point + 1) else point)"

definition advance_peer_tsn_ack_point :: "Association \<Rightarrow> Association" where
  "advance_peer_tsn_ack_point a =
    (let a = (if sna32lt (a_advanced_peer_tsn_ack_point a) (a_cumulative_tsn_ack_point a)
              then a\<lparr>a_advanced_peer_tsn_ack_point := a_cumulative_tsn_ack_point a\<rparr> else a)
     in a\<lparr>a_advanced_peer_tsn_ack_point :=
          advance_over_abandoned (OutboundQueue_inflight_len (a_outbound_queue a)) (a_outbound_queue a)
            (a_advanced_peer_tsn_ack_point a)\<rparr>)"

subsection \<open>The handler\<close>

definition release_buffer :: "u16 \<Rightarrow> int \<Rightarrow> Association \<Rightarrow> unit res \<times> Association" where
  "release_buffer si n a =
    (case map_of (a_streams a) si of
       Some s \<Rightarrow>
         abind (alift (on_buffer_released s n) a) (\<lambda>(low, s) a.
         let a = upd_stream si (\<lambda>_. s) a in
         (Ok (), if low then push_event (EStream (BufferedAmountLow si)) a else a))
     | None \<Rightarrow> (Ok (), a))"

definition postprocess_sack :: "AssociationState \<Rightarrow> instant \<Rightarrow> Association \<Rightarrow> Association" where
  "postprocess_sack state now a =
    (if OutboundQueue_inflight_len (a_outbound_queue a) \<noteq> 0
     then upd_timers (\<lambda>t. TimerTable_restart_if_stale t T3RTX now (RtoManager_get_rto (a_rto_mgr a))) a
     else if state = ShutdownPending then set_state ShutdownSent (a\<lparr>a_will_send_shutdown := True\<rparr>)
     else if state = ShutdownReceived then set_state ShutdownAckSent (a\<lparr>a_will_send_shutdown_ack := True\<rparr>)
     else a)"

definition handle_sack :: "ChunkSelectiveAck \<Rightarrow> instant \<Rightarrow> Association \<Rightarrow> Packet list res \<times> Association" where
  "handle_sack d now a =
    (let state = a_state a in
     if state \<noteq> Established \<and> state \<noteq> ShutdownPending \<and> state \<noteq> ShutdownReceived then (Ok [], a)
     else
       let a = a\<lparr>a_stats := inc_sacks (a_stats a)\<rparr> in
       if sna32gt (a_cumulative_tsn_ack_point a) (sa_cumulative_tsn_ack d) then (Ok [], a)
       else
         let outstanding_before = OutboundQueue_inflight_bytes (a_outbound_queue a) in
         abind (process_selective_ack d now a) (\<lambda>(bytes_acked_per_stream, htna) a.
         abind (alift (usize_sub outstanding_before (OutboundQueue_inflight_bytes (a_outbound_queue a))) a)
           (\<lambda>total_bytes_acked a.
         let cum_tsn_ack_point_advanced = sna32lt (a_cumulative_tsn_ack_point a) (sa_cumulative_tsn_ack d) in
         abind
           (if cum_tsn_ack_point_advanced
            then on_cumulative_tsn_ack_point_advanced (int total_bytes_acked) now
              (a\<lparr>a_cumulative_tsn_ack_point := sa_cumulative_tsn_ack d\<rparr>)
            else (Ok (), a)) (\<lambda>_ a.
         abind (afor bytes_acked_per_stream (\<lambda>(si, n). release_buffer si n) a) (\<lambda>_ a.
         let bytes_outstanding = as_u32 (OutboundQueue_inflight_bytes (a_outbound_queue a));
             a = a\<lparr>a_rwnd := (if bytes_outstanding \<ge> sa_advertised_receiver_window_credit d then 0
                              else sa_advertised_receiver_window_credit d - bytes_outstanding)\<rparr>
         in
         abind (process_fast_retransmission (sa_cumulative_tsn_ack d) htna cum_tsn_ack_point_advanced a) (\<lambda>_ a.
         let a = (if a_use_forward_tsn a then
                    let a = advance_peer_tsn_ack_point a in
                    if sna32gt (a_advanced_peer_tsn_ack_point a) (a_cumulative_tsn_ack_point a)
                    then a\<lparr>a_will_send_forward_tsn := True\<rparr> else a
                  else a)
         in (Ok [], postprocess_sack state now a)))))))"

end
