(* ===== verification/Assoc_Deferred.thy ===== *)
theory Assoc_Deferred
  imports Assoc_Streams
begin

text \<open>
  Data and forward TSNs that belong to a later generation of a stream than the one the application
  still reads (\<^verbatim>\<open>src/src/association/mod.rs\<close>, from \<^verbatim>\<open>data_is_above_pending_reset\<close> to
  \<^verbatim>\<open>release_deferred_reset_data\<close>, with \<^verbatim>\<open>finish_retiring_stream\<close> and \<^verbatim>\<open>discard_retiring_streams\<close>).
  The loop of \<^verbatim>\<open>finish_retiring_stream\<close> takes one boundary of the retiring stream per round; its fuel
  is the number of boundaries plus one, and running out of it is a \<open>Panic\<close>.
\<close>

subsection \<open>Generations\<close>

definition data_is_above_pending_reset :: "Association \<Rightarrow> ChunkPayloadData \<Rightarrow> bool" where
  "data_is_above_pending_reset a d \<longleftrightarrow>
    contains_key (a_retiring_streams a) (d_stream_identifier d) \<or>
    (\<exists>request \<in> set (vals (a_reconfig_requests a)).
       reset_request_affects_stream request (d_stream_identifier d) \<and> sna32gt (d_tsn d) (rr_sender_last_tsn request))"

definition current_reset_boundary :: "Association \<Rightarrow> u16 \<Rightarrow> u32 option" where
  "current_reset_boundary a stream_identifier =
    (case map_of (a_retiring_streams a) stream_identifier of
       Some (b # _) \<Rightarrow> Some b | _ \<Rightarrow> None)"

definition pending_reset_boundary :: "Association \<Rightarrow> u16 \<Rightarrow> u32 option" where
  "pending_reset_boundary a stream_identifier =
    map_option rr_sender_last_tsn
      (List.find (\<lambda>request. reset_request_affects_stream request stream_identifier) (vals (a_reconfig_requests a)))"

definition forward_tsn_applies_to_current_generation :: "Association \<Rightarrow> u16 \<Rightarrow> bool" where
  "forward_tsn_applies_to_current_generation a stream_identifier \<longleftrightarrow>
    current_reset_boundary a stream_identifier = None \<or>
    current_reset_boundary a stream_identifier = pending_reset_boundary a stream_identifier"

fun generation_bounds_loop :: "u32 \<Rightarrow> u32 \<Rightarrow> u32 list \<Rightarrow> u32 \<times> u32 option" where
  "generation_bounds_loop tsn lower [] = (lower, None)"
| "generation_bounds_loop tsn lower (upper # bs) =
    (if sna32lte tsn upper then (lower, Some upper) else generation_bounds_loop tsn upper bs)"

definition deferred_generation_bounds :: "Association \<Rightarrow> u16 \<Rightarrow> u32 \<Rightarrow> (u32 \<times> u32 option) option" where
  "deferred_generation_bounds a stream_identifier tsn =
    (let boundaries = (case map_of (a_retiring_streams a) stream_identifier of Some bs \<Rightarrow> bs | None \<Rightarrow> []);
         boundaries = (case pending_reset_boundary a stream_identifier of
           Some p \<Rightarrow> if boundaries = [] \<or> last boundaries \<noteq> p then boundaries @ [p] else boundaries
         | None \<Rightarrow> boundaries)
     in case boundaries of [] \<Rightarrow> None | lower # bs \<Rightarrow> Some (generation_bounds_loop tsn lower bs))"

text \<open>A list updated at the first element that satisfies a predicate (\<^verbatim>\<open>iter_mut().find\<close>).\<close>

fun upd_first :: "('a \<Rightarrow> bool) \<Rightarrow> ('a \<Rightarrow> 'a) \<Rightarrow> 'a list \<Rightarrow> 'a option \<times> 'a list" where
  "upd_first P f [] = (None, [])"
| "upd_first P f (x # xs) =
    (if P x then (Some (f x), f x # xs) else (case upd_first P f xs of (r, ys) \<Rightarrow> (r, x # ys)))"

subsection \<open>Releasing credit of abandoned messages\<close>

fun push_chunks :: "ChunkPayloadData list \<Rightarrow> ReassemblyQueue \<Rightarrow> unit res \<times> ReassemblyQueue" where
  "push_chunks [] q = (Ok (), q)"
| "push_chunks (c # cs) q = abind (ReassemblyQueue_push q c) (\<lambda>_ q. push_chunks cs q)"

fun apply_forward_kind :: "DeferredForwardTsnKind \<Rightarrow> ReassemblyQueue \<Rightarrow> ReassemblyQueue" where
  "apply_forward_kind (DOrdered last_ssn new_cumulative_tsn) q =
    forward_tsn_for_ordered_bounded q last_ssn new_cumulative_tsn"
| "apply_forward_kind (DUnordered new_cumulative_tsn) q = forward_tsn_for_unordered q new_cumulative_tsn"

definition queue_tsns :: "ReassemblyQueue \<Rightarrow> u32 list" where
  "queue_tsns q = map d_tsn (concat (map ck_chunks (rq_ordered q @ rq_unordered q)) @ rq_unordered_chunks q)"

definition generation_key :: "Association \<Rightarrow> u16 \<Rightarrow> ChunkPayloadData \<Rightarrow> u32" where
  "generation_key a stream_identifier chunk =
    (case deferred_generation_bounds a stream_identifier (d_tsn chunk) of
       Some (lower, _) \<Rightarrow> d_tsn chunk - lower | None \<Rightarrow> 0)"

definition prune_deferred_reset_data_for_forward_tsn ::
  "u16 \<Rightarrow> u32 option \<Rightarrow> DeferredForwardTsnKind \<Rightarrow> Association \<Rightarrow> unit res \<times> Association" where
  "prune_deferred_reset_data_for_forward_tsn stream_identifier generation_boundary kind a =
    (let chunks = filter (\<lambda>chunk. d_stream_identifier chunk = stream_identifier \<and>
           (case deferred_generation_bounds a stream_identifier (d_tsn chunk) of
              Some (_, upper) \<Rightarrow> upper = generation_boundary | None \<Rightarrow> False)) (vals (a_deferred_reset_data a))
     in if chunks = [] then (Ok (), a)
     else
       let chunks = sort_by (\<lambda>c d. generation_key a stream_identifier c < generation_key a stream_identifier d) chunks;
           targeted_tsns = map d_tsn chunks
       in case push_chunks chunks (ReassemblyQueue_new stream_identifier (a_max_receive_message_size a)) of
            (Panic, _) \<Rightarrow> (Panic, a)
          | (Err _, _) \<Rightarrow> (Ok (), a)
          | (Ok (), q) \<Rightarrow>
              let q = apply_forward_kind kind q;
                  retained_tsns = queue_tsns q
              in (Ok (), a\<lparr>a_deferred_reset_data :=
                    filter (\<lambda>(tsn, _). tsn \<notin> set targeted_tsns \<or> tsn \<in> set retained_tsns) (a_deferred_reset_data a)\<rparr>))"

subsection \<open>Forward TSNs\<close>

definition ordered_matches :: "u32 option \<Rightarrow> u16 \<Rightarrow> DeferredForwardTsn \<Rightarrow> bool" where
  "ordered_matches generation_boundary last_ssn update \<longleftrightarrow>
    dft_generation_boundary update = generation_boundary \<and>
    (case dft_kind update of
       DOrdered previous_ssn _ \<Rightarrow>
         previous_ssn = last_ssn \<or> (generation_boundary \<noteq> None \<and> sna16lt previous_ssn last_ssn)
     | DUnordered _ \<Rightarrow> False)"

definition ordered_merge :: "u16 \<Rightarrow> u32 \<Rightarrow> DeferredForwardTsn \<Rightarrow> DeferredForwardTsn" where
  "ordered_merge last_ssn new_cumulative_tsn update =
    (case dft_kind update of
       DOrdered previous_ssn previous_cumulative_tsn \<Rightarrow>
         update\<lparr>dft_kind := DOrdered (if sna16lt previous_ssn last_ssn then last_ssn else previous_ssn)
           (if sna32lt previous_cumulative_tsn new_cumulative_tsn then new_cumulative_tsn else previous_cumulative_tsn)\<rparr>
     | DUnordered _ \<Rightarrow> update)"

definition forward_updates :: "Association \<Rightarrow> u16 \<Rightarrow> DeferredForwardTsn list" where
  "forward_updates a stream_identifier =
    (case map_of (a_deferred_forward_tsns a) stream_identifier of Some us \<Rightarrow> us | None \<Rightarrow> [])"

definition apply_or_defer_ordered_forward_tsn :: "u16 \<Rightarrow> u16 \<Rightarrow> u32 \<Rightarrow> Association \<Rightarrow> unit res \<times> Association" where
  "apply_or_defer_ordered_forward_tsn stream_identifier last_ssn new_cumulative_tsn a =
    (if \<not> forward_tsn_applies_to_current_generation a stream_identifier then
       let generation_boundary = pending_reset_boundary a stream_identifier;
           updates = forward_updates a stream_identifier;
           (kind, updates) =
             (case upd_first (ordered_matches generation_boundary last_ssn) (ordered_merge last_ssn new_cumulative_tsn)
                     updates of
                (Some previous, updates) \<Rightarrow> (dft_kind previous, updates)
              | (None, updates) \<Rightarrow>
                  let kind = DOrdered last_ssn new_cumulative_tsn
                  in (kind, updates @ [\<lparr>dft_generation_boundary = generation_boundary, dft_kind = kind\<rparr>]));
           a = a\<lparr>a_deferred_forward_tsns := AList.update stream_identifier updates (a_deferred_forward_tsns a)\<rparr>
       in prune_deferred_reset_data_for_forward_tsn stream_identifier generation_boundary kind a
     else
       case map_of (a_streams a) stream_identifier of
         None \<Rightarrow> (Ok (), a)
       | Some stream \<Rightarrow>
           let was_readable = ReassemblyQueue_is_readable (ss_reassembly_queue stream);
               q = forward_tsn_for_ordered (ss_reassembly_queue stream) last_ssn;
               a = upd_stream stream_identifier (\<lambda>s. s\<lparr>ss_reassembly_queue := q\<rparr>) a
           in (Ok (), if \<not> was_readable \<and> ReassemblyQueue_is_readable q
                      then push_event (EStream (StreamReadable stream_identifier)) a else a))"

definition unordered_matches :: "u32 option \<Rightarrow> DeferredForwardTsn \<Rightarrow> bool" where
  "unordered_matches generation_boundary update \<longleftrightarrow>
    dft_generation_boundary update = generation_boundary \<and>
    (case dft_kind update of DUnordered _ \<Rightarrow> True | DOrdered _ _ \<Rightarrow> False)"

definition unordered_merge :: "u32 \<Rightarrow> DeferredForwardTsn \<Rightarrow> DeferredForwardTsn" where
  "unordered_merge new_cumulative_tsn update =
    (case dft_kind update of
       DUnordered previous_cumulative_tsn \<Rightarrow>
         update\<lparr>dft_kind := DUnordered
           (if sna32lt previous_cumulative_tsn new_cumulative_tsn then new_cumulative_tsn else previous_cumulative_tsn)\<rparr>
     | DOrdered _ _ \<Rightarrow> update)"

definition apply_or_defer_unordered_forward_tsn :: "u16 \<Rightarrow> u32 \<Rightarrow> Association \<Rightarrow> unit res \<times> Association" where
  "apply_or_defer_unordered_forward_tsn stream_identifier new_cumulative_tsn a =
    (if \<not> forward_tsn_applies_to_current_generation a stream_identifier then
       let generation_boundary = pending_reset_boundary a stream_identifier;
           updates = forward_updates a stream_identifier;
           (kind, updates) =
             (case upd_first (unordered_matches generation_boundary) (unordered_merge new_cumulative_tsn) updates of
                (Some previous, updates) \<Rightarrow> (dft_kind previous, updates)
              | (None, updates) \<Rightarrow>
                  let kind = DUnordered new_cumulative_tsn
                  in (kind, updates @ [\<lparr>dft_generation_boundary = generation_boundary, dft_kind = kind\<rparr>]));
           a = a\<lparr>a_deferred_forward_tsns := AList.update stream_identifier updates (a_deferred_forward_tsns a)\<rparr>
       in prune_deferred_reset_data_for_forward_tsn stream_identifier generation_boundary kind a
     else
       (Ok (), upd_stream stream_identifier
          (\<lambda>s. s\<lparr>ss_reassembly_queue := forward_tsn_for_unordered (ss_reassembly_queue s) new_cumulative_tsn\<rparr>) a))"

definition apply_unordered_forward_tsn_to_current_streams :: "u32 \<Rightarrow> Association \<Rightarrow> unit res \<times> Association" where
  "apply_unordered_forward_tsn_to_current_streams new_cumulative_tsn a =
    afor (keys (a_streams a)) (\<lambda>sid. apply_or_defer_unordered_forward_tsn sid new_cumulative_tsn) a"

definition deferred_forward_tsn_application ::
  "Association \<Rightarrow> u16 \<Rightarrow> DeferredForwardTsn \<Rightarrow> (DeferredForwardTsnKind \<times> bool) option" where
  "deferred_forward_tsn_application a stream_identifier update =
    (case dft_kind update of
       DOrdered last_ssn new_cumulative_tsn \<Rightarrow>
         (case map_of (a_streams a) stream_identifier of
            None \<Rightarrow> None
          | Some stream \<Rightarrow>
              (case applicable_forward_tsn_for_ordered_bounded (ss_reassembly_queue stream) last_ssn
                      new_cumulative_tsn (a_peer_last_tsn a) of
                 Some applicable_last_ssn \<Rightarrow>
                   Some (DOrdered applicable_last_ssn new_cumulative_tsn, applicable_last_ssn = last_ssn)
               | None \<Rightarrow> None))
     | DUnordered t \<Rightarrow> Some (DUnordered t, True))"

definition apply_deferred_forward_tsns :: "u16 \<Rightarrow> Association \<Rightarrow> Association" where
  "apply_deferred_forward_tsns stream_identifier a =
    (case (map_of (a_streams a) stream_identifier, map_of (a_deferred_forward_tsns a) stream_identifier) of
       (Some stream, Some updates) \<Rightarrow>
         let boundary = current_reset_boundary a stream_identifier;
             application = (\<lambda>update.
               if dft_generation_boundary update = boundary
               then deferred_forward_tsn_application a stream_identifier update else None);
             remove = (\<lambda>update. case application update of Some (_, r) \<Rightarrow> r | None \<Rightarrow> False);
             ready = map fst (List.map_filter application updates)
         in if ready = [] then a
         else
           let updates = filter (\<lambda>u. \<not> remove u) updates;
               a = a\<lparr>a_deferred_forward_tsns :=
                 (if updates = [] then AList.delete stream_identifier (a_deferred_forward_tsns a)
                  else AList.update stream_identifier updates (a_deferred_forward_tsns a))\<rparr>;
               was_readable = ReassemblyQueue_is_readable (ss_reassembly_queue stream);
               q = fold apply_forward_kind ready (ss_reassembly_queue stream);
               a = upd_stream stream_identifier (\<lambda>s. s\<lparr>ss_reassembly_queue := q\<rparr>) a
           in if \<not> was_readable \<and> ReassemblyQueue_is_readable q
              then push_event (EStream (StreamReadable stream_identifier)) a else a
     | _ \<Rightarrow> a)"

definition discard_deferred_forward_tsns_through :: "u16 \<Rightarrow> u32 \<Rightarrow> Association \<Rightarrow> Association" where
  "discard_deferred_forward_tsns_through stream_identifier boundary a =
    (case map_of (a_deferred_forward_tsns a) stream_identifier of
       Some updates \<Rightarrow>
         let updates = filter (\<lambda>u. dft_generation_boundary u \<noteq> Some boundary) updates
         in a\<lparr>a_deferred_forward_tsns :=
           (if updates = [] then AList.delete stream_identifier (a_deferred_forward_tsns a)
            else AList.update stream_identifier updates (a_deferred_forward_tsns a))\<rparr>
     | None \<Rightarrow> a)"

subsection \<open>Deferred data\<close>

text \<open>\<^verbatim>\<open>handle_data\<close> of the stream, with the events that follow it.\<close>

definition stream_handle_data :: "ChunkPayloadData \<Rightarrow> Association \<Rightarrow> bool res \<times> Association" where
  "stream_handle_data d a =
    (case map_of (a_streams a) (d_stream_identifier d) of
       None \<Rightarrow> (Ok False, a)
     | Some s \<Rightarrow>
         (case StreamState_handle_data s d of
            (r, s) \<Rightarrow> (r, upd_stream (d_stream_identifier d) (\<lambda>_. s) a)))"

definition readable_now :: "u16 \<Rightarrow> Association \<Rightarrow> bool" where
  "readable_now sid a \<longleftrightarrow>
    (case map_of (a_streams a) sid of
       Some s \<Rightarrow> ReassemblyQueue_is_readable (ss_reassembly_queue s) | None \<Rightarrow> False)"

definition deliver_deferred_reset_data :: "ChunkPayloadData \<Rightarrow> Association \<Rightarrow> unit res \<times> Association" where
  "deliver_deferred_reset_data d a =
    (case get_or_create_stream (d_stream_identifier d) a of
       (False, a) \<Rightarrow> (Ok (), a)
     | (True, a) \<Rightarrow>
         if \<not> contains_key (a_streams a) (d_stream_identifier d) then (Ok (), a)
         else
           abind (stream_handle_data d a) (\<lambda>queued a.
           let a = push_event DatagramReceived a
           in (Ok (), if queued \<and> readable_now (d_stream_identifier d) a
                      then push_event (EStream (StreamReadable (d_stream_identifier d))) a else a)))"

definition deliver_and_forget :: "ChunkPayloadData \<Rightarrow> Association \<Rightarrow> unit res \<times> Association" where
  "deliver_and_forget chunk a =
    abind (deliver_deferred_reset_data chunk a) (\<lambda>_ a.
    (Ok (), a\<lparr>a_deferred_reset_data := AList.delete (d_tsn chunk) (a_deferred_reset_data a)\<rparr>))"

definition release_deferred_generation_data :: "u16 \<Rightarrow> u32 \<Rightarrow> u32 \<Rightarrow> Association \<Rightarrow> unit res \<times> Association" where
  "release_deferred_generation_data stream_identifier previous_boundary boundary a =
    (let ready = filter (\<lambda>chunk. d_stream_identifier chunk = stream_identifier \<and>
           sna32gt (d_tsn chunk) previous_boundary \<and> sna32lte (d_tsn chunk) boundary) (vals (a_deferred_reset_data a));
         ready = sort_by (\<lambda>c d. d_tsn c - previous_boundary < d_tsn d - previous_boundary) ready
     in abind (afor ready deliver_and_forget a) (\<lambda>_ a.
        (Ok (), apply_deferred_forward_tsns stream_identifier a)))"

definition validate_deferred_reset_data :: "ChunkPayloadData \<Rightarrow> Association \<Rightarrow> unit res" where
  "validate_deferred_reset_data d a =
    (case deferred_generation_bounds a (d_stream_identifier d) (d_tsn d) of
       None \<Rightarrow> Ok ()
     | Some (lower, upper) \<Rightarrow>
         let chunks = filter (\<lambda>chunk. d_stream_identifier chunk = d_stream_identifier d \<and>
               sna32gt (d_tsn chunk) lower \<and> (case upper of Some upper \<Rightarrow> sna32lte (d_tsn chunk) upper | None \<Rightarrow> True))
               (vals (a_deferred_reset_data a));
             chunks = sort_by (\<lambda>c e. d_tsn c - lower < d_tsn e - lower) chunks
         in fst (push_chunks (chunks @ [d])
                   (ReassemblyQueue_new (d_stream_identifier d) (a_max_receive_message_size a))))"

definition release_deferred_reset_data :: "Association \<Rightarrow> unit res \<times> Association" where
  "release_deferred_reset_data a =
    (let ready = filter (\<lambda>chunk. \<not> data_is_above_pending_reset a chunk) (vals (a_deferred_reset_data a));
         stream_ids = remdups (map d_stream_identifier ready)
     in abind (afor ready deliver_and_forget a) (\<lambda>_ a.
        (Ok (), fold apply_deferred_forward_tsns stream_ids a)))"

subsection \<open>Retiring generations\<close>

text \<open>\<^verbatim>\<open>streams.remove\<close> with its final statistics.\<close>

definition remove_stream_final :: "u16 \<Rightarrow> Association \<Rightarrow> Association" where
  "remove_stream_final stream_identifier a =
    (case map_of (a_streams a) stream_identifier of
       Some s \<Rightarrow> push_event (DataChannelStatsFinal (ss_stats s))
         (a\<lparr>a_streams := AList.delete stream_identifier (a_streams a)\<rparr>)
     | None \<Rightarrow> a)"

primrec finish_retiring_loop :: "nat \<Rightarrow> u16 \<Rightarrow> RecvSendState \<Rightarrow> Association \<Rightarrow> unit res \<times> Association" where
  "finish_retiring_loop 0 stream_identifier inherited_state a = (Panic, a)"
| "finish_retiring_loop (Suc fuel) stream_identifier inherited_state a =
    (case map_of (a_retiring_streams a) stream_identifier of
       Some (completed_boundary # boundaries) \<Rightarrow>
         let a = a\<lparr>a_retiring_streams := update_key stream_identifier (\<lambda>_. boundaries) (a_retiring_streams a)\<rparr>;
             a = discard_deferred_forward_tsns_through stream_identifier completed_boundary a;
             a = a\<lparr>a_ready_stream_finishes := PRC_insert (a_ready_stream_finishes a) stream_identifier\<rparr>
         in
         (case boundaries of
            [] \<Rightarrow>
              let a = a\<lparr>a_retiring_streams := AList.delete stream_identifier (a_retiring_streams a)\<rparr>;
                  (result, a) = release_deferred_reset_data a
              in (result, inherit_stream_state stream_identifier inherited_state a)
          | next_boundary # _ \<Rightarrow>
              abind (release_deferred_generation_data stream_identifier completed_boundary next_boundary a) (\<lambda>_ a.
              let a = inherit_stream_state stream_identifier inherited_state a;
                  has_unread_data = (case map_of (a_streams a) stream_identifier of
                    Some s \<Rightarrow> get_num_bytes_in_reassembly_queue s \<noteq> 0 | None \<Rightarrow> False)
              in if has_unread_data then (Ok (), a)
                 else
                   let a = remove_stream_final stream_identifier a;
                       a = discard_deferred_forward_tsns_through stream_identifier next_boundary a
                   in finish_retiring_loop fuel stream_identifier inherited_state a))
     | _ \<Rightarrow> (Panic, a))"

definition finish_retiring_stream :: "u16 \<Rightarrow> Association \<Rightarrow> unit res \<times> Association" where
  "finish_retiring_stream stream_identifier a =
    (case map_of (a_retiring_streams a) stream_identifier of
       None \<Rightarrow> (Ok (), a)
     | Some boundaries \<Rightarrow>
         let inherited_state =
               (case map_of (a_streams a) stream_identifier of Some s \<Rightarrow> ss_state s | None \<Rightarrow> RS_ReadWritable);
             a = remove_stream_final stream_identifier a
         in finish_retiring_loop (length boundaries + 1) stream_identifier inherited_state a)"

fun mark_discarded :: "u32 list \<Rightarrow> PayloadQueue \<Rightarrow> PayloadQueue res" where
  "mark_discarded [] q = Ok q"
| "mark_discarded (tsn # tsns) q = rbind (PayloadQueue_mark_as_acked q tsn) (\<lambda>(_, q). mark_discarded tsns q)"

definition opens_or_reads :: "u16 \<Rightarrow> Event \<Rightarrow> bool" where
  "opens_or_reads sid e \<longleftrightarrow> e = EStream (Opened sid) \<or> e = EStream (StreamReadable sid)"

definition discard_retiring_streams :: "u16 \<Rightarrow> Association \<Rightarrow> unit res \<times> Association" where
  "discard_retiring_streams stream_identifier a =
    (case map_of (a_retiring_streams a) stream_identifier of
       None \<Rightarrow> (Ok (), a)
     | Some boundaries \<Rightarrow>
         let a = a\<lparr>a_retiring_streams := AList.delete stream_identifier (a_retiring_streams a),
                   a_ready_stream_finishes :=
                     fold (\<lambda>_ m. PRC_insert m stream_identifier) boundaries (a_ready_stream_finishes a)\<rparr>;
             discarded_tsns = map fst (filter (\<lambda>(tsn, chunk). d_stream_identifier chunk = stream_identifier)
               (a_deferred_reset_data a))
         in case mark_discarded discarded_tsns (a_payload_queue a) of
              Ok q \<Rightarrow>
                let a = a\<lparr>a_payload_queue := q,
                          a_deferred_reset_data :=
                            filter (\<lambda>(_, chunk). d_stream_identifier chunk \<noteq> stream_identifier) (a_deferred_reset_data a),
                          a_deferred_forward_tsns := AList.delete stream_identifier (a_deferred_forward_tsns a),
                          a_events := filter (\<lambda>e. \<not> opens_or_reads stream_identifier e) (a_events a)\<rparr>;
                    a = upd_stream stream_identifier (\<lambda>s. s\<lparr>ss_reassembly_queue :=
                          ReassemblyQueue_new stream_identifier (a_max_receive_message_size a)\<rparr>) a
                in (Ok (), if \<not> stream_reset_blocked a stream_identifier
                           then unregister_stream stream_identifier False a else a)
            | Err e \<Rightarrow> (Err e, a)
            | Panic \<Rightarrow> (Panic, a))"

end
