(* ===== verification/Assoc_Receive.thy ===== *)
theory Assoc_Receive
  imports Assoc_Deferred
begin

text \<open>
  The receiving side of an association (\<^verbatim>\<open>src/src/association/mod.rs\<close>): incoming stream resets,
  DATA, FORWARD TSN and I-FORWARD TSN chunks, and the advance of the cumulative TSN. A reference
  argument \<^verbatim>\<open>reply: &mut Vec<Packet>\<close> is an argument and the value of the result. The loop that
  advances the cumulative TSN removes one chunk of the payload queue per round; its fuel is the
  length of the queue plus one, and running out of it is a \<open>Panic\<close>.
\<close>

subsection \<open>Stream resets\<close>

definition generate_next_rsn :: "Association \<Rightarrow> u32 \<times> Association" where
  "generate_next_rsn a = (a_my_next_rsn a, a\<lparr>a_my_next_rsn := a_my_next_rsn a + 1\<rparr>)"

definition push_reconfig_response :: "Association \<Rightarrow> Packet list \<Rightarrow> u32 \<Rightarrow> ReconfigResult \<Rightarrow> Packet list" where
  "push_reconfig_response a reply sequence_number result =
    reply @ [create_packet a [CReconfig
      \<lparr>rc_param_a = Some (ParamReconfigResponse
         \<lparr>rs_reconfig_response_sequence_number = sequence_number, rs_result = result\<rparr>),
       rc_param_b = None\<rparr>]]"

fun retire_streams :: "u16 list \<Rightarrow> u32 \<Rightarrow> Association \<Rightarrow> u16 list \<times> Association" where
  "retire_streams [] sender_last_tsn a = ([], a)"
| "retire_streams (sid # ids) sender_last_tsn a =
    (if contains_key (a_streams a) sid
     then (case retire_streams ids sender_last_tsn (retire_stream sid sender_last_tsn a) of
             (sis, a) \<Rightarrow> (sid # sis, a))
     else retire_streams ids sender_last_tsn a)"

definition reset_streams_if_any ::
  "ParamOutgoingResetRequest \<Rightarrow> bool \<Rightarrow> Packet list \<Rightarrow> Association \<Rightarrow> Packet list res \<times> Association" where
  "reset_streams_if_any p from_wire reply a =
    (let performed = sna32lte (rr_sender_last_tsn p) (a_peer_last_tsn a);
         (result, sis_to_reset, a) =
           (if performed then
              let stream_ids = (if rr_stream_identifiers p = [] then keys (a_streams a) else rr_stream_identifiers p);
                  stream_ids = remdups_adj (sort stream_ids);
                  (sis_to_reset, a) = retire_streams stream_ids (rr_sender_last_tsn p) a
              in (SuccessPerformed, sis_to_reset,
                  a\<lparr>a_reconfig_requests := AList.delete (rr_reconfig_request_sequence_number p) (a_reconfig_requests a)\<rparr>)
            else (InProgress, [], a));
         (reply, a) =
           (if sis_to_reset \<noteq> [] then
              let a = a\<lparr>a_pending_reset_streams :=
                        filter (\<lambda>sid. sid \<notin> set sis_to_reset) (a_pending_reset_streams a)\<rparr>;
                  (rsn, a) = generate_next_rsn a;
                  tsn = a_my_next_tsn a - 1;
                  reset_all = (rr_stream_identifiers p = []);
                  a = a\<lparr>a_reconfig_reset_streams := AList.update rsn sis_to_reset (a_reconfig_reset_streams a)\<rparr>;
                  c = \<lparr>rc_param_a = Some (ParamOutgoingResetRequest
                        \<lparr>rr_reconfig_request_sequence_number = rsn,
                         rr_reconfig_response_sequence_number = rr_reconfig_request_sequence_number p,
                         rr_sender_last_tsn = tsn,
                         rr_stream_identifiers = (if reset_all then [] else sis_to_reset)\<rparr>),
                       rc_param_b = None\<rparr>;
                  a = a\<lparr>a_reconfigs := AList.update rsn c (a_reconfigs a)\<rparr>
              in (reply @ [create_packet a [CReconfig c]], a)
            else (reply, a))
     in abind (if performed then release_deferred_reset_data a else (Ok (), a)) (\<lambda>_ a.
        (Ok (if from_wire \<or> performed
             then push_reconfig_response a reply (rr_reconfig_request_sequence_number p) result
             else reply), a)))"

fun reevaluate_requests ::
  "ParamOutgoingResetRequest list \<Rightarrow> Packet list \<Rightarrow> Association \<Rightarrow> Packet list res \<times> Association" where
  "reevaluate_requests [] reply a = (Ok reply, a)"
| "reevaluate_requests (request # requests) reply a =
    (let seq = rr_reconfig_request_sequence_number request in
     abind (reset_streams_if_any request False reply a) (\<lambda>reply a.
     let a = (if \<not> contains_key (a_reconfig_requests a) seq then a\<lparr>a_max_completed_reconfig_rsn := Some seq\<rparr> else a)
     in reevaluate_requests requests reply a))"

definition reevaluate_pending_reset_requests :: "Packet list \<Rightarrow> Association \<Rightarrow> Packet list res \<times> Association" where
  "reevaluate_pending_reset_requests reply a = reevaluate_requests (vals (a_reconfig_requests a)) reply a"

fun reset_outcome :: "ReconfigResult \<Rightarrow> StreamResetError option" where
  "reset_outcome SuccessNop = None"
| "reset_outcome SuccessPerformed = None"
| "reset_outcome ReconfigResult.Denied = Some StreamResetError.Denied"
| "reset_outcome _ = Some Failed"

definition handle_reconfig_param :: "Param \<Rightarrow> Packet list \<Rightarrow> Association \<Rightarrow> Packet list res \<times> Association" where
  "handle_reconfig_param raw reply a =
    (case raw of
       ParamOutgoingResetRequest p \<Rightarrow>
         let (_, a) = finish_reconfig (rr_reconfig_response_sequence_number p) None a;
             seq = rr_reconfig_request_sequence_number p
         in
         if \<not> contains_key (a_reconfig_requests a) seq \<and>
            (case a_max_completed_reconfig_rsn a of Some w \<Rightarrow> sna32lte seq w | None \<Rightarrow> False)
         then (Ok (push_reconfig_response a reply seq SuccessPerformed), a)
         else if \<not> contains_key (a_reconfig_requests a) seq \<and> a_reconfig_requests a \<noteq> []
         then (Ok (push_reconfig_response a reply seq ErrorRequestAlreadyInProgress), a)
         else if \<not> contains_key (a_reconfig_requests a) seq \<and>
            a_peer_reconfig_rsn_initialized a \<and> seq \<noteq> a_peer_last_reconfig_rsn a + 1
         then (Ok (push_reconfig_response a reply seq ErrorBadSequenceNumber), a)
         else
           let a = (if \<not> contains_key (a_reconfig_requests a) seq
                    then a\<lparr>a_peer_last_reconfig_rsn := seq, a_peer_reconfig_rsn_initialized := True,
                           a_reconfig_requests := AList.update seq p (a_reconfig_requests a)\<rparr>
                    else a)
           in (case map_of (a_reconfig_requests a) seq of
                 None \<Rightarrow> (Panic, a)
               | Some request \<Rightarrow>
                   abind (reset_streams_if_any request True reply a) (\<lambda>reply a.
                   (Ok reply, if \<not> contains_key (a_reconfig_requests a) seq
                              then a\<lparr>a_max_completed_reconfig_rsn := Some seq\<rparr> else a)))
     | ParamReconfigResponse p \<Rightarrow>
         let rsn = rs_reconfig_response_sequence_number p in
         if a_active_reconfig a \<noteq> Some rsn then (Ok reply, a)
         else if rs_result p = InProgress then
           (Ok reply,
            if contains_key (a_reconfigs a) rsn
            then upd_timers (\<lambda>t. TimerTable_suppress_error_count (TimerTable_set t Reconfig None) Reconfig)
              (a\<lparr>a_will_retransmit_reconfig := False\<rparr>)
            else a)
         else (Ok reply, snd (finish_reconfig rsn (reset_outcome (rs_result p)) a))
     | _ \<Rightarrow> (Err ErrParameterType, a))"

definition handle_reconfig :: "ChunkReconfig \<Rightarrow> Association \<Rightarrow> Packet list res \<times> Association" where
  "handle_reconfig c a =
    abind (case rc_param_a c of Some p \<Rightarrow> handle_reconfig_param p [] a | None \<Rightarrow> (Ok [], a)) (\<lambda>pp a.
    case rc_param_b c of Some p \<Rightarrow> handle_reconfig_param p pp a | None \<Rightarrow> (Ok pp, a))"

subsection \<open>Advancing the cumulative TSN\<close>

primrec advance_peer_last_tsn :: "nat \<Rightarrow> Packet list \<Rightarrow> Association \<Rightarrow> Packet list res \<times> Association" where
  "advance_peer_last_tsn 0 reply a = (Panic, a)"
| "advance_peer_last_tsn (Suc fuel) reply a =
    (case PayloadQueue_pop (a_payload_queue a) (a_peer_last_tsn a + 1) of
       (None, _) \<Rightarrow> (Ok reply, a)
     | (Some chunk, q) \<Rightarrow>
         let a = a\<lparr>a_payload_queue := q, a_peer_last_tsn := a_peer_last_tsn a + 1\<rparr> in
         abind (reevaluate_pending_reset_requests reply a) (\<lambda>reply a.
         abind (case map_of (a_deferred_reset_data a) (d_tsn chunk) of
                  Some deferred \<Rightarrow>
                    if \<not> data_is_above_pending_reset a deferred then
                      abind (deliver_deferred_reset_data deferred a) (\<lambda>_ a.
                      (Ok (), a\<lparr>a_deferred_reset_data := AList.delete (d_tsn chunk) (a_deferred_reset_data a)\<rparr>))
                    else (Ok (), a)
                | None \<Rightarrow> (Ok (), a)) (\<lambda>_ a.
         advance_peer_last_tsn fuel reply a)))"

definition handle_peer_last_tsn_and_acknowledgement :: "bool \<Rightarrow> Association \<Rightarrow> Packet list res \<times> Association" where
  "handle_peer_last_tsn_and_acknowledgement sack_immediately a =
    abind (advance_peer_last_tsn (PayloadQueue_len (a_payload_queue a) + 1) [] a) (\<lambda>reply a.
    let a = fold apply_deferred_forward_tsns (keys (a_deferred_forward_tsns a)) a in
    case receive_capacity_exhausted a of
      Panic \<Rightarrow> (Panic, a)
    | Err e \<Rightarrow> (Err e, a)
    | Ok True \<Rightarrow> (Err ErrReceiveBufferExhausted, a)
    | Ok False \<Rightarrow>
        let has_packet_loss = \<not> PayloadQueue_is_empty (a_payload_queue a) in
        (Ok reply,
         if (a_ack_state a \<noteq> Immediate \<and> \<not> sack_immediately \<and> \<not> has_packet_loss \<and> a_ack_mode a = Normal)
            \<or> a_ack_mode a = AlwaysDelay
         then if a_ack_state a = Idle then a\<lparr>a_delayed_ack_triggered := True\<rparr>
              else a\<lparr>a_immediate_ack_triggered := True\<rparr>
         else a\<lparr>a_immediate_ack_triggered := True\<rparr>))"

subsection \<open>DATA\<close>

datatype data_decision = DeferData | HandleData | IgnoreData | DiscardData

text \<open>
  What is to happen to a chunk, before anything but the stream table changes: the flags
  \<^verbatim>\<open>stream_handle_data\<close> and \<^verbatim>\<open>defer_stream_data\<close> of the source, and the early return.
\<close>

definition is_missing_chunk :: "Association \<Rightarrow> ChunkPayloadData \<Rightarrow> bool" where
  "is_missing_chunk a d \<longleftrightarrow>
    (case PayloadQueue_get_last_tsn_received (a_payload_queue a) of
       Some last_tsn \<Rightarrow> sna32lt (d_tsn d) last_tsn | None \<Rightarrow> False)"

definition decide_data :: "ChunkPayloadData \<Rightarrow> Association \<Rightarrow> data_decision res \<times> Association" where
  "decide_data d a =
    (if PayloadQueue_can_push (a_payload_queue a) d (a_peer_last_tsn a) \<and> data_is_above_pending_reset a d then
       (rmap (\<lambda>credit. if credit > 0 \<or> is_missing_chunk a d then DeferData else IgnoreData)
          (get_my_receiver_window_credit a), a)
     else if PayloadQueue_can_push (a_payload_queue a) d (a_peer_last_tsn a) then
       (case get_or_create_stream (d_stream_identifier d) a of
          (True, a) \<Rightarrow>
            (rmap (\<lambda>credit. if credit > 0 \<or> is_missing_chunk a d then HandleData else IgnoreData)
               (get_my_receiver_window_credit a), a)
        | (False, a) \<Rightarrow> (Ok DiscardData, a))
     else (Ok IgnoreData, a))"

definition push_payload :: "ChunkPayloadData \<Rightarrow> Association \<Rightarrow> bool \<times> Association" where
  "push_payload d a =
    (case PayloadQueue_push (a_payload_queue a) d (a_peer_last_tsn a) of
       (ok, q) \<Rightarrow> (ok, a\<lparr>a_payload_queue := q\<rparr>))"

definition handle_data :: "ChunkPayloadData \<Rightarrow> Association \<Rightarrow> Packet list res \<times> Association" where
  "handle_data d a =
    (let a = a\<lparr>a_stats := inc_datas (a_stats a)\<rparr> in
     abind (decide_data d a) (\<lambda>decision a.
     if decision = DiscardData then (Ok [], a)
     else
       abind
         (case decision of
            DeferData \<Rightarrow>
              (case validate_deferred_reset_data d a of
                 Ok () \<Rightarrow>
                   (case push_payload d a of
                      (True, a) \<Rightarrow> (Ok (), a\<lparr>a_deferred_reset_data := AList.update (d_tsn d) d (a_deferred_reset_data a)\<rparr>)
                    | (False, a) \<Rightarrow> (Ok (), a))
               | Err e \<Rightarrow> (Err e, a)
               | Panic \<Rightarrow> (Panic, a))
          | HandleData \<Rightarrow>
              abind
                (if contains_key (a_streams a) (d_stream_identifier d) then
                   abind (stream_handle_data d a) (\<lambda>queued a.
                   let (_, a) = push_payload d a;
                       a = push_event DatagramReceived a
                   in (Ok (), if queued \<and> readable_now (d_stream_identifier d) a
                              then push_event (EStream (StreamReadable (d_stream_identifier d))) a else a))
                 else (Ok (), a))
                (\<lambda>_ a. (Ok (), apply_deferred_forward_tsns (d_stream_identifier d) a))
          | _ \<Rightarrow> (Ok (), a))
         (\<lambda>_ a. handle_peer_last_tsn_and_acknowledgement (d_immediate_sack d) a)))"

subsection \<open>FORWARD TSN\<close>

text \<open>The common header and tail of the two handlers.\<close>

definition unrecognized_chunk_reply :: "Association \<Rightarrow> Packet list" where
  "unrecognized_chunk_reply a = [create_packet a [CError [ErrorCause_default]]]"

definition ack_immediately :: "Association \<Rightarrow> Association" where
  "ack_immediately a = upd_timers (\<lambda>t. TimerTable_stop t Ack) (a\<lparr>a_ack_state := Immediate\<rparr>)"

definition advance_to_forward_tsn :: "u32 \<Rightarrow> Association \<Rightarrow> Association" where
  "advance_to_forward_tsn new_cumulative_tsn a =
    a\<lparr>a_payload_queue := PayloadQueue_pop_up_to (a_payload_queue a) new_cumulative_tsn,
      a_peer_last_tsn := new_cumulative_tsn\<rparr>"

definition after_forward_tsn :: "u32 \<Rightarrow> Association \<Rightarrow> Packet list res \<times> Association" where
  "after_forward_tsn new_cumulative_tsn a =
    abind (apply_unordered_forward_tsn_to_current_streams new_cumulative_tsn a) (\<lambda>_ a.
    abind (reevaluate_pending_reset_requests [] a) (\<lambda>reply a.
    abind (handle_peer_last_tsn_and_acknowledgement False a) (\<lambda>more a. (Ok (reply @ more), a))))"

definition handle_forward_tsn :: "ChunkForwardTsn \<Rightarrow> Association \<Rightarrow> Packet list res \<times> Association" where
  "handle_forward_tsn c a =
    (if \<not> a_use_forward_tsn a then (Ok (unrecognized_chunk_reply a), a)
     else if sna32lte (ft_new_cumulative_tsn c) (a_peer_last_tsn a) then (Ok [], ack_immediately a)
     else
       let a = advance_to_forward_tsn (ft_new_cumulative_tsn c) a in
       abind (afor (ft_streams c) (\<lambda>forwarded.
           apply_or_defer_ordered_forward_tsn (fs_identifier forwarded) (fs_sequence forwarded)
             (ft_new_cumulative_tsn c)) a) (\<lambda>_ a.
       after_forward_tsn (ft_new_cumulative_tsn c) a))"

definition handle_i_forward_tsn :: "ChunkIForwardTsn \<Rightarrow> Association \<Rightarrow> Packet list res \<times> Association" where
  "handle_i_forward_tsn c a =
    (if \<not> a_use_forward_tsn a then (Ok (unrecognized_chunk_reply a), a)
     else if sna32lte (ift_new_cumulative_tsn c) (a_peer_last_tsn a) then (Ok [], ack_immediately a)
     else
       let a = advance_to_forward_tsn (ift_new_cumulative_tsn c) a in
       abind (afor (ift_streams c) (\<lambda>forwarded.
           if ifs_unordered forwarded
           then apply_or_defer_unordered_forward_tsn (ifs_identifier forwarded) (ift_new_cumulative_tsn c)
           else apply_or_defer_ordered_forward_tsn (ifs_identifier forwarded) (ucast (ifs_mid forwarded))
             (ift_new_cumulative_tsn c)) a) (\<lambda>_ a.
       after_forward_tsn (ift_new_cumulative_tsn c) a))"

end
