(* ===== verification/Assoc_Send.thy ===== *)
theory Assoc_Send
  imports Assoc_Streams Assoc_Ack Assoc_Receive
begin

text \<open>
  The sending side of an association (\<^verbatim>\<open>src/src/association/mod.rs\<close>, from \<^verbatim>\<open>gather_outbound\<close> to
  \<^verbatim>\<open>send_payload_data\<close>): abandoning of messages, retransmission, the choice of new DATA, bundling,
  SACK, FORWARD TSN, RE-CONFIG and SHUTDOWN packets. Packets are serialized with the checksum
  function \<open>crc\<close>.

  The two loops over the flight count with a \<^verbatim>\<open>u32\<close> whose overflow is a \<open>Panic\<close>, so they end. The
  loops that take messages or chunks from the pending queue have the length of that queue plus one
  as fuel; running out of it is a \<open>Panic\<close>.
\<close>

subsection \<open>Abandoning messages\<close>

definition release_abandoned_buffer :: "u16 \<Rightarrow> u64 \<Rightarrow> usize \<Rightarrow> Association \<Rightarrow> unit res \<times> Association" where
  "release_abandoned_buffer sid message_id n a =
    (case map_of (a_streams a) sid of
       Some stream \<Rightarrow> if message_id \<ge> ss_first_message_id stream then release_buffer sid (int n) a else (Ok (), a)
     | None \<Rightarrow> (Ok (), a))"

definition abandon_if_needed :: "u32 \<Rightarrow> instant \<Rightarrow> Association \<Rightarrow> bool res \<times> Association" where
  "abandon_if_needed tsn now a =
    (case OutboundQueue_get (a_outbound_queue a) tsn of
       None \<Rightarrow> (Ok False, a)
     | Some c \<Rightarrow>
         if d_abandoned c then (Ok True, a)
         else if \<not> a_use_forward_tsn a then (Ok False, a)
         else if d_payload_type c = PPI_Dcep then (Ok False, a)
         else
           (case (case d_reliability c of
                    Some r \<Rightarrow> Some r
                  | None \<Rightarrow> map_option (\<lambda>s. (ss_reliability_type s, ss_reliability_value s))
                      (map_of (a_streams a) (d_stream_identifier c))) of
              None \<Rightarrow> (Ok False, a)
            | Some (reliability_type, reliability_value) \<Rightarrow>
                let expired = (case reliability_type of
                      Rexmit \<Rightarrow> d_nsent c > reliability_value
                    | Timed \<Rightarrow> deadline_passed now c
                    | Reliable \<Rightarrow> False)
                in if \<not> expired then (Ok False, a)
                else
                  (case OutboundQueue_abandon (a_outbound_queue a) tsn (a_my_next_tsn a) of
                     Ok (r, next_tsn, q) \<Rightarrow>
                       let a = a\<lparr>a_outbound_queue := q, a_my_next_tsn := next_tsn\<rparr>
                       in (case r of
                             Some (sid, n) \<Rightarrow>
                               abind (release_abandoned_buffer sid (d_message_id c) n a) (\<lambda>_ a. (Ok True, a))
                           | None \<Rightarrow> (Ok True, a))
                   | Err e \<Rightarrow> (Err e, a)
                   | Panic \<Rightarrow> (Panic, a))))"

primrec expire_tail_loop :: "nat \<Rightarrow> instant \<Rightarrow> bool \<Rightarrow> Association \<Rightarrow> bool res \<times> Association" where
  "expire_tail_loop 0 now abandoned a = (Panic, a)"
| "expire_tail_loop (Suc fuel) now abandoned a =
    (case OutboundQueue_expire_pending_tail (a_outbound_queue a) now (a_my_next_tsn a) of
       Ok (None, next_tsn, q) \<Rightarrow> (Ok abandoned, a\<lparr>a_outbound_queue := q, a_my_next_tsn := next_tsn\<rparr>)
     | Ok (Some (sid, message_id, n), next_tsn, q) \<Rightarrow>
         abind (release_abandoned_buffer sid message_id n (a\<lparr>a_outbound_queue := q, a_my_next_tsn := next_tsn\<rparr>))
           (\<lambda>_ a. expire_tail_loop fuel now True a)
     | Err e \<Rightarrow> (Err e, a)
     | Panic \<Rightarrow> (Panic, a))"

definition expire_inflight_messages :: "instant \<Rightarrow> Association \<Rightarrow> unit res \<times> Association" where
  "expire_inflight_messages now a =
    (if a_use_forward_tsn a then
       let a = a\<lparr>a_outbound_queue := OutboundQueue_start_timed_messages (a_outbound_queue a) now\<rparr> in
       abind (afold (\<lambda>tsn abandoned a. abind (abandon_if_needed tsn now a) (\<lambda>r a. (Ok (abandoned \<or> r), a)))
           (OutboundQueue_expired_inflight (a_outbound_queue a) now) False a) (\<lambda>abandoned a.
       abind (expire_tail_loop (OutboundQueue_pending_len (a_outbound_queue a) + 1) now abandoned a) (\<lambda>abandoned a.
       (Ok (), if abandoned
               then upd_timers (\<lambda>t. TimerTable_restart_if_stale t T3RTX now (RtoManager_get_rto (a_rto_mgr a))) a
               else a)))
     else (Ok (), a))"

subsection \<open>Bundling\<close>

fun bundle_loop ::
  "Association \<Rightarrow> ChunkPayloadData list \<Rightarrow> Packet list \<Rightarrow> Chunk list \<Rightarrow> u32 \<Rightarrow> Packet list res" where
  "bundle_loop a [] packets chunks_to_send bytes_in_packet =
    Ok (if chunks_to_send \<noteq> [] then packets @ [create_packet a chunks_to_send] else packets)"
| "bundle_loop a (c # cs) packets chunks_to_send bytes_in_packet =
    rbind (u32_add bytes_in_packet (as_u32 (dlen c))) (\<lambda>needed.
    let (packets, chunks_to_send, bytes_in_packet) =
      (if needed > a_mtu a then (packets @ [create_packet a chunks_to_send], [], COMMON_HEADER_SIZE)
       else (packets, chunks_to_send, bytes_in_packet))
    in
    rbind (u32_add DATA_CHUNK_HEADER_SIZE (as_u32 (dlen c))) (\<lambda>data_chunk_size.
    rbind (u32_add bytes_in_packet data_chunk_size) (\<lambda>bytes_in_packet.
    bundle_loop a cs packets (chunks_to_send @ [CPayloadData c]) bytes_in_packet)))"

definition bundle_data_chunks_into_packets :: "Association \<Rightarrow> ChunkPayloadData list \<Rightarrow> Packet list res" where
  "bundle_data_chunks_into_packets a chunks = bundle_loop a chunks [] [] COMMON_HEADER_SIZE"

text \<open>\<^verbatim>\<open>if let Ok(raw) = p.marshal() { raw_packets.push(raw) }\<close>\<close>

definition push_marshalled :: "(bytes \<Rightarrow> u32) \<Rightarrow> bytes list \<Rightarrow> Packet \<Rightarrow> bytes list res" where
  "push_marshalled crc raw_packets p =
    (case Packet_marshal crc p of Ok raw \<Rightarrow> Ok (raw_packets @ [raw]) | Err _ \<Rightarrow> Ok raw_packets | Panic \<Rightarrow> Panic)"

fun push_all_marshalled :: "(bytes \<Rightarrow> u32) \<Rightarrow> bytes list \<Rightarrow> Packet list \<Rightarrow> bytes list res" where
  "push_all_marshalled crc raw_packets [] = Ok raw_packets"
| "push_all_marshalled crc raw_packets (p # ps) =
    rbind (push_marshalled crc raw_packets p) (\<lambda>raw_packets. push_all_marshalled crc raw_packets ps)"

subsection \<open>Retransmission\<close>

function retransmit_loop ::
  "instant \<Rightarrow> u32 \<Rightarrow> u32 \<Rightarrow> ChunkPayloadData list \<Rightarrow> usize \<Rightarrow> Association \<Rightarrow> ChunkPayloadData list res \<times> Association" where
  "retransmit_loop now awnd i chunks bytes_to_send a =
    (let tsn = a_cumulative_tsn_ack_point a + i + 1 in
     case OutboundQueue_get (a_outbound_queue a) tsn of
       None \<Rightarrow> (Ok chunks, a)
     | Some c \<Rightarrow>
         if \<not> d_retransmit c then
           (if i = - 1 then (Panic, a) else retransmit_loop now awnd (i + 1) chunks bytes_to_send a)
         else
           abind (abandon_if_needed tsn now a) (\<lambda>abandoned a.
           if abandoned then
             let chunks = filter (\<lambda>c. \<not> OutboundQueue_is_abandoned (a_outbound_queue a) (d_tsn c)) chunks in
             (if i = - 1 then (Panic, a) else retransmit_loop now awnd (i + 1) chunks (total_len chunks) a)
           else
             (case OutboundQueue_get (a_outbound_queue a) tsn of
                None \<Rightarrow> (Panic, a)
              | Some c \<Rightarrow>
                  if i = 0 \<and> a_rwnd a < as_u32 (dlen c) then (Ok (chunks @ [c]), a)
                  else if bytes_to_send + dlen c > unat awnd then (Ok chunks, a)
                  else if i = - 1 then (Panic, a)
                  else retransmit_loop now awnd (i + 1) (chunks @ [c]) (bytes_to_send + dlen c) a)))"
  by pat_completeness auto
termination
  by (relation "measure (\<lambda>(_, _, i, _, _, _). 2 ^ 32 - unat i)") (auto intro: u32_counter_less [simplified])

declare retransmit_loop.simps [simp del]

fun mark_retransmitted ::
  "ChunkPayloadData list \<Rightarrow> OutboundQueue \<Rightarrow> (ChunkPayloadData list \<times> OutboundQueue) res" where
  "mark_retransmitted [] q = Ok ([], q)"
| "mark_retransmitted (chunk # chunks) q =
    (case OutboundQueue_get q (d_tsn chunk) of
       None \<Rightarrow> Panic
     | Some c \<Rightarrow>
         rbind (u32_add (d_nsent c) 1) (\<lambda>nsent.
         let q = OutboundQueue_get_mut q (d_tsn chunk) (\<lambda>c. c\<lparr>d_retransmit := False, d_nsent := nsent\<rparr>) in
         rbind (mark_retransmitted chunks q) (\<lambda>(cs, q).
         Ok (chunk\<lparr>d_nsent := nsent\<rparr> # cs, q))))"

definition get_data_packets_to_retransmit :: "instant \<Rightarrow> Association \<Rightarrow> Packet list res \<times> Association" where
  "get_data_packets_to_retransmit now a =
    abind (expire_inflight_messages now a) (\<lambda>_ a.
    let awnd = min (a_cwnd a) (a_rwnd a) in
    abind (retransmit_loop now awnd 0 [] 0 a) (\<lambda>chunks a.
    (case mark_retransmitted chunks (a_outbound_queue a) of
       Ok (chunks, q) \<Rightarrow>
         let a = a\<lparr>a_outbound_queue := q\<rparr> in (bundle_data_chunks_into_packets a chunks, a)
     | Err e \<Rightarrow> (Err e, a)
     | Panic \<Rightarrow> (Panic, a))))"

definition gather_data_packets_to_retransmit ::
  "(bytes \<Rightarrow> u32) \<Rightarrow> bytes list \<Rightarrow> instant \<Rightarrow> Association \<Rightarrow> bytes list res \<times> Association" where
  "gather_data_packets_to_retransmit crc raw_packets now a =
    abind (get_data_packets_to_retransmit now a) (\<lambda>packets a. (push_all_marshalled crc raw_packets packets, a))"

function fast_retransmit_loop ::
  "instant \<Rightarrow> u32 \<Rightarrow> ChunkPayloadData list \<Rightarrow> u32 \<Rightarrow> Association \<Rightarrow> ChunkPayloadData list res \<times> Association" where
  "fast_retransmit_loop now i to_fast_retrans fast_retrans_size a =
    (let tsn = a_cumulative_tsn_ack_point a + i + 1 in
     case OutboundQueue_get (a_outbound_queue a) tsn of
       None \<Rightarrow> (Ok to_fast_retrans, a)
     | Some c \<Rightarrow>
         if d_acked c \<or> d_abandoned c \<or> d_nsent c > 1 \<or> d_miss_indicator c < 3 then
           (if i = - 1 then (Panic, a) else fast_retransmit_loop now (i + 1) to_fast_retrans fast_retrans_size a)
         else
           abind (abandon_if_needed tsn now a) (\<lambda>abandoned a.
           if abandoned then
             (if i = - 1 then (Panic, a) else fast_retransmit_loop now (i + 1) to_fast_retrans fast_retrans_size a)
           else
             (case OutboundQueue_get (a_outbound_queue a) tsn of
                None \<Rightarrow> (Panic, a)
              | Some c \<Rightarrow>
                  abind (alift (u32_add DATA_CHUNK_HEADER_SIZE (as_u32 (dlen c))) a) (\<lambda>data_chunk_size a.
                  abind (alift (u32_add fast_retrans_size data_chunk_size) a) (\<lambda>new_size a.
                  if a_mtu a < new_size then (Ok to_fast_retrans, a)
                  else
                    let a = a\<lparr>a_stats := inc_fast_retrans (a_stats a)\<rparr> in
                    abind (alift (u32_add (d_nsent c) 1) a) (\<lambda>nsent a.
                    let a = a\<lparr>a_outbound_queue := OutboundQueue_get_mut (a_outbound_queue a) tsn
                                (\<lambda>c. c\<lparr>d_nsent := nsent\<rparr>)\<rparr>
                    in
                    if i = - 1 then (Panic, a)
                    else fast_retransmit_loop now (i + 1) (to_fast_retrans @ [c\<lparr>d_nsent := nsent\<rparr>]) new_size a))))))"
  by pat_completeness auto
termination
  by (relation "measure (\<lambda>(_, i, _, _, _). 2 ^ 32 - unat i)") (auto intro: u32_counter_less [simplified])

declare fast_retransmit_loop.simps [simp del]

definition gather_outbound_fast_retransmission_packets ::
  "(bytes \<Rightarrow> u32) \<Rightarrow> bytes list \<Rightarrow> instant \<Rightarrow> Association \<Rightarrow> bytes list res \<times> Association" where
  "gather_outbound_fast_retransmission_packets crc raw_packets now a =
    abind (expire_inflight_messages now a) (\<lambda>_ a.
    if a_will_retransmit_fast a then
      let a = a\<lparr>a_will_retransmit_fast := False\<rparr> in
      abind (fast_retransmit_loop now 0 [] COMMON_HEADER_SIZE a) (\<lambda>to_fast_retrans a.
      let to_fast_retrans =
        filter (\<lambda>c. \<not> OutboundQueue_is_abandoned (a_outbound_queue a) (d_tsn c)) to_fast_retrans
      in if to_fast_retrans \<noteq> []
         then (push_marshalled crc raw_packets (create_packet a (map CPayloadData to_fast_retrans)), a)
         else (Ok raw_packets, a))
    else (Ok raw_packets, a))"

subsection \<open>New data\<close>

definition send_next_data_chunk :: "instant \<Rightarrow> Association \<Rightarrow> ChunkPayloadData option res \<times> Association" where
  "send_next_data_chunk now a =
    (case OutboundQueue_send_next (a_outbound_queue a) (a_my_next_tsn a) now of
       Ok (chunk, next_tsn, q) \<Rightarrow> (Ok chunk, a\<lparr>a_outbound_queue := q, a_my_next_tsn := next_tsn\<rparr>)
     | Err e \<Rightarrow> (Err e, a)
     | Panic \<Rightarrow> (Panic, a))"

text \<open>An expired message at the head of the pending queue gives its sequence number back.\<close>

definition release_expired :: "u16 \<Rightarrow> bool \<Rightarrow> usize \<Rightarrow> Association \<Rightarrow> unit res \<times> Association" where
  "release_expired sid unordered n a =
    release_buffer sid (int n)
      (if unordered then a else upd_stream sid (\<lambda>s. s\<lparr>ss_sequence_number := ss_sequence_number s - 1\<rparr>) a)"

definition expire_pending :: "instant \<Rightarrow> Association \<Rightarrow> (u16 \<times> bool \<times> usize) option res \<times> Association" where
  "expire_pending now a =
    (if a_use_forward_tsn a then
       (case OutboundQueue_expire_pending (a_outbound_queue a) now of
          Ok (r, q) \<Rightarrow> (Ok r, a\<lparr>a_outbound_queue := q\<rparr>)
        | Err e \<Rightarrow> (Err e, a)
        | Panic \<Rightarrow> (Panic, a))
     else (Ok None, a))"

primrec pop_pending_loop ::
  "nat \<Rightarrow> instant \<Rightarrow> ChunkPayloadData list \<Rightarrow> Association \<Rightarrow> ChunkPayloadData list res \<times> Association" where
  "pop_pending_loop 0 now chunks a = (Panic, a)"
| "pop_pending_loop (Suc fuel) now chunks a =
    abind (expire_pending now a) (\<lambda>expired a.
    case expired of
      Some (sid, unordered, n) \<Rightarrow>
        abind (release_expired sid unordered n a) (\<lambda>_ a. pop_pending_loop fuel now chunks a)
    | None \<Rightarrow>
        (case OutboundQueue_peek_pending (a_outbound_queue a) of
           None \<Rightarrow> (Ok chunks, a)
         | Some c \<Rightarrow>
             let data_len = dlen c in
             if OutboundQueue_inflight_bytes (a_outbound_queue a) + data_len > unat (a_cwnd a) then (Ok chunks, a)
             else if data_len > unat (a_rwnd a) then (Ok chunks, a)
             else
               let a = a\<lparr>a_rwnd := a_rwnd a - as_u32 data_len\<rparr> in
               abind (send_next_data_chunk now a) (\<lambda>chunk a.
               pop_pending_loop fuel now (case chunk of Some c \<Rightarrow> chunks @ [c] | None \<Rightarrow> chunks) a)))"

definition pop_pending_data_chunks_to_send :: "instant \<Rightarrow> Association \<Rightarrow> ChunkPayloadData list res \<times> Association" where
  "pop_pending_data_chunks_to_send now a =
    abind (expire_inflight_messages now a) (\<lambda>_ a.
    if OutboundQueue_pending_len (a_outbound_queue a) \<noteq> 0 then
      abind (pop_pending_loop (OutboundQueue_pending_len (a_outbound_queue a) + 1) now [] a) (\<lambda>chunks a.
      if chunks = [] \<and> OutboundQueue_inflight_len (a_outbound_queue a) = 0
      then abind (send_next_data_chunk now a) (\<lambda>chunk a. (Ok (case chunk of Some c \<Rightarrow> [c] | None \<Rightarrow> []), a))
      else (Ok chunks, a))
    else (Ok [], a))"

subsection \<open>RE-CONFIG requests\<close>

definition restart_timer_if_stale :: "Timer \<Rightarrow> instant \<Rightarrow> Association \<Rightarrow> Association" where
  "restart_timer_if_stale t now a =
    upd_timers (\<lambda>tt. TimerTable_restart_if_stale tt t now (RtoManager_get_rto (a_rto_mgr a))) a"

definition send_pending_resets ::
  "(bytes \<Rightarrow> u32) \<Rightarrow> bytes list \<Rightarrow> u16 list \<Rightarrow> Association \<Rightarrow> bytes list res \<times> Association" where
  "send_pending_resets crc raw_packets stream_ids a =
    (let a = a\<lparr>a_pending_reset_streams := filter (\<lambda>sid. sid \<notin> set stream_ids) (a_pending_reset_streams a)\<rparr>;
         (rsn, a) = generate_next_rsn a;
         tsn = a_my_next_tsn a - 1;
         a = a\<lparr>a_reconfig_reset_streams := AList.update rsn stream_ids (a_reconfig_reset_streams a)\<rparr>;
         c = \<lparr>rc_param_a = Some (ParamOutgoingResetRequest
               \<lparr>rr_reconfig_request_sequence_number = rsn,
                rr_reconfig_response_sequence_number = a_peer_last_reconfig_rsn a,
                rr_sender_last_tsn = tsn, rr_stream_identifiers = stream_ids\<rparr>), rc_param_b = None\<rparr>;
         a = a\<lparr>a_reconfigs := AList.update rsn c (a_reconfigs a)\<rparr>;
         p = create_packet a [CReconfig c]
     in case Packet_marshal crc p of
          Ok raw \<Rightarrow> (Ok (raw_packets @ [raw]), a\<lparr>a_active_reconfig := Some rsn\<rparr>)
        | Err _ \<Rightarrow> (Ok raw_packets, push_control [p] a)
        | Panic \<Rightarrow> (Panic, a))"

definition gather_outbound_data_and_reconfig_packets ::
  "(bytes \<Rightarrow> u32) \<Rightarrow> bytes list \<Rightarrow> instant \<Rightarrow> Association \<Rightarrow> bytes list res \<times> Association" where
  "gather_outbound_data_and_reconfig_packets crc raw_packets now a =
    abind (pop_pending_data_chunks_to_send now a) (\<lambda>chunks a.
    abind (if chunks \<noteq> [] then
             let a = restart_timer_if_stale T3RTX now a in
             (rbind (bundle_data_chunks_into_packets a chunks) (push_all_marshalled crc raw_packets), a)
           else (Ok raw_packets, a)) (\<lambda>raw_packets a.
    abind (if a_will_retransmit_reconfig a then
             let a = a\<lparr>a_will_retransmit_reconfig := False\<rparr> in
             (case a_active_reconfig a of
                Some rsn \<Rightarrow>
                  (case map_of (a_reconfigs a) rsn of
                     Some c \<Rightarrow> (push_marshalled crc raw_packets (create_packet a [CReconfig c]), a)
                   | None \<Rightarrow> (Ok raw_packets, a))
              | None \<Rightarrow> (Ok raw_packets, a))
           else (Ok raw_packets, a)) (\<lambda>raw_packets a.
    let stream_ids = filter (\<lambda>sid. \<not> stream_has_unacked_data a sid) (a_pending_reset_streams a);
        may_reset = (a_active_reconfig a = None \<and> a_reconfigs a = [] \<and> a_pending_reset_streams a \<noteq> [])
    in if may_reset \<and> stream_ids = [] then (Ok raw_packets, a)
    else
      abind (if may_reset then send_pending_resets crc raw_packets stream_ids a else (Ok raw_packets, a)) (\<lambda>raw_packets a.
      (Ok raw_packets, if a_active_reconfig a \<noteq> None then restart_timer_if_stale Reconfig now a else a)))))"

subsection \<open>Control packets\<close>

definition gather_control_packet ::
  "(bytes \<Rightarrow> u32) \<Rightarrow> Packet \<Rightarrow> Packet list \<times> bool \<times> bytes list \<Rightarrow> Association
    \<Rightarrow> (Packet list \<times> bool \<times> bytes list) res \<times> Association" where
  "gather_control_packet crc p v a =
    (let (buffered, request_blocked, raw_packets) = v;
         outgoing_rsn = packet_reconfig_request_rsn p
     in
     if outgoing_rsn \<noteq> None \<and> request_blocked then (Ok (buffered @ [p], request_blocked, raw_packets), a)
     else if (case outgoing_rsn of
                Some rsn \<Rightarrow> a_active_reconfig a \<noteq> None \<and> a_active_reconfig a \<noteq> Some rsn | None \<Rightarrow> False)
     then (Ok (buffered @ [p], True, raw_packets), a)
     else if (case outgoing_rsn of Some rsn \<Rightarrow> reconfig_has_unacked_data a rsn | None \<Rightarrow> False)
     then (Ok (buffered @ [p], True, raw_packets), a)
     else
       let (p, a) =
         (case outgoing_rsn of
            Some rsn \<Rightarrow> (case refresh_unsent_reconfig rsn a of (Some p', a) \<Rightarrow> (p', a) | (None, a) \<Rightarrow> (p, a))
          | None \<Rightarrow> (p, a))
       in case Packet_marshal crc p of
            Ok raw \<Rightarrow>
              (Ok (buffered, request_blocked, raw_packets @ [raw]),
               case outgoing_rsn of Some rsn \<Rightarrow> a\<lparr>a_active_reconfig := Some rsn\<rparr> | None \<Rightarrow> a)
          | Err _ \<Rightarrow>
              (Ok (if outgoing_rsn \<noteq> None then (buffered @ [p], True, raw_packets)
                   else (buffered, request_blocked, raw_packets)), a)
          | Panic \<Rightarrow> (Panic, a))"

definition gather_outbound_control_packets ::
  "(bytes \<Rightarrow> u32) \<Rightarrow> bytes list \<Rightarrow> instant \<Rightarrow> Association \<Rightarrow> bytes list res \<times> Association" where
  "gather_outbound_control_packets crc raw_packets now a =
    abind (if a_control_queue a \<noteq> [] then
             let queued = a_control_queue a;
                 a = a\<lparr>a_control_queue := []\<rparr>
             in abind (afold (gather_control_packet crc) queued ([], False, raw_packets) a)
                  (\<lambda>(buffered, _, raw_packets) a. (Ok raw_packets, a\<lparr>a_control_queue := buffered\<rparr>))
           else (Ok raw_packets, a)) (\<lambda>raw_packets a.
    (Ok raw_packets, if a_active_reconfig a \<noteq> None then restart_timer_if_stale Reconfig now a else a))"

subsection \<open>SACK and FORWARD TSN\<close>

definition create_selective_ack_chunk :: "Association \<Rightarrow> ChunkSelectiveAck res \<times> Association" where
  "create_selective_ack_chunk a =
    abind (alift (get_my_receiver_window_credit a) a) (\<lambda>credit a.
    let gap_ack_blocks = PayloadQueue_get_gap_ack_blocks (a_payload_queue a) (a_peer_last_tsn a);
        (duplicate_tsn, q) = PayloadQueue_pop_duplicates (a_payload_queue a)
    in (Ok \<lparr>sa_cumulative_tsn_ack = a_peer_last_tsn a, sa_advertised_receiver_window_credit = credit,
            sa_gap_ack_blocks = gap_ack_blocks, sa_duplicate_tsn = duplicate_tsn\<rparr>, a\<lparr>a_payload_queue := q\<rparr>))"

definition gather_outbound_sack_packets ::
  "(bytes \<Rightarrow> u32) \<Rightarrow> bytes list \<Rightarrow> Association \<Rightarrow> bytes list res \<times> Association" where
  "gather_outbound_sack_packets crc raw_packets a =
    (if a_ack_state a = Immediate then
       let a = a\<lparr>a_ack_state := Idle\<rparr> in
       abind (create_selective_ack_chunk a) (\<lambda>sack a.
       (push_marshalled crc raw_packets (create_packet a [CSelectiveAck sack]), a))
     else (Ok raw_packets, a))"

fun forward_stream_map :: "OutboundQueue \<Rightarrow> u32 list \<Rightarrow> (u16, u16) hash_map \<Rightarrow> (u16, u16) hash_map" where
  "forward_stream_map q [] m = m"
| "forward_stream_map q (i # is) m =
    (case OutboundQueue_get q i of
       None \<Rightarrow> m
     | Some c \<Rightarrow>
         if d_unordered c then forward_stream_map q is m
         else
           (case map_of m (d_stream_identifier c) of
              Some ssn \<Rightarrow>
                if sna16lt ssn (d_stream_sequence_number c)
                then forward_stream_map q is (AList.update (d_stream_identifier c) (d_stream_sequence_number c) m)
                else forward_stream_map q is m
            | None \<Rightarrow> forward_stream_map q is (AList.update (d_stream_identifier c) (d_stream_sequence_number c) m)))"

definition create_forward_tsn :: "Association \<Rightarrow> ChunkForwardTsn" where
  "create_forward_tsn a =
    (let stream_map = forward_stream_map (a_outbound_queue a)
           (tsns_up_to (a_cumulative_tsn_ack_point a + 1) (a_advanced_peer_tsn_ack_point a)) []
     in \<lparr>ft_new_cumulative_tsn = a_advanced_peer_tsn_ack_point a,
         ft_streams = map (\<lambda>(si, ssn). \<lparr>fs_identifier = si, fs_sequence = ssn\<rparr>) stream_map\<rparr>)"

definition gather_outbound_forward_tsn_packets ::
  "(bytes \<Rightarrow> u32) \<Rightarrow> bytes list \<Rightarrow> Association \<Rightarrow> bytes list res \<times> Association" where
  "gather_outbound_forward_tsn_packets crc raw_packets a =
    (let a = (if a_use_forward_tsn a then
                let previous = a_advanced_peer_tsn_ack_point a;
                    a = advance_peer_tsn_ack_point a
                in if sna32gt (a_advanced_peer_tsn_ack_point a) previous \<and>
                      sna32gt (a_advanced_peer_tsn_ack_point a) (a_cumulative_tsn_ack_point a)
                   then a\<lparr>a_will_send_forward_tsn := True\<rparr> else a
              else a)
     in if a_will_send_forward_tsn a then
          let a = a\<lparr>a_will_send_forward_tsn := False\<rparr> in
          if sna32gt (a_advanced_peer_tsn_ack_point a) (a_cumulative_tsn_ack_point a)
          then (push_marshalled crc raw_packets (create_packet a [CForwardTsn (create_forward_tsn a)]), a)
          else (Ok raw_packets, a)
        else (Ok raw_packets, a))"

subsection \<open>SHUTDOWN\<close>

definition start_timer :: "Timer \<Rightarrow> instant \<Rightarrow> Association \<Rightarrow> Association" where
  "start_timer t now a = upd_timers (\<lambda>tt. TimerTable_start tt t now (RtoManager_get_rto (a_rto_mgr a))) a"

definition gather_outbound_shutdown_packets ::
  "(bytes \<Rightarrow> u32) \<Rightarrow> bytes list \<Rightarrow> instant \<Rightarrow> Association \<Rightarrow> (bytes list \<times> bool) res \<times> Association" where
  "gather_outbound_shutdown_packets crc raw_packets now a =
    (if a_will_send_shutdown a then
       let a = a\<lparr>a_will_send_shutdown := False\<rparr> in
       (case Packet_marshal crc (create_packet a [CShutdown (a_cumulative_tsn_ack_point a)]) of
          Ok raw \<Rightarrow> (Ok (raw_packets @ [raw], True), start_timer T2Shutdown now a)
        | Err _ \<Rightarrow> (Ok (raw_packets, True), a)
        | Panic \<Rightarrow> (Panic, a))
     else if a_will_send_shutdown_ack a then
       let a = a\<lparr>a_will_send_shutdown_ack := False\<rparr> in
       (case Packet_marshal crc (create_packet a [CShutdownAck]) of
          Ok raw \<Rightarrow> (Ok (raw_packets @ [raw], True), start_timer T2Shutdown now a)
        | Err _ \<Rightarrow> (Ok (raw_packets, True), a)
        | Panic \<Rightarrow> (Panic, a))
     else if a_will_send_shutdown_complete a then
       let a = a\<lparr>a_will_send_shutdown_complete := False\<rparr> in
       (case Packet_marshal crc (create_packet a [CShutdownComplete]) of
          Ok raw \<Rightarrow> (Ok (raw_packets @ [raw], False), a)
        | Err _ \<Rightarrow> (Ok (raw_packets, True), a)
        | Panic \<Rightarrow> (Panic, a))
     else (Ok (raw_packets, True), a))"

subsection \<open>Everything that is to be sent\<close>

definition gather_outbound ::
  "(bytes \<Rightarrow> u32) \<Rightarrow> instant \<Rightarrow> Association \<Rightarrow> (bytes list \<times> bool) res \<times> Association" where
  "gather_outbound crc now a =
    abind (gather_outbound_control_packets crc [] now a) (\<lambda>raw_packets a.
    let state = a_state a in
    if state = Established then
      abind (gather_data_packets_to_retransmit crc raw_packets now a) (\<lambda>raw_packets a.
      abind (gather_outbound_fast_retransmission_packets crc raw_packets now a) (\<lambda>raw_packets a.
      abind (gather_outbound_data_and_reconfig_packets crc raw_packets now a) (\<lambda>raw_packets a.
      abind (gather_outbound_control_packets crc raw_packets now a) (\<lambda>raw_packets a.
      abind (gather_outbound_sack_packets crc raw_packets a) (\<lambda>raw_packets a.
      abind (gather_outbound_forward_tsn_packets crc raw_packets a) (\<lambda>raw_packets a.
      (Ok (raw_packets, True), a)))))))
    else if state = ShutdownPending \<or> state = ShutdownSent \<or> state = ShutdownReceived then
      abind (gather_data_packets_to_retransmit crc raw_packets now a) (\<lambda>raw_packets a.
      abind (gather_outbound_fast_retransmission_packets crc raw_packets now a) (\<lambda>raw_packets a.
      abind (gather_outbound_sack_packets crc raw_packets a) (\<lambda>raw_packets a.
      abind (gather_outbound_forward_tsn_packets crc raw_packets a) (\<lambda>raw_packets a.
      gather_outbound_shutdown_packets crc raw_packets now a))))
    else if state = ShutdownAckSent then gather_outbound_shutdown_packets crc raw_packets now a
    else (Ok (raw_packets, True), a))"

definition poll_transmit :: "(bytes \<Rightarrow> u32) \<Rightarrow> instant \<Rightarrow> Association \<Rightarrow> Transmit option res \<times> Association" where
  "poll_transmit crc now a =
    abind (gather_outbound crc now a) (\<lambda>(contents, _) a.
    if contents = [] then (Ok None, a)
    else (Ok (Some \<lparr>tr_now = now, tr_remote = a_remote_addr a, tr_ecn = None, tr_local_ip = a_local_ip a,
                    tr_payload = RawEncode contents\<rparr>), a))"

subsection \<open>Queueing messages and resets\<close>

definition send_reset_request :: "u16 \<Rightarrow> Association \<Rightarrow> unit res \<times> Association" where
  "send_reset_request stream_identifier a =
    (if a_state a \<noteq> Established then (Err ErrResetPacketInStateNotExist, a)
     else (Ok (), a\<lparr>a_pending_reset_streams := a_pending_reset_streams a @ [stream_identifier]\<rparr>))"

definition send_payload_data :: "ChunkPayloadData list \<Rightarrow> Association \<Rightarrow> unit res \<times> Association" where
  "send_payload_data message a =
    (if a_state a \<noteq> Established then (Err ErrPayloadDataStateNotExist, a)
     else
       (case OutboundQueue_push (a_outbound_queue a) message of
          Ok q \<Rightarrow> (Ok (), a\<lparr>a_outbound_queue := q\<rparr>) | Err e \<Rightarrow> (Err e, a) | Panic \<Rightarrow> (Panic, a)))"

definition Association_buffered_amount :: "Association \<Rightarrow> usize" where
  "Association_buffered_amount a =
    OutboundQueue_pending_bytes (a_outbound_queue a) + OutboundQueue_inflight_bytes (a_outbound_queue a)"

end
