(* ===== verification/Assoc_Handlers.thy ===== *)
theory Assoc_Handlers
  imports Assoc_Send
begin

text \<open>
  Handshake, shutdown, the dispatch of received chunks and the timers
  (\<^verbatim>\<open>src/src/association/mod.rs\<close>). Random values are arguments: the initial TSN of \<open>Association_new\<close> and
  the state cookie \<open>cookie\<close> that \<^verbatim>\<open>handle_init\<close> draws when it has none yet; a packet contains at most
  one INIT, so one value per packet is enough.
\<close>

subsection \<open>Connecting\<close>

definition apply_remote_init_params :: "u32 \<Rightarrow> u32 \<Rightarrow> Param list \<Rightarrow> Association \<Rightarrow> Association" where
  "apply_remote_init_params initial_tsn advertised_receiver_window_credit params a =
    (let a = a\<lparr>a_peer_last_tsn := initial_tsn - 1, a_peer_last_reconfig_rsn := initial_tsn - 1,
               a_peer_reconfig_rsn_initialized := True, a_rwnd := advertised_receiver_window_credit\<rparr>;
         a = a\<lparr>a_ssthresh := a_rwnd a\<rparr>
     in if \<exists>p \<in> set params. case p of ParamSupportedExtensions ts \<Rightarrow> CT_FORWARD_TSN \<in> set ts | _ \<Rightarrow> False
        then a\<lparr>a_use_forward_tsn := True\<rparr> else a)"

definition send_init :: "Association \<Rightarrow> unit res \<times> Association" where
  "send_init a =
    (case a_stored_init a of
       Some stored_init \<Rightarrow> (Ok (), push_control [create_packet a [CInit stored_init]] a)
     | None \<Rightarrow> (Err ErrInitNotStoredToSend, a))"

definition send_cookie_echo :: "Association \<Rightarrow> unit res \<times> Association" where
  "send_cookie_echo a =
    (case a_stored_cookie_echo a of
       Some stored_cookie_echo \<Rightarrow> (Ok (), push_control [create_packet a [CCookieEcho stored_cookie_echo]] a)
     | None \<Rightarrow> (Err ErrCookieEchoNotStoredToSend, a))"

definition Association_new ::
  "bool \<Rightarrow> TransportConfig \<Rightarrow> u32 \<Rightarrow> u32 \<Rightarrow> SocketAddr \<Rightarrow> IpAddr option \<Rightarrow> u32 \<Rightarrow> instant \<Rightarrow> Association res" where
  "Association_new is_server config max_payload_size local_aid remote_addr local_ip tsn now =
    (let side = (if is_server then Server else Client) in
     rbind (new_common config max_payload_size remote_addr local_ip side local_aid tsn) (\<lambda>this.
     if side = Client then
       let init = set_supported_extensions (ChunkInit_default\<lparr>ci_initial_tsn := a_my_next_tsn this,
             ci_num_outbound_streams := a_my_max_num_outbound_streams this,
             ci_num_inbound_streams := a_my_max_num_inbound_streams this,
             ci_initiate_tag := a_my_verification_tag this,
             ci_advertised_receiver_window_credit := a_max_receive_buffer_size this\<rparr>);
           this = (set_state CookieWait this)\<lparr>a_stored_init := Some init\<rparr>;
           (_, this) = send_init this
       in Ok (start_timer T1Init now this)
     else Ok this))"

definition new_with_out_of_band_init ::
  "TransportConfig \<Rightarrow> u32 \<Rightarrow> SocketAddr \<Rightarrow> IpAddr option \<Rightarrow> ChunkInit \<Rightarrow> ChunkInit \<Rightarrow> Association res" where
  "new_with_out_of_band_init config max_payload_size remote_addr local_ip local_init remote_init =
    (let side = (if ci_initiate_tag local_init \<le> ci_initiate_tag remote_init then Server else Client);
         tsn = ci_initial_tsn local_init
     in
     rbind (new_common config max_payload_size remote_addr local_ip side (ci_initiate_tag local_init) tsn) (\<lambda>this.
     let this = this\<lparr>
           a_my_max_num_inbound_streams := min (tc_max_num_inbound_streams config) (ci_num_outbound_streams remote_init),
           a_my_max_num_outbound_streams := min (tc_max_num_outbound_streams config) (ci_num_inbound_streams remote_init),
           a_peer_verification_tag := ci_initiate_tag remote_init, a_handshake_completed := True\<rparr>;
         this = apply_remote_init_params (ci_initial_tsn remote_init)
           (ci_advertised_receiver_window_credit remote_init) (ci_params remote_init) this;
         this = set_state Established this
     in Ok (push_event Connected this)))"

subsection \<open>Handshake\<close>

definition handle_init :: "bytes \<Rightarrow> Packet \<Rightarrow> ChunkInit \<Rightarrow> Association \<Rightarrow> Packet list res \<times> Association" where
  "handle_init cookie p i a =
    (if a_state a \<noteq> Closed \<and> a_state a \<noteq> CookieWait \<and> a_state a \<noteq> CookieEchoed then (Err ErrHandleInitState, a)
     else
       let a = a\<lparr>a_my_max_num_inbound_streams := min (ci_num_inbound_streams i) (a_my_max_num_inbound_streams a),
                 a_my_max_num_outbound_streams := min (ci_num_outbound_streams i) (a_my_max_num_outbound_streams a),
                 a_peer_verification_tag := ci_initiate_tag i,
                 a_source_port := hd_destination_port (pk_common_header p),
                 a_destination_port := hd_source_port (pk_common_header p)\<rparr>;
           a = apply_remote_init_params (ci_initial_tsn i) (ci_advertised_receiver_window_credit i) (ci_params i) a;
           a = (case a_my_cookie a of None \<Rightarrow> a\<lparr>a_my_cookie := Some cookie\<rparr> | Some _ \<Rightarrow> a);
           init_ack = ChunkInit_default\<lparr>ci_is_ack := True, ci_initial_tsn := a_my_next_tsn a,
             ci_num_outbound_streams := a_my_max_num_outbound_streams a,
             ci_num_inbound_streams := a_my_max_num_inbound_streams a,
             ci_initiate_tag := a_my_verification_tag a,
             ci_advertised_receiver_window_credit := a_max_receive_buffer_size a\<rparr>;
           init_ack = (case a_my_cookie a of
             Some c \<Rightarrow> init_ack\<lparr>ci_params := [ParamStateCookie c]\<rparr> | None \<Rightarrow> init_ack);
           init_ack = set_supported_extensions init_ack
       in (Ok [create_packet a [CInit init_ack]], a))"

fun find_state_cookie :: "Param list \<Rightarrow> bytes option" where
  "find_state_cookie [] = None"
| "find_state_cookie (p # ps) = (case p of ParamStateCookie c \<Rightarrow> Some c | _ \<Rightarrow> find_state_cookie ps)"

definition handle_init_ack :: "Packet \<Rightarrow> ChunkInit \<Rightarrow> instant \<Rightarrow> Association \<Rightarrow> Packet list res \<times> Association" where
  "handle_init_ack p i now a =
    (if a_state a \<noteq> CookieWait then (Ok [], a)
     else
       let a = a\<lparr>a_my_max_num_inbound_streams := min (ci_num_inbound_streams i) (a_my_max_num_inbound_streams a),
                 a_my_max_num_outbound_streams := min (ci_num_outbound_streams i) (a_my_max_num_outbound_streams a),
                 a_peer_verification_tag := ci_initiate_tag i\<rparr>
       in
       if a_source_port a \<noteq> hd_destination_port (pk_common_header p) \<or>
          a_destination_port a \<noteq> hd_source_port (pk_common_header p) then (Ok [], a)
       else
         let a = apply_remote_init_params (ci_initial_tsn i) (ci_advertised_receiver_window_credit i) (ci_params i) a;
             a = (upd_timers (\<lambda>t. TimerTable_stop t T1Init) a)\<lparr>a_stored_init := None\<rparr>
         in (case find_state_cookie (ci_params i) of
               Some c \<Rightarrow>
                 let a = a\<lparr>a_stored_cookie_echo := Some c\<rparr> in
                 abind (send_cookie_echo a) (\<lambda>_ a.
                 (Ok [], set_state CookieEchoed (start_timer T1Cookie now a)))
             | None \<Rightarrow> (Err ErrInitAckNoCookie, a)))"

definition handle_heartbeat :: "ChunkHeartbeat \<Rightarrow> Association \<Rightarrow> Packet list res" where
  "handle_heartbeat c a =
    (case c of
       ParamHeartbeatInfo info # _ \<Rightarrow> Ok [create_packet a [CHeartbeatAck [ParamHeartbeatInfo info]]]
     | _ \<Rightarrow> Ok [])"

definition handle_cookie_echo :: "ChunkCookieEcho \<Rightarrow> Association \<Rightarrow> Packet list res \<times> Association" where
  "handle_cookie_echo c a =
    (case a_my_cookie a of
       None \<Rightarrow> (Ok [], a)
     | Some my_cookie \<Rightarrow>
         if a_state a = Established then
           (if my_cookie \<noteq> c then (Ok [], a) else (Ok [create_packet a [CCookieAck]], a))
         else if a_state a = Closed \<or> a_state a = CookieWait \<or> a_state a = CookieEchoed then
           (if my_cookie \<noteq> c then (Ok [], a)
            else
              let a = (upd_timers (\<lambda>t. TimerTable_stop t T1Init) a)\<lparr>a_stored_init := None\<rparr>;
                  a = (upd_timers (\<lambda>t. TimerTable_stop t T1Cookie) a)\<lparr>a_stored_cookie_echo := None\<rparr>;
                  a = push_event Connected a;
                  a = (set_state Established a)\<lparr>a_handshake_completed := True\<rparr>
              in (Ok [create_packet a [CCookieAck]], a))
         else (Ok [], a))"

definition handle_cookie_ack :: "Association \<Rightarrow> Packet list res \<times> Association" where
  "handle_cookie_ack a =
    (if a_state a \<noteq> CookieEchoed then (Ok [], a)
     else
       let a = (upd_timers (\<lambda>t. TimerTable_stop t T1Cookie) a)\<lparr>a_stored_cookie_echo := None\<rparr>;
           a = push_event Connected a
       in (Ok [], (set_state Established a)\<lparr>a_handshake_completed := True\<rparr>))"

subsection \<open>Shutdown\<close>

definition handle_shutdown :: "Association \<Rightarrow> Packet list res \<times> Association" where
  "handle_shutdown a =
    (if a_state a = Established then
       (Ok [], if OutboundQueue_inflight_len (a_outbound_queue a) \<noteq> 0 then set_state ShutdownReceived a
               else set_state ShutdownAckSent (a\<lparr>a_will_send_shutdown_ack := True\<rparr>))
     else if a_state a = ShutdownSent
     then (Ok [], set_state ShutdownAckSent (a\<lparr>a_will_send_shutdown_ack := True\<rparr>))
     else (Ok [], a))"

definition handle_shutdown_ack :: "Association \<Rightarrow> Packet list res \<times> Association" where
  "handle_shutdown_ack a =
    (Ok [], if a_state a = ShutdownSent \<or> a_state a = ShutdownAckSent
            then (upd_timers (\<lambda>t. TimerTable_stop t T2Shutdown) a)\<lparr>a_will_send_shutdown_complete := True\<rparr>
            else a)"

definition handle_shutdown_complete :: "Association \<Rightarrow> Packet list res \<times> Association" where
  "handle_shutdown_complete a =
    (Ok [], if a_state a = ShutdownAckSent
            then Association_close (upd_timers (\<lambda>t. TimerTable_stop t T2Shutdown) a)
            else a)"

subsection \<open>Received chunks\<close>

text \<open>How an error cause is printed into the error of a received ABORT or ERROR chunk.\<close>

function decimal :: "nat \<Rightarrow> string" where
  "decimal n = (if n < 10 then [char_of (48 + n)] else decimal (n div 10) @ [char_of (48 + n mod 10)])"
  by pat_completeness auto
termination by (relation "measure id") auto

definition ErrorCauseCode_fmt :: "u16 \<Rightarrow> string" where
  "ErrorCauseCode_fmt code =
    (if code = 1 then ''Invalid Stream Identifier''
     else if code = 2 then ''Missing Mandatory Parameter''
     else if code = 3 then ''Stale Cookie Error''
     else if code = OUT_OF_RESOURCE then ''Out Of Resource''
     else if code = 5 then ''Unresolvable IP''
     else if code = UNRECOGNIZED_CHUNK_TYPE then ''Unrecognized Chunk Type''
     else if code = 7 then ''Invalid Mandatory Parameter''
     else if code = 8 then ''Unrecognized Parameters''
     else if code = 9 then ''No User Data''
     else if code = 10 then ''Cookie Received While Shutting Down''
     else if code = 11 then ''Restart Of An Association With New Addresses''
     else if code = USER_INITIATED_ABORT then ''User Initiated Abort''
     else if code = PROTOCOL_VIOLATION then ''Protocol Violation''
     else ''Unknown CauseCode: '' @ decimal (unat code))"

definition causes_fmt :: "ErrorCause list \<Rightarrow> string" where
  "causes_fmt es = concat (map (\<lambda>e. ''('' @ ErrorCauseCode_fmt (ec_code e) @ '')'') es)"

definition handle_abort :: "ErrorCause list \<Rightarrow> Association \<Rightarrow> unit res \<times> Association" where
  "handle_abort causes a =
    (if \<exists>e \<in> set causes. ec_code e = USER_INITIATED_ABORT then (Ok (), Association_close a)
     else (Err (ErrAbortChunk (causes_fmt causes)), a))"

text \<open>The handler of a chunk that answers with packets.\<close>

definition dispatch_chunk ::
  "bytes \<Rightarrow> Packet \<Rightarrow> Chunk \<Rightarrow> instant \<Rightarrow> Association \<Rightarrow> Packet list res \<times> Association" where
  "dispatch_chunk cookie p chunk now a =
    (case chunk of
       CInit c \<Rightarrow> if ci_is_ack c then handle_init_ack p c now a else handle_init cookie p c a
     | CHeartbeat c \<Rightarrow> (handle_heartbeat c a, a)
     | CCookieEcho c \<Rightarrow> handle_cookie_echo c a
     | CCookieAck \<Rightarrow> handle_cookie_ack a
     | CPayloadData c \<Rightarrow> handle_data c a
     | CSelectiveAck c \<Rightarrow> handle_sack c now a
     | CReconfig c \<Rightarrow> handle_reconfig c a
     | CForwardTsn c \<Rightarrow> handle_forward_tsn c a
     | CIForwardTsn c \<Rightarrow> handle_i_forward_tsn c a
     | CShutdown _ \<Rightarrow> handle_shutdown a
     | CShutdownAck \<Rightarrow> handle_shutdown_ack a
     | CShutdownComplete \<Rightarrow> handle_shutdown_complete a
     | _ \<Rightarrow> (Err ErrChunkTypeUnhandled, a))"

definition handle_chunk :: "bytes \<Rightarrow> Packet \<Rightarrow> Chunk \<Rightarrow> instant \<Rightarrow> Association \<Rightarrow> unit res \<times> Association" where
  "handle_chunk cookie p chunk now a =
    abind (alift (Chunk_check chunk) a) (\<lambda>_ a.
    case chunk of
      CAbort causes \<Rightarrow> handle_abort causes a
    | CError causes \<Rightarrow> (Err (ErrAbortChunk (causes_fmt causes)), a)
    | _ \<Rightarrow>
        abind (dispatch_chunk cookie p chunk now a) (\<lambda>packets a.
        (Ok (), if packets \<noteq> [] then push_control packets a else a)))"

definition handle_chunk_start :: "Association \<Rightarrow> Association" where
  "handle_chunk_start a = a\<lparr>a_delayed_ack_triggered := False, a_immediate_ack_triggered := False\<rparr>"

definition handle_chunk_end :: "instant \<Rightarrow> Association \<Rightarrow> Association" where
  "handle_chunk_end now a =
    (if a_immediate_ack_triggered a then upd_timers (\<lambda>t. TimerTable_stop t Ack) (a\<lparr>a_ack_state := Immediate\<rparr>)
     else if a_delayed_ack_triggered a
     then upd_timers (\<lambda>t. TimerTable_start t Ack now ACK_INTERVAL) (a\<lparr>a_ack_state := Delay\<rparr>)
     else a)"

definition handle_inbound :: "bytes \<Rightarrow> Packet \<Rightarrow> instant \<Rightarrow> Association \<Rightarrow> unit res \<times> Association" where
  "handle_inbound cookie p now a =
    (case check_packet p of
       Err _ \<Rightarrow> (Ok (), a)
     | Panic \<Rightarrow> (Panic, a)
     | Ok () \<Rightarrow>
         let a = handle_chunk_start a in
         abind (afor (pk_chunks p) (\<lambda>c. handle_chunk cookie p c now) a) (\<lambda>_ a.
         (Ok (), handle_chunk_end now a)))"

definition handle_event :: "bytes \<Rightarrow> AssociationEvent \<Rightarrow> Association \<Rightarrow> unit res \<times> Association" where
  "handle_event cookie event a =
    (case event of Datagram transmit \<Rightarrow>
       (case tr_payload transmit of
          PayloadPartialDecode partial_decode \<Rightarrow>
            (case PartialDecode_finish partial_decode of
               Err _ \<Rightarrow> (Ok (), a)
             | Panic \<Rightarrow> (Panic, a)
             | Ok pkt \<Rightarrow>
                 (case handle_inbound cookie pkt (tr_now transmit) a of
                    (Ok (), a) \<Rightarrow> (Ok (), a)
                  | (Err err, a) \<Rightarrow>
                      (Ok (), if err = ErrReceiveBufferExhausted then abort_receive_capacity a else Association_close a)
                  | (Panic, a) \<Rightarrow> (Panic, a)))
        | RawEncode _ \<Rightarrow> (Ok (), a)))"

subsection \<open>Timers\<close>

definition on_ack_timeout :: "Association \<Rightarrow> Association" where
  "on_ack_timeout a = a\<lparr>a_stats := inc_ack_timeouts (a_stats a), a_ack_state := Immediate\<rparr>"

definition on_t3_timeout :: "Association \<Rightarrow> unit res \<times> Association" where
  "on_t3_timeout a =
    (let a = a\<lparr>a_stats := inc_t3timeouts (a_stats a)\<rparr> in
     abind (alift (u32_mul 4 (a_mtu a)) a) (\<lambda>mtu4 a.
     let a = a\<lparr>a_ssthresh := max (a_cwnd a div 2) mtu4\<rparr>;
         a = a\<lparr>a_cwnd := a_mtu a\<rparr>;
         a = (if a_use_forward_tsn a then
                let a = advance_peer_tsn_ack_point a in
                if sna32gt (a_advanced_peer_tsn_ack_point a) (a_cumulative_tsn_ack_point a)
                then a\<lparr>a_will_send_forward_tsn := True\<rparr> else a
              else a)
     in (Ok (), a\<lparr>a_outbound_queue := OutboundQueue_mark_all_to_retransmit (a_outbound_queue a)\<rparr>)))"

definition on_retransmission_timeout :: "Timer \<Rightarrow> Association \<Rightarrow> unit res \<times> Association" where
  "on_retransmission_timeout timer_id a =
    (case timer_id of
       T1Init \<Rightarrow> (Ok (), snd (send_init a))
     | T1Cookie \<Rightarrow> (Ok (), snd (send_cookie_echo a))
     | T2Shutdown \<Rightarrow>
         (Ok (), if a_state a = ShutdownSent then a\<lparr>a_will_send_shutdown := True\<rparr>
                 else if a_state a = ShutdownAckSent then a\<lparr>a_will_send_shutdown_ack := True\<rparr> else a)
     | T3RTX \<Rightarrow> on_t3_timeout a
     | Reconfig \<Rightarrow> (Ok (), a\<lparr>a_will_retransmit_reconfig := True\<rparr>)
     | Ack \<Rightarrow> (Ok (), a))"

definition on_retransmission_failure :: "Timer \<Rightarrow> Association \<Rightarrow> Association" where
  "on_retransmission_failure timer_id a =
    (case timer_id of
       T1Init \<Rightarrow> a\<lparr>a_error := Some (HandshakeError ErrHandshakeInitAck)\<rparr>
     | T1Cookie \<Rightarrow> a\<lparr>a_error := Some (HandshakeError ErrHandshakeCookieEcho)\<rparr>
     | Reconfig \<Rightarrow>
         (case a_active_reconfig a of
            Some rsn \<Rightarrow> snd (finish_reconfig rsn (Some Failed) a)
          | None \<Rightarrow> upd_timers (\<lambda>t. TimerTable_stop t Reconfig) a)
     | _ \<Rightarrow> a)"

definition handle_timer :: "instant \<Rightarrow> Timer \<Rightarrow> Association \<Rightarrow> unit res \<times> Association" where
  "handle_timer now timer a =
    (let ((expired, failure, n_rtos), tt) = TimerTable_is_expired (a_timers a) timer now;
         a = a\<lparr>a_timers := tt\<rparr>
     in
     if \<not> expired then (Ok (), a)
     else
       let a = upd_timers (\<lambda>t. TimerTable_set t timer None) a in
       if timer = Ack then (Ok (), on_ack_timeout a)
       else if failure then (Ok (), on_retransmission_failure timer a)
       else abind (on_retransmission_timeout timer a) (\<lambda>_ a. (Ok (), start_timer timer now a)))"

definition handle_timeout :: "instant \<Rightarrow> Association \<Rightarrow> unit res \<times> Association" where
  "handle_timeout now a = afor Timer_VALUES (handle_timer now) a"

definition poll_timeout :: "Association \<Rightarrow> instant option" where
  "poll_timeout a = TimerTable_next_timeout (a_timers a)"

definition Association_shutdown :: "Association \<Rightarrow> unit res \<times> Association" where
  "Association_shutdown a =
    (if a_state a \<noteq> Established then (Err ErrShutdownNonEstablished, a)
     else
       let a = set_state ShutdownPending a;
           a = (if a_inflight_queue_length a = 0 then set_state ShutdownSent (a\<lparr>a_will_send_shutdown := True\<rparr>) else a)
       in (Ok (), a\<lparr>a_endpoint_events := a_endpoint_events a @ [Drained]\<rparr>))"

end
