(* ===== verification/Assoc_Api.thy ===== *)
theory Assoc_Api
  imports Assoc_Handlers
begin

text \<open>
  What the application calls: event polling and the stream table of an association
  (\<^verbatim>\<open>src/src/association/mod.rs\<close>) and the methods of \<^verbatim>\<open>Stream\<close> (\<^verbatim>\<open>src/src/association/stream.rs\<close>).
  A \<^verbatim>\<open>Stream\<close> is a stream identifier together with a reference to the association, so its methods
  take both. A call of \<^verbatim>\<open>packetize\<close> that does not return is a \<open>Panic\<close>.
\<close>

subsection \<open>Events\<close>

fun stream_event_id :: "StreamEvent \<Rightarrow> u16 option" where
  "stream_event_id (Opened sid) = Some sid"
| "stream_event_id (StreamReadable sid) = Some sid"
| "stream_event_id (StreamWritable sid) = Some sid"
| "stream_event_id (Finished sid) = Some sid"
| "stream_event_id (ResetComplete sid) = Some sid"
| "stream_event_id (ResetFailed sid _) = Some sid"
| "stream_event_id (Stopped sid _) = Some sid"
| "stream_event_id (BufferedAmountLow sid) = Some sid"
| "stream_event_id (BufferedAmountHigh sid) = Some sid"
| "stream_event_id Available = None"

fun is_terminal_reset :: "StreamEvent \<Rightarrow> bool" where
  "is_terminal_reset (ResetComplete _) = True"
| "is_terminal_reset (ResetFailed _ _) = True"
| "is_terminal_reset _ = False"

fun is_open_or_readable :: "StreamEvent \<Rightarrow> bool" where
  "is_open_or_readable (Opened _) = True"
| "is_open_or_readable (StreamReadable _) = True"
| "is_open_or_readable _ = False"

text \<open>A \<^verbatim>\<open>Finished\<close> event whose generation has not drained blocks later events of its stream.\<close>

definition blocking_finish :: "Association \<Rightarrow> Event \<Rightarrow> u16 option" where
  "blocking_finish a e =
    (case e of
       EStream (Finished sid) \<Rightarrow>
         if a_state a \<noteq> Closed \<and> \<not> PRC_contains (a_ready_stream_finishes a) sid then Some sid else None
     | _ \<Rightarrow> None)"

definition event_blocked :: "Association \<Rightarrow> u16 list \<Rightarrow> Event \<Rightarrow> bool" where
  "event_blocked a blocked_streams e =
    (case e of
       EStream se \<Rightarrow>
         (case stream_event_id se of
            Some sid \<Rightarrow> sid \<in> set blocked_streams \<and>
              \<not> (is_terminal_reset se \<and> PRC_contains (a_delivered_stream_finishes a) sid) \<and> \<not> is_open_or_readable se
          | None \<Rightarrow> False)
     | _ \<Rightarrow> False)"

fun poll_select :: "Association \<Rightarrow> u16 list \<Rightarrow> nat \<Rightarrow> Event list \<Rightarrow> nat option" where
  "poll_select a blocked_streams i [] = None"
| "poll_select a blocked_streams i (e # es) =
    (case blocking_finish a e of
       Some sid \<Rightarrow> poll_select a (sid # blocked_streams) (i + 1) es
     | None \<Rightarrow>
         if event_blocked a blocked_streams e then poll_select a blocked_streams (i + 1) es else Some i)"

definition poll :: "Association \<Rightarrow> Event option \<times> Association" where
  "poll a =
    (case poll_select a [] 0 (a_events a) of
       Some i \<Rightarrow>
         let x = a_events a ! i;
             a = a\<lparr>a_events := take i (a_events a) @ drop (i + 1) (a_events a)\<rparr>;
             a = (case x of
                    EStream (Finished sid) \<Rightarrow>
                      let a = a\<lparr>a_ready_stream_finishes := snd (PRC_take_one (a_ready_stream_finishes a) sid)\<rparr>
                      in if a_state a \<noteq> Closed
                         then a\<lparr>a_delivered_stream_finishes := PRC_insert (a_delivered_stream_finishes a) sid\<rparr> else a
                  | EStream (ResetComplete sid) \<Rightarrow>
                      a\<lparr>a_delivered_stream_finishes := snd (PRC_take_one (a_delivered_stream_finishes a) sid)\<rparr>
                  | EStream (ResetFailed sid _) \<Rightarrow>
                      a\<lparr>a_delivered_stream_finishes := snd (PRC_take_one (a_delivered_stream_finishes a) sid)\<rparr>
                  | _ \<Rightarrow> a)
         in (Some x, a)
     | None \<Rightarrow>
         (case a_error a of
            Some err \<Rightarrow> (Some (HandshakeFailed err), a\<lparr>a_error := None\<rparr>)
          | None \<Rightarrow> (None, a)))"

definition poll_endpoint_event :: "Association \<Rightarrow> EndpointEvent option \<times> Association" where
  "poll_endpoint_event a =
    (case a_endpoint_events a of
       [] \<Rightarrow> (None, a) | e # es \<Rightarrow> (Some e, a\<lparr>a_endpoint_events := es\<rparr>))"

subsection \<open>Streams of the association\<close>

definition open_stream :: "u16 \<Rightarrow> PayloadProtocolIdentifier \<Rightarrow> Association \<Rightarrow> u16 res \<times> Association" where
  "open_stream stream_identifier default_payload_type a =
    (if contains_key (a_streams a) stream_identifier then (Err ErrStreamAlreadyExist, a)
     else if stream_reset_blocked a stream_identifier then (Err ErrStreamResetPending, a)
     else
       (case create_stream stream_identifier False default_payload_type a of
          (True, a) \<Rightarrow> (Ok stream_identifier, a) | (False, a) \<Rightarrow> (Err ErrStreamCreateFailed, a)))"

definition accept_stream :: "Association \<Rightarrow> u16 option \<times> Association" where
  "accept_stream a =
    (case a_stream_queue a of [] \<Rightarrow> (None, a) | sid # q \<Rightarrow> (Some sid, a\<lparr>a_stream_queue := q\<rparr>))"

definition stream :: "u16 \<Rightarrow> Association \<Rightarrow> u16 res" where
  "stream stream_identifier a =
    (if \<not> contains_key (a_streams a) stream_identifier then Err ErrStreamNotExisted else Ok stream_identifier)"

definition stream_ids :: "Association \<Rightarrow> u16 list" where
  "stream_ids a = keys (a_streams a)"

definition set_max_send_message_size :: "u32 \<Rightarrow> Association \<Rightarrow> Association" where
  "set_max_send_message_size v a = a\<lparr>a_max_send_message_size := v\<rparr>"

definition set_max_receive_message_size :: "u32 \<Rightarrow> Association \<Rightarrow> Association" where
  "set_max_receive_message_size v a = a\<lparr>a_max_receive_message_size := v\<rparr>"

definition is_handshaking :: "Association \<Rightarrow> bool" where
  "is_handshaking a \<longleftrightarrow> \<not> a_handshake_completed a"

definition is_closed :: "Association \<Rightarrow> bool" where
  "is_closed a \<longleftrightarrow> a_state a = Closed"

subsection \<open>Reading\<close>

text \<open>The counters of the generation that was read, in the stream table or in its final event.\<close>

fun received_in_events :: "u64 \<Rightarrow> (DataChannelStats \<Rightarrow> DataChannelStats) \<Rightarrow> Event list \<Rightarrow> Event list" where
  "received_in_events generation f [] = []"
| "received_in_events generation f (e # es) =
    (case e of
       DataChannelStatsFinal stats \<Rightarrow>
         if dcs_generation stats = generation then DataChannelStatsFinal (f stats) # es
         else e # received_in_events generation f es
     | _ \<Rightarrow> e # received_in_events generation f es)"

definition count_received :: "u16 \<Rightarrow> u64 \<Rightarrow> Chunks \<Rightarrow> Association \<Rightarrow> Association" where
  "count_received stream_identifier generation message a =
    (let f = (\<lambda>stats. DataChannelStats_received stats (ck_ppi message) (Chunks_len message)) in
     if (case map_of (a_streams a) stream_identifier of
           Some s \<Rightarrow> dcs_generation (ss_stats s) = generation | None \<Rightarrow> False)
     then upd_stream stream_identifier (\<lambda>s. s\<lparr>ss_stats := f (ss_stats s)\<rparr>) a
     else a\<lparr>a_events := received_in_events generation f (a_events a)\<rparr>)"

definition read_sctp :: "u16 \<Rightarrow> Association \<Rightarrow> Chunks option res \<times> Association" where
  "read_sctp stream_identifier a =
    (case map_of (a_streams a) stream_identifier of
       None \<Rightarrow> (Err ErrStreamClosed, a)
     | Some s \<Rightarrow>
         if \<not> stream_is_readable s then (Err ErrStreamClosed, a)
         else
           let (message, q) = ReassemblyQueue_read (ss_reassembly_queue s);
               drained = (message \<noteq> None \<and> ReassemblyQueue_get_num_bytes q = 0);
               generation = dcs_generation (ss_stats s);
               a = upd_stream stream_identifier (\<lambda>s. s\<lparr>ss_reassembly_queue := q\<rparr>) a
           in
           abind (if drained then finish_retiring_stream stream_identifier a else (Ok (), a)) (\<lambda>_ a.
           abind (if message \<noteq> None then alift (receive_capacity_exhausted a) a else (Ok False, a)) (\<lambda>exhausted a.
           let a = (if exhausted then abort_receive_capacity a else a)
           in (Ok message, case message of
                 Some m \<Rightarrow> count_received stream_identifier generation m a | None \<Rightarrow> a))))"

subsection \<open>Writing\<close>

definition is_readable :: "u16 \<Rightarrow> Association \<Rightarrow> bool" where
  "is_readable stream_identifier a =
    (case map_of (a_streams a) stream_identifier of Some s \<Rightarrow> stream_is_readable s | None \<Rightarrow> False)"

definition is_writable :: "u16 \<Rightarrow> Association \<Rightarrow> bool" where
  "is_writable stream_identifier a =
    (\<not> stream_reset_blocked a stream_identifier \<and>
     (case map_of (a_streams a) stream_identifier of
        Some s \<Rightarrow> ss_state s = RS_Writable \<or> ss_state s = RS_ReadWritable | None \<Rightarrow> False))"

text \<open>
  \<^verbatim>\<open>write_source\<close> over a \<^verbatim>\<open>BytesSource\<close> that has \<open>remaining\<close> bytes and yields \<open>pop n\<close> when asked for at
  most \<open>n\<close> bytes.
\<close>

definition write_source ::
  "u16 \<Rightarrow> usize \<Rightarrow> (usize \<Rightarrow> bytes) \<Rightarrow> PayloadProtocolIdentifier \<Rightarrow> Association \<Rightarrow> usize res \<times> Association" where
  "write_source stream_identifier remaining pop ppi a =
    (if \<not> is_writable stream_identifier a then (Err ErrStreamClosed, a)
     else if remaining > unat (a_max_send_message_size a) then (Err ErrOutboundPacketTooLarge, a)
     else if is_closing (a_state a) then (Err ErrStreamClosed, a)
     else
       let p = pop (unat (a_max_send_message_size a)) in
       case map_of (a_streams a) stream_identifier of
         None \<Rightarrow> (Err ErrStreamClosed, a)
       | Some s \<Rightarrow>
           (case packetize s p ppi of
              None \<Rightarrow> (Panic, a)
            | Some ((is_buffered_amount_high, chunks), s) \<Rightarrow>
                let chunks = map (\<lambda>c. c\<lparr>d_reliability := Some (ss_reliability_type s, ss_reliability_value s)\<rparr>) chunks;
                    a = upd_stream stream_identifier (\<lambda>_. s) a;
                    queued = (chunks \<noteq> [])
                in
                abind (send_payload_data chunks a) (\<lambda>_ a.
                let a = (if queued then upd_stream stream_identifier
                           (\<lambda>s. s\<lparr>ss_stats := DataChannelStats_sent (ss_stats s) ppi (length p)\<rparr>) a else a);
                    a = (if is_buffered_amount_high
                         then push_event (EStream (BufferedAmountHigh stream_identifier)) a else a)
                in (Ok (length p), a))))"

definition write_with_ppi :: "u16 \<Rightarrow> bytes \<Rightarrow> PayloadProtocolIdentifier \<Rightarrow> Association \<Rightarrow> usize res \<times> Association" where
  "write_with_ppi stream_identifier data ppi a =
    write_source stream_identifier (ByteSlice_remaining data) (\<lambda>n. fst (fst (ByteSlice_pop_chunk data n))) ppi a"

definition get_default_payload_type :: "u16 \<Rightarrow> Association \<Rightarrow> PayloadProtocolIdentifier res" where
  "get_default_payload_type stream_identifier a =
    (case map_of (a_streams a) stream_identifier of
       Some s \<Rightarrow> Ok (ss_default_payload_type s) | None \<Rightarrow> Err ErrStreamClosed)"

definition Stream_write :: "u16 \<Rightarrow> bytes \<Rightarrow> Association \<Rightarrow> usize res \<times> Association" where
  "Stream_write stream_identifier data a =
    abind (alift (get_default_payload_type stream_identifier a) a) (\<lambda>ppi a.
    write_with_ppi stream_identifier data ppi a)"

definition write_chunks :: "u16 \<Rightarrow> bytes list \<Rightarrow> Association \<Rightarrow> usize res \<times> Association" where
  "write_chunks stream_identifier data a =
    (let source = BytesArray_from_chunks data in
     abind (alift (get_default_payload_type stream_identifier a) a) (\<lambda>ppi a.
     abind (alift (BytesArray_remaining source) a) (\<lambda>remaining a.
     write_source stream_identifier remaining (\<lambda>n. fst (fst (BytesArray_pop_chunk source n))) ppi a)))"

subsection \<open>Closing a stream\<close>

definition set_half :: "u8 \<Rightarrow> u16 \<Rightarrow> Association \<Rightarrow> Association" where
  "set_half m stream_identifier a =
    upd_stream stream_identifier (\<lambda>s. s\<lparr>ss_state := RecvSendState_from (RecvSendState_as_u8 (ss_state s) AND m)\<rparr>) a"

definition Stream_stop :: "u16 \<Rightarrow> Association \<Rightarrow> unit res \<times> Association" where
  "Stream_stop stream_identifier a =
    (let retiring = contains_key (a_retiring_streams a) stream_identifier;
         reset = is_readable stream_identifier a
     in
     abind (if reset \<and> \<not> retiring \<and> \<not> stream_reset_in_progress a stream_identifier
            then send_reset_request stream_identifier a else (Ok (), a)) (\<lambda>_ a.
     let a = set_half 2 stream_identifier a in
     abind (if retiring then discard_retiring_streams stream_identifier a else (Ok (), a)) (\<lambda>_ a.
     abind (alift (receive_capacity_exhausted a) a) (\<lambda>exhausted a.
     (Ok (), if exhausted then abort_receive_capacity a else a)))))"

definition Stream_finish :: "u16 \<Rightarrow> Association \<Rightarrow> unit res \<times> Association" where
  "Stream_finish stream_identifier a = (Ok (), set_half 1 stream_identifier a)"

definition Stream_close :: "u16 \<Rightarrow> Association \<Rightarrow> unit res \<times> Association" where
  "Stream_close stream_identifier a =
    abind (Stream_finish stream_identifier a) (\<lambda>_ a. Stream_stop stream_identifier a)"

subsection \<open>Settings of a stream\<close>

text \<open>A setter fails when the stream is gone.\<close>

definition set_on_stream :: "u16 \<Rightarrow> (StreamState \<Rightarrow> StreamState) \<Rightarrow> Association \<Rightarrow> unit res \<times> Association" where
  "set_on_stream stream_identifier f a =
    (if contains_key (a_streams a) stream_identifier then (Ok (), upd_stream stream_identifier f a)
     else (Err ErrStreamClosed, a))"

definition get_of_stream :: "u16 \<Rightarrow> (StreamState \<Rightarrow> 'a) \<Rightarrow> Association \<Rightarrow> 'a res" where
  "get_of_stream stream_identifier f a =
    (case map_of (a_streams a) stream_identifier of Some s \<Rightarrow> Ok (f s) | None \<Rightarrow> Err ErrStreamClosed)"

definition Stream_stats :: "u16 \<Rightarrow> Association \<Rightarrow> DataChannelStats res" where
  "Stream_stats stream_identifier a = get_of_stream stream_identifier ss_stats a"

definition set_default_payload_type :: "u16 \<Rightarrow> PayloadProtocolIdentifier \<Rightarrow> Association \<Rightarrow> unit res \<times> Association" where
  "set_default_payload_type stream_identifier default_payload_type a =
    set_on_stream stream_identifier (\<lambda>s. s\<lparr>ss_default_payload_type := default_payload_type\<rparr>) a"

definition set_reliability_params ::
  "u16 \<Rightarrow> bool \<Rightarrow> ReliabilityType \<Rightarrow> u32 \<Rightarrow> Association \<Rightarrow> unit res \<times> Association" where
  "set_reliability_params stream_identifier unordered rel_type rel_val a =
    set_on_stream stream_identifier
      (\<lambda>s. s\<lparr>ss_unordered := unordered, ss_reliability_type := rel_type, ss_reliability_value := rel_val\<rparr>) a"

definition Stream_buffered_amount :: "u16 \<Rightarrow> Association \<Rightarrow> usize res" where
  "Stream_buffered_amount stream_identifier a = get_of_stream stream_identifier ss_buffered_amount a"

definition buffered_amount_low_threshold :: "u16 \<Rightarrow> Association \<Rightarrow> usize res" where
  "buffered_amount_low_threshold stream_identifier a = get_of_stream stream_identifier ss_buffered_amount_low a"

definition set_buffered_amount_low_threshold :: "u16 \<Rightarrow> usize \<Rightarrow> Association \<Rightarrow> unit res \<times> Association" where
  "set_buffered_amount_low_threshold stream_identifier th a =
    set_on_stream stream_identifier (\<lambda>s. s\<lparr>ss_buffered_amount_low := th\<rparr>) a"

definition buffered_amount_high_threshold :: "u16 \<Rightarrow> Association \<Rightarrow> usize res" where
  "buffered_amount_high_threshold stream_identifier a = get_of_stream stream_identifier ss_buffered_amount_high a"

definition set_buffered_amount_high_threshold :: "u16 \<Rightarrow> usize \<Rightarrow> Association \<Rightarrow> unit res \<times> Association" where
  "set_buffered_amount_high_threshold stream_identifier th a =
    set_on_stream stream_identifier (\<lambda>s. s\<lparr>ss_buffered_amount_high := th\<rparr>) a"

end
