(* ===== verification/Endpoint.thy ===== *)
theory Endpoint
  imports Assoc_Api
begin

text \<open>
  The endpoint (\<^verbatim>\<open>src/src/endpoint/mod.rs\<close>): it routes datagrams to associations by their
  verification tag and creates associations. Its fields carry the prefix \<open>ep_\<close>.

  The \<^verbatim>\<open>Slab\<close> of associations is a map from keys to values; \<open>slab_key\<close>, an argument, is the key that
  the next insertion uses, and removing a key that is not there panics, as the \<^verbatim>\<open>slab\<close> crate documents.
  Random values are arguments: \<open>aids\<close> is the sequence of identifiers that the generator delivers, as
  far as \<^verbatim>\<open>new_aid\<close> looks at it, \<open>tsn\<close> the initial TSN and \<open>cookie\<close> the state cookie of a new association.
  Where the source prints an error into the reason of a \<^verbatim>\<open>SnapError\<close>, the model keeps the error itself.
\<close>

datatype SnapSide = Local | Remote

datatype AidCollisionKind =
    LocalEqualsRemote
  | LocalInAssociationIds
  | RemoteInAssociationIds
  | RemoteInAssociationIdsInit
  | LocalInAssociationIdsInit

datatype SnapError =
    ParseFailed SnapSide error
  | InvalidInitAck SnapSide
  | ZeroInitiateTag SnapSide
  | ZeroInitialTsn SnapSide
  | AidCollision AidCollisionKind u32
  | OversizedInit SnapSide usize
  | InvalidInit SnapSide error
  | AssociationFailed error

datatype ConnectError =
    EndpointStopping
  | TooManyAssociations
  | InvalidDnsName string
  | InvalidRemoteAddress SocketAddr
  | InvalidSctpPort
  | NoDefaultClientConfig
  | Snap SnapError

text \<open>The result of \<^verbatim>\<open>connect\<close>: its error type is not the one of the rest of the crate.\<close>

datatype 'a cres = COk 'a | CErr ConnectError | CPanic

primrec cbind :: "'a cres \<Rightarrow> ('a \<Rightarrow> 'b cres) \<Rightarrow> 'b cres" where
  "cbind (COk x) f = f x"
| "cbind (CErr e) f = CErr e"
| "cbind CPanic f = CPanic"

primrec cres_of :: "(error \<Rightarrow> ConnectError) \<Rightarrow> 'a res \<Rightarrow> 'a cres" where
  "cres_of f (Ok x) = COk x"
| "cres_of f (Err e) = CErr (f e)"
| "cres_of f Panic = CPanic"

definition cguard :: "bool \<Rightarrow> SnapError \<Rightarrow> unit cres" where
  "cguard bad e = (if bad then CErr (Snap e) else COk ())"

record AssociationMeta =
  am_init_cid :: u32
  am_cids_issued :: u64
  am_loc_cids :: "(u64, u32) hash_map"
  am_initial_remote :: SocketAddr

record Endpoint =
  ep_transmits :: "Transmit list"
  ep_association_ids_init :: "(u32, usize) hash_map"
  ep_association_ids :: "(u32, usize) hash_map"
  ep_associations :: "(usize, AssociationMeta) hash_map"
  ep_config :: EndpointConfig
  ep_server_config :: "ServerConfig option"
  ep_reject_new_associations :: bool

datatype DatagramEvent = DAssociationEvent AssociationEvent | NewAssociation Association

definition Endpoint_new :: "EndpointConfig \<Rightarrow> ServerConfig option \<Rightarrow> Endpoint" where
  "Endpoint_new config server_config =
    \<lparr>ep_transmits = [], ep_association_ids_init = [], ep_association_ids = [], ep_associations = [],
     ep_config = config, ep_server_config = server_config, ep_reject_new_associations = False\<rparr>"

definition Endpoint_poll_transmit :: "Endpoint \<Rightarrow> Transmit option \<times> Endpoint" where
  "Endpoint_poll_transmit e =
    (case ep_transmits e of [] \<Rightarrow> (None, e) | t # ts \<Rightarrow> (Some t, e\<lparr>ep_transmits := ts\<rparr>))"

definition set_server_config :: "ServerConfig option \<Rightarrow> Endpoint \<Rightarrow> Endpoint" where
  "set_server_config server_config e = e\<lparr>ep_server_config := server_config\<rparr>"

definition reject_new_associations :: "Endpoint \<Rightarrow> Endpoint" where
  "reject_new_associations e = e\<lparr>ep_reject_new_associations := True\<rparr>"

definition Endpoint_handle_event :: "usize \<Rightarrow> EndpointEvent \<Rightarrow> Endpoint \<Rightarrow> AssociationEvent option res \<times> Endpoint" where
  "Endpoint_handle_event ch event e =
    (case event of Drained \<Rightarrow>
       (case map_of (ep_associations e) ch of
          None \<Rightarrow> (Panic, e)
        | Some conn \<Rightarrow>
            (Ok None,
             e\<lparr>ep_associations := AList.delete ch (ep_associations e),
               ep_association_ids_init := AList.delete (am_init_cid conn) (ep_association_ids_init e),
               ep_association_ids := fold AList.delete (vals (am_loc_cids conn)) (ep_association_ids e)\<rparr>)))"

definition is_full :: "Endpoint \<Rightarrow> bool" where
  "is_full e \<longleftrightarrow> unat (drop_bit 1 (- 1 :: u32) + drop_bit 2 (- 1)) < length (ep_association_ids e)"

definition new_aid :: "u32 list \<Rightarrow> Endpoint \<Rightarrow> u32 res" where
  "new_aid aids e =
    (case List.find (\<lambda>aid. \<not> contains_key (ep_association_ids e) aid) aids of Some aid \<Rightarrow> Ok aid | None \<Rightarrow> Panic)"

definition register :: "usize \<Rightarrow> u32 \<Rightarrow> u32 \<Rightarrow> SocketAddr \<Rightarrow> Endpoint \<Rightarrow> Endpoint" where
  "register slab_key remote_aid local_aid remote e =
    e\<lparr>ep_associations := AList.update slab_key
        \<lparr>am_init_cid = remote_aid, am_cids_issued = 1, am_loc_cids = [(0, local_aid)], am_initial_remote = remote\<rparr>
        (ep_associations e),
      ep_association_ids := AList.update local_aid slab_key (ep_association_ids e)\<rparr>"

definition add_association ::
  "usize \<Rightarrow> u32 \<Rightarrow> u32 \<Rightarrow> u32 \<Rightarrow> SocketAddr \<Rightarrow> IpAddr option \<Rightarrow> instant \<Rightarrow> bool \<Rightarrow> TransportConfig \<Rightarrow> Endpoint
    \<Rightarrow> (usize \<times> Association) res \<times> Endpoint" where
  "add_association slab_key tsn remote_aid local_aid remote_addr local_ip now is_server transport_config e =
    abind (alift (Association_new is_server transport_config (ec_max_payload_size (ep_config e)) local_aid
        remote_addr local_ip tsn now) e) (\<lambda>conn e.
    (Ok (slab_key, conn), register slab_key remote_aid local_aid remote_addr e))"

definition handle_first_packet ::
  "u32 list \<Rightarrow> usize \<Rightarrow> u32 \<Rightarrow> bytes \<Rightarrow> instant \<Rightarrow> SocketAddr \<Rightarrow> IpAddr option \<Rightarrow> EcnCodepoint option \<Rightarrow> PartialDecode
    \<Rightarrow> Endpoint \<Rightarrow> (usize \<times> Association) option res \<times> Endpoint" where
  "handle_first_packet aids slab_key tsn cookie now remote local_ip ecn partial_decode e =
    (if pd_first_chunk_type partial_decode \<noteq> CT_INIT \<or> pd_initiate_tag partial_decode = None then (Ok None, e)
     else
       (case ep_server_config e of
          None \<Rightarrow> (Panic, e)
        | Some server_config \<Rightarrow>
            if length (ep_associations e) \<ge> unat (sc_concurrent_associations server_config) \<or>
               ep_reject_new_associations e \<or> is_full e then (Ok None, e)
            else
              (case pd_initiate_tag partial_decode of
                 None \<Rightarrow> (Panic, e)
               | Some remote_aid \<Rightarrow>
                   abind (alift (new_aid aids e) e) (\<lambda>local_aid e.
                   abind (add_association slab_key tsn remote_aid local_aid remote local_ip now True
                       (sc_transport server_config) e) (\<lambda>(ch, conn) e.
                   let e = e\<lparr>ep_association_ids_init := AList.update remote_aid ch (ep_association_ids_init e)\<rparr> in
                   (case handle_event cookie (Datagram \<lparr>tr_now = now, tr_remote = remote, tr_ecn = ecn,
                             tr_local_ip = local_ip, tr_payload = PayloadPartialDecode partial_decode\<rparr>) conn of
                      (Ok (), conn) \<Rightarrow> (Ok (Some (ch, conn)), e)
                    | (Err err, _) \<Rightarrow> (Err err, e)
                    | (Panic, _) \<Rightarrow> (Panic, e)))))))"

definition Endpoint_handle ::
  "(bytes \<Rightarrow> u32) \<Rightarrow> u32 list \<Rightarrow> usize \<Rightarrow> u32 \<Rightarrow> bytes \<Rightarrow> instant \<Rightarrow> SocketAddr \<Rightarrow> IpAddr option \<Rightarrow> EcnCodepoint option
    \<Rightarrow> bytes \<Rightarrow> Endpoint \<Rightarrow> (usize \<times> DatagramEvent) option res \<times> Endpoint" where
  "Endpoint_handle crc aids slab_key tsn cookie now remote local_ip ecn data e =
    (case PartialDecode_unmarshal crc data of
       Err _ \<Rightarrow> (Ok None, e)
     | Panic \<Rightarrow> (Panic, e)
     | Ok partial_decode \<Rightarrow>
         let dst_cid = hd_verification_tag (pd_common_header partial_decode);
             known_ch =
               (if dst_cid > 0 then map_of (ep_association_ids e) dst_cid
                else if pd_first_chunk_type partial_decode = CT_INIT then
                  (case pd_initiate_tag partial_decode of
                     Some tag \<Rightarrow> map_of (ep_association_ids_init e) tag | None \<Rightarrow> None)
                else None)
         in case known_ch of
              Some ch \<Rightarrow>
                (Ok (Some (ch, DAssociationEvent (Datagram \<lparr>tr_now = now, tr_remote = remote, tr_ecn = ecn,
                   tr_local_ip = local_ip, tr_payload = PayloadPartialDecode partial_decode\<rparr>))), e)
            | None \<Rightarrow>
                abind (handle_first_packet aids slab_key tsn cookie now remote local_ip ecn partial_decode e) (\<lambda>r e.
                (Ok (map_option (\<lambda>(ch, a). (ch, NewAssociation a)) r), e)))"

subsection \<open>Connecting\<close>

text \<open>What \<^verbatim>\<open>connect_with_snap\<close> demands of the two tokens before it allocates anything.\<close>

definition check_snap_tokens :: "bytes \<Rightarrow> bytes \<Rightarrow> Endpoint \<Rightarrow> (ChunkInit \<times> ChunkInit) cres" where
  "check_snap_tokens local_snap_bytes remote_snap_bytes e =
    cbind (cguard (length local_snap_bytes > MAX_SNAP_INIT_BYTES) (OversizedInit Local (length local_snap_bytes))) (\<lambda>_.
    cbind (cguard (length remote_snap_bytes > MAX_SNAP_INIT_BYTES) (OversizedInit Remote (length remote_snap_bytes))) (\<lambda>_.
    cbind (cres_of (\<lambda>err. Snap (ParseFailed Local err)) (ChunkInit_unmarshal local_snap_bytes)) (\<lambda>local_init.
    cbind (cres_of (\<lambda>err. Snap (ParseFailed Remote err)) (ChunkInit_unmarshal remote_snap_bytes)) (\<lambda>remote_init.
    cbind (cguard (ci_is_ack local_init) (InvalidInitAck Local)) (\<lambda>_.
    cbind (cguard (ci_is_ack remote_init) (InvalidInitAck Remote)) (\<lambda>_.
    let local_aid = ci_initiate_tag local_init; remote_aid = ci_initiate_tag remote_init in
    cbind (cguard (local_aid = 0) (ZeroInitiateTag Local)) (\<lambda>_.
    cbind (cguard (remote_aid = 0) (ZeroInitiateTag Remote)) (\<lambda>_.
    cbind (cguard (ci_initial_tsn local_init = 0) (ZeroInitialTsn Local)) (\<lambda>_.
    cbind (cguard (ci_initial_tsn remote_init = 0) (ZeroInitialTsn Remote)) (\<lambda>_.
    cbind (cres_of (\<lambda>err. Snap (InvalidInit Local err)) (ChunkInit_check local_init)) (\<lambda>_.
    cbind (cres_of (\<lambda>err. Snap (InvalidInit Remote err)) (ChunkInit_check remote_init)) (\<lambda>_.
    cbind (cguard (local_aid = remote_aid) (AidCollision LocalEqualsRemote local_aid)) (\<lambda>_.
    cbind (cguard (contains_key (ep_association_ids e) local_aid) (AidCollision LocalInAssociationIds local_aid)) (\<lambda>_.
    cbind (cguard (contains_key (ep_association_ids e) remote_aid) (AidCollision RemoteInAssociationIds remote_aid)) (\<lambda>_.
    cbind (cguard (contains_key (ep_association_ids_init e) remote_aid)
      (AidCollision RemoteInAssociationIdsInit remote_aid)) (\<lambda>_.
    cbind (cguard (contains_key (ep_association_ids_init e) local_aid)
      (AidCollision LocalInAssociationIdsInit local_aid)) (\<lambda>_.
    COk (local_init, remote_init))))))))))))))))))"

definition connect_with_snap ::
  "usize \<Rightarrow> TransportConfig \<Rightarrow> SocketAddr \<Rightarrow> bytes \<Rightarrow> bytes \<Rightarrow> Endpoint \<Rightarrow> (usize \<times> Association) cres \<times> Endpoint" where
  "connect_with_snap slab_key transport remote local_snap_bytes remote_snap_bytes e =
    (case check_snap_tokens local_snap_bytes remote_snap_bytes e of
       CErr err \<Rightarrow> (CErr err, e)
     | CPanic \<Rightarrow> (CPanic, e)
     | COk (local_init, remote_init) \<Rightarrow>
         (case new_with_out_of_band_init transport (ec_max_payload_size (ep_config e)) remote None
                 local_init remote_init of
            Err err \<Rightarrow> (CErr (Snap (AssociationFailed err)), e)
          | Panic \<Rightarrow> (CPanic, e)
          | Ok conn \<Rightarrow>
              let e = register slab_key (ci_initiate_tag remote_init) (ci_initiate_tag local_init) remote e;
                  e = e\<lparr>ep_association_ids_init :=
                        AList.update (ci_initiate_tag remote_init) slab_key (ep_association_ids_init e)\<rparr>
              in (COk (slab_key, conn), e)))"

definition connect ::
  "u32 list \<Rightarrow> usize \<Rightarrow> u32 \<Rightarrow> u32 \<Rightarrow> instant \<Rightarrow> ClientConfig \<Rightarrow> SocketAddr \<Rightarrow> Endpoint
    \<Rightarrow> (usize \<times> Association) cres \<times> Endpoint" where
  "connect aids slab_key tsn remote_aid now config remote e =
    (if is_full e then (CErr TooManyAssociations, e)
     else if snd remote = 0 then (CErr (InvalidRemoteAddress remote), e)
     else if tc_local_port (cc_transport config) = 0 \<or> tc_remote_port (cc_transport config) = 0
     then (CErr InvalidSctpPort, e)
     else
       (case (cc_local_sctp_init config, cc_remote_sctp_init config) of
          (Some local_init, Some remote_init) \<Rightarrow>
            connect_with_snap slab_key (cc_transport config) remote local_init remote_init e
        | _ \<Rightarrow>
            (case new_aid aids e of
               Ok local_aid \<Rightarrow>
                 (case add_association slab_key tsn remote_aid local_aid remote None now False (cc_transport config) e of
                    (Ok r, e) \<Rightarrow> (COk r, e)
                  | (_, e) \<Rightarrow> (CPanic, e))
             | _ \<Rightarrow> (CPanic, e))))"

text \<open>A SNAP token: a serialized INIT with random tag and TSN.\<close>

definition generate_snap_token :: "u32 \<Rightarrow> u32 \<Rightarrow> TransportConfig \<Rightarrow> bytes res" where
  "generate_snap_token initiate_tag initial_tsn config =
    (let init = set_supported_extensions (ChunkInit_default\<lparr>ci_initiate_tag := initiate_tag,
           ci_initial_tsn := initial_tsn, ci_num_outbound_streams := - 1, ci_num_inbound_streams := - 1,
           ci_advertised_receiver_window_credit := tc_max_receive_buffer_size config\<rparr>)
     in rbind (ChunkInit_check init) (\<lambda>_. ChunkInit_marshal_to init []))"

end
