(* ===== verification/Connection.thy ===== *)
theory Connection
  imports Endpoint
begin

text \<open>
  Two endpoints and one association at each of them, connected by a network that delivers what is
  sent: the composition of endpoint, association, chunks and packets. A leg lets one association
  transmit, hands every datagram to the endpoint of the other side and the event that the endpoint
  returns to the association there. \<open>handshake\<close> is the four-way handshake as four legs.
\<close>

subsection \<open>The network\<close>

text \<open>Datagrams to a known association: \<open>None\<close> when one is not routed to it or its handler panics.\<close>

fun deliver_all ::
  "(bytes \<Rightarrow> u32) \<Rightarrow> bytes \<Rightarrow> instant \<Rightarrow> SocketAddr \<Rightarrow> bytes list \<Rightarrow> usize \<Rightarrow> Endpoint \<Rightarrow> Association \<Rightarrow> Association option" where
  "deliver_all crc cookie now from_addr [] k e b = Some b"
| "deliver_all crc cookie now from_addr (raw # raws) k e b =
    (case Endpoint_handle crc [] 0 0 cookie now from_addr None None raw e of
       (Ok (Some (k', DAssociationEvent ev)), e') \<Rightarrow>
         if k' = k \<and> e' = e then
           (case handle_event cookie ev b of
              (Ok (), b) \<Rightarrow> deliver_all crc cookie now from_addr raws k e b | _ \<Rightarrow> None)
         else None
     | _ \<Rightarrow> None)"

text \<open>What an association transmits.\<close>

definition transmitted :: "(bytes \<Rightarrow> u32) \<Rightarrow> instant \<Rightarrow> Association \<Rightarrow> (bytes list \<times> Association) option" where
  "transmitted crc now a =
    (case poll_transmit crc now a of
       (Ok (Some t), a) \<Rightarrow> (case tr_payload t of RawEncode raws \<Rightarrow> Some (raws, a) | _ \<Rightarrow> None)
     | (Ok None, a) \<Rightarrow> Some ([], a)
     | _ \<Rightarrow> None)"

text \<open>From \<open>a\<close> to \<open>b\<close>, which is the association \<open>k\<close> of the endpoint \<open>e\<close>.\<close>

definition leg ::
  "(bytes \<Rightarrow> u32) \<Rightarrow> bytes \<Rightarrow> instant \<Rightarrow> Association \<Rightarrow> usize \<Rightarrow> Endpoint \<Rightarrow> Association \<Rightarrow> (Association \<times> Association) option" where
  "leg crc cookie now a k e b =
    (case transmitted crc now a of
       None \<Rightarrow> None
     | Some (raws, a) \<Rightarrow> map_option (\<lambda>b. (a, b)) (deliver_all crc cookie now (a_remote_addr b) raws k e b))"

text \<open>The first packet of a client, which makes the endpoint create an association.\<close>

definition first_leg ::
  "(bytes \<Rightarrow> u32) \<Rightarrow> u32 list \<Rightarrow> usize \<Rightarrow> u32 \<Rightarrow> bytes \<Rightarrow> instant \<Rightarrow> SocketAddr \<Rightarrow> Association \<Rightarrow> Endpoint
    \<Rightarrow> (Association \<times> usize \<times> Association \<times> Endpoint) option" where
  "first_leg crc aids slab_key tsn cookie now from_addr a e =
    (case transmitted crc now a of
       Some ([raw], a) \<Rightarrow>
         (case Endpoint_handle crc aids slab_key tsn cookie now from_addr None None raw e of
            (Ok (Some (k, NewAssociation b)), e) \<Rightarrow> Some (a, k, b, e) | _ \<Rightarrow> None)
     | _ \<Rightarrow> None)"

text \<open>The random values of a handshake.\<close>

record handshake_choice =
  hc_client_aids :: "u32 list"
  hc_client_key :: usize
  hc_client_tsn :: u32
  hc_client_init_aid :: u32
  hc_server_aids :: "u32 list"
  hc_server_key :: usize
  hc_server_tsn :: u32
  hc_cookie :: bytes

text \<open>INIT, INIT ACK, COOKIE ECHO, COOKIE ACK: the associations with their keys and endpoints afterwards.\<close>

definition handshake ::
  "(bytes \<Rightarrow> u32) \<Rightarrow> handshake_choice \<Rightarrow> instant \<Rightarrow> ClientConfig \<Rightarrow> SocketAddr \<Rightarrow> SocketAddr \<Rightarrow> Endpoint \<Rightarrow> Endpoint
    \<Rightarrow> ((usize \<times> Association \<times> Endpoint) \<times> (usize \<times> Association \<times> Endpoint)) option" where
  "handshake crc h now config client_addr server_addr ce se =
    (case connect (hc_client_aids h) (hc_client_key h) (hc_client_tsn h) (hc_client_init_aid h) now config server_addr ce of
       (COk (ck, c), ce) \<Rightarrow>
         (case first_leg crc (hc_server_aids h) (hc_server_key h) (hc_server_tsn h) (hc_cookie h) now client_addr c se of
            Some (c, sk, s, se) \<Rightarrow>
              (case leg crc [] now s ck ce c of
                 Some (s, c) \<Rightarrow>
                   (case leg crc [] now c sk se s of
                      Some (c, s) \<Rightarrow>
                        (case leg crc [] now s ck ce c of
                           Some (s, c) \<Rightarrow> Some ((ck, c, ce), (sk, s, se)) | None \<Rightarrow> None)
                    | None \<Rightarrow> None)
               | None \<Rightarrow> None)
          | None \<Rightarrow> None)
     | _ \<Rightarrow> None)"

subsection \<open>Connected pairs\<close>

text \<open>
  Nothing is queued, in flight, unacknowledged or being reset, no stream has been created, a full
  DATA chunk fills a packet and the congestion window has room for one.
\<close>

definition sized :: "u32 \<Rightarrow> u32 \<Rightarrow> u32 \<Rightarrow> bool" where
  "sized mtu max_payload_size cwnd \<longleftrightarrow> 0 < max_payload_size \<and> max_payload_size < 65000 \<and>
    unat mtu = unat max_payload_size + 28 \<and> mtu \<le> cwnd"

definition quiet :: "Association \<Rightarrow> bool" where
  "quiet a \<longleftrightarrow> a_outbound_queue a = OutboundQueue_default \<and> a_payload_queue a = PayloadQueue_new \<and>
    a_control_queue a = [] \<and> a_ack_state a = Idle \<and> \<not> a_will_send_forward_tsn a \<and> \<not> a_will_retransmit_fast a \<and>
    \<not> a_will_retransmit_reconfig a \<and> \<not> a_will_send_shutdown a \<and> \<not> a_will_send_shutdown_ack a \<and>
    \<not> a_will_send_shutdown_complete a \<and> a_active_reconfig a = None \<and> a_reconfigs a = [] \<and>
    a_pending_reset_streams a = [] \<and> a_reconfig_requests a = [] \<and> a_retiring_streams a = [] \<and>
    a_deferred_reset_data a = [] \<and> a_deferred_forward_tsns a = [] \<and> a_streams a = [] \<and>
    a_pending_reset_completions a = [] \<and> a_failed_reset_streams a = [] \<and> a_stream_queue a = [] \<and>
    a_next_stream_generation a = 0 \<and> sized (a_mtu a) (a_max_payload_size a) (a_cwnd a) \<and>
    a_advanced_peer_tsn_ack_point a = a_cumulative_tsn_ack_point a \<and>
    a_cumulative_tsn_ack_point a + 1 = a_my_next_tsn a \<and> a_min_tsn2measure_rtt a = a_my_next_tsn a \<and>
    RtoManager_inv (a_rto_mgr a) \<and> \<not> a_in_fast_recovery a \<and> a_partial_bytes_acked a = 0"

text \<open>No timer is running, except for those in \<open>S\<close>.\<close>

definition idle_but :: "Timer set \<Rightarrow> TimerTable \<Rightarrow> bool" where
  "idle_but S tt \<longleftrightarrow> (\<forall>t. t \<notin> S \<longrightarrow> TimerTable_get tt t = None)"

text \<open>\<open>a\<close> knows the tag, the ports and the next TSN of \<open>b\<close>.\<close>

definition knows :: "Association \<Rightarrow> Association \<Rightarrow> bool" where
  "knows a b \<longleftrightarrow> a_peer_verification_tag a = a_my_verification_tag b \<and>
    a_destination_port a = a_source_port b \<and> a_peer_last_tsn a + 1 = a_my_next_tsn b \<and>
    a_rwnd a = a_max_receive_buffer_size b"

definition routed :: "usize \<Rightarrow> Association \<Rightarrow> Endpoint \<Rightarrow> bool" where
  "routed k a e \<longleftrightarrow> a_my_verification_tag a \<noteq> 0 \<and> map_of (ep_association_ids e) (a_my_verification_tag a) = Some k"

definition established_pair :: "usize \<times> Association \<times> Endpoint \<Rightarrow> usize \<times> Association \<times> Endpoint \<Rightarrow> bool" where
  "established_pair x y \<longleftrightarrow>
    (case (x, y) of ((ck, c, ce), (sk, s, se)) \<Rightarrow>
       a_state c = Established \<and> a_state s = Established \<and> a_handshake_completed c \<and> a_handshake_completed s \<and>
       quiet c \<and> quiet s \<and> idle_but {} (a_timers c) \<and> idle_but {} (a_timers s) \<and> knows c s \<and> knows s c \<and> routed ck c ce \<and> routed sk s se \<and>
       a_rwnd c \<ge> 1500 \<and> a_rwnd s \<ge> 1500 \<and>
       a_source_port c \<noteq> 0 \<and> a_source_port s \<noteq> 0 \<and> a_use_forward_tsn c \<and> a_use_forward_tsn s)"

text \<open>What the two endpoints need for a handshake; \<open>tag\<close> is the verification tag that the endpoint draws.\<close>

definition transport_ok :: "TransportConfig \<Rightarrow> bool" where
  "transport_ok t \<longleftrightarrow> tc_max_receive_buffer_size t \<ge> 1500 \<and> tc_max_num_outbound_streams t \<noteq> 0 \<and>
    tc_max_num_inbound_streams t \<noteq> 0 \<and> tc_rto_min_ms t \<le> tc_rto_max_ms t"

definition payload_size_ok :: "Endpoint \<Rightarrow> bool" where
  "payload_size_ok e \<longleftrightarrow> 0 < ec_max_payload_size (ep_config e) \<and> ec_max_payload_size (ep_config e) < 65000"

definition client_ready :: "handshake_choice \<Rightarrow> u32 \<Rightarrow> ClientConfig \<Rightarrow> SocketAddr \<Rightarrow> Endpoint \<Rightarrow> bool" where
  "client_ready h tag config addr e \<longleftrightarrow> \<not> is_full e \<and> snd addr \<noteq> 0 \<and> tc_local_port (cc_transport config) \<noteq> 0 \<and>
    tc_remote_port (cc_transport config) \<noteq> 0 \<and> transport_ok (cc_transport config) \<and> cc_local_sctp_init config = None \<and>
    new_aid (hc_client_aids h) e = Ok tag \<and> tag \<noteq> 0 \<and> payload_size_ok e"

definition server_ready :: "handshake_choice \<Rightarrow> u32 \<Rightarrow> u32 \<Rightarrow> Endpoint \<Rightarrow> bool" where
  "server_ready h client_tag tag e \<longleftrightarrow>
    (case ep_server_config e of
       None \<Rightarrow> False
     | Some sc \<Rightarrow> transport_ok (sc_transport sc) \<and> length (ep_associations e) < unat (sc_concurrent_associations sc)) \<and>
    \<not> ep_reject_new_associations e \<and> \<not> is_full e \<and> new_aid (hc_server_aids h) e = Ok tag \<and> tag \<noteq> 0 \<and>
    map_of (ep_association_ids_init e) client_tag = None \<and> length (hc_cookie h) < 65000 \<and> payload_size_ok e"

text \<open>An association as \<^verbatim>\<open>new_common\<close> makes it.\<close>

definition fresh :: "TransportConfig \<Rightarrow> Side \<Rightarrow> u32 \<Rightarrow> u32 \<Rightarrow> Association \<Rightarrow> bool" where
  "fresh config side tag tsn x \<longleftrightarrow> quiet x \<and> idle_but {} (a_timers x) \<and> a_side x = side \<and> a_state x = Closed \<and> a_my_verification_tag x = tag \<and>
    a_my_next_tsn x = tsn \<and> a_source_port x = tc_local_port config \<and> a_destination_port x = tc_remote_port config \<and>
    a_max_receive_buffer_size x = tc_max_receive_buffer_size config \<and> a_peer_verification_tag x = 0 \<and>
    a_my_max_num_outbound_streams x = tc_max_num_outbound_streams config \<and>
    a_my_max_num_inbound_streams x = tc_max_num_inbound_streams config \<and> a_my_cookie x = None \<and> a_events x = []"

text \<open>The INIT of a client.\<close>

definition init_of :: "Association \<Rightarrow> ChunkInit" where
  "init_of c = set_supported_extensions (ChunkInit_default\<lparr>ci_initial_tsn := a_my_next_tsn c,
     ci_num_outbound_streams := a_my_max_num_outbound_streams c,
     ci_num_inbound_streams := a_my_max_num_inbound_streams c,
     ci_initiate_tag := a_my_verification_tag c,
     ci_advertised_receiver_window_credit := a_max_receive_buffer_size c\<rparr>)"

definition init_ack_of :: "bytes \<Rightarrow> Association \<Rightarrow> ChunkInit" where
  "init_ack_of cookie s = set_supported_extensions (ChunkInit_default\<lparr>ci_is_ack := True, ci_initial_tsn := a_my_next_tsn s,
     ci_num_outbound_streams := a_my_max_num_outbound_streams s,
     ci_num_inbound_streams := a_my_max_num_inbound_streams s,
     ci_initiate_tag := a_my_verification_tag s,
     ci_advertised_receiver_window_credit := a_max_receive_buffer_size s,
     ci_params := [ParamStateCookie cookie]\<rparr>)"

text \<open>The server \<open>s\<close> after it has answered the INIT of \<open>c\<close>.\<close>

definition server_waiting :: "bytes \<Rightarrow> Association \<Rightarrow> Association \<Rightarrow> bool" where
  "server_waiting cookie c s \<longleftrightarrow> a_state s = Closed \<and>
    a_control_queue s = [create_packet s [CInit (init_ack_of cookie s)]] \<and> quiet (s\<lparr>a_control_queue := []\<rparr>) \<and>
    knows s c \<and> a_source_port s = a_destination_port c \<and> a_my_cookie s = Some cookie \<and> a_use_forward_tsn s \<and>
    a_max_receive_buffer_size s \<ge> 1500 \<and> a_my_max_num_outbound_streams s \<noteq> 0 \<and> a_my_max_num_inbound_streams s \<noteq> 0 \<and>
    a_events s = [] \<and> idle_but {} (a_timers s)"

text \<open>What \<open>a\<close> tells its peer does not change during the handshake.\<close>

definition same_identity :: "Association \<Rightarrow> Association \<Rightarrow> bool" where
  "same_identity a b \<longleftrightarrow> a_my_verification_tag b = a_my_verification_tag a \<and> a_source_port b = a_source_port a \<and>
    a_my_next_tsn b = a_my_next_tsn a \<and> a_max_receive_buffer_size b = a_max_receive_buffer_size a"

text \<open>A concrete pair of endpoints with the default configuration.\<close>

definition example_choice :: handshake_choice where
  "example_choice = \<lparr>hc_client_aids = [7], hc_client_key = 0, hc_client_tsn = 100, hc_client_init_aid = 5,
     hc_server_aids = [9], hc_server_key = 0, hc_server_tsn = 4294967295, hc_cookie = [1, 2, 3]\<rparr>"

definition example_client_endpoint :: Endpoint where
  "example_client_endpoint = Endpoint_new EndpointConfig_new None"

definition example_server_endpoint :: Endpoint where
  "example_server_endpoint = Endpoint_new EndpointConfig_new (Some ServerConfig_default)"

definition example_member :: Association where
  "example_member = Association_default\<lparr>a_state := Established, a_my_cookie := Some [7, 7], a_my_verification_tag := 9\<rparr>"

definition example_visitor :: Association where
  "example_visitor = Association_default\<lparr>a_source_port := 5000, a_destination_port := 5001, a_peer_verification_tag := 9\<rparr>"

subsection \<open>Transmitting\<close>

lemma control_empty:
  "a_control_queue a = [] \<Longrightarrow> a_active_reconfig a = None \<Longrightarrow> gather_outbound_control_packets crc raws now a = (Ok raws, a)"
  by (simp add: gather_outbound_control_packets_def)

lemma control_single:
  assumes "a_control_queue a = [p]" "a_active_reconfig a = None" "packet_reconfig_request_rsn p = None"
    "Packet_marshal crc p = Ok b"
  shows "gather_outbound_control_packets crc raws now a = (Ok (raws @ [b]), a\<lparr>a_control_queue := []\<rparr>)"
  using assms by (simp add: gather_outbound_control_packets_def gather_control_packet_def)

lemma transmitted_handshaking:
  assumes "a_state a = Closed \<or> a_state a = CookieWait \<or> a_state a = CookieEchoed"
    "a_control_queue a = [p]" "a_active_reconfig a = None" "packet_reconfig_request_rsn p = None"
    "Packet_marshal crc p = Ok b"
  shows "transmitted crc now a = Some ([b], a\<lparr>a_control_queue := []\<rparr>)"
  using assms(1) by (auto simp: transmitted_def poll_transmit_def gather_outbound_def control_single [OF assms(2-5)])

lemma default_queue [simp]:
  "OutboundQueue_get OutboundQueue_default t = None" "OutboundQueue_pending_len OutboundQueue_default = 0"
  "OutboundQueue_inflight_len OutboundQueue_default = 0" "OutboundQueue_inflight_bytes OutboundQueue_default = 0"
  "OutboundQueue_start_timed_messages OutboundQueue_default now = OutboundQueue_default"
  "OutboundQueue_expired_inflight OutboundQueue_default now = []"
  "OutboundQueue_expire_pending_tail OutboundQueue_default now t = Ok (None, t, OutboundQueue_default)"
  by (simp_all add: OutboundQueue_default_def OutboundQueue_get_def OutboundQueue_pending_len_def
      OutboundQueue_inflight_len_def OutboundQueue_inflight_bytes_def OutboundQueue_start_timed_messages_def
      OutboundQueue_expired_inflight_def OutboundQueue_expire_pending_tail_def PayloadQueue_new_def PendingQueue_new_def
      PayloadQueue_get_def PendingQueue_len_def PayloadQueue_len_def PayloadQueue_get_num_bytes_def PendingQueue_peek_def)

lemma quiet_expire: "a_outbound_queue a = OutboundQueue_default \<Longrightarrow> expire_inflight_messages now a = (Ok (), a)"
  by (simp add: expire_inflight_messages_def)

lemma quiet_retransmit:
  "a_outbound_queue a = OutboundQueue_default \<Longrightarrow> gather_data_packets_to_retransmit crc raws now a = (Ok raws, a)"
  by (simp add: gather_data_packets_to_retransmit_def get_data_packets_to_retransmit_def quiet_expire
      retransmit_loop.simps bundle_data_chunks_into_packets_def)

lemma quiet_fast:
  "a_outbound_queue a = OutboundQueue_default \<Longrightarrow> \<not> a_will_retransmit_fast a \<Longrightarrow>
    gather_outbound_fast_retransmission_packets crc raws now a = (Ok raws, a)"
  by (simp add: gather_outbound_fast_retransmission_packets_def quiet_expire)

lemma quiet_data:
  "a_outbound_queue a = OutboundQueue_default \<Longrightarrow> \<not> a_will_retransmit_reconfig a \<Longrightarrow> a_active_reconfig a = None \<Longrightarrow>
    a_pending_reset_streams a = [] \<Longrightarrow> gather_outbound_data_and_reconfig_packets crc raws now a = (Ok raws, a)"
  by (simp add: gather_outbound_data_and_reconfig_packets_def pop_pending_data_chunks_to_send_def quiet_expire)

lemma quiet_sack: "a_ack_state a = Idle \<Longrightarrow> gather_outbound_sack_packets crc raws a = (Ok raws, a)"
  by (simp add: gather_outbound_sack_packets_def)

lemma advanced_point_same:
  "a_advanced_peer_tsn_ack_point a = v \<Longrightarrow> a\<lparr>a_advanced_peer_tsn_ack_point := v\<rparr> = a"
  by (rule Association.equality) simp_all

lemma quiet_forward:
  assumes "a_outbound_queue a = OutboundQueue_default" "\<not> a_will_send_forward_tsn a"
    "a_advanced_peer_tsn_ack_point a = a_cumulative_tsn_ack_point a"
  shows "gather_outbound_forward_tsn_packets crc raws a = (Ok raws, a)"
proof -
  have "advance_peer_tsn_ack_point a = a"
    using assms by (simp add: advance_peer_tsn_ack_point_def advanced_point_same)
  then show ?thesis using assms by (simp add: gather_outbound_forward_tsn_packets_def sna32gt_not_lte sna32lte_def)
qed

lemmas quiet_simps = quiet_expire quiet_retransmit quiet_fast quiet_data quiet_sack quiet_forward control_empty

lemma transmitted_established:
  assumes "a_state a = Established" "quiet (a\<lparr>a_control_queue := []\<rparr>)"
    "a_control_queue a = [p]" "packet_reconfig_request_rsn p = None" "Packet_marshal crc p = Ok b"
  shows "transmitted crc now a = Some ([b], a\<lparr>a_control_queue := []\<rparr>)"
  using assms(1,2) control_single [OF assms(3) _ assms(4,5)]
  by (simp add: transmitted_def poll_transmit_def gather_outbound_def quiet_def quiet_simps)

declare unit.case_cong_weak [cong del]

subsection \<open>Receiving\<close>

lemma endpoint_routes:
  assumes "PartialDecode_unmarshal crc b = Ok pd" "routed k x e"
    "hd_verification_tag (pd_common_header pd) = a_my_verification_tag x"
  shows "Endpoint_handle crc aids sk tsn cookie now from_addr lip ecn b e =
    (Ok (Some (k, DAssociationEvent (Datagram \<lparr>tr_now = now, tr_remote = from_addr, tr_ecn = ecn, tr_local_ip = lip,
       tr_payload = PayloadPartialDecode pd\<rparr>))), e)"
  using assms by (simp add: Endpoint_handle_def routed_def word_gt_0)

lemma handle_single_chunk:
  assumes "PartialDecode_finish pd = Ok p" "check_packet p = Ok ()" "pk_chunks p = [c]"
    "handle_chunk cookie p c now (handle_chunk_start x) = (Ok (), y)"
  shows "handle_event cookie (Datagram \<lparr>tr_now = now, tr_remote = from_addr, tr_ecn = ecn, tr_local_ip = lip,
    tr_payload = PayloadPartialDecode pd\<rparr>) x = (Ok (), handle_chunk_end now y)"
  using assms by (simp add: handle_event_def handle_inbound_def)

lemma single_datagram:
  assumes p: "p = create_packet a0 [c]" "Chunk_wf c" "Packet_marshal crc p = Ok b"
    and x: "routed k x e" "a_peer_verification_tag a0 = a_my_verification_tag x"
    and ch: "check_packet (Packet_on_wire p) = Ok ()"
      "handle_chunk cookie (Packet_on_wire p) (Chunk_on_wire c) now (handle_chunk_start x) = (Ok (), y)"
  shows "deliver_all crc cookie now from_addr [b] k e x = Some (handle_chunk_end now y)"
proof -
  obtain b' pd where b: "Packet_marshal crc p = Ok b'" "PartialDecode_unmarshal crc b' = Ok pd"
    "PartialDecode_finish pd = Ok (Packet_on_wire p)" "pd_common_header pd = pk_common_header p"
    by (rule packet_delivered [of p c "[]" crc]) (use p in \<open>auto simp: create_packet_def\<close>)
  have b': "PartialDecode_unmarshal crc b = Ok pd" using b(1,2) p(3) by simp
  have tag: "hd_verification_tag (pd_common_header pd) = a_my_verification_tag x"
    using b(4) p(1) x(2) by (simp add: create_packet_def)
  have one: "pk_chunks (Packet_on_wire p) = [Chunk_on_wire c]" using p(1) by (simp add: Packet_on_wire_def create_packet_def)
  show ?thesis using endpoint_routes [OF b' x(1) tag] handle_single_chunk [OF b(3) ch(1) one ch(2)] by simp
qed

lemma leg_single:
  assumes p: "p = create_packet a0 [c]" "Chunk_wf c"
    and a: "\<And>b. Packet_marshal crc p = Ok b \<Longrightarrow> transmitted crc now a = Some ([b], a')"
    and x: "routed k x e" "a_peer_verification_tag a0 = a_my_verification_tag x"
    and ch: "check_packet (Packet_on_wire p) = Ok ()"
      "handle_chunk cookie (Packet_on_wire p) (Chunk_on_wire c) now (handle_chunk_start x) = (Ok (), y)"
  shows "leg crc cookie now a k e x = Some (a', handle_chunk_end now y)"
proof -
  obtain b where b: "Packet_marshal crc p = Ok b"
    by (rule packet_delivered [of p c "[]" crc]) (use p in \<open>auto simp: create_packet_def\<close>)
  show ?thesis
    unfolding leg_def a [OF b] using single_datagram [OF p b x ch] by simp
qed

subsection \<open>The four-way handshake\<close>

lemma u32_add_ok: "unat a + unat b < 2 ^ 32 \<Longrightarrow> u32_add a b = Ok (a + b)" for a b :: u32
  by (simp add: u32_add_def word_add_overflow)

lemma initial_window:
  fixes m :: u32
  assumes "4 * unat m < 2 ^ 32"
  shows "m \<le> min (4 * m) (max (2 * m) 4380)"
proof -
  have "unat (4 * m) = 4 * unat m" "unat (2 * m) = 2 * unat m" using assms by (simp_all add: unat_word_ariths)
  then show ?thesis by (simp add: min_def max_def word_le_nat_alt)
qed

lemma new_common_ok:
  assumes "0 < mps \<and> mps < 65000" "tc_rto_min_ms config \<le> tc_rto_max_ms config"
  shows "\<exists>x. new_common config mps ra lip side tag tsn = Ok x \<and> fresh config side tag tsn x"
proof -
  have m: "u32_add mps COMMON_HEADER_SIZE = Ok (mps + 12)" "u32_add (mps + 12) DATA_CHUNK_HEADER_SIZE = Ok (mps + 12 + 16)"
    "unat (mps + 12 + 16) = unat mps + 28"
    using assms
    by (simp_all add: u32_add_ok COMMON_HEADER_SIZE_def DATA_CHUNK_HEADER_SIZE_def unat_word_ariths word_less_nat_alt)
  have "u32_mul 4 (mps + 12 + 16) = Ok (4 * (mps + 12 + 16))" "u32_mul 2 (mps + 12 + 16) = Ok (2 * (mps + 12 + 16))"
    using assms m(3) by (simp_all add: u32_mul_def word_less_nat_alt)
  then have "is_ok (new_common config mps ra lip side tag tsn)" using m by (simp add: new_common_def)
  then obtain x where x: "new_common config mps ra lip side tag tsn = Ok x" by (auto simp: is_ok_iff)
  moreover have "sized (mps + 12 + 16) mps (min (4 * (mps + 12 + 16)) (max (2 * (mps + 12 + 16)) 4380))"
    using assms m(3) initial_window [of "mps + 12 + 16"]
    by (simp add: sized_def word_less_nat_alt del: min.bounded_iff)
  ultimately show ?thesis
    using assms m(1,2)
    by (auto simp: fresh_def new_common_def Association_default_def quiet_def u32_mul_def RtoManager_inv_def RtoManager_new_def
        idle_but_def TimerTable_get_def TimerTable_new_def TimerTable_default_def split: if_splits)
qed

lemmas timer_defs = idle_but_def TimerTable_get_def TimerTable_start_def TimerTable_stop_def

lemma connect_sends_init:
  assumes "client_ready h tag config addr e"
  obtains c e' where "connect (hc_client_aids h) (hc_client_key h) tsn aid now config addr e = (COk (hc_client_key h, c), e')"
    "a_state c = CookieWait" "a_control_queue c = [create_packet c [CInit (init_of c)]]"
    "quiet (c\<lparr>a_control_queue := []\<rparr>)" "routed (hc_client_key h) c e'" "a_my_next_tsn c = tsn"
    "a_my_verification_tag c = tag" "a_peer_verification_tag c = 0" "a_source_port c \<noteq> 0" "a_destination_port c \<noteq> 0"
    "a_max_receive_buffer_size c \<ge> 1500" "a_my_max_num_outbound_streams c \<noteq> 0" "a_my_max_num_inbound_streams c \<noteq> 0"
    "a_events c = []" "idle_but {T1Init} (a_timers c)"
proof -
  note r = assms [unfolded client_ready_def transport_ok_def payload_size_ok_def]
  obtain x where x: "new_common (cc_transport config) (ec_max_payload_size (ep_config e)) addr None Client tag tsn = Ok x"
    and f: "fresh (cc_transport config) Client tag tsn x"
    using r new_common_ok by blast
  let ?y = "(set_state CookieWait x)\<lparr>a_stored_init := Some (init_of x)\<rparr>"
  let ?c = "start_timer T1Init now (push_control [create_packet ?y [CInit (init_of x)]] ?y)"
  have "Association_new False (cc_transport config) (ec_max_payload_size (ep_config e)) tag addr None tsn now = Ok ?c"
    using f by (simp add: Association_new_def x send_init_def init_of_def set_state_def Let_def)
  then have "connect (hc_client_aids h) (hc_client_key h) tsn aid now config addr e =
      (COk (hc_client_key h, ?c), register (hc_client_key h) aid tag addr e)"
    using r by (simp add: connect_def add_association_def alift_def)
  then show ?thesis
    by (rule that)
      (use r f in \<open>simp_all add: fresh_def quiet_def routed_def register_def start_timer_def upd_timers_def push_control_def
         set_state_def create_packet_def init_of_def update_conv' timer_defs Let_def\<close>)
qed

lemma first_leg_single:
  assumes p: "p = create_packet a0 [CInit i]" "Chunk_wf (CInit i)" "\<not> ci_is_ack i" "a_peer_verification_tag a0 = 0"
    and a: "\<And>b. Packet_marshal crc p = Ok b \<Longrightarrow> transmitted crc now a = Some ([b], a')"
    and e: "server_ready h (ci_initiate_tag i) tag e"
    and s: "Association_new True (sc_transport (the (ep_server_config e))) (ec_max_payload_size (ep_config e)) tag
        from_addr None tsn now = Ok s"
    and ch: "check_packet p = Ok ()" "handle_chunk cookie p (CInit i) now (handle_chunk_start s) = (Ok (), y)"
  shows "first_leg crc (hc_server_aids h) sk tsn cookie now from_addr a e =
    Some (a', sk, handle_chunk_end now y,
      (register sk (ci_initiate_tag i) tag from_addr e)
        \<lparr>ep_association_ids_init := AList.update (ci_initiate_tag i) sk (ep_association_ids_init e)\<rparr>)"
proof -
  obtain b pd where b: "Packet_marshal crc p = Ok b" "PartialDecode_unmarshal crc b = Ok pd"
    "PartialDecode_finish pd = Ok (Packet_on_wire p)" "pd_common_header pd = pk_common_header p"
    "pd_first_chunk_type pd = CT_INIT" "pd_initiate_tag pd = Some (ci_initiate_tag i)"
    by (rule packet_delivered [of p "CInit i" "[]" crc]) (use p in \<open>auto simp: create_packet_def\<close>)
  have wire: "Packet_on_wire p = p" using p(1) by (simp add: Packet_on_wire_def create_packet_def)
  have tag0: "hd_verification_tag (pd_common_header pd) = 0" using b(4) p by (simp add: create_packet_def)
  obtain sc where sc: "ep_server_config e = Some sc" "length (ep_associations e) < unat (sc_concurrent_associations sc)"
    "\<not> ep_reject_new_associations e" "\<not> is_full e" "new_aid (hc_server_aids h) e = Ok tag"
    "map_of (ep_association_ids_init e) (ci_initiate_tag i) = None"
    using e by (auto simp: server_ready_def split: option.splits)
  have ev: "handle_event cookie (Datagram \<lparr>tr_now = now, tr_remote = from_addr, tr_ecn = None, tr_local_ip = None,
      tr_payload = PayloadPartialDecode pd\<rparr>) s = (Ok (), handle_chunk_end now y)"
    by (rule handle_single_chunk [OF b(3) [unfolded wire] ch(1) _ ch(2)]) (simp add: p(1) create_packet_def)
  show ?thesis
    using sc b(5,6) tag0 s ev
    by (simp add: first_leg_def a [OF b(1)] Endpoint_handle_def b(2) handle_first_packet_def alift_def add_association_def
        Let_def register_def)
qed

lemma wf_init:
  assumes "length cookie < 65000"
    "ci_params i = [ParamStateCookie cookie, ParamSupportedExtensions [CT_RECONFIG, CT_FORWARD_TSN]] \<or>
     ci_params i = [ParamSupportedExtensions [CT_RECONFIG, CT_FORWARD_TSN]]"
  shows "Chunk_wf (CInit i)"
  using assms get_padding_size_lt [of "4 + length cookie"]
  by (auto simp: ChunkInit_value_length_def PARAM_HEADER_LENGTH_def Let_def simp del: get_padding_size_lt)

lemmas handler_defs = handle_chunk_def alift_def dispatch_chunk_def handle_chunk_start_def handle_chunk_end_def
  push_control_def create_packet_def set_state_def upd_timers_def start_timer_def push_event_def Let_def timer_defs

lemmas init_defs = init_of_def init_ack_of_def set_supported_extensions_def ChunkInit_check_def ChunkInit_default_def
  apply_remote_init_params_def

text \<open>The server answers an INIT with an INIT ACK that carries the cookie.\<close>

lemma server_answers_init:
  assumes c: "a_source_port c \<noteq> 0" "a_destination_port c \<noteq> 0" "a_max_receive_buffer_size c \<ge> 1500"
      "a_my_max_num_outbound_streams c \<noteq> 0" "a_my_max_num_inbound_streams c \<noteq> 0" "a_my_verification_tag c \<noteq> 0"
      "a_peer_verification_tag c = 0"
    and y: "fresh t Server tag tsn y" "transport_ok t"
  shows "\<exists>x. handle_chunk cookie (create_packet c [CInit (init_of c)]) (CInit (init_of c)) now (handle_chunk_start y) =
      (Ok (), x) \<and> server_waiting cookie c (handle_chunk_end now x) \<and>
      a_my_verification_tag (handle_chunk_end now x) = tag \<and> a_my_next_tsn (handle_chunk_end now x) = tsn"
  using assms
  by (simp add: handler_defs init_defs handle_init_def fresh_def server_waiting_def quiet_def knows_def transport_ok_def
      min_def not_less)

lemma client_echoes_cookie:
  assumes "a_state c = CookieWait" "quiet c" "a_source_port c \<noteq> 0" "a_destination_port c \<noteq> 0"
    "server_waiting cookie c s" "a_my_verification_tag s \<noteq> 0" "idle_but {T1Init} (a_timers c)"
  shows "\<exists>x. handle_chunk ck (create_packet s [CInit (init_ack_of cookie s)]) (CInit (init_ack_of cookie s)) now
      (handle_chunk_start c) = (Ok (), x) \<and>
    a_state (handle_chunk_end now x) = CookieEchoed \<and> quiet ((handle_chunk_end now x)\<lparr>a_control_queue := []\<rparr>) \<and>
    a_control_queue (handle_chunk_end now x) = [create_packet (handle_chunk_end now x) [CCookieEcho cookie]] \<and>
    knows (handle_chunk_end now x) s \<and> same_identity c (handle_chunk_end now x) \<and>
    a_destination_port (handle_chunk_end now x) = a_destination_port c \<and> a_use_forward_tsn (handle_chunk_end now x) \<and>
    a_events (handle_chunk_end now x) = a_events c \<and> idle_but {T1Cookie} (a_timers (handle_chunk_end now x))"
  using assms
  by (simp add: handler_defs init_defs handle_init_ack_def send_cookie_echo_def server_waiting_def quiet_def knows_def
      same_identity_def not_less)

lemma server_accepts_cookie:
  assumes "a_state s = Closed" "quiet s" "a_my_cookie s = Some cookie" "idle_but {} (a_timers s)"
  shows "\<exists>x. handle_chunk ck p (CCookieEcho cookie) now (handle_chunk_start s) = (Ok (), x) \<and>
    a_state (handle_chunk_end now x) = Established \<and> a_handshake_completed (handle_chunk_end now x) \<and>
    quiet ((handle_chunk_end now x)\<lparr>a_control_queue := []\<rparr>) \<and>
    a_control_queue (handle_chunk_end now x) = [create_packet (handle_chunk_end now x) [CCookieAck]] \<and>
    (\<forall>c. knows s c \<longrightarrow> knows (handle_chunk_end now x) c) \<and> same_identity s (handle_chunk_end now x) \<and>
    a_use_forward_tsn (handle_chunk_end now x) = a_use_forward_tsn s \<and>
    a_events (handle_chunk_end now x) = a_events s @ [Connected] \<and> idle_but {} (a_timers (handle_chunk_end now x))"
  using assms
  by (simp add: handler_defs handle_cookie_echo_def quiet_def knows_def same_identity_def)

lemma client_accepts_ack:
  assumes "a_state c = CookieEchoed" "quiet c" "idle_but {T1Cookie} (a_timers c)"
  shows "\<exists>x. handle_chunk ck p CCookieAck now (handle_chunk_start c) = (Ok (), x) \<and>
    a_state (handle_chunk_end now x) = Established \<and> a_handshake_completed (handle_chunk_end now x) \<and>
    quiet (handle_chunk_end now x) \<and>
    (\<forall>s. knows c s \<longrightarrow> knows (handle_chunk_end now x) s) \<and> same_identity c (handle_chunk_end now x) \<and>
    a_use_forward_tsn (handle_chunk_end now x) = a_use_forward_tsn c \<and>
    a_events (handle_chunk_end now x) = a_events c @ [Connected] \<and> idle_but {} (a_timers (handle_chunk_end now x))"
  using assms
  by (simp add: handler_defs handle_cookie_ack_def quiet_def knows_def same_identity_def)

lemma check_created:
  "a_source_port a \<noteq> 0 \<Longrightarrow> a_destination_port a \<noteq> 0 \<Longrightarrow> (\<And>i. c = CInit i \<Longrightarrow> ci_is_ack i) \<Longrightarrow>
    check_packet (Packet_on_wire (create_packet a [c])) = Ok ()"
  by (cases c) (auto simp: check_packet_def create_packet_def Packet_on_wire_def)

lemma no_reconfig: "(\<And>r. c \<noteq> CReconfig r) \<Longrightarrow> packet_reconfig_request_rsn (create_packet a [c]) = None"
  by (cases c) (auto simp: packet_reconfig_request_rsn_def create_packet_def)

lemma routed_same: "same_identity a b \<Longrightarrow> routed k a e \<Longrightarrow> routed k b e"
  by (simp add: routed_def same_identity_def)

lemma knows_same: "same_identity a b \<Longrightarrow> knows x a \<Longrightarrow> knows x b"
  by (simp add: knows_def same_identity_def)

lemma identity_control [simp]:
  "same_identity a (a\<lparr>a_control_queue := q\<rparr>)" "knows (a\<lparr>a_control_queue := q\<rparr>) b \<longleftrightarrow> knows a b"
  "knows b (a\<lparr>a_control_queue := q\<rparr>) \<longleftrightarrow> knows b a" "routed k (a\<lparr>a_control_queue := q\<rparr>) e \<longleftrightarrow> routed k a e"
  by (auto simp: same_identity_def knows_def routed_def)

text \<open>The first leg: the INIT reaches the server's endpoint, which creates an association that answers.\<close>

lemma handshake_first_leg:
  assumes c: "a_state c = CookieWait" "a_control_queue c = [create_packet c [CInit (init_of c)]]"
      "quiet (c\<lparr>a_control_queue := []\<rparr>)" "a_my_verification_tag c \<noteq> 0" "a_peer_verification_tag c = 0"
      "a_source_port c \<noteq> 0" "a_destination_port c \<noteq> 0" "a_max_receive_buffer_size c \<ge> 1500"
      "a_my_max_num_outbound_streams c \<noteq> 0" "a_my_max_num_inbound_streams c \<noteq> 0"
    and e: "server_ready h (a_my_verification_tag c) tag e"
  obtains s e' where "first_leg crc (hc_server_aids h) sk tsn (hc_cookie h) now from_addr c e =
      Some (c\<lparr>a_control_queue := []\<rparr>, sk, s, e')"
    "server_waiting (hc_cookie h) c s" "routed sk s e'" "a_my_verification_tag s = tag"
proof -
  obtain sc where sc: "ep_server_config e = Some sc" "transport_ok (sc_transport sc)"
    "0 < ec_max_payload_size (ep_config e) \<and> ec_max_payload_size (ep_config e) < 65000" "tag \<noteq> 0"
    using e by (auto simp: server_ready_def payload_size_ok_def split: option.splits)
  obtain y where y: "new_common (sc_transport sc) (ec_max_payload_size (ep_config e)) from_addr None Server tag tsn = Ok y"
    "fresh (sc_transport sc) Server tag tsn y"
    using new_common_ok [OF sc(3)] sc(2) [unfolded transport_ok_def] by blast
  have new: "Association_new True (sc_transport (the (ep_server_config e))) (ec_max_payload_size (ep_config e)) tag
      from_addr None tsn now = Ok y"
    using y(1) sc(1) by (simp add: Association_new_def)
  obtain x where x: "handle_chunk (hc_cookie h) (create_packet c [CInit (init_of c)]) (CInit (init_of c)) now
      (handle_chunk_start y) = (Ok (), x)" "server_waiting (hc_cookie h) c (handle_chunk_end now x)"
    "a_my_verification_tag (handle_chunk_end now x) = tag"
    using server_answers_init [OF c(6,7,8,9,10,4,5) y(2) sc(2)] by blast
  have i: "Chunk_wf (CInit (init_of c))" "\<not> ci_is_ack (init_of c)" "ci_initiate_tag (init_of c) = a_my_verification_tag c"
    by (rule wf_init [of "[]"]) (simp_all add: init_of_def set_supported_extensions_def ChunkInit_default_def)
  have check: "check_packet (create_packet c [CInit (init_of c)]) = Ok ()"
    using c(5-7) by (simp add: check_packet_def create_packet_def)
  have "first_leg crc (hc_server_aids h) sk tsn (hc_cookie h) now from_addr c e =
      Some (c\<lparr>a_control_queue := []\<rparr>, sk, handle_chunk_end now x,
      (register sk (ci_initiate_tag (init_of c)) tag from_addr e)
        \<lparr>ep_association_ids_init := AList.update (ci_initiate_tag (init_of c)) sk (ep_association_ids_init e)\<rparr>)"
    using c(1-3,5) i e
    by (intro first_leg_single [OF refl i(1,2) c(5) _ _ new check x(1)] transmitted_handshaking)
      (auto simp: quiet_def intro: no_reconfig)
  then show ?thesis
    by (rule that) (use x sc in \<open>simp_all add: routed_def register_def update_conv'\<close>)
qed

text \<open>The other legs, each as what it makes of the two associations.\<close>

lemma init_ack_leg:
  assumes s: "server_waiting cookie c s" "a_my_verification_tag s \<noteq> 0" "length cookie < 65000"
    and c: "a_state c = CookieWait" "quiet c" "a_source_port c \<noteq> 0" "a_destination_port c \<noteq> 0" "routed k c e"
      "idle_but {T1Init} (a_timers c)"
  obtains c' where "leg crc ck now s k e c = Some (s\<lparr>a_control_queue := []\<rparr>, c')"
    "a_state c' = CookieEchoed" "quiet (c'\<lparr>a_control_queue := []\<rparr>)"
    "a_control_queue c' = [create_packet c' [CCookieEcho cookie]]" "knows c' s" "same_identity c c'"
    "a_destination_port c' = a_destination_port c" "a_use_forward_tsn c'" "a_events c' = a_events c"
    "idle_but {T1Cookie} (a_timers c')"
proof -
  let ?i = "init_ack_of cookie s"
  obtain x where x: "handle_chunk ck (create_packet s [CInit ?i]) (CInit ?i) now (handle_chunk_start c) = (Ok (), x)"
    and c': "a_state (handle_chunk_end now x) = CookieEchoed" "quiet ((handle_chunk_end now x)\<lparr>a_control_queue := []\<rparr>)"
    "a_control_queue (handle_chunk_end now x) = [create_packet (handle_chunk_end now x) [CCookieEcho cookie]]"
    "knows (handle_chunk_end now x) s" "same_identity c (handle_chunk_end now x)"
    "a_destination_port (handle_chunk_end now x) = a_destination_port c" "a_use_forward_tsn (handle_chunk_end now x)"
    "a_events (handle_chunk_end now x) = a_events c" "idle_but {T1Cookie} (a_timers (handle_chunk_end now x))"
    using client_echoes_cookie [OF c(1-4) s(1,2) c(6)] by blast
  have "leg crc ck now s k e c = Some (s\<lparr>a_control_queue := []\<rparr>, handle_chunk_end now x)"
  proof (rule leg_single [OF refl _ _ c(5)])
    show "Chunk_wf (CInit ?i)"
      by (rule wf_init [OF s(3)]) (simp add: init_ack_of_def set_supported_extensions_def ChunkInit_default_def)
    show "transmitted crc now s = Some ([b], s\<lparr>a_control_queue := []\<rparr>)"
      if "Packet_marshal crc (create_packet s [CInit ?i]) = Ok b" for b
      using s(1) that by (intro transmitted_handshaking) (auto simp: server_waiting_def quiet_def intro: no_reconfig)
    show "check_packet (Packet_on_wire (create_packet s [CInit ?i])) = Ok ()"
      using s(1) c by (intro check_created)
        (auto simp: server_waiting_def knows_def init_ack_of_def set_supported_extensions_def)
  qed (use s x in \<open>auto simp: server_waiting_def knows_def Packet_on_wire_def create_packet_def\<close>)
  then show ?thesis using c' by (rule that)
qed

lemma cookie_echo_leg:
  assumes c: "a_state c = CookieEchoed" "quiet (c\<lparr>a_control_queue := []\<rparr>)"
      "a_control_queue c = [create_packet c [CCookieEcho cookie]]" "knows c s" "length cookie < 65000"
      "a_source_port c \<noteq> 0" "a_destination_port c \<noteq> 0"
    and s: "a_state s = Closed" "quiet s" "a_my_cookie s = Some cookie" "routed k s e" "idle_but {} (a_timers s)"
  obtains s' where "leg crc ck now c k e s = Some (c\<lparr>a_control_queue := []\<rparr>, s')"
    "a_state s' = Established" "a_handshake_completed s'" "quiet (s'\<lparr>a_control_queue := []\<rparr>)"
    "a_control_queue s' = [create_packet s' [CCookieAck]]" "\<forall>c. knows s c \<longrightarrow> knows s' c" "same_identity s s'"
    "a_use_forward_tsn s' = a_use_forward_tsn s" "a_events s' = a_events s @ [Connected]" "idle_but {} (a_timers s')"
proof -
  obtain x where x: "handle_chunk ck (Packet_on_wire (create_packet c [CCookieEcho cookie])) (CCookieEcho cookie) now
      (handle_chunk_start s) = (Ok (), x)"
    and s': "a_state (handle_chunk_end now x) = Established" "a_handshake_completed (handle_chunk_end now x)"
    "quiet ((handle_chunk_end now x)\<lparr>a_control_queue := []\<rparr>)"
    "a_control_queue (handle_chunk_end now x) = [create_packet (handle_chunk_end now x) [CCookieAck]]"
    "\<forall>c. knows s c \<longrightarrow> knows (handle_chunk_end now x) c" "same_identity s (handle_chunk_end now x)"
    "a_use_forward_tsn (handle_chunk_end now x) = a_use_forward_tsn s"
    "a_events (handle_chunk_end now x) = a_events s @ [Connected]" "idle_but {} (a_timers (handle_chunk_end now x))"
    using server_accepts_cookie [OF s(1-3,5)] by blast
  have "leg crc ck now c k e s = Some (c\<lparr>a_control_queue := []\<rparr>, handle_chunk_end now x)"
  proof (rule leg_single [OF refl _ _ s(4)])
    show "transmitted crc now c = Some ([b], c\<lparr>a_control_queue := []\<rparr>)"
      if "Packet_marshal crc (create_packet c [CCookieEcho cookie]) = Ok b" for b
      using c that by (intro transmitted_handshaking) (auto simp: quiet_def intro: no_reconfig)
  qed (use c x in \<open>auto simp: knows_def intro: check_created\<close>)
  then show ?thesis using s' by (rule that)
qed

lemma cookie_ack_leg:
  assumes s: "a_state s = Established" "quiet (s\<lparr>a_control_queue := []\<rparr>)"
      "a_control_queue s = [create_packet s [CCookieAck]]" "knows s c" "a_source_port s \<noteq> 0" "a_source_port c \<noteq> 0"
    and c: "a_state c = CookieEchoed" "quiet c" "routed k c e" "idle_but {T1Cookie} (a_timers c)"
  obtains c' where "leg crc ck now s k e c = Some (s\<lparr>a_control_queue := []\<rparr>, c')"
    "a_state c' = Established" "a_handshake_completed c'" "quiet c'" "\<forall>s. knows c s \<longrightarrow> knows c' s"
    "same_identity c c'" "a_use_forward_tsn c' = a_use_forward_tsn c" "a_events c' = a_events c @ [Connected]" "idle_but {} (a_timers c')"
proof -
  obtain x where x: "handle_chunk ck (Packet_on_wire (create_packet s [CCookieAck])) CCookieAck now
      (handle_chunk_start c) = (Ok (), x)"
    and c': "a_state (handle_chunk_end now x) = Established" "a_handshake_completed (handle_chunk_end now x)"
    "quiet (handle_chunk_end now x)" "\<forall>s. knows c s \<longrightarrow> knows (handle_chunk_end now x) s"
    "same_identity c (handle_chunk_end now x)" "a_use_forward_tsn (handle_chunk_end now x) = a_use_forward_tsn c"
    "a_events (handle_chunk_end now x) = a_events c @ [Connected]" "idle_but {} (a_timers (handle_chunk_end now x))"
    using client_accepts_ack [OF c(1,2,4)] by blast
  have "leg crc ck now s k e c = Some (s\<lparr>a_control_queue := []\<rparr>, handle_chunk_end now x)"
  proof (rule leg_single [OF refl _ _ c(3)])
    show "transmitted crc now s = Some ([b], s\<lparr>a_control_queue := []\<rparr>)"
      if "Packet_marshal crc (create_packet s [CCookieAck]) = Ok b" for b
      using s that by (intro transmitted_established) (auto intro: no_reconfig)
  qed (use s x in \<open>auto simp: knows_def intro: check_created\<close>)
  then show ?thesis using c' by (rule that)
qed

text \<open>The two legs with the cookie.\<close>

lemma cookie_legs:
  assumes c: "a_state c = CookieEchoed" "quiet (c\<lparr>a_control_queue := []\<rparr>)"
      "a_control_queue c = [create_packet c [CCookieEcho cookie]]" "length cookie < 65000" "knows c s" "routed ck c ce"
      "a_source_port c \<noteq> 0" "a_use_forward_tsn c" "a_events c = []" "a_max_receive_buffer_size c \<ge> 1500"
      "idle_but {T1Cookie} (a_timers c)"
    and s: "a_state s = Closed" "quiet s" "a_my_cookie s = Some cookie" "knows s c" "routed sk s se"
      "a_source_port s \<noteq> 0" "a_use_forward_tsn s" "a_events s = []" "a_max_receive_buffer_size s \<ge> 1500" "idle_but {} (a_timers s)"
  obtains c' s' s'' where "leg crc [] now c sk se s = Some (c\<lparr>a_control_queue := []\<rparr>, s')"
    "leg crc [] now s' ck ce (c\<lparr>a_control_queue := []\<rparr>) = Some (s'', c')"
    "established_pair (ck, c', ce) (sk, s'', se)" "same_identity c c'" "same_identity s s''"
    "a_events c' = [Connected]" "a_events s'' = [Connected]"
proof -
  let ?c = "c\<lparr>a_control_queue := []\<rparr>"
  obtain s' where s': "leg crc [] now c sk se s = Some (?c, s')"
    "a_state s' = Established" "a_handshake_completed s'" "quiet (s'\<lparr>a_control_queue := []\<rparr>)"
    "a_control_queue s' = [create_packet s' [CCookieAck]]" "\<forall>c. knows s c \<longrightarrow> knows s' c" "same_identity s s'"
    "a_use_forward_tsn s'" "a_events s' = [Connected]" "idle_but {} (a_timers s')"
    by (rule cookie_echo_leg [OF c(1-3), of s sk se crc "[]" now]) (use c s in \<open>auto simp: knows_def\<close>)
  let ?s = "s'\<lparr>a_control_queue := []\<rparr>"
  have k: "knows s' c" and port: "a_source_port s' \<noteq> 0" using s' s(4,6) by (simp_all add: same_identity_def)
  obtain c' where c': "leg crc [] now s' ck ce ?c = Some (?s, c')"
    "a_state c' = Established" "a_handshake_completed c'" "quiet c'" "\<forall>s. knows ?c s \<longrightarrow> knows c' s"
    "same_identity ?c c'" "a_use_forward_tsn c'" "a_events c' = [Connected]" "idle_but {} (a_timers c')"
    by (rule cookie_ack_leg [OF s'(2,4,5), of ?c ck ce crc "[]" now]) (use k port c in auto)
  have id: "same_identity c c'" using c'(6) by (simp add: same_identity_def)
  have "knows c' s'" "knows s' c'" "routed ck c' ce" "routed sk s' se" "a_source_port c' \<noteq> 0"
    using c'(5) c(5-7) s'(7) s(5) k id by (auto intro: knows_same routed_same simp: same_identity_def)
  then have "established_pair (ck, c', ce) (sk, ?s, se)"
    using c'(2-4,7,9) s'(2-4,7,8,10) port id c(10) s(9) by (simp add: established_pair_def knows_def same_identity_def)
  moreover have "same_identity s ?s" using s'(7) by (simp add: same_identity_def)
  ultimately show ?thesis using that s'(1,9) c'(1,8) id by simp
qed

text \<open>The whole handshake.\<close>

lemma handshake_run:
  assumes ce: "client_ready h ctag config server_addr ce" and se: "server_ready h ctag stag se"
  obtains ck c ce' sk s se' where
    "handshake crc h now config client_addr server_addr ce se = Some ((ck, c, ce'), (sk, s, se'))"
    "established_pair (ck, c, ce') (sk, s, se')" "a_my_verification_tag c = ctag" "a_my_verification_tag s = stag"
    "a_events c = [Connected]" "a_events s = [Connected]"
proof -
  obtain c ce' where c: "connect (hc_client_aids h) (hc_client_key h) (hc_client_tsn h) (hc_client_init_aid h) now config
      server_addr ce = (COk (hc_client_key h, c), ce')"
    "a_state c = CookieWait" "a_control_queue c = [create_packet c [CInit (init_of c)]]"
    "quiet (c\<lparr>a_control_queue := []\<rparr>)" "routed (hc_client_key h) c ce'"
    "a_my_verification_tag c = ctag" "a_peer_verification_tag c = 0" "a_source_port c \<noteq> 0" "a_destination_port c \<noteq> 0"
    "a_max_receive_buffer_size c \<ge> 1500" "a_my_max_num_outbound_streams c \<noteq> 0" "a_my_max_num_inbound_streams c \<noteq> 0"
    "a_events c = []" "idle_but {T1Init} (a_timers c)"
    by (rule connect_sends_init [OF ce]) blast
  let ?c = "c\<lparr>a_control_queue := []\<rparr>"
  have ctag: "a_my_verification_tag c \<noteq> 0" using c(5) by (simp add: routed_def)
  obtain s se' where s: "first_leg crc (hc_server_aids h) (hc_server_key h) (hc_server_tsn h) (hc_cookie h) now client_addr c se =
      Some (?c, hc_server_key h, s, se')"
    "server_waiting (hc_cookie h) c s" "routed (hc_server_key h) s se'" "a_my_verification_tag s = stag"
    using handshake_first_leg [OF c(2-4) ctag c(7-12) se [folded c(6)]] by blast
  have cookie: "length (hc_cookie h) < 65000" using se by (simp add: server_ready_def)
  let ?s = "s\<lparr>a_control_queue := []\<rparr>"
  have w: "server_waiting (hc_cookie h) ?c s" "a_my_verification_tag s \<noteq> 0"
    using s(2,3) by (auto simp: server_waiting_def routed_def)
  obtain c2 where c2: "leg crc [] now s (hc_client_key h) ce' ?c = Some (?s, c2)"
    "a_state c2 = CookieEchoed" "quiet (c2\<lparr>a_control_queue := []\<rparr>)"
    "a_control_queue c2 = [create_packet c2 [CCookieEcho (hc_cookie h)]]" "knows c2 s" "same_identity ?c c2"
    "a_use_forward_tsn c2" "a_events c2 = []" "idle_but {T1Cookie} (a_timers c2)"
    by (rule init_ack_leg [OF w cookie, of "hc_client_key h" ce' crc "[]" now]) (use c in auto)
  have id2: "same_identity c c2" using c2(6) by (simp add: same_identity_def)
  have k: "knows s c2" using s(2) id2 by (auto simp: server_waiting_def intro: knows_same)
  obtain c4 s3 s4 where e: "leg crc [] now c2 (hc_server_key h) se' ?s = Some (c2\<lparr>a_control_queue := []\<rparr>, s3)"
    "leg crc [] now s3 (hc_client_key h) ce' (c2\<lparr>a_control_queue := []\<rparr>) = Some (s4, c4)"
    "established_pair (hc_client_key h, c4, ce') (hc_server_key h, s4, se')" "same_identity c2 c4" "same_identity ?s s4"
    "a_events c4 = [Connected]" "a_events s4 = [Connected]"
    by (rule cookie_legs [OF c2(2-4) cookie, of ?s "hc_client_key h" ce' "hc_server_key h" se' crc now])
      (use c c2 s id2 k in \<open>auto simp: server_waiting_def same_identity_def intro: routed_same\<close>)
  have "handshake crc h now config client_addr server_addr ce se =
      Some ((hc_client_key h, c4, ce'), (hc_server_key h, s4, se'))"
    by (simp add: handshake_def c(1) s(1) c2(1) e(1,2))
  moreover have "a_my_verification_tag c4 = ctag" "a_my_verification_tag s4 = stag"
    using e(4,5) id2 c(6) s(4) by (simp_all add: same_identity_def)
  ultimately show ?thesis using e(3,6,7) that by blast
qed

subsection \<open>Properties\<close>

text \<open>
  C1: the four-way handshake completes. A client endpoint that is ready to connect and a server endpoint that
  accepts associations, with a network that delivers what is sent, end with an established association on
  each side: INIT, INIT ACK, COOKIE ECHO and COOKIE ACK are encoded, routed by the endpoints, decoded and
  handled, whatever the checksum function computes; each side knows the other's verification tag, ports,
  next TSN and receive window, has nothing left to send, and reports Connected exactly once.
\<close>

theorem handshake_completes:
  assumes ce: "client_ready h ctag config server_addr ce" and se: "server_ready h ctag stag se"
  shows "\<exists>ck c ce' sk s se'.
    handshake crc h now config client_addr server_addr ce se = Some ((ck, c, ce'), (sk, s, se')) \<and>
    established_pair (ck, c, ce') (sk, s, se') \<and> a_my_verification_tag c = ctag \<and> a_my_verification_tag s = stag \<and>
    a_events c = [Connected] \<and> a_events s = [Connected]"
  using handshake_run [OF assms, of crc now client_addr] by metis

lemma example_ready:
  "client_ready example_choice 7 ClientConfig_default (V4 1, 5000) example_client_endpoint"
  "server_ready example_choice 7 9 example_server_endpoint"
  by (simp_all add: client_ready_def server_ready_def example_choice_def example_client_endpoint_def
      example_server_endpoint_def Endpoint_new_def EndpointConfig_new_def ServerConfig_default_def ClientConfig_default_def
      TransportConfig_default_def INITIAL_RECV_BUF_SIZE_def INITIAL_MTU_def COMMON_HEADER_SIZE_def DATA_CHUNK_HEADER_SIZE_def
      transport_ok_def payload_size_ok_def is_full_def new_aid_def contains_key_iff DEFAULT_SCTP_PORT_def RTO_MIN_def RTO_MAX_def)

text \<open>Two endpoints with the default configuration, with wrapping initial TSN on the server's side.\<close>

theorem handshake_completes_witness:
  "client_ready example_choice 7 ClientConfig_default (V4 1, 5000) example_client_endpoint \<and>
   server_ready example_choice 7 9 example_server_endpoint \<and>
   (\<exists>x y. handshake (\<lambda>_. 0) example_choice 0 ClientConfig_default (V4 2, 6000) (V4 1, 5000)
      example_client_endpoint example_server_endpoint = Some (x, y) \<and> established_pair x y)"
  using handshake_completes [OF example_ready, of "\<lambda>_. 0" 0 "(V4 2, 6000)"] example_ready by blast

subsection \<open>A late COOKIE ECHO\<close>

text \<open>Closing an association keeps its cookie and its place in the endpoint.\<close>

lemma unregister_all_keep:
  "a_state (fold (\<lambda>si a. unregister_stream si False a) ks a) = a_state a"
  "a_my_cookie (fold (\<lambda>si a. unregister_stream si False a) ks a) = a_my_cookie a"
  "a_my_verification_tag (fold (\<lambda>si a. unregister_stream si False a) ks a) = a_my_verification_tag a"
  by (induction ks arbitrary: a) (auto simp: unregister_stream_def push_event_def Let_def split: option.split)

lemma close_all_timers_keep:
  "a_state (close_all_timers a) = a_state a" "a_my_cookie (close_all_timers a) = a_my_cookie a"
  "a_my_verification_tag (close_all_timers a) = a_my_verification_tag a"
  by (simp_all add: close_all_timers_def Timer_VALUES_def upd_timers_def)

lemma close_keeps:
  assumes "a_state a \<noteq> Closed"
  shows "a_state (Association_close a) = Closed" "a_my_cookie (Association_close a) = a_my_cookie a"
    "a_my_verification_tag (Association_close a) = a_my_verification_tag a" "a_control_queue (Association_close a) = []"
    "\<exists>es. a_events (Association_close a) = es @ [AssociationLost AssociationClosed]"
  using assms
  by (simp_all add: Association_close_def close_with_reason_def Let_def push_event_def set_state_def unregister_all_keep close_all_timers_keep)

text \<open>
  C27: a closed association comes back. The application closes an established association that was set up
  by a COOKIE ECHO, and is told that it is lost. When a copy of that COOKIE ECHO arrives later, the
  endpoint still routes it; the association is established again, and the application is told that
  it is connected.
\<close>

theorem closed_association_reopens:
  assumes s: "a_state s = Established" "a_my_cookie s = Some cookie" "routed sk s se"
    and p: "a_source_port c \<noteq> 0" "a_destination_port c \<noteq> 0" "a_peer_verification_tag c = a_my_verification_tag s"
      "length cookie < 65000" "Packet_marshal crc (create_packet c [CCookieEcho cookie]) = Ok copy"
  shows "a_state (Association_close s) = Closed \<and>
    (\<exists>es. a_events (Association_close s) = es @ [AssociationLost AssociationClosed]) \<and>
    (\<exists>s'. deliver_all crc ck now from_addr [copy] sk se (Association_close s) = Some s' \<and> a_state s' = Established \<and>
      a_events s' = a_events (Association_close s) @ [Connected] \<and> a_streams s' = a_streams (Association_close s))"
proof -
  let ?s = "Association_close s"
  have open_state: "a_state s \<noteq> Closed" using s(1) by simp
  note closed = close_keeps [OF open_state]
  have routed: "routed sk ?s se" using s(3) closed(3) by (simp add: routed_def)
  have check: "check_packet (Packet_on_wire (create_packet c [CCookieEcho cookie])) = Ok ()"
    by (rule check_created [OF p(1,2)]) simp
  obtain y where y: "handle_chunk ck (Packet_on_wire (create_packet c [CCookieEcho cookie])) (CCookieEcho cookie) now
      (handle_chunk_start ?s) = (Ok (), y)" "a_state (handle_chunk_end now y) = Established"
    "a_events (handle_chunk_end now y) = a_events ?s @ [Connected]" "a_streams (handle_chunk_end now y) = a_streams ?s"
    using closed(1,2) s(2) by (simp add: handler_defs handle_cookie_echo_def)
  have "deliver_all crc ck now from_addr [copy] sk se ?s = Some (handle_chunk_end now y)"
    by (rule single_datagram [OF refl _ p(5) routed _ check])
      (use p(3,4) closed(3) y(1) in simp_all)
  then show ?thesis using closed(1,5) y(2-4) by blast
qed

theorem closed_association_reopens_witness:
  "\<exists>copy. Packet_marshal (\<lambda>_. 0) (create_packet example_visitor [CCookieEcho [7, 7]]) = Ok copy \<and>
    a_state (Association_close example_member) = Closed \<and>
    (\<exists>s'. deliver_all (\<lambda>_. 0) [] 5 (a_remote_addr example_visitor) [copy] 0 (example_server_endpoint\<lparr>ep_association_ids := [(9, 0)]\<rparr>)
      (Association_close example_member) = Some s' \<and> a_state s' = Established)"
proof -
  obtain copy where copy: "Packet_marshal (\<lambda>_. 0) (create_packet example_visitor [CCookieEcho [7, 7]]) = Ok copy"
    by (rule packet_delivered [of "create_packet example_visitor [CCookieEcho [7, 7]]" "CCookieEcho [7, 7]" "[]" "\<lambda>_. 0"])
      (auto simp: create_packet_def)
  have "routed 0 example_member (example_server_endpoint\<lparr>ep_association_ids := [(9, 0)]\<rparr>)"
    by (simp add: routed_def example_member_def)
  note reopens = closed_association_reopens [OF _ _ this _ _ _ _ copy, of "[]" 5 "a_remote_addr example_visitor"]
  show ?thesis using copy reopens by (auto simp: example_member_def example_visitor_def)
qed

end
