(* ===== verification/Data_Receiving.thy ===== *)
theory Data_Receiving
  imports Connection
begin

text \<open>
  A message from one side of an established pair to the other: the application writes it, it leaves as
  DATA chunks in one or more packets, the other endpoint routes these, the association there collects
  the chunks and the application reads the message.
\<close>

subsection \<open>The chunks of a message\<close>

text \<open>The DATA chunks of one ordered message on a fresh stream, with TSNs from \<open>t\<close> on.\<close>

definition message_run :: "u32 \<Rightarrow> u16 \<Rightarrow> PayloadProtocolIdentifier \<Rightarrow> ChunkPayloadData list \<Rightarrow> bool" where
  "message_run t sid ppi ws \<longleftrightarrow> length ws < 2 ^ 31 \<and>
    (\<forall>i < length ws. d_tsn (ws ! i) = t + of_nat i \<and>
      (d_beginning_fragment (ws ! i) \<longleftrightarrow> i = 0) \<and> (d_ending_fragment (ws ! i) \<longleftrightarrow> i = length ws - 1)) \<and>
    (\<forall>w \<in> set ws. d_stream_identifier w = sid \<and> d_stream_sequence_number w = 0 \<and> d_payload_type w = ppi \<and>
      \<not> d_unordered w \<and> 0 < dlen w)"

text \<open>The reassembly queue of a stream that has received the chunks \<open>ws\<close>.\<close>

definition collected :: "u16 \<Rightarrow> PayloadProtocolIdentifier \<Rightarrow> u32 \<Rightarrow> ChunkPayloadData list \<Rightarrow> ReassemblyQueue" where
  "collected sid ppi limit ws = (ReassemblyQueue_new sid limit)
    \<lparr>rq_ordered := (if ws = [] then [] else [Chunks_new 0 ppi ws]), rq_n_bytes := total_len ws\<rparr>"

text \<open>
  An association that was \<open>s\<close> and has since received \<open>n\<close> chunks in sequence; \<open>holding\<close>: these are the
  chunks \<open>ws\<close> of a message on stream \<open>sid\<close>, which is new.
\<close>

definition in_sequence :: "nat \<Rightarrow> Association \<Rightarrow> Association \<Rightarrow> bool" where
  "in_sequence n s a \<longleftrightarrow>
    a_payload_queue a = PayloadQueue_new \<and> a_peer_last_tsn a = a_peer_last_tsn s + of_nat n \<and>
    a_reconfig_requests a = [] \<and> a_retiring_streams a = [] \<and> a_deferred_reset_data a = [] \<and>
    a_deferred_forward_tsns a = [] \<and> a_control_queue a = [] \<and> a_state a = a_state s \<and>
    a_max_receive_buffer_size a = a_max_receive_buffer_size s \<and>
    a_max_receive_message_size a = a_max_receive_message_size s \<and>
    a_my_verification_tag a = a_my_verification_tag s \<and> a_outbound_queue a = a_outbound_queue s \<and>
    a_will_send_forward_tsn a = a_will_send_forward_tsn s \<and> a_will_retransmit_fast a = a_will_retransmit_fast s \<and>
    a_will_retransmit_reconfig a = a_will_retransmit_reconfig s \<and> a_pending_reset_streams a = a_pending_reset_streams s \<and>
    a_active_reconfig a = a_active_reconfig s \<and> a_reconfigs a = a_reconfigs s \<and>
    a_advanced_peer_tsn_ack_point a = a_advanced_peer_tsn_ack_point s \<and>
    a_cumulative_tsn_ack_point a = a_cumulative_tsn_ack_point s \<and> a_source_port a = a_source_port s \<and>
    a_destination_port a = a_destination_port s \<and> a_peer_verification_tag a = a_peer_verification_tag s \<and>
    idle_but {Ack} (a_timers a)"

text \<open>An acknowledgement is due: at once or when the timer that was started at \<open>now\<close> expires.\<close>

definition acking :: "instant \<Rightarrow> Association \<Rightarrow> bool" where
  "acking now a \<longleftrightarrow> a_ack_state a = Immediate \<and> idle_but {} (a_timers a) \<or>
    a_ack_state a = Delay \<and> TimerTable_get (a_timers a) Ack = Some (now + from_millis ACK_INTERVAL)"

definition holding :: "u16 \<Rightarrow> PayloadProtocolIdentifier \<Rightarrow> ChunkPayloadData list \<Rightarrow> Association \<Rightarrow> Association \<Rightarrow> bool" where
  "holding sid ppi ws s a \<longleftrightarrow> in_sequence (length ws) s a \<and> a_stream_queue a = [sid] \<and>
    (\<exists>st. a_streams a = [(sid, st)] \<and> ss_state st = RS_ReadWritable \<and>
      ss_reassembly_queue st = collected sid ppi (a_max_receive_message_size s) ws)"

definition receiving :: "u16 \<Rightarrow> PayloadProtocolIdentifier \<Rightarrow> ChunkPayloadData list \<Rightarrow> Association \<Rightarrow> Association \<Rightarrow> bool" where
  "receiving sid ppi ws s a \<longleftrightarrow> holding sid ppi ws s a \<or>
    ws = [] \<and> in_sequence 0 s a \<and> a_streams a = [] \<and> a_stream_queue a = [] \<and> a_next_stream_generation a = 0"

definition data_packet :: "Association \<Rightarrow> ChunkPayloadData list \<Rightarrow> Packet" where
  "data_packet c cs = create_packet c (map CPayloadData cs)"

subsection \<open>Collecting the chunks\<close>

lemma message_run_off:
  assumes "message_run t sid ppi ws" "i < length ws"
  shows "tsn_off t (ws ! i) = i"
proof -
  have "d_tsn (ws ! i) = t + of_nat i" "i < 2 ^ 32" using assms by (simp_all add: message_run_def)
  then show ?thesis by (simp add: tsn_off_def unat_of_nat_u32)
qed

lemma message_run_sorted:
  assumes "message_run t sid ppi ws"
  shows "tsn_sorted t ws"
proof -
  have "map (tsn_off t) ws = [0..<length ws]" using message_run_off [OF assms] by (auto intro: nth_equalityI)
  moreover have "length ws < 2 ^ 31" using assms by (simp add: message_run_def)
  ultimately show ?thesis by (auto simp: tsn_sorted_def in_set_conv_nth message_run_off [OF assms])
qed

lemma sorted_take: "tsn_sorted t ws \<Longrightarrow> tsn_sorted t (take k ws)"
  by (metis append_take_drop_id tsn_sorted_append)

lemma sort_sorted_chunks:
  assumes "tsn_sorted t cs"
  shows "sort_chunks_by_tsn cs = cs"
proof (rule tsn_sorted_unique [of t])
  have "sorted (map (tsn_off t) (sort_chunks_by_tsn cs))"
    unfolding sort_chunks_by_tsn_def
    by (rule sorted_sort_by) (use assms tsn.lt_window [where b = t] in \<open>auto simp: tsn_sorted_def tsn_off_def\<close>)
  then show "tsn_sorted t (sort_chunks_by_tsn cs)"
    using assms by (simp add: tsn_sorted_def strict_sorted_iff sort_chunks_by_tsn_def distinct_map_sort_by)
qed (simp_all add: assms sort_chunks_by_tsn_def)

lemma total_len_take_le: "total_len (take k ws) \<le> total_len ws"
  by (metis append_take_drop_id le_add1 total_len_simps(3))

lemma contiguous_tsn_nth: "(\<And>i. Suc i < length cs \<Longrightarrow> d_tsn (cs ! Suc i) = d_tsn (cs ! i) + 1) \<Longrightarrow> tsns_contiguous cs"
proof (induction cs rule: tsns_contiguous.induct)
  case (1 a b cs)
  have "d_tsn b = d_tsn a + 1" using "1.prems" [of 0] by simp
  moreover have "tsns_contiguous (b # cs)" by (rule "1.IH") (use "1.prems" [of "Suc _"] in auto)
  ultimately show ?case by simp
qed auto

lemma message_prefix_complete:
  assumes m: "message_run t sid ppi ws" and k: "k < length ws"
  shows "Chunks_is_complete (Chunks_new 0 ppi (take (Suc k) ws)) \<longleftrightarrow> Suc k = length ws"
proof -
  have "tsns_contiguous (take (Suc k) ws)"
    by (rule contiguous_tsn_nth) (use m k in \<open>auto simp: message_run_def\<close>)
  moreover have "take (Suc k) ws \<noteq> []" "length (take (Suc k) ws) - 1 = k" using k by auto
  ultimately show ?thesis using m k by (auto simp: Chunks_is_complete_def Chunks_new_def message_run_def)
qed

text \<open>One more chunk of the message.\<close>

lemma collect_step:
  assumes m: "message_run t sid ppi ws" and k: "k < length ws" and len: "total_len ws \<le> unat limit"
  shows "ReassemblyQueue_push (collected sid ppi limit (take k ws)) (ws ! k) =
    (Ok (Suc k = length ws), collected sid ppi limit (take (Suc k) ws))"
proof -
  have snoc: "take (Suc k) ws = take k ws @ [ws ! k]" using k by (simp add: take_Suc_conv_app_nth)
  have w: "d_stream_identifier (ws ! k) = sid" "d_stream_sequence_number (ws ! k) = 0" "\<not> d_unordered (ws ! k)"
    "d_payload_type (ws ! k) = ppi"
    using m k by (auto simp: message_run_def)
  have sorted: "tsn_sorted t (take (Suc k) ws)" by (rule sorted_take [OF message_run_sorted [OF m]])
  then have sort: "sort_chunks_by_tsn (take k ws @ [ws ! k]) = take (Suc k) ws"
    using sort_sorted_chunks snoc by metis
  have new: "\<forall>c \<in> set (take k ws). d_tsn c \<noteq> d_tsn (ws ! k)"
    using tsn_sorted_distinct [OF sorted] by (auto simp: snoc image_iff)
  have size: "total_len (take k ws) + dlen (ws ! k) \<le> unat limit"
    using total_len_take_le [of "Suc k" ws] len by (simp add: snoc)
  have push: "Chunks_push (Chunks_new 0 ppi (take k ws)) (ws ! k) =
      (Suc k = length ws, Chunks_new 0 ppi (take (Suc k) ws))"
    using new sort message_prefix_complete [OF m k] by (auto simp: Chunks_push_def Chunks_new_def)
  show ?thesis
    using w size push [unfolded Chunks_new_def]
    by (auto simp: collected_def ReassemblyQueue_push_def ReassemblyQueue_new_def calculate_ordered_message_size_def Chunks_new_def
        Chunks_len_eq snoc sna16lt_def sort_chunks_by_ssn_def sort_by_def)
qed

subsection \<open>Receiving a DATA chunk\<close>

lemma collected_bytes [simp]: "ReassemblyQueue_get_num_bytes (collected sid ppi limit ws) = total_len ws"
  by (simp add: collected_def ReassemblyQueue_get_num_bytes_def)

lemma holding_credit:
  assumes "holding sid ppi ws s a" "total_len ws \<le> unat (a_max_receive_buffer_size s)"
  shows "get_my_receiver_window_credit a = Ok (a_max_receive_buffer_size s - of_nat (total_len ws))"
proof -
  have "unat (of_nat (total_len ws) :: u32) = total_len ws"
    using assms(2) unat_bound [of "a_max_receive_buffer_size s"] by (intro unat_of_nat_u32) simp
  then show ?thesis
    using assms
    by (auto simp: holding_def in_sequence_def get_my_receiver_window_credit_def get_num_bytes_in_reassembly_queue_def
        u32_add_def u32_saturating_sub_def word_le_nat_alt)
qed

lemma create_receiving:
  assumes "receiving sid ppi ws s a"
  obtains a' where "get_or_create_stream sid a = (True, a')" "holding sid ppi ws s a'"
  using assms
  by (auto simp: receiving_def holding_def in_sequence_def get_or_create_stream_def create_stream_def u64_checked_add_def
      Let_def push_event_def StreamState_new_def collected_def ReassemblyQueue_new_def)

lemma next_tsn_not_lte: "\<not> sna32lte (t + 1) t"
  by (simp add: sna32lte_off unsigned_minus_1_eq_mask mask_eq_exp_minus_1)

text \<open>What is left after the chunk has gone to its stream: it passes through the payload queue.\<close>

lemma acknowledge_next:
  assumes a: "in_sequence n s a" "a_peer_last_tsn a + 1 = d_tsn w"
    and cap: "\<And>b. a_streams b = a_streams a \<Longrightarrow> a_deferred_reset_data b = [] \<Longrightarrow> a_payload_queue b = PayloadQueue_new \<Longrightarrow>
      a_max_receive_buffer_size b = a_max_receive_buffer_size a \<Longrightarrow> receive_capacity_exhausted b = Ok False"
  obtains a' where "handle_peer_last_tsn_and_acknowledgement im (snd (push_payload w a)) = (Ok [], a')"
    "in_sequence (Suc n) s a'" "a_streams a' = a_streams a" "a_stream_queue a' = a_stream_queue a"
    "a_delayed_ack_triggered a' \<or> a_immediate_ack_triggered a'"
proof -
  let ?q = "\<lparr>pq_chunk_map = [(d_tsn w, w)], pq_sorted = [d_tsn w], pq_dup_tsn = [], pq_n_bytes = dlen w\<rparr>"
  have push: "push_payload w a = (True, a\<lparr>a_payload_queue := ?q\<rparr>)"
    using a next_tsn_not_lte [of "a_peer_last_tsn a"]
    by (simp add: push_payload_def in_sequence_def PayloadQueue_push_def PayloadQueue_new_def contains_key_iff
        PayloadQueue_update_sorted_keys_def sort_by_def)
  let ?b = "a\<lparr>a_payload_queue := PayloadQueue_new, a_peer_last_tsn := d_tsn w\<rparr>"
  have b: "receive_capacity_exhausted ?b = Ok False" by (rule cap) (use a in \<open>simp_all add: in_sequence_def\<close>)
  have adv: "advance_peer_last_tsn (PayloadQueue_len ?q + 1) [] (a\<lparr>a_payload_queue := ?q\<rparr>) = (Ok [], ?b)"
    using a
    by (simp add: in_sequence_def PayloadQueue_len_def PayloadQueue_pop_def PayloadQueue_new_def
        reevaluate_pending_reset_requests_def)
  let ?ack = "if a_ack_state a \<noteq> Immediate \<and> \<not> im \<and> a_ack_mode a = Normal \<or> a_ack_mode a = AlwaysDelay
    then if a_ack_state a = Idle then ?b\<lparr>a_delayed_ack_triggered := True\<rparr> else ?b\<lparr>a_immediate_ack_triggered := True\<rparr>
    else ?b\<lparr>a_immediate_ack_triggered := True\<rparr>"
  have "PayloadQueue_is_empty PayloadQueue_new" by (simp add: PayloadQueue_is_empty_def PayloadQueue_len_def PayloadQueue_new_def)
  then have "handle_peer_last_tsn_and_acknowledgement im (snd (push_payload w a)) = (Ok [], ?ack)"
    using a(1) adv b
    by (simp add: handle_peer_last_tsn_and_acknowledgement_def push in_sequence_def Let_def del: advance_peer_last_tsn.simps)
  then show ?thesis by (rule that) (use a in \<open>auto simp: in_sequence_def add_ac\<close>)
qed

lemma prefix_shorter:
  assumes "message_run t sid ppi ws" "k < length ws"
  shows "total_len (take k ws) < total_len ws"
proof -
  have "0 < dlen (ws ! k)" using assms by (simp add: message_run_def)
  moreover have "total_len (take k ws) + dlen (ws ! k) = total_len (take (Suc k) ws)"
    using assms(2) by (simp add: take_Suc_conv_app_nth)
  ultimately show ?thesis using total_len_take_le [of "Suc k" ws] by linarith
qed

lemma credit_positive: "n < unat x \<Longrightarrow> x - of_nat n \<noteq> 0" for x :: u32
  using unat_of_nat_u32 [of n] unat_bound [of x] by auto

text \<open>The buffer is not exhausted: it has room or the message is complete.\<close>

lemma capacity_left:
  assumes a: "holding sid ppi (take k ws) s a" and m: "message_run t sid ppi ws" "k \<le> length ws" "0 < k"
    and size: "total_len ws \<le> unat (a_max_receive_buffer_size s)"
  shows "receive_capacity_exhausted a = Ok False"
proof -
  have credit: "get_my_receiver_window_credit a = Ok (a_max_receive_buffer_size s - of_nat (total_len (take k ws)))"
    by (rule holding_credit [OF a]) (use total_len_take_le [of k ws] size in simp)
  show ?thesis
  proof (cases "k = length ws")
    case True
    then have "Chunks_is_complete (Chunks_new 0 ppi ws)"
      using message_prefix_complete [OF m(1), of "k - 1"] m(3) by simp
    then show ?thesis
      using a True m(3) credit
      by (auto simp: receive_capacity_exhausted_def holding_def collected_def stream_is_readable_def
          ReassemblyQueue_is_readable_def ReassemblyQueue_new_def Chunks_new_def sna16lte_def)
  next
    case False
    then have "total_len (take k ws) < unat (a_max_receive_buffer_size s)"
      using prefix_shorter [OF m(1), of k] m(2) size by simp
    then show ?thesis using credit credit_positive by (simp add: receive_capacity_exhausted_def)
  qed
qed

lemma no_deferred_forward: "a_deferred_forward_tsns a = [] \<Longrightarrow> apply_deferred_forward_tsns sid a = a"
  by (simp add: apply_deferred_forward_tsns_def split: option.split)

text \<open>A chunk of the message arrives in sequence.\<close>

lemma decide_in_sequence:
  assumes a: "receiving sid ppi (take k ws) s a" and m: "message_run (a_peer_last_tsn s + 1) sid ppi ws" "k < length ws"
    and size: "total_len ws \<le> unat (a_max_receive_buffer_size s)"
  obtains b where "decide_data (ws ! k) a = (Ok HandleData, b)" "holding sid ppi (take k ws) s b"
proof -
  let ?w = "ws ! k"
  obtain b where b: "get_or_create_stream sid a = (True, b)" "holding sid ppi (take k ws) s b"
    using create_receiving [OF a] by blast
  have w: "d_stream_identifier ?w = sid" "d_tsn ?w = a_peer_last_tsn s + 1 + of_nat k"
    using m by (auto simp: message_run_def)
  have less: "total_len (take k ws) < unat (a_max_receive_buffer_size s)" using prefix_shorter [OF m] size by simp
  have credit: "get_my_receiver_window_credit b = Ok (a_max_receive_buffer_size s - of_nat (total_len (take k ws)))"
    by (rule holding_credit [OF b(2)]) (use less in simp)
  have last: "in_sequence k s a" using a m(2) by (auto simp: receiving_def holding_def)
  then have can: "PayloadQueue_can_push (a_payload_queue a) ?w (a_peer_last_tsn a)"
    using w(2) next_tsn_not_lte [of "a_peer_last_tsn s + of_nat k"]
    by (simp add: in_sequence_def PayloadQueue_can_push_def PayloadQueue_new_def contains_key_iff add_ac)
  have "\<not> data_is_above_pending_reset a ?w"
    using last by (simp add: in_sequence_def data_is_above_pending_reset_def contains_key_iff)
  then have "decide_data ?w a = (Ok HandleData, b)"
    using can b(1) w(1) credit credit_positive [OF less] by (simp add: decide_data_def word_gt_0)
  then show ?thesis using b(2) by (rule that)
qed

lemma receive_data:
  assumes a: "receiving sid ppi (take k ws) s a" and m: "message_run (a_peer_last_tsn s + 1) sid ppi ws" "k < length ws"
    and size: "total_len ws \<le> unat (a_max_receive_message_size s)" "total_len ws \<le> unat (a_max_receive_buffer_size s)"
  obtains a' where "handle_data (ws ! k) a = (Ok [], a')" "holding sid ppi (take (Suc k) ws) s a'"
    "a_delayed_ack_triggered a' \<or> a_immediate_ack_triggered a'"
proof -
  let ?w = "ws ! k"
  let ?a = "a\<lparr>a_stats := inc_datas (a_stats a)\<rparr>"
  have r: "receiving sid ppi (take k ws) s ?a" using a by (simp add: receiving_def holding_def in_sequence_def)
  obtain b where b: "decide_data ?w ?a = (Ok HandleData, b)" "holding sid ppi (take k ws) s b"
    using decide_in_sequence [OF r m size(2)] by blast
  have w: "d_stream_identifier ?w = sid" "d_tsn ?w = a_peer_last_tsn s + 1 + of_nat k"
    using m by (auto simp: message_run_def)
  obtain st where st: "a_streams b = [(sid, st)]" "ss_state st = RS_ReadWritable"
    "ss_reassembly_queue st = collected sid ppi (a_max_receive_message_size s) (take k ws)"
    using b(2) by (auto simp: holding_def)
  let ?q = "collected sid ppi (a_max_receive_message_size s) (take (Suc k) ws)"
  let ?c = "b\<lparr>a_streams := [(sid, st\<lparr>ss_reassembly_queue := ?q\<rparr>)]\<rparr>"
  have push: "stream_handle_data ?w b = (Ok (Suc k = length ws), ?c)"
    using st w(1) collect_step [OF m size(1)] by (simp add: stream_handle_data_def StreamState_handle_data_def upd_stream_def)
  define evs where "evs = (if Suc k = length ws \<and> readable_now sid ?c then [DatagramReceived, EStream (StreamReadable sid)]
    else [DatagramReceived])"
  let ?d = "?c\<lparr>a_events := a_events b @ evs\<rparr>"
  have d: "in_sequence k s ?d" "a_peer_last_tsn ?d + 1 = d_tsn ?w"
    using b(2) m(2) w(2) by (auto simp: holding_def in_sequence_def add_ac)
  have cap: "receive_capacity_exhausted x = Ok False"
    if x: "a_streams x = a_streams ?d" "a_deferred_reset_data x = []" "a_payload_queue x = PayloadQueue_new"
      "a_max_receive_buffer_size x = a_max_receive_buffer_size ?d" for x
  proof -
    have "holding sid ppi (take (Suc k) ws) s (?d\<lparr>a_payload_queue := PayloadQueue_new, a_deferred_reset_data := [],
        a_peer_last_tsn := a_peer_last_tsn s + of_nat (Suc k)\<rparr>)" (is "holding _ _ _ _ ?x")
      using b(2) m(2) st by (auto simp: holding_def in_sequence_def)
    then have "receive_capacity_exhausted ?x = Ok False" by (rule capacity_left [OF _ m(1) _ _ size(2)]) (use m in auto)
    then show ?thesis using x by (simp add: receive_capacity_exhausted_def get_my_receiver_window_credit_def)
  qed
  obtain a' where a': "handle_peer_last_tsn_and_acknowledgement (d_immediate_sack ?w) (snd (push_payload ?w ?d)) = (Ok [], a')"
    "in_sequence (Suc k) s a'" "a_streams a' = a_streams ?d" "a_stream_queue a' = a_stream_queue ?d"
    "a_delayed_ack_triggered a' \<or> a_immediate_ack_triggered a'"
    by (rule acknowledge_next [OF d cap]) auto
  obtain ok q where q: "PayloadQueue_push (a_payload_queue b) ?w (a_peer_last_tsn b) = (ok, q)" by fastforce
  let ?e = "?c\<lparr>a_payload_queue := q, a_events := a_events b @ evs\<rparr>"
  have e: "snd (push_payload ?w ?d) = ?e" "push_payload ?w ?c = (ok, ?c\<lparr>a_payload_queue := q\<rparr>)"
    using q by (simp_all add: push_payload_def)
  have "a_deferred_forward_tsns b = []" using b(2) by (simp add: holding_def in_sequence_def)
  have "handle_data ?w a = (Ok [], a')"
    using a'(1) \<open>a_deferred_forward_tsns b = []\<close> unfolding e(1)
    by (auto simp: handle_data_def b(1) push st(1) w(1) e(2) contains_key_iff push_event_def evs_def readable_now_def Let_def
        no_deferred_forward split: if_splits)
  moreover have "holding sid ppi (take (Suc k) ws) s a'"
    using a'(2-4) b(2) st m(2) by (auto simp: holding_def)
  ultimately show ?thesis using a'(5) that by blast
qed

subsection \<open>Receiving packets\<close>

lemma receiving_marks:
  "receiving sid ppi ws s (handle_chunk_start a) = receiving sid ppi ws s a"
  "holding sid ppi ws s a \<Longrightarrow> holding sid ppi ws s (handle_chunk_end now a)"
  "holding sid ppi ws s a \<Longrightarrow> a_delayed_ack_triggered a \<or> a_immediate_ack_triggered a \<Longrightarrow> acking now (handle_chunk_end now a)"
  by (auto simp: receiving_def holding_def in_sequence_def acking_def handle_chunk_start_def handle_chunk_end_def
      upd_timers_def timer_defs Let_def)

lemma receive_chunks:
  assumes m: "message_run (a_peer_last_tsn s + 1) sid ppi ws"
    and size: "total_len ws \<le> unat (a_max_receive_message_size s)" "total_len ws \<le> unat (a_max_receive_buffer_size s)"
    and a: "receiving sid ppi (take k ws) s a" "drop k ws = vs @ r" "vs \<noteq> []"
  shows "\<exists>a'. afor (map CPayloadData vs) (\<lambda>c. handle_chunk cookie p c now) a = (Ok (), a') \<and>
    holding sid ppi (take (k + length vs) ws) s a' \<and> (a_delayed_ack_triggered a' \<or> a_immediate_ack_triggered a')"
  using a
proof (induction vs arbitrary: k a)
  case (Cons v vs)
  have k: "k < length ws" using Cons.prems(2) by (metis append_Cons drop_all list.distinct(1) not_le)
  then have v: "v = ws ! k" "drop (Suc k) ws = vs @ r"
    using Cons.prems(2) by (metis Cons_nth_drop_Suc append_Cons list.inject)+
  obtain b where b: "handle_data (ws ! k) a = (Ok [], b)" "holding sid ppi (take (Suc k) ws) s b"
    "a_delayed_ack_triggered b \<or> a_immediate_ack_triggered b"
    using receive_data [OF Cons.prems(1) m k size] by blast
  have step: "handle_chunk cookie p (CPayloadData v) now a = (Ok (), b)"
    by (simp add: handle_chunk_def alift_def dispatch_chunk_def v(1) b(1))
  show ?case
  proof (cases "vs = []")
    case True
    then show ?thesis using b step by auto
  next
    case False
    have "receiving sid ppi (take (Suc k) ws) s b" using b(2) by (simp add: receiving_def)
    from Cons.IH [OF this v(2) False] show ?thesis using step by auto
  qed
qed simp

lemma data_chunks_checked: "check_packet_chunks p (map (Chunk_on_wire \<circ> CPayloadData) ds) = Ok ()"
  by (induction ds) auto

lemma data_packet_arrives:
  assumes cs: "cs \<noteq> []" "\<forall>d \<in> set cs. dlen d < 65500" "Packet_marshal crc (data_packet c cs) = Ok b"
    and c: "a_source_port c \<noteq> 0" "a_destination_port c \<noteq> 0" "a_peer_verification_tag c = a_my_verification_tag a"
      "routed sk a se"
    and h: "afor (map CPayloadData (map wire_view cs)) (\<lambda>d. handle_chunk cookie (Packet_on_wire (data_packet c cs)) d now)
        (handle_chunk_start a) = (Ok (), y)"
  shows "deliver_all crc cookie now from_addr (b # raws) sk se a =
    deliver_all crc cookie now from_addr raws sk se (handle_chunk_end now y)"
proof -
  let ?p = "data_packet c cs"
  obtain d ds where d: "cs = d # ds" using cs(1) by (cases cs) auto
  obtain pd where pd: "PartialDecode_unmarshal crc b = Ok pd" "PartialDecode_finish pd = Ok (Packet_on_wire ?p)"
    "pd_common_header pd = pk_common_header ?p"
    by (rule packet_delivered [of ?p "CPayloadData d" "map CPayloadData ds" crc])
      (use cs d in \<open>auto simp: data_packet_def create_packet_def ChunkPayloadData_value_length_def
        PAYLOAD_DATA_HEADER_SIZE_def\<close>)
  have tag: "hd_verification_tag (pd_common_header pd) = a_my_verification_tag a"
    using pd(3) c(3) by (simp add: data_packet_def create_packet_def)
  have chunks: "pk_chunks (Packet_on_wire ?p) = map CPayloadData (map wire_view cs)"
    by (simp add: Packet_on_wire_def data_packet_def create_packet_def)
  have check: "check_packet (Packet_on_wire ?p) = Ok ()"
    using c(1,2) by (simp add: check_packet_def Packet_on_wire_def data_packet_def create_packet_def data_chunks_checked)
  have "handle_event cookie (Datagram \<lparr>tr_now = now, tr_remote = from_addr, tr_ecn = None, tr_local_ip = None,
      tr_payload = PayloadPartialDecode pd\<rparr>) a = (Ok (), handle_chunk_end now y)"
    using pd(2) check h chunks by (simp add: handle_event_def handle_inbound_def)
  then show ?thesis using endpoint_routes [OF pd(1) c(4) tag] by auto
qed

lemma data_packets_arrive:
  assumes m: "message_run (a_peer_last_tsn s + 1) sid ppi ws"
    and size: "total_len ws \<le> unat (a_max_receive_message_size s)" "total_len ws \<le> unat (a_max_receive_buffer_size s)"
    and c: "a_source_port c \<noteq> 0" "a_destination_port c \<noteq> 0" "a_peer_verification_tag c = a_my_verification_tag s"
      "routed sk s se" "\<forall>d \<in> set ws. dlen d < 65500"
    and css: "list_all2 (\<lambda>cs b. Packet_marshal crc (data_packet c cs) = Ok b) css raws" "[] \<notin> set css"
      "drop k ws = map wire_view (concat css)"
    and a: "receiving sid ppi (take k ws) s a" "css = [] \<Longrightarrow> acking now a"
  shows "\<exists>a'. deliver_all crc cookie now from_addr raws sk se a = Some a' \<and> receiving sid ppi ws s a' \<and> acking now a'"
  using css a
proof (induction css arbitrary: raws k a)
  case Nil
  then show ?case by auto
next
  case (Cons cs css)
  let ?vs = "map wire_view cs"
  obtain b raws' where raws: "raws = b # raws'" "Packet_marshal crc (data_packet c cs) = Ok b"
    "list_all2 (\<lambda>cs b. Packet_marshal crc (data_packet c cs) = Ok b) css raws'"
    using Cons.prems(1) by (auto simp: list_all2_Cons1)
  have start: "receiving sid ppi (take k ws) s (handle_chunk_start a)" using Cons.prems(4) by (simp add: receiving_marks)
  have ne: "?vs \<noteq> []" using Cons.prems(2) by auto
  have vs: "drop k ws = ?vs @ map wire_view (concat css)" using Cons.prems(3) by simp
  obtain y where y: "afor (map CPayloadData ?vs) (\<lambda>d. handle_chunk cookie (Packet_on_wire (data_packet c cs)) d now)
      (handle_chunk_start a) = (Ok (), y)" "holding sid ppi (take (k + length ?vs) ws) s y"
    "a_delayed_ack_triggered y \<or> a_immediate_ack_triggered y"
    using receive_chunks [OF m size start vs ne] by blast
  let ?y = "handle_chunk_end now y"
  have small: "\<forall>d \<in> set cs. dlen d < 65500"
  proof
    fix d assume "d \<in> set cs"
    then have "wire_view d \<in> set (drop k ws)" using vs by simp
    then have "dlen (wire_view d) < 65500" using c(5) by (meson in_set_dropD)
    then show "dlen d < 65500" by (simp add: wire_view_def)
  qed
  have "deliver_all crc cookie now from_addr raws sk se a = deliver_all crc cookie now from_addr raws' sk se ?y"
    unfolding raws(1)
    by (rule data_packet_arrives [OF _ small raws(2) c(1,2) _ _ y(1)])
      (use ne c(3,4) Cons.prems(4) in \<open>auto simp: receiving_def holding_def in_sequence_def routed_def\<close>)
  moreover have "acking now ?y" using y(2,3) by (rule receiving_marks)
  moreover have "receiving sid ppi (take (k + length ?vs) ws) s ?y" using y(2) by (simp add: receiving_def receiving_marks)
  moreover have "drop (k + length ?vs) ws = map wire_view (concat css)" using vs by (metis add.commute append_eq_conv_conj drop_drop)
  ultimately show ?case using Cons.IH [OF raws(3), of "k + length ?vs" ?y] Cons.prems(2) by auto
qed

subsection \<open>Reading the message\<close>

lemma holding_accept:
  "holding sid ppi ws s a \<Longrightarrow> accept_stream a = (Some sid, a\<lparr>a_stream_queue := []\<rparr>)"
  by (simp add: holding_def accept_stream_def)

lemma holding_read:
  assumes a: "holding sid ppi ws s a" "message_run t sid ppi ws" "ws \<noteq> []"
  shows "\<exists>a'. read_sctp sid (a\<lparr>a_stream_queue := q\<rparr>) = (Ok (Some (Chunks_new 0 ppi ws)), a') \<and> a_state a' = a_state s"
proof -
  have "Chunks_is_complete (Chunks_new 0 ppi ws)" using message_prefix_complete [OF a(2), of "length ws - 1"] a(3) by simp
  moreover have "Chunks_len (Chunks_new 0 ppi ws) = total_len ws" by (simp add: Chunks_len_eq Chunks_new_def)
  ultimately have read: "ReassemblyQueue_read (collected sid ppi limit ws) = (Some (Chunks_new 0 ppi ws),
      (ReassemblyQueue_new sid limit)\<lparr>rq_next_ssn := 1\<rparr>)" for limit
    using a(3) by (simp add: ReassemblyQueue_read_def collected_def ReassemblyQueue_new_def subtract_num_bytes_def
        sna16gt_def Chunks_new_def)
  obtain st where st: "a_streams a = [(sid, st)]" "ss_state st = RS_ReadWritable"
    "ss_reassembly_queue st = collected sid ppi (a_max_receive_message_size s) ws"
    and seq: "in_sequence (length ws) s a"
    using a(1) by (auto simp: holding_def)
  show ?thesis
    using seq st
    by (simp add: read_sctp_def stream_is_readable_def read upd_stream_def finish_retiring_stream_def in_sequence_def Let_def
        ReassemblyQueue_get_num_bytes_def ReassemblyQueue_new_def receive_capacity_exhausted_def alift_def
        get_my_receiver_window_credit_def get_num_bytes_in_reassembly_queue_def u32_add_def count_received_def)
qed

end
