(* ===== verification/Data_Transfer.thy ===== *)
theory Data_Transfer
  imports Data_Receiving
begin

text \<open>
  The sending side of a message transfer and the transfer as a whole: \<^verbatim>\<open>open_stream\<close> and \<^verbatim>\<open>write\<close> queue the
  chunks of a message, \<^verbatim>\<open>poll_transmit\<close> gives them TSNs and bundles them into packets, and the other side
  collects them.
\<close>

subsection \<open>The sender's queue\<close>

text \<open>The chunks \<open>rest\<close> of the only message are pending and \<open>sent\<close> are in flight.\<close>

definition flight_of :: "ChunkPayloadData list \<Rightarrow> PayloadQueue" where
  "flight_of sent = fold (\<lambda>c q. PayloadQueue_push_no_check q c) sent PayloadQueue_new"

definition sending_queue :: "u64 \<Rightarrow> ChunkPayloadData list \<Rightarrow> ChunkPayloadData list \<Rightarrow> bool \<Rightarrow> OutboundQueue" where
  "sending_queue unstarted rest sent sel =
    \<lparr>oq_pending = \<lparr>pd_unordered_queue = [], pd_ordered_queue = rest, pd_queue_len = length rest,
       pd_n_bytes = total_len rest, pd_selected = sel, pd_unordered_is_selected = False\<rparr>,
     oq_inflight = flight_of sent, oq_next_message_id = 1, oq_next_unstarted_message_id = unstarted\<rparr>"

text \<open>What sending adds to the chunks.\<close>

fun stamped :: "u32 \<Rightarrow> instant \<Rightarrow> ChunkPayloadData list \<Rightarrow> ChunkPayloadData list" where
  "stamped t now [] = []"
| "stamped t now (c # cs) = c\<lparr>d_tsn := t, d_since := Some now, d_nsent := 1\<rparr> # stamped (t + 1) now cs"

text \<open>The fragments that are left of an ordered, reliable message; \<open>sel\<close> tells whether some have been sent.\<close>

fun fragments_left :: "bool \<Rightarrow> ChunkPayloadData list \<Rightarrow> bool" where
  "fragments_left sel [] \<longleftrightarrow> True"
| "fragments_left sel (c # rest) \<longleftrightarrow>
    (d_beginning_fragment c \<longleftrightarrow> \<not> sel) \<and> (d_ending_fragment c \<longleftrightarrow> rest = []) \<and> \<not> d_unordered c \<and> \<not> d_abandoned c \<and>
    d_deadline c = None \<and> d_reliability c = Some (Reliable, 0) \<and> fragments_left True rest"

text \<open>\<open>c\<close> with a stream and a message written to it.\<close>

definition with_message :: "u16 \<Rightarrow> StreamState \<Rightarrow> ChunkPayloadData list \<Rightarrow> Association \<Rightarrow> Association" where
  "with_message sid st cs c = c\<lparr>a_next_stream_generation := 1, a_streams := [(sid, st)],
     a_outbound_queue := sending_queue 0 cs [] False\<rparr>"

text \<open>The chunks that a message becomes.\<close>

definition message_chunks :: "u16 \<Rightarrow> PayloadProtocolIdentifier \<Rightarrow> u32 \<Rightarrow> bytes \<Rightarrow> ChunkPayloadData list \<Rightarrow> bool" where
  "message_chunks sid ppi mps data cs \<longleftrightarrow> fragments_left False cs \<and> concat (map d_user_data cs) = data \<and>
    (\<forall>c \<in> set cs. d_stream_identifier c = sid \<and> d_stream_sequence_number c = 0 \<and> d_payload_type c = ppi \<and>
      0 < dlen c \<and> dlen c \<le> unat mps \<and> \<not> d_acked c \<and> d_message_id c = 0)"

definition example_message :: bytes where
  "example_message = [10, 20, 30]"

text \<open>The first stream that an association opens.\<close>

definition opened_stream :: "u16 \<Rightarrow> PayloadProtocolIdentifier \<Rightarrow> Association \<Rightarrow> StreamState" where
  "opened_stream sid ppi c =
    (let s = StreamState_new (a_side c) sid (a_max_payload_size c) (a_max_receive_message_size c) ppi
     in s\<lparr>ss_stats := (ss_stats s)\<lparr>dcs_generation := 0\<rparr>, ss_first_message_id := 0\<rparr>)"

text \<open>
  What bundling counts as the bytes of a packet with the chunks \<open>cs\<close>. The packet that is sent also has
  the padding of each chunk to a multiple of four bytes.
\<close>

definition counted_bytes :: "ChunkPayloadData list \<Rightarrow> nat" where
  "counted_bytes cs = 12 + (\<Sum>c \<leftarrow> cs. 16 + dlen c)"

text \<open>A packet is closed only when the next chunk does not fit, by the test of the code.\<close>

fun filled :: "nat \<Rightarrow> ChunkPayloadData list list \<Rightarrow> bool" where
  "filled mtu (cs # (d # ds) # css) \<longleftrightarrow> mtu < counted_bytes cs + dlen d \<and> filled mtu ((d # ds) # css)"
| "filled mtu _ \<longleftrightarrow> True"

lemma flight_bytes [simp]: "pq_n_bytes (flight_of sent) = total_len sent"
  by (induction sent rule: rev_induct)
    (simp_all add: flight_of_def PayloadQueue_new_def PayloadQueue_push_no_check_def PayloadQueue_update_sorted_keys_def)

lemma flight_snoc: "PayloadQueue_push_no_check (flight_of sent) c = flight_of (sent @ [c])"
  by (simp add: flight_of_def)

lemma send_first:
  assumes "fragments_left sel (c # rest)"
  shows "OutboundQueue_send_next (sending_queue 1 (c # rest) sent sel) t now =
    Ok (Some (c\<lparr>d_tsn := t, d_since := Some now, d_nsent := 1\<rparr>), t + 1,
      sending_queue 1 rest (sent @ [c\<lparr>d_tsn := t, d_since := Some now, d_nsent := 1\<rparr>]) (rest \<noteq> []))"
  using assms
  by (cases sel) (auto simp: OutboundQueue_send_next_def sending_queue_def OutboundQueue_start_timed_messages_def
      PendingQueue_peek_def PendingQueue_pop_def pop_front_ordered_def pending_account_def usize_sub_def flight_snoc Let_def)

lemma peek_first: "OutboundQueue_peek_pending (sending_queue u rest sent sel) = front rest"
  by (simp add: OutboundQueue_peek_pending_def sending_queue_def PendingQueue_peek_def)

lemma expire_first: "fragments_left sel rest \<Longrightarrow>
    OutboundQueue_expire_pending (sending_queue u rest sent sel) now = Ok (None, sending_queue u rest sent sel)"
  by (cases rest) (auto simp: OutboundQueue_expire_pending_def sending_queue_def PendingQueue_peek_def deadline_passed_def)

lemma expire_tail_first: "fragments_left False rest \<Longrightarrow>
    OutboundQueue_expire_pending_tail (sending_queue u rest sent sel) now t = Ok (None, t, sending_queue u rest sent sel)"
  by (cases rest) (auto simp: OutboundQueue_expire_pending_tail_def sending_queue_def PendingQueue_peek_def)

lemma start_timed_reliable: "fragments_left sel cs \<Longrightarrow> c \<in> set cs \<Longrightarrow> start_timed_chunk now c = c"
  by (induction sel cs rule: fragments_left.induct) (auto simp: start_timed_chunk_def)

lemma start_timed_none:
  assumes "fragments_left sel rest"
  shows "OutboundQueue_start_timed_messages (sending_queue u rest sent sel') now = sending_queue 1 rest sent sel'"
proof -
  have "map (start_timed_chunk now) (takeWhile P (rev rest)) = takeWhile P (rev rest)" for P
    using start_timed_reliable [OF assms] by (intro map_idI) (auto dest: set_takeWhileD)
  then have "start_timed_queue u now rest = rest" by (simp add: start_timed_queue_def Let_def del: rev_append)
  moreover have "start_timed_queue u now [] = []" by (simp add: start_timed_queue_def)
  ultimately show ?thesis
    by (simp add: OutboundQueue_start_timed_messages_def sending_queue_def PendingQueue_start_timed_messages_def)
qed

subsection \<open>Taking chunks for sending\<close>

lemma outbound_same: "a_outbound_queue a = q \<Longrightarrow> a\<lparr>a_outbound_queue := q\<rparr> = a"
  by (rule Association.equality) simp_all

lemma expire_nothing:
  assumes "fragments_left False rest" "a_outbound_queue a = sending_queue u rest [] False" "a_use_forward_tsn a"
  shows "expire_inflight_messages now a = (Ok (), a\<lparr>a_outbound_queue := sending_queue 1 rest [] False\<rparr>)"
proof -
  have "OutboundQueue_expired_inflight (sending_queue 1 rest [] False) now = []"
    by (simp add: OutboundQueue_expired_inflight_def sending_queue_def flight_of_def PayloadQueue_new_def)
  then show ?thesis
    using assms by (simp add: expire_inflight_messages_def start_timed_none [OF assms(1)] expire_tail_first Let_def)
qed

lemma pop_all_pending:
  assumes "fragments_left sel rest" "a_outbound_queue a = sending_queue 1 rest sent sel" "a_use_forward_tsn a"
    "total_len sent + total_len rest \<le> unat (a_cwnd a)" "total_len rest \<le> unat (a_rwnd a)"
  shows "pop_pending_loop (length rest + 1) now acc a = (Ok (acc @ stamped (a_my_next_tsn a) now rest),
    a\<lparr>a_rwnd := a_rwnd a - of_nat (total_len rest),
      a_outbound_queue := sending_queue 1 [] (sent @ stamped (a_my_next_tsn a) now rest) (sel \<and> rest = []),
      a_my_next_tsn := a_my_next_tsn a + of_nat (length rest)\<rparr>)"
  using assms
proof (induction rest arbitrary: a acc sent sel)
  case Nil
  then show ?case by (auto simp: expire_pending_def expire_first peek_first intro!: Association.equality)
next
  case (Cons c rest)
  let ?c = "c\<lparr>d_tsn := a_my_next_tsn a, d_since := Some now, d_nsent := 1\<rparr>"
  let ?b = "a\<lparr>a_rwnd := a_rwnd a - of_nat (dlen c), a_outbound_queue := sending_queue 1 rest (sent @ [?c]) (rest \<noteq> []),
    a_my_next_tsn := a_my_next_tsn a + 1\<rparr>"
  have "OutboundQueue_inflight_bytes (a_outbound_queue a) = total_len sent"
    using Cons.prems(2) by (simp add: OutboundQueue_inflight_bytes_def sending_queue_def PayloadQueue_get_num_bytes_def)
  then have "pop_pending_loop (length (c # rest) + 1) now acc a = pop_pending_loop (length rest + 1) now (acc @ [?c]) ?b"
    using Cons.prems send_first [OF Cons.prems(1)]
    by (simp add: expire_pending_def expire_first peek_first Let_def send_next_data_chunk_def del: fragments_left.simps)
  also have "\<dots> = (Ok ((acc @ [?c]) @ stamped (a_my_next_tsn ?b) now rest),
    ?b\<lparr>a_rwnd := a_rwnd ?b - of_nat (total_len rest),
      a_outbound_queue := sending_queue 1 [] ((sent @ [?c]) @ stamped (a_my_next_tsn ?b) now rest) (rest \<noteq> [] \<and> rest = []),
      a_my_next_tsn := a_my_next_tsn ?b + of_nat (length rest)\<rparr>)"
  proof (rule Cons.IH)
    have "unat (of_nat (dlen c) :: u32) = dlen c"
      using Cons.prems(5) unat_bound [of "a_rwnd a"] by (intro unat_of_nat_u32) simp
    then have "unat (a_rwnd a - of_nat (dlen c)) = unat (a_rwnd a) - dlen c"
      using Cons.prems(5) by (simp add: unat_sub word_le_nat_alt)
    then show "total_len rest \<le> unat (a_rwnd ?b)" using Cons.prems(5) by simp
  qed (use Cons.prems in \<open>cases rest; auto\<close>)+
  finally show ?case by (simp add: algebra_simps)
qed

subsection \<open>Bundling\<close>

lemma bundle_loop_data:
  assumes "\<forall>c \<in> set cs. dlen c + 28 \<le> unat (a_mtu a)" "unat (a_mtu a) < 100000"
    "unat n \<le> unat (a_mtu a) + 16" "unat n = counted_bytes pre"
  shows "\<exists>css. bundle_loop a cs ps (map CPayloadData pre) n = Ok (ps @ map (data_packet a) css) \<and>
    concat css = pre @ cs \<and> [] \<notin> set css \<and> (\<forall>cs \<in> set css. counted_bytes cs \<le> unat (a_mtu a) + 16) \<and>
    filled (unat (a_mtu a)) css"
  using assms
proof (induction cs arbitrary: ps pre n)
  case Nil
  then show ?case by (intro exI [of _ "if pre = [] then [] else [pre]"]) (simp add: data_packet_def)
next
  case (Cons c cs)
  have small: "dlen c + 28 \<le> unat (a_mtu a)" using Cons.prems(1) by simp
  then have d: "unat (of_nat (dlen c) :: u32) = dlen c" using Cons.prems(2) by (intro unat_of_nat_u32) simp
  have need: "u32_add n (of_nat (dlen c)) = Ok (n + of_nat (dlen c))" "unat (n + of_nat (dlen c)) = unat n + dlen c"
    using Cons.prems(2,3) small d by (auto simp: u32_add_ok unat_word_ariths)
  have chunk: "u32_add DATA_CHUNK_HEADER_SIZE (of_nat (dlen c)) = Ok (16 + of_nat (dlen c))" "unat (16 + of_nat (dlen c) :: u32) = 16 + dlen c"
    using Cons.prems(2) small d by (auto simp: u32_add_ok DATA_CHUNK_HEADER_SIZE_def unat_word_ariths)
  show ?case
  proof (cases "n + of_nat (dlen c) > a_mtu a")
    case True
    then have "pre \<noteq> []"
      using Cons.prems(4) need(2) small by (auto simp: word_less_nat_alt counted_bytes_def)
    have "\<exists>css. bundle_loop a cs (ps @ [data_packet a pre]) (map CPayloadData [c]) (12 + (16 + of_nat (dlen c))) =
        Ok ((ps @ [data_packet a pre]) @ map (data_packet a) css) \<and> concat css = [c] @ cs \<and> [] \<notin> set css \<and>
        (\<forall>cs \<in> set css. counted_bytes cs \<le> unat (a_mtu a) + 16) \<and> filled (unat (a_mtu a)) css"
      by (rule Cons.IH) (use Cons.prems small d in \<open>auto simp: unat_word_ariths counted_bytes_def\<close>)
    then obtain css where css: "bundle_loop a cs (ps @ [data_packet a pre]) (map CPayloadData [c]) (12 + (16 + of_nat (dlen c))) =
        Ok ((ps @ [data_packet a pre]) @ map (data_packet a) css)" "concat css = [c] @ cs" "[] \<notin> set css"
        "\<forall>cs \<in> set css. counted_bytes cs \<le> unat (a_mtu a) + 16" "filled (unat (a_mtu a)) css" by blast
    obtain d ds css' where css': "css = (d # ds) # css'"
      using css(2,3) by (cases css; cases "hd css") auto
    then have "d = c" using css(2) by simp
    moreover have "unat (a_mtu a) < counted_bytes pre + dlen c"
      using True need(2) Cons.prems(4) by (simp add: word_less_nat_alt)
    ultimately have "filled (unat (a_mtu a)) (pre # css)" using css(5) css' by simp
    have "u32_add COMMON_HEADER_SIZE (16 + of_nat (dlen c)) = Ok (12 + (16 + of_nat (dlen c)))"
      using Cons.prems(2) small chunk(2) by (simp add: COMMON_HEADER_SIZE_def u32_add_ok)
    with \<open>filled (unat (a_mtu a)) (pre # css)\<close> show ?thesis
      using True css \<open>pre \<noteq> []\<close> need chunk Cons.prems(3,4)
      by (intro exI [of _ "pre # css"]) (simp add: data_packet_def)
  next
    case False
    have n: "unat (n + (16 + of_nat (dlen c))) = unat n + 16 + dlen c"
      using Cons.prems(2,3) small chunk(2) by (simp add: unat_word_ariths)
    have "\<exists>css. bundle_loop a cs ps (map CPayloadData (pre @ [c])) (n + (16 + of_nat (dlen c))) =
        Ok (ps @ map (data_packet a) css) \<and> concat css = (pre @ [c]) @ cs \<and> [] \<notin> set css \<and>
        (\<forall>cs \<in> set css. counted_bytes cs \<le> unat (a_mtu a) + 16) \<and> filled (unat (a_mtu a)) css"
      by (rule Cons.IH) (use Cons.prems False n need(2) in \<open>auto simp: word_less_nat_alt counted_bytes_def\<close>)
    moreover have "u32_add n (16 + of_nat (dlen c)) = Ok (n + (16 + of_nat (dlen c)))"
      using Cons.prems(2,3) small chunk(2) by (simp add: u32_add_ok)
    ultimately show ?thesis using False need chunk by simp
  qed
qed

lemma bundle_data:
  assumes "\<forall>c \<in> set cs. dlen c + 28 \<le> unat (a_mtu a)" "unat (a_mtu a) < 100000" "12 \<le> unat (a_mtu a)"
  obtains css where "bundle_data_chunks_into_packets a cs = Ok (map (data_packet a) css)" "concat css = cs" "[] \<notin> set css"
    "\<forall>cs \<in> set css. counted_bytes cs \<le> unat (a_mtu a) + 16" "filled (unat (a_mtu a)) css"
  using bundle_loop_data [OF assms(1,2), of 12 "[]" "[]"] assms(3)
  by (auto simp: bundle_data_chunks_into_packets_def COMMON_HEADER_SIZE_def counted_bytes_def)

lemma data_packet_length:
  assumes "\<forall>c \<in> set cs. dlen c < 65500"
  shows "\<exists>b. Packet_marshal crc (data_packet a cs) = Ok b \<and>
    length b = 12 + (\<Sum>c \<leftarrow> cs. 16 + dlen c + get_padding_size (dlen c))"
proof -
  have "\<forall>c \<in> set (pk_chunks (data_packet a cs)). Chunk_wf c"
    using assms
    by (auto simp: data_packet_def create_packet_def ChunkPayloadData_value_length_def PAYLOAD_DATA_HEADER_SIZE_def)
  moreover have "get_padding_size (12 + n) = get_padding_size n" for n
    using get_padding_size_add4 [of n 3] by (simp add: add.commute)
  ultimately show ?thesis
    using Packet_marshal_length [of "data_packet a cs" crc]
    by (simp add: data_packet_def create_packet_def ChunkPayloadData_value_length_def PAYLOAD_DATA_HEADER_SIZE_def
        comp_def)
qed

lemma bundle_two:
  assumes "concat css = [c, d]" "[] \<notin> set css" "filled mtu css" "counted_bytes [c] + dlen d \<le> mtu"
  shows "css = [[c, d]]"
proof -
  obtain e es css' where css: "css = (e # es) # css'" using assms(1,2) by (cases css; cases "hd css") auto
  show ?thesis
  proof (cases es)
    case Nil
    then obtain ds css'' where "css' = (d # ds) # css''"
      using css assms(1,2) by (cases css'; cases "hd css'") auto
    then show ?thesis using Nil css assms(1,3,4) by simp
  next
    case (Cons f fs)
    then show ?thesis using css assms(1,2) by (cases css') auto
  qed
qed

lemma marshal_data_packets:
  assumes "\<forall>cs \<in> set css. \<forall>c \<in> set cs. dlen c < 65500"
  shows "\<exists>bs. push_all_marshalled crc raws (map (data_packet a) css) = Ok (raws @ bs) \<and>
    list_all2 (\<lambda>cs b. Packet_marshal crc (data_packet a cs) = Ok b) css bs"
  using assms
proof (induction css arbitrary: raws)
  case (Cons cs css)
  have "\<forall>c \<in> set (pk_chunks (data_packet a cs)). Chunk_wf c"
    using Cons.prems
    by (auto simp: data_packet_def create_packet_def ChunkPayloadData_value_length_def PAYLOAD_DATA_HEADER_SIZE_def)
  from Packet_marshal_bytes [OF this, of crc] obtain b where b: "Packet_marshal crc (data_packet a cs) = Ok b" by blast
  obtain bs where bs: "push_all_marshalled crc (raws @ [b]) (map (data_packet a) css) = Ok ((raws @ [b]) @ bs)"
    "list_all2 (\<lambda>cs b. Packet_marshal crc (data_packet a cs) = Ok b) css bs"
    using Cons.IH [of "raws @ [b]"] Cons.prems by auto
  show ?case by (intro exI [of _ "b # bs"]) (use b bs in \<open>simp add: push_marshalled_def\<close>)
qed simp

subsection \<open>Transmitting the message\<close>

lemma stamped_nth:
  "length (stamped t now cs) = length cs"
  "i < length cs \<Longrightarrow> stamped t now cs ! i = (cs ! i)\<lparr>d_tsn := t + of_nat i, d_since := Some now, d_nsent := 1\<rparr>"
proof (induction cs arbitrary: t i)
  case (Cons c cs)
  { case 1 show ?case using Cons.IH(1) by simp }
  { case 2 then show ?case using Cons.IH(2) [of "i - 1" "t + 1"] by (cases i) (auto simp: add_ac) }
qed auto

lemma stamped_dlen: "d \<in> set (stamped t now cs) \<Longrightarrow> \<exists>c \<in> set cs. dlen d = dlen c"
  by (induction cs arbitrary: t) auto

lemma no_retransmission:
  assumes "fragments_left False cs" "a_outbound_queue a = sending_queue u cs [] False" "a_use_forward_tsn a"
  shows "gather_data_packets_to_retransmit crc raws now a = (Ok raws, a\<lparr>a_outbound_queue := sending_queue 1 cs [] False\<rparr>)"
  by (simp add: gather_data_packets_to_retransmit_def get_data_packets_to_retransmit_def expire_nothing [OF assms]
      retransmit_loop.simps OutboundQueue_get_def sending_queue_def flight_of_def PayloadQueue_get_def PayloadQueue_new_def
      bundle_data_chunks_into_packets_def)

lemma flight_get: "PayloadQueue_get (flight_of sent) t = Some c \<Longrightarrow> c \<in> set sent"
proof (induction sent rule: rev_induct)
  case (snoc d sent)
  then show ?case
    by (auto simp flip: flight_snoc simp: PayloadQueue_get_def PayloadQueue_push_no_check_def
        PayloadQueue_update_sorted_keys_def update_conv' split: if_splits)
qed (simp add: flight_of_def PayloadQueue_get_def PayloadQueue_new_def)

lemma not_abandoned_flight:
  "\<forall>c \<in> set sent. \<not> d_abandoned c \<Longrightarrow> \<not> OutboundQueue_is_abandoned (sending_queue u rest sent sel) t"
  using flight_get [of sent t] by (auto simp: OutboundQueue_is_abandoned_def sending_queue_def split: option.split)

lemma no_forward_tsn:
  assumes "\<not> OutboundQueue_is_abandoned (a_outbound_queue a) (a_cumulative_tsn_ack_point a + 1)"
    "a_advanced_peer_tsn_ack_point a = a_cumulative_tsn_ack_point a" "\<not> a_will_send_forward_tsn a"
  shows "gather_outbound_forward_tsn_packets crc raws a = (Ok raws, a)"
proof -
  have "advance_over_abandoned n (a_outbound_queue a) (a_cumulative_tsn_ack_point a) = a_cumulative_tsn_ack_point a" for n
    using assms(1) by (cases n) auto
  then have "advance_peer_tsn_ack_point a = a" using assms(2) by (simp add: advance_peer_tsn_ack_point_def advanced_point_same)
  then show ?thesis using assms by (simp add: gather_outbound_forward_tsn_packets_def sna32gt_not_lte sna32lte_def)
qed

lemma stamped_not_abandoned: "fragments_left sel cs \<Longrightarrow> d \<in> set (stamped t now cs) \<Longrightarrow> \<not> d_abandoned d"
  by (induction cs arbitrary: t sel) auto

text \<open>The new DATA packets.\<close>

lemma gather_message:
  assumes cs: "fragments_left False cs" "cs \<noteq> []" "\<forall>c \<in> set cs. dlen c \<le> unat (a_max_payload_size a)"
      "total_len cs \<le> unat (a_cwnd a)" "total_len cs \<le> unat (a_rwnd a)"
    and a: "a_outbound_queue a = sending_queue 1 cs [] False" "a_use_forward_tsn a"
      "sized (a_mtu a) (a_max_payload_size a) (a_cwnd a)" "\<not> a_will_retransmit_reconfig a"
      "a_pending_reset_streams a = []" "a_active_reconfig a = None"
  obtains css bs tt where "gather_outbound_data_and_reconfig_packets crc [] now a =
      (Ok bs, a\<lparr>a_rwnd := a_rwnd a - of_nat (total_len cs),
        a_outbound_queue := sending_queue 1 [] (stamped (a_my_next_tsn a) now cs) False,
        a_my_next_tsn := a_my_next_tsn a + of_nat (length cs), a_timers := tt\<rparr>)"
    "concat css = stamped (a_my_next_tsn a) now cs" "[] \<notin> set css"
    "list_all2 (\<lambda>cs b. Packet_marshal crc (data_packet a cs) = Ok b) css bs"
    "tt = TimerTable_restart_if_stale (a_timers a) T3RTX now (RtoManager_get_rto (a_rto_mgr a))"
proof -
  let ?ts = "stamped (a_my_next_tsn a) now cs"
  let ?b = "a\<lparr>a_rwnd := a_rwnd a - of_nat (total_len cs), a_outbound_queue := sending_queue 1 [] ?ts False,
    a_my_next_tsn := a_my_next_tsn a + of_nat (length cs)\<rparr>"
  have ts: "?ts \<noteq> []" using cs(2) by (cases cs) auto
  have len: "OutboundQueue_pending_len (sending_queue 1 cs [] False) = length cs"
    by (simp add: OutboundQueue_pending_len_def sending_queue_def PendingQueue_len_def)
  have pop: "pop_pending_data_chunks_to_send now a = (Ok ?ts, ?b)"
    using pop_all_pending [OF cs(1) a(1,2), of now "[]"] cs(4,5) a(1) ts cs(2)
    by (simp add: pop_pending_data_chunks_to_send_def expire_nothing [OF cs(1) a(1,2)] len outbound_same
        del: pop_pending_loop.simps)
  let ?c = "restart_timer_if_stale T3RTX now ?b"
  have size: "\<forall>d \<in> set ?ts. dlen d + 28 \<le> unat (a_mtu ?c) \<and> dlen d < 65500" "unat (a_mtu ?c) < 100000" "12 \<le> unat (a_mtu ?c)"
    using a(3) cs(3) stamped_dlen
    by (fastforce simp: sized_def restart_timer_if_stale_def upd_timers_def word_less_nat_alt)+
  obtain css where css: "bundle_data_chunks_into_packets ?c ?ts = Ok (map (data_packet ?c) css)" "concat css = ?ts" "[] \<notin> set css"
    by (rule bundle_data [of ?ts ?c]) (use size in auto)
  have "\<forall>cs \<in> set css. \<forall>c \<in> set cs. dlen c < 65500" using size(1) css(2) by (metis UN_I set_concat)
  then obtain bs where bs: "push_all_marshalled crc [] (map (data_packet ?c) css) = Ok bs"
    "list_all2 (\<lambda>cs b. Packet_marshal crc (data_packet ?c cs) = Ok b) css bs"
    using marshal_data_packets [of css crc "[]" ?c] by auto
  have same: "data_packet ?c = data_packet a"
    by (simp add: fun_eq_iff data_packet_def create_packet_def restart_timer_if_stale_def upd_timers_def)
  have "gather_outbound_data_and_reconfig_packets crc [] now a = (Ok bs, ?c)"
    using a(4-6) ts css(1) bs(1)
    by (simp add: gather_outbound_data_and_reconfig_packets_def pop Let_def restart_timer_if_stale_def upd_timers_def)
  then show ?thesis
    using css(2,3) bs(2) [unfolded same]
    by (intro that [of bs _ css]) (auto simp: restart_timer_if_stale_def upd_timers_def)
qed

lemma restart_idle:
  assumes "idle_but {} tt"
  shows "idle_but {timer} (TimerTable_restart_if_stale tt timer now rto)"
    "\<exists>t. TimerTable_get (TimerTable_restart_if_stale tt timer now rto) timer = Some t"
    "tt_retrans (TimerTable_restart_if_stale tt timer now rto) = tt_retrans tt"
    "tt_max_retrans (TimerTable_restart_if_stale tt timer now rto) = tt_max_retrans tt"
  using assms by (auto simp: idle_but_def TimerTable_get_def TimerTable_restart_if_stale_def TimerTable_start_def Let_def)

lemma transmit_message:
  assumes c: "quiet c" "a_state c = Established" "a_use_forward_tsn c"
    and cs: "fragments_left False cs" "cs \<noteq> []" "\<forall>d \<in> set cs. dlen d \<le> unat (a_max_payload_size c)"
      "total_len cs \<le> unat (a_cwnd c)" "total_len cs \<le> unat (a_rwnd c)"
  obtains css bs tt where "transmitted crc now (with_message sid st cs c) =
      Some (bs, (with_message sid st cs c)\<lparr>a_rwnd := a_rwnd c - of_nat (total_len cs),
        a_outbound_queue := sending_queue 1 [] (stamped (a_my_next_tsn c) now cs) False,
        a_my_next_tsn := a_my_next_tsn c + of_nat (length cs), a_timers := tt\<rparr>)"
    "concat css = stamped (a_my_next_tsn c) now cs" "[] \<notin> set css"
    "list_all2 (\<lambda>cs b. Packet_marshal crc (data_packet c cs) = Ok b) css bs"
    "tt = TimerTable_restart_if_stale (a_timers c) T3RTX now (RtoManager_get_rto (a_rto_mgr c))"
proof -
  let ?a = "with_message sid st cs c"
  let ?b = "?a\<lparr>a_outbound_queue := sending_queue 1 cs [] False\<rparr>"
  obtain css bs tt where g: "gather_outbound_data_and_reconfig_packets crc [] now ?b =
      (Ok bs, ?b\<lparr>a_rwnd := a_rwnd ?b - of_nat (total_len cs),
        a_outbound_queue := sending_queue 1 [] (stamped (a_my_next_tsn ?b) now cs) False,
        a_my_next_tsn := a_my_next_tsn ?b + of_nat (length cs), a_timers := tt\<rparr>)" (is "_ = (_, ?d)")
    "concat css = stamped (a_my_next_tsn ?b) now cs" "[] \<notin> set css"
    "list_all2 (\<lambda>cs b. Packet_marshal crc (data_packet ?b cs) = Ok b) css bs"
    "tt = TimerTable_restart_if_stale (a_timers ?b) T3RTX now (RtoManager_get_rto (a_rto_mgr ?b))"
    by (rule gather_message [of cs ?b crc now]) (use c cs in \<open>auto simp: with_message_def quiet_def\<close>)
  have ts: "stamped (a_my_next_tsn ?b) now cs \<noteq> []" using cs(2) by (cases cs) auto
  have ne: "bs \<noteq> []" using ts g(2,4) by auto
  have fast: "gather_outbound_fast_retransmission_packets crc raws now ?b = (Ok raws, ?b)" for raws
    using c by (simp add: gather_outbound_fast_retransmission_packets_def with_message_def quiet_def
        expire_nothing [OF cs(1)])
  have "gather_outbound_forward_tsn_packets crc bs ?d = (Ok bs, ?d)"
    by (rule no_forward_tsn)
      (use c stamped_not_abandoned [OF cs(1)] in \<open>auto simp: not_abandoned_flight with_message_def quiet_def\<close>)
  then have "transmitted crc now ?a = Some (bs, ?d)"
    using c ne g(1) fast
    by (simp add: transmitted_def poll_transmit_def gather_outbound_def no_retransmission [OF cs(1)] with_message_def quiet_def
        control_empty quiet_sack)
  moreover have "data_packet ?b = data_packet c" by (simp add: fun_eq_iff data_packet_def create_packet_def with_message_def)
  ultimately show ?thesis using g(2-5) by (intro that [of bs tt css]) (auto simp: with_message_def)
qed

subsection \<open>Writing the message\<close>

lemma fragments_left_indexed:
  assumes "\<forall>k < length cs. (d_beginning_fragment (cs ! k) \<longleftrightarrow> k = 0 \<and> \<not> sel) \<and> (d_ending_fragment (cs ! k) \<longleftrightarrow> k = length cs - 1)"
    "\<forall>c \<in> set cs. \<not> d_unordered c \<and> \<not> d_abandoned c \<and> d_deadline c = None \<and> d_reliability c = Some (Reliable, 0)"
  shows "fragments_left sel cs"
  using assms
proof (induction cs arbitrary: sel)
  case (Cons c cs)
  have "fragments_left True cs"
  proof (rule Cons.IH)
    show "\<forall>k < length cs. (d_beginning_fragment (cs ! k) \<longleftrightarrow> k = 0 \<and> \<not> True) \<and> (d_ending_fragment (cs ! k) \<longleftrightarrow> k = length cs - 1)"
      using Cons.prems(1) [THEN spec, of "Suc _"] by fastforce
  qed (use Cons.prems(2) in simp)
  moreover have "d_beginning_fragment c \<longleftrightarrow> \<not> sel" "d_ending_fragment c \<longleftrightarrow> cs = []"
    using Cons.prems(1) [THEN spec, of 0] by auto
  ultimately show ?case using Cons.prems(2) by simp
qed simp

lemma push_message:
  assumes "cs \<noteq> []" "\<forall>c \<in> set cs. \<not> d_unordered c"
  shows "OutboundQueue_push OutboundQueue_default cs = Ok (sending_queue 0 (map (\<lambda>c. c\<lparr>d_message_id := 0\<rparr>) cs) [] False)"
proof -
  let ?cs = "map (\<lambda>c. c\<lparr>d_message_id := 0 :: u64\<rparr>) cs"
  have "filter d_unordered ?cs = []" "filter (\<lambda>c. \<not> d_unordered c) ?cs = ?cs"
    using assms(2) by (auto simp: filter_empty_conv filter_id_conv)
  then have "fold (\<lambda>c p. PendingQueue_push p c) ?cs PendingQueue_new = oq_pending (sending_queue 0 ?cs [] False)"
    by (intro PendingQueue.equality) (simp_all add: fold_push_fields sending_queue_def PendingQueue_new_def)
  then show ?thesis
    using assms(1)
    by (simp add: OutboundQueue_push_def OutboundQueue_default_def u64_checked_add_def sending_queue_def flight_of_def
        fold_push_map [of "\<lambda>c. c\<lparr>d_message_id := 0\<rparr>"])
qed

lemma packetize_fresh:
  assumes "ss_max_payload_size s \<noteq> 0" "ss_sequence_number s = 0" "\<not> ss_unordered s" "ss_reliability_type s = Reliable"
    "ss_reliability_value s = 0" "ss_buffered_amount s = 0" "length data < ss_buffered_amount_high s" "data \<noteq> []"
  obtains cs where "packetize s data ppi = Some ((False, cs), s\<lparr>ss_sequence_number := 1, ss_buffered_amount := length data\<rparr>)"
    "cs \<noteq> []" "\<forall>c \<in> set cs. \<not> d_unordered c" "message_chunks (ss_stream_identifier s) ppi (ss_max_payload_size s) data
      (map (\<lambda>c. c\<lparr>d_reliability := Some (Reliable, 0), d_message_id := 0\<rparr>) cs)"
proof -
  obtain high cs s' where p: "packetize s data ppi = Some ((high, cs), s')" "packets_of s data ppi False cs"
    using packetize_packets_of [OF assms(1), of data ppi] assms(3) by auto
  have "s' = s\<lparr>ss_sequence_number := 1, ss_buffered_amount := length data\<rparr>" "\<not> high"
    using packetize_Some [OF p(1)] assms by simp_all
  moreover have ne: "cs \<noteq> []" using p(2) assms(8) by (auto simp: packets_of_def)
  moreover have "message_chunks (ss_stream_identifier s) ppi (ss_max_payload_size s) data
      (map (\<lambda>c. c\<lparr>d_reliability := Some (Reliable, 0), d_message_id := 0\<rparr>) cs)"
    using p(2) assms(2) ne
    by (auto simp: message_chunks_def packets_of_def comp_def intro!: fragments_left_indexed)
  moreover have "\<forall>c \<in> set cs. \<not> d_unordered c" using p(2) by (simp add: packets_of_def)
  ultimately show ?thesis using p(1) that by simp
qed

lemma opened_stream_fields [simp]:
  "ss_max_payload_size (opened_stream sid ppi c) = a_max_payload_size c"
  "ss_stream_identifier (opened_stream sid ppi c) = sid" "ss_default_payload_type (opened_stream sid ppi c) = ppi"
  "ss_sequence_number (opened_stream sid ppi c) = 0" "ss_state (opened_stream sid ppi c) = RS_ReadWritable"
  "\<not> ss_unordered (opened_stream sid ppi c)" "ss_reliability_type (opened_stream sid ppi c) = Reliable"
  "ss_reliability_value (opened_stream sid ppi c) = 0" "ss_buffered_amount (opened_stream sid ppi c) = 0"
  "ss_first_message_id (opened_stream sid ppi c) = 0"
  "ss_buffered_amount_low (opened_stream sid ppi c) = 0" "ss_buffered_amount_high (opened_stream sid ppi c) = 2 ^ 64 - 1"
  by (simp_all add: opened_stream_def StreamState_new_def Let_def)

text \<open>The first stream of a quiet association.\<close>

lemma open_first_stream:
  assumes "quiet c"
  shows "open_stream sid ppi c = (Ok sid, c\<lparr>a_next_stream_generation := 1, a_streams := [(sid, opened_stream sid ppi c)]\<rparr>)"
    "\<not> stream_reset_blocked (c\<lparr>a_next_stream_generation := 1, a_streams := [(sid, opened_stream sid ppi c)]\<rparr>) sid"
proof -
  let ?c1 = "c\<lparr>a_next_stream_generation := 1, a_streams := [(sid, opened_stream sid ppi c)]\<rparr>"
  have "\<not> stream_reset_blocked c sid"
    using assms by (simp add: quiet_def stream_reset_blocked_def PRC_contains_def contains_key_iff
        stream_reset_in_progress_def has_pending_reset_for_stream_def)
  then show "open_stream sid ppi c = (Ok sid, ?c1)"
    using assms
    by (simp add: quiet_def open_stream_def contains_key_iff create_stream_def u64_checked_add_def Let_def
        OutboundQueue_next_message_id_def OutboundQueue_default_def opened_stream_def)
  show "\<not> stream_reset_blocked ?c1 sid"
    using assms by (simp add: quiet_def stream_reset_blocked_def PRC_contains_def contains_key_iff
        stream_reset_in_progress_def has_pending_reset_for_stream_def)
qed

lemma write_message:
  assumes c: "quiet c" "a_state c = Established" and d: "data \<noteq> []" "length data \<le> unat (a_max_send_message_size c)"
  obtains c1 st cs where "open_stream sid ppi c = (Ok sid, c1)"
    "Stream_write sid data c1 = (Ok (length data), with_message sid st cs c)" "cs \<noteq> []"
    "message_chunks sid ppi (a_max_payload_size c) data cs" "ss_buffered_amount st = length data"
    "ss_first_message_id st = 0" "ss_buffered_amount_low st = 0"
proof -
  let ?s = "opened_stream sid ppi c"
  let ?c1 = "c\<lparr>a_next_stream_generation := 1, a_streams := [(sid, ?s)]\<rparr>"
  note opn = open_first_stream(1) [OF c(1), of sid ppi] and free = open_first_stream(2) [OF c(1), of sid ppi]
  have "length data < 2 ^ 32" using d(2) unat_bound [of "a_max_send_message_size c"] by simp
  moreover have "a_max_payload_size c \<noteq> 0" using c(1) by (simp add: quiet_def sized_def word_gt_0)
  ultimately obtain cs where p: "packetize ?s data ppi = Some ((False, cs), ?s\<lparr>ss_sequence_number := 1, ss_buffered_amount := length data\<rparr>)"
    "cs \<noteq> []" "\<forall>c \<in> set cs. \<not> d_unordered c" "message_chunks sid ppi (a_max_payload_size c) data
      (map (\<lambda>c. c\<lparr>d_reliability := Some (Reliable, 0), d_message_id := 0\<rparr>) cs)"
    by (rule_tac packetize_fresh [of ?s data ppi]) (use d(1) in auto)
  let ?cs = "map (\<lambda>c. c\<lparr>d_reliability := Some (Reliable, 0)\<rparr>) cs"
  have push: "OutboundQueue_push OutboundQueue_default ?cs =
      Ok (sending_queue 0 (map (\<lambda>c. c\<lparr>d_message_id := 0\<rparr>) ?cs) [] False)"
    by (rule push_message) (use p(2,3) in auto)
  let ?st = "?s\<lparr>ss_sequence_number := 1, ss_buffered_amount := length data\<rparr>"
  let ?st = "?st\<lparr>ss_stats := DataChannelStats_sent (ss_stats ?st) ppi (length data)\<rparr>"
  have "ByteSlice_remaining data = length data" "fst (fst (ByteSlice_pop_chunk data (unat (a_max_send_message_size c)))) = data"
    using d by (auto simp: ByteSlice_remaining_def ByteSlice_pop_chunk_def Let_def min_def)
  then have "Stream_write sid data ?c1 = (Ok (length data), with_message sid ?st (map (\<lambda>c. c\<lparr>d_message_id := 0\<rparr>) ?cs) c)"
    using c d free p(1,2) push
    by (simp add: Stream_write_def get_default_payload_type_def alift_def write_with_ppi_def write_source_def is_writable_def
        upd_stream_def send_payload_data_def quiet_def Let_def with_message_def)
  then show ?thesis using opn p(2,4) by (intro that [of ?c1 ?st]) (auto simp: comp_def)
qed

subsection \<open>The transfer\<close>

lemma fragments_left_nth:
  "fragments_left sel cs \<Longrightarrow> i < length cs \<Longrightarrow>
    (d_beginning_fragment (cs ! i) \<longleftrightarrow> i = 0 \<and> \<not> sel) \<and> (d_ending_fragment (cs ! i) \<longleftrightarrow> i = length cs - 1)"
proof (induction cs arbitrary: i sel)
  case (Cons c cs)
  then show ?case by (cases i) (auto simp: less_Suc_eq_0_disj)
qed simp

lemma fragments_left_ordered: "fragments_left sel cs \<Longrightarrow> \<forall>c \<in> set cs. \<not> d_unordered c"
  by (induction cs arbitrary: sel) auto

lemma length_le_total: "\<forall>c \<in> set cs. 0 < dlen c \<Longrightarrow> length cs \<le> total_len cs"
proof (induction cs)
  case (Cons c cs)
  then have "length cs \<le> total_len cs" "0 < dlen c" by auto
  then have "Suc (length cs) \<le> dlen c + total_len cs" by linarith
  then show ?case by simp
qed simp

lemma message_on_wire:
  assumes m: "message_chunks sid ppi mps data cs" "length data < 2 ^ 31"
  shows "message_run t sid ppi (map wire_view (stamped t now cs))"
    "concat (map d_user_data (map wire_view (stamped t now cs))) = data"
proof -
  have set: "\<exists>c \<in> set cs. d = c\<lparr>d_tsn := d_tsn d, d_since := Some now, d_nsent := 1\<rparr>" if "d \<in> set (stamped t now cs)" for d
    using that by (fastforce simp: in_set_conv_nth stamped_nth)
  have "length cs \<le> total_len cs" by (rule length_le_total) (use m in \<open>auto simp: message_chunks_def\<close>)
  then have len: "length cs < 2 ^ 31" using m by (simp add: message_chunks_def total_len_concat)
  have frag: "fragments_left False cs" using m by (simp add: message_chunks_def)
  show "message_run t sid ppi (map wire_view (stamped t now cs))"
    unfolding message_run_def
  proof (intro conjI allI impI ballI)
    fix i assume "i < length (map wire_view (stamped t now cs))"
    then have "i < length cs" by (simp add: stamped_nth)
    then show "d_tsn (map wire_view (stamped t now cs) ! i) = t + of_nat i"
      "d_beginning_fragment (map wire_view (stamped t now cs) ! i) = (i = 0)"
      "d_ending_fragment (map wire_view (stamped t now cs) ! i) = (i = length (map wire_view (stamped t now cs)) - 1)"
      using fragments_left_nth [OF frag] by (simp_all add: stamped_nth wire_view_def)
  next
    fix w assume "w \<in> set (map wire_view (stamped t now cs))"
    then obtain d where "d \<in> set (stamped t now cs)" "w = wire_view d" by auto
    with set obtain c where "c \<in> set cs" "w = wire_view (c\<lparr>d_tsn := d_tsn d, d_since := Some now, d_nsent := 1\<rparr>)" by metis
    then show "d_stream_identifier w = sid" "d_stream_sequence_number w = 0" "d_payload_type w = ppi" "\<not> d_unordered w"
      "0 < dlen w"
      using m fragments_left_ordered [OF frag] by (auto simp: wire_view_def message_chunks_def)
  qed (use len in \<open>simp add: stamped_nth\<close>)
  have "map d_user_data (map wire_view (stamped t now cs)) = map d_user_data cs"
    by (rule nth_equalityI) (auto simp: stamped_nth wire_view_def)
  then show "concat (map d_user_data (map wire_view (stamped t now cs))) = data" using m by (simp add: message_chunks_def)
qed

lemma Chunks_read_loop_fills:
  "n \<le> length buf \<Longrightarrow> n + total_len cs \<le> length buf \<Longrightarrow>
    Chunks_read_loop cs buf n = (Ok (n + total_len cs), take n buf @ concat (map d_user_data cs) @ drop (n + total_len cs) buf)"
proof (induction cs arbitrary: n buf)
  case (Cons c cs)
  let ?buf = "take n buf @ d_user_data c @ drop (n + dlen c) buf"
  have "Chunks_read_loop (c # cs) buf n = Chunks_read_loop cs ?buf (n + dlen c)"
    using Cons.prems by (simp add: usize_sub_def Let_def)
  also have "\<dots> = (Ok (n + dlen c + total_len cs), take (n + dlen c) ?buf @ concat (map d_user_data cs) @
      drop (n + dlen c + total_len cs) ?buf)"
    by (rule Cons.IH) (use Cons.prems in auto)
  finally show ?case using Cons.prems by (simp add: Let_def ac_simps)
qed simp

text \<open>The application takes the message out.\<close>

lemma holding_taken:
  assumes h: "holding sid ppi ws s s1" "message_run t sid ppi ws" "ws \<noteq> []" "concat (map d_user_data ws) = data"
  obtains s2 s3 m where "accept_stream s1 = (Some sid, s2)" "read_sctp sid s2 = (Ok (Some m), s3)" "ck_ppi m = ppi"
    "Chunks_read m (replicate (length data) 0) = (Ok (length data), data)"
proof -
  obtain s3 where r: "read_sctp sid (s1\<lparr>a_stream_queue := []\<rparr>) = (Ok (Some (Chunks_new 0 ppi ws)), s3)"
    using holding_read [OF h(1-3)] by blast
  have "Chunks_read (Chunks_new 0 ppi ws) (replicate (length data) 0) = (Ok (length data), data)"
    using Chunks_read_loop_fills [of 0 "replicate (length data) 0" ws] h(4)
    by (simp add: Chunks_read_def Chunks_new_def total_len_concat)
  then show ?thesis by (intro that [OF holding_accept [OF h(1)] r]) (simp_all add: Chunks_new_def)
qed

text \<open>The packets of a message reach an association that waits for its TSNs.\<close>

lemma message_arrives:
  assumes c: "a_source_port c \<noteq> 0" "a_destination_port c \<noteq> 0" "a_peer_verification_tag c = a_my_verification_tag s"
    and s: "quiet s" "routed sk s se" "idle_but {} (a_timers s)"
    and ws: "message_run (a_peer_last_tsn s + 1) sid ppi (map wire_view ts)" "ts \<noteq> []" "\<forall>d \<in> set ts. dlen d < 65500"
      "total_len ts \<le> unat (a_max_receive_message_size s)" "total_len ts \<le> unat (a_max_receive_buffer_size s)"
    and t: "concat css = ts" "[] \<notin> set css" "list_all2 (\<lambda>cs b. Packet_marshal crc (data_packet c cs) = Ok b) css bs"
  obtains s1 where "deliver_all crc cookie now from_addr bs sk se s = Some s1" "holding sid ppi (map wire_view ts) s s1" "acking now s1"
proof -
  have start: "receiving sid ppi (take 0 (map wire_view ts)) s s"
    using s(1,3) by (simp add: receiving_def in_sequence_def quiet_def idle_but_def)
  have small: "\<forall>d \<in> set (map wire_view ts). dlen d < 65500" using ws(3) by (simp add: wire_view_def)
  have size: "total_len (map wire_view ts) = total_len ts" by (simp add: total_len_def comp_def wire_view_def)
  have "css \<noteq> []" using t(1) ws(2) by auto
  then obtain s1 where "deliver_all crc cookie now from_addr bs sk se s = Some s1"
    "receiving sid ppi (map wire_view ts) s s1" "acking now s1"
    using data_packets_arrive [OF ws(1) _ _ c s(2) small t(3,2) _ start,
        where cookie = cookie and now = now and from_addr = from_addr] size ws(4,5) t(1) by auto
  then show ?thesis using that ws(2) by (simp add: receiving_def)
qed

text \<open>What a transfer makes of the two associations.\<close>

lemma transfer_message:
  assumes p: "established_pair (ck, c, ce) (sk, s, se)"
    and d: "data \<noteq> []" "length data < 2 ^ 31" "length data \<le> unat (a_max_send_message_size c)"
      "length data \<le> unat (a_cwnd c)" "length data \<le> unat (a_rwnd c)" "length data \<le> unat (a_max_receive_message_size s)"
  obtains c1 st cs tt s1 where "open_stream sid ppi c = (Ok sid, c1)"
    "Stream_write sid data c1 = (Ok (length data), with_message sid st cs c)"
    "leg crc cookie now (with_message sid st cs c) sk se s =
      Some ((with_message sid st cs c)\<lparr>a_rwnd := a_rwnd c - of_nat (total_len cs),
        a_outbound_queue := sending_queue 1 [] (stamped (a_my_next_tsn c) now cs) False,
        a_my_next_tsn := a_my_next_tsn c + of_nat (length cs), a_timers := tt\<rparr>, s1)"
    "holding sid ppi (map wire_view (stamped (a_my_next_tsn c) now cs)) s s1" "acking now s1" "cs \<noteq> []"
    "message_chunks sid ppi (a_max_payload_size c) data cs" "ss_buffered_amount st = length data"
    "ss_first_message_id st = 0" "ss_buffered_amount_low st = 0" "idle_but {T3RTX} tt"
proof -
  have c: "quiet c" "a_state c = Established" "a_use_forward_tsn c" "a_source_port c \<noteq> 0" "a_destination_port c \<noteq> 0"
      "a_peer_verification_tag c = a_my_verification_tag s" "a_rwnd c = a_max_receive_buffer_size s"
    and s: "quiet s" "routed sk s se" "a_peer_last_tsn s + 1 = a_my_next_tsn c" "idle_but {} (a_timers s)"
    using p by (auto simp: established_pair_def knows_def)
  obtain c1 st cs where w: "open_stream sid ppi c = (Ok sid, c1)"
    "Stream_write sid data c1 = (Ok (length data), with_message sid st cs c)" "cs \<noteq> []"
    "message_chunks sid ppi (a_max_payload_size c) data cs" "ss_buffered_amount st = length data"
    "ss_first_message_id st = 0" "ss_buffered_amount_low st = 0"
    using write_message [OF c(1,2) d(1,3)] by blast
  let ?ts = "stamped (a_my_next_tsn c) now cs"
  let ?ws = "map wire_view ?ts"
  have total: "total_len cs = length data" using w(4) by (simp add: message_chunks_def total_len_concat)
  obtain css bs tt where t: "transmitted crc now (with_message sid st cs c) =
      Some (bs, (with_message sid st cs c)\<lparr>a_rwnd := a_rwnd c - of_nat (total_len cs),
        a_outbound_queue := sending_queue 1 [] ?ts False,
        a_my_next_tsn := a_my_next_tsn c + of_nat (length cs), a_timers := tt\<rparr>)"
    "concat css = ?ts" "[] \<notin> set css" "list_all2 (\<lambda>cs b. Packet_marshal crc (data_packet c cs) = Ok b) css bs"
    "tt = TimerTable_restart_if_stale (a_timers c) T3RTX now (RtoManager_get_rto (a_rto_mgr c))"
    by (rule transmit_message [OF c(1-3), of cs crc now sid st])
      (use w(3,4) d(4,5) total in \<open>auto simp: message_chunks_def\<close>)
  note run = message_on_wire [OF w(4) d(2), of "a_my_next_tsn c" now]
  have run1: "message_run (a_peer_last_tsn s + 1) sid ppi ?ws" using run(1) s(3) by simp
  have size: "total_len ?ts = length data" using run(2) by (simp add: total_len_concat comp_def wire_view_def)
  have "sized (a_mtu c) (a_max_payload_size c) (a_cwnd c)" using c(1) by (simp add: quiet_def)
  then have small: "\<forall>d \<in> set ?ts. dlen d < 65500"
    using w(4) stamped_dlen by (fastforce simp: message_chunks_def sized_def word_less_nat_alt)
  have ne: "?ts \<noteq> []" using w(3) by (cases cs) auto
  obtain s1 where s1: "deliver_all crc cookie now (a_remote_addr s) bs sk se s = Some s1" "holding sid ppi ?ws s s1" "acking now s1"
    by (rule message_arrives [OF c(4-6) s(1,2,4) run1 ne small _ _ t(2,3,4)]) (use size d(5,6) c(7) in simp_all)
  have "leg crc cookie now (with_message sid st cs c) sk se s =
      Some ((with_message sid st cs c)\<lparr>a_rwnd := a_rwnd c - of_nat (total_len cs),
        a_outbound_queue := sending_queue 1 [] ?ts False,
        a_my_next_tsn := a_my_next_tsn c + of_nat (length cs), a_timers := tt\<rparr>, s1)"
    by (simp add: leg_def t(1) s1(1))
  moreover have "idle_but {T3RTX} tt" using p unfolding t(5) by (intro restart_idle) (simp add: established_pair_def)
  ultimately show ?thesis using that w s1(2,3) by blast
qed

subsection \<open>Properties\<close>

text \<open>
  C2: a message is delivered. On an established pair with nothing outstanding the application opens a
  stream and writes a message that fits the congestion window, the peer's receive buffer and both message
  size limits. What the association then transmits, in one or more packets of one or more DATA chunks, is
  routed by the other endpoint and accepted there; the other application accepts the same stream, and
  reading it returns the message with its payload protocol identifier, byte for byte.
\<close>

theorem message_delivered:
  assumes p: "established_pair (ck, c, ce) (sk, s, se)"
    and d: "data \<noteq> []" "length data < 2 ^ 31" "length data \<le> unat (a_max_send_message_size c)"
      "length data \<le> unat (a_cwnd c)" "length data \<le> unat (a_rwnd c)" "length data \<le> unat (a_max_receive_message_size s)"
  shows "\<exists>c1 c2 c3 s1 s2 s3 m. open_stream sid ppi c = (Ok sid, c1) \<and> Stream_write sid data c1 = (Ok (length data), c2) \<and>
    leg crc cookie now c2 sk se s = Some (c3, s1) \<and> accept_stream s1 = (Some sid, s2) \<and>
    read_sctp sid s2 = (Ok (Some m), s3) \<and> ck_ppi m = ppi \<and>
    Chunks_read m (replicate (length data) 0) = (Ok (length data), data)"
proof -
  obtain c1 st cs c3 s1 where t: "open_stream sid ppi c = (Ok sid, c1)"
    "Stream_write sid data c1 = (Ok (length data), with_message sid st cs c)"
    "leg crc cookie now (with_message sid st cs c) sk se s = Some (c3, s1)"
    "holding sid ppi (map wire_view (stamped (a_my_next_tsn c) now cs)) s s1" "cs \<noteq> []"
    "message_chunks sid ppi (a_max_payload_size c) data cs"
    by (rule transfer_message [OF p d, of sid ppi crc cookie now])
  let ?ws = "map wire_view (stamped (a_my_next_tsn c) now cs)"
  note run = message_on_wire [OF t(6) d(2), of "a_my_next_tsn c" now]
  have "?ws \<noteq> []" using t(5) by (cases cs) auto
  then obtain s2 s3 m where r: "accept_stream s1 = (Some sid, s2)" "read_sctp sid s2 = (Ok (Some m), s3)" "ck_ppi m = ppi"
    "Chunks_read m (replicate (length data) 0) = (Ok (length data), data)"
    by (rule holding_taken [OF t(4) run(1) _ run(2)])
  show ?thesis by (intro exI conjI) (rule t(1) t(2) t(3) r)+
qed

lemma limits_quiet [simp]:
  "quiet (a\<lparr>a_max_send_message_size := n\<rparr>) = quiet a" "quiet (a\<lparr>a_max_receive_message_size := n\<rparr>) = quiet a"
  by (simp_all add: quiet_def)

text \<open>Endpoints with the default configuration connect and exchange a message; the message size limits are set low.\<close>

lemma example_pair:
  obtains ck c ce sk s se where "established_pair (ck, c, ce) (sk, s, se)" "28 \<le> unat (a_cwnd c)" "1500 \<le> unat (a_rwnd c)"
    "a_max_send_message_size c = 100" "a_max_receive_message_size s = 100"
proof -
  obtain ck c ce sk s se where e: "established_pair (ck, c, ce) (sk, s, se)"
    by (rule handshake_run [OF example_ready])
  let ?c = "set_max_send_message_size 100 c" and ?s = "set_max_receive_message_size 100 s"
  have p: "established_pair (ck, ?c, ce) (sk, ?s, se)"
    using e by (auto simp: established_pair_def knows_def routed_def set_max_send_message_size_def
        set_max_receive_message_size_def)
  then show ?thesis
    by (rule that) (use p in \<open>auto simp: established_pair_def quiet_def sized_def set_max_send_message_size_def
        set_max_receive_message_size_def word_le_nat_alt\<close>)
qed

theorem message_delivered_witness:
  "\<exists>ck c ce sk s se. established_pair (ck, c, ce) (sk, s, se) \<and> example_message \<noteq> [] \<and>
    (\<exists>c1 c2 c3 s1 s2 s3 m. open_stream 3 PPI_Binary c = (Ok 3, c1) \<and>
      Stream_write 3 example_message c1 = (Ok (length example_message), c2) \<and>
      leg (\<lambda>_. 0) [] 0 c2 sk se s = Some (c3, s1) \<and> accept_stream s1 = (Some 3, s2) \<and>
      read_sctp 3 s2 = (Ok (Some m), s3) \<and> ck_ppi m = PPI_Binary \<and>
      Chunks_read m (replicate (length example_message) 0) = (Ok (length example_message), example_message))"
proof -
  obtain ck c ce sk s se where p: "established_pair (ck, c, ce) (sk, s, se)" "28 \<le> unat (a_cwnd c)" "1500 \<le> unat (a_rwnd c)"
    "a_max_send_message_size c = 100" "a_max_receive_message_size s = 100"
    by (rule example_pair)
  have m: "example_message \<noteq> []" "length example_message < 2 ^ 31" "length example_message \<le> unat (a_max_send_message_size c)"
    "length example_message \<le> unat (a_cwnd c)" "length example_message \<le> unat (a_rwnd c)"
    "length example_message \<le> unat (a_max_receive_message_size s)"
    using p(2-5) by (simp_all add: example_message_def)
  have "established_pair (ck, c, ce) (sk, s, se) \<and> example_message \<noteq> [] \<and>
    (\<exists>c1 c2 c3 s1 s2 s3 m. open_stream 3 PPI_Binary c = (Ok 3, c1) \<and>
      Stream_write 3 example_message c1 = (Ok (length example_message), c2) \<and>
      leg (\<lambda>_. 0) [] 0 c2 sk se s = Some (c3, s1) \<and> accept_stream s1 = (Some 3, s2) \<and>
      read_sctp 3 s2 = (Ok (Some m), s3) \<and> ck_ppi m = PPI_Binary \<and>
      Chunks_read m (replicate (length example_message) 0) = (Ok (length example_message), example_message))"
    by (intro conjI p(1) m(1) message_delivered [OF p(1) m])
  then show ?thesis by (intro exI)
qed

text \<open>
  C10: bundling. Chunks that each fit a packet are put into packets in order, every chunk into exactly one, no
  packet is empty, and a packet is closed only when its counted bytes and the data of the next chunk exceed the
  MTU. Each packet can be marshalled, and its datagram has the 12 bytes of the common header and for each
  chunk a header of 16 bytes, the data and the padding to a multiple of four. It exceeds the MTU by at most
  one chunk header and the padding of its chunks, which bundling does not count. It does exceed the MTU
  whenever two chunks fit with their data and only one of their headers: they are sent in one packet.
\<close>

theorem bundling_partitions:
  assumes "\<forall>c \<in> set chunks. dlen c + 28 \<le> unat (a_mtu a)" "unat (a_mtu a) \<le> 65500" "12 \<le> unat (a_mtu a)"
  shows "\<exists>css. bundle_data_chunks_into_packets a chunks = Ok (map (\<lambda>cs. create_packet a (map CPayloadData cs)) css) \<and>
    concat css = chunks \<and> [] \<notin> set css \<and> filled (unat (a_mtu a)) css \<and>
    (\<forall>cs \<in> set css. \<exists>b. Packet_marshal crc (create_packet a (map CPayloadData cs)) = Ok b \<and>
      length b = 12 + (\<Sum>c \<leftarrow> cs. 16 + dlen c + get_padding_size (dlen c)) \<and>
      length b \<le> unat (a_mtu a) + 16 + (\<Sum>c \<leftarrow> cs. get_padding_size (dlen c))) \<and>
    (\<forall>c d. chunks = [c, d] \<and> 28 + dlen c + dlen d \<le> unat (a_mtu a) \<and> unat (a_mtu a) < 44 + dlen c + dlen d \<longrightarrow>
      (\<exists>b. css = [[c, d]] \<and> Packet_marshal crc (create_packet a [CPayloadData c, CPayloadData d]) = Ok b \<and>
        unat (a_mtu a) < length b))"
proof -
  obtain css where css: "bundle_data_chunks_into_packets a chunks = Ok (map (data_packet a) css)" "concat css = chunks"
    "[] \<notin> set css" "\<forall>cs \<in> set css. counted_bytes cs \<le> unat (a_mtu a) + 16" "filled (unat (a_mtu a)) css"
    by (rule bundle_data [OF assms(1) _ assms(3)]) (use assms(2) in auto)
  have small: "\<forall>c \<in> set chunks. dlen c < 65500" using assms(1,2) by fastforce
  have size: "\<exists>b. Packet_marshal crc (data_packet a cs) = Ok b \<and>
      length b = 12 + (\<Sum>c \<leftarrow> cs. 16 + dlen c + get_padding_size (dlen c)) \<and>
      length b \<le> unat (a_mtu a) + 16 + (\<Sum>c \<leftarrow> cs. get_padding_size (dlen c))" if "cs \<in> set css" for cs
    using data_packet_length [of cs crc a] small css(2,4) that by (fastforce simp: counted_bytes_def sum_list_addf)
  have "\<exists>b. css = [[c, d]] \<and> Packet_marshal crc (create_packet a [CPayloadData c, CPayloadData d]) = Ok b \<and>
      unat (a_mtu a) < length b"
    if two: "chunks = [c, d] \<and> 28 + dlen c + dlen d \<le> unat (a_mtu a) \<and> unat (a_mtu a) < 44 + dlen c + dlen d" for c d
  proof -
    have one: "css = [[c, d]]" by (rule bundle_two [OF _ css(3,5)]) (use css(2) two in \<open>simp_all add: counted_bytes_def\<close>)
    then show ?thesis using size [of "[c, d]"] two by (auto simp: data_packet_def)
  qed
  with css size show ?thesis
    unfolding data_packet_def [symmetric]
    by (intro exI [of _ css] conjI allI impI ballI) blast+
qed

theorem bundling_partitions_witness:
  "let a = Association_default\<lparr>a_mtu := 1228\<rparr>; c = ChunkPayloadData_default\<lparr>d_user_data := replicate 600 0\<rparr> in
    (\<forall>c \<in> set [c, c]. dlen c + 28 \<le> unat (a_mtu a)) \<and>
    bundle_data_chunks_into_packets a [c, c] = Ok [create_packet a [CPayloadData c, CPayloadData c]] \<and>
    (\<exists>b. Packet_marshal (\<lambda>_. 0) (create_packet a [CPayloadData c, CPayloadData c]) = Ok b \<and> length b = 1244)"
proof -
  let ?a = "Association_default\<lparr>a_mtu := 1228\<rparr>" and ?c = "ChunkPayloadData_default\<lparr>d_user_data := replicate 600 0\<rparr>"
  have s: "\<forall>c \<in> set [?c, ?c]. dlen c + 28 \<le> unat (a_mtu ?a)" "unat (a_mtu ?a) \<le> 65500" "12 \<le> unat (a_mtu ?a)"
    by simp_all
  obtain css where css: "bundle_data_chunks_into_packets ?a [?c, ?c] = Ok (map (\<lambda>cs. create_packet ?a (map CPayloadData cs)) css)"
    "css = [[?c, ?c]]"
    "\<forall>cs \<in> set css. \<exists>b. Packet_marshal (\<lambda>_. 0) (create_packet ?a (map CPayloadData cs)) = Ok b \<and>
      length b = 12 + (\<Sum>c \<leftarrow> cs. 16 + dlen c + get_padding_size (dlen c))"
    using bundling_partitions [OF s, of "\<lambda>_. 0"] by fastforce
  have "get_padding_size 600 = 0" by simp
  with css s(1) show ?thesis by (auto simp: Let_def)
qed

end
