(* ===== verification/Data_Acknowledgement.thy ===== *)
theory Data_Acknowledgement
  imports Data_Transfer
begin

text \<open>
  The acknowledgement of a transferred message: the receiver's timer expires, it sends a SACK, and the
  sender takes the whole message out of its flight.
\<close>

text \<open>The chunks in flight belong to the message and have been sent once.\<close>

definition first_sent :: "u16 \<Rightarrow> instant \<Rightarrow> ChunkPayloadData \<Rightarrow> bool" where
  "first_sent sid now d \<longleftrightarrow> d_stream_identifier d = sid \<and> \<not> d_acked d \<and> \<not> d_abandoned d \<and> d_nsent d = 1 \<and>
    d_message_id d = 0 \<and> d_since d = Some now"

text \<open>A sender whose flight is the one message \<open>ts\<close>, and the SACK for all of it.\<close>

definition whole_flight :: "u16 \<Rightarrow> StreamState \<Rightarrow> instant \<Rightarrow> ChunkPayloadData list \<Rightarrow> Association \<Rightarrow> bool" where
  "whole_flight sid st since ts a \<longleftrightarrow> ts \<noteq> [] \<and> length ts < 2 ^ 31 \<and> total_len ts < 2 ^ 31 \<and>
    map d_tsn ts = map (\<lambda>i. a_cumulative_tsn_ack_point a + 1 + of_nat i) [0..<length ts] \<and>
    (\<forall>d \<in> set ts. first_sent sid since d) \<and> a_outbound_queue a = sending_queue 1 [] ts False \<and>
    a_streams a = [(sid, st)] \<and> ss_first_message_id st = 0 \<and> ss_buffered_amount st = total_len ts \<and>
    ss_buffered_amount_low st = 0 \<and> 0 < total_len ts \<and>
    a_my_next_tsn a = a_cumulative_tsn_ack_point a + 1 + of_nat (length ts) \<and>
    a_min_tsn2measure_rtt a = a_cumulative_tsn_ack_point a + 1 \<and>
    a_advanced_peer_tsn_ack_point a = a_cumulative_tsn_ack_point a \<and> \<not> a_in_fast_recovery a \<and>
    RtoManager_inv (a_rto_mgr a) \<and> a_partial_bytes_acked a = 0 \<and> idle_but {T3RTX} (a_timers a) \<and>
    a_state a = Established \<and> a_use_forward_tsn a \<and> \<not> a_will_send_forward_tsn a"

definition whole_ack :: "u32 \<Rightarrow> ChunkPayloadData list \<Rightarrow> Association \<Rightarrow> ChunkSelectiveAck" where
  "whole_ack credit ts a = \<lparr>sa_cumulative_tsn_ack = a_cumulative_tsn_ack_point a + of_nat (length ts),
     sa_advertised_receiver_window_credit = credit, sa_gap_ack_blocks = [], sa_duplicate_tsn = []\<rparr>"

text \<open>After the SACK nothing is outstanding; the stream reports that its buffer has drained.\<close>

definition settled :: "u16 \<Rightarrow> StreamState \<Rightarrow> u32 \<Rightarrow> Association \<Rightarrow> Association \<Rightarrow> bool" where
  "settled sid st credit a a' \<longleftrightarrow> a_outbound_queue a' = sending_queue 1 [] [] False \<and>
    a_streams a' = [(sid, st\<lparr>ss_buffered_amount := 0\<rparr>)] \<and>
    a_events a' = a_events a @ [EStream (BufferedAmountLow sid)] \<and> idle_but {} (a_timers a') \<and>
    a_cumulative_tsn_ack_point a' + 1 = a_my_next_tsn a \<and> a_my_next_tsn a' = a_my_next_tsn a \<and>
    a_advanced_peer_tsn_ack_point a' = a_cumulative_tsn_ack_point a' \<and> a_rwnd a' = credit \<and>
    a_cwnd a' = a_cwnd a \<and> a_state a' = Established \<and> RtoManager_inv (a_rto_mgr a') \<and>
    a_immediate_ack_triggered a' = a_immediate_ack_triggered a \<and> a_delayed_ack_triggered a' = a_delayed_ack_triggered a"

subsection \<open>Ranges of TSNs\<close>

lemma tsns_up_to_run:
  "n < 2 ^ 31 \<Longrightarrow> tsns_up_to t (t + of_nat n - 1) = map (\<lambda>i. t + of_nat i) [0..<n]"
proof (induction n arbitrary: t)
  case 0
  have "\<not> sna32lte t (t - 1)" using next_tsn_not_lte [of "t - 1"] by simp
  then show ?case by (subst tsns_up_to.simps) simp
next
  case (Suc n)
  have "sna32lte t (t + of_nat n)" using Suc.prems by (simp add: sna32lte_off unat_of_nat_u32)
  moreover have "tsns_up_to (t + 1) (t + 1 + of_nat n - 1) = map (\<lambda>i. t + 1 + of_nat i) [0..<n]"
    by (rule Suc.IH) (use Suc.prems in simp)
  ultimately show ?case
    by (subst tsns_up_to.simps) (simp add: add_ac map_upt_Suc del: upt_Suc)
qed

lemma tsns_before_none: "tsns_before (t + 1) t = []"
  using next_tsn_not_lte [of t] by (subst tsns_before.simps) (simp add: sna32lte_def)

subsection \<open>The flight\<close>

lemma flight_sorted:
  assumes "tsn_sorted t ts"
  shows "flight_of ts = \<lparr>pq_chunk_map = map (\<lambda>d. (d_tsn d, d)) ts, pq_sorted = map d_tsn ts, pq_dup_tsn = [],
    pq_n_bytes = total_len ts\<rparr>"
  using assms
proof (induction ts rule: rev_induct)
  case (snoc d ts)
  have ts: "tsn_sorted t ts" using snoc.prems by (simp add: tsn_sorted_append)
  have new: "d_tsn d \<notin> d_tsn ` set ts" using tsn_sorted_distinct [OF snoc.prems] by simp
  then have "AList.update (d_tsn d) d (map (\<lambda>d. (d_tsn d, d)) ts) = map (\<lambda>d. (d_tsn d, d)) ts @ [(d_tsn d, d)]"
    by (intro update_new) force
  moreover have "sort_by sna32lt (map d_tsn (ts @ [d])) = map d_tsn (ts @ [d])"
    by (rule tsn.sort_sorted [of _ t]) (use snoc.prems in \<open>auto simp: tsn_sorted_def tsn_off_def [abs_def] comp_def strict_sorted_iff\<close>)
  ultimately show ?case
    by (simp flip: flight_snoc add: snoc.IH [OF ts] PayloadQueue_push_no_check_def PayloadQueue_update_sorted_keys_def)
qed (simp add: flight_of_def PayloadQueue_new_def)

lemma flight_pop:
  assumes "tsn_sorted t (d # ds)"
  shows "OutboundQueue_pop (sending_queue u [] (d # ds) sel) (d_tsn d) = (Some d, sending_queue u [] ds sel)"
proof -
  have ds: "tsn_sorted t ds" using assms by (simp add: tsn_sorted_def)
  have "d_tsn d \<notin> d_tsn ` set ds" using tsn_sorted_distinct [OF assms] by simp
  then have "AList.delete (d_tsn d) (map (\<lambda>d. (d_tsn d, d)) ds) = map (\<lambda>d. (d_tsn d, d)) ds"
    by (intro delete_not_in) force
  then show ?thesis
    by (simp add: OutboundQueue_pop_def sending_queue_def flight_sorted [OF assms] flight_sorted [OF ds] PayloadQueue_pop_def)
qed

subsection \<open>Acknowledging the flight\<close>

lemma add_acked_first:
  assumes "a_streams a = [(sid, st)]" "ss_first_message_id st = 0" "first_sent sid since d"
  shows "add_acked a d n [(sid, k)] = [(sid, k + n)]" "add_acked a d n [] = [(sid, n)]"
  using assms by (simp_all add: add_acked_def first_sent_def)

lemma ack_rest:
  assumes "tsn_sorted t ts" "\<forall>d \<in> set ts. first_sent sid since d \<and> \<not> sna32gte (d_tsn d) (a_min_tsn2measure_rtt a)"
    "a_outbound_queue a = sending_queue 1 [] ts False" "a_streams a = [(sid, st)]" "\<not> a_in_fast_recovery a"
    "ss_first_message_id st = 0"
  shows "afold (ack_cumulative now) (map d_tsn ts) ([(sid, k)], True) a =
    (Ok ([(sid, k + int (total_len ts))], True), a\<lparr>a_outbound_queue := sending_queue 1 [] [] False\<rparr>)"
  using assms
proof (induction ts arbitrary: a k)
  case Nil
  then show ?case by (simp add: outbound_same)
next
  case (Cons d ds)
  let ?b = "a\<lparr>a_outbound_queue := sending_queue 1 [] ds False\<rparr>"
  have "first_sent sid since d" using Cons.prems(2) by simp
  then have "ack_cumulative now (d_tsn d) ([(sid, k)], True) a = (Ok ([(sid, k + int (dlen d))], True), ?b)"
    using Cons.prems add_acked_first(1) [of ?b sid st since d "int (dlen d)" k]
    by (simp add: ack_cumulative_def flight_pop [OF Cons.prems(1)] first_sent_def)
  moreover have "afold (ack_cumulative now) (map d_tsn ds) ([(sid, k + int (dlen d))], True) ?b =
      (Ok ([(sid, k + int (dlen d) + int (total_len ds))], True), ?b\<lparr>a_outbound_queue := sending_queue 1 [] [] False\<rparr>)"
    by (rule Cons.IH) (use Cons.prems in \<open>auto simp: tsn_sorted_def\<close>)
  ultimately show ?case by (simp add: add.assoc)
qed

lemma measurement_ok:
  assumes "RtoManager_inv m" "rtt \<le> 2 ^ 60"
  obtains v m' where "RtoManager_set_new_rtt m rtt = Ok (v, m')" "RtoManager_inv m'"
proof (cases "rto_no_update m")
  case True
  then show ?thesis using that assms(1) by (simp add: RtoManager_set_new_rtt_def)
next
  case False
  then show ?thesis using that set_new_rtt_ok [OF assms] by blast
qed

text \<open>The whole flight is acknowledged; the first chunk gives a round trip time.\<close>

lemma ack_flight:
  assumes ts: "tsn_sorted t ts" "ts \<noteq> []" "\<forall>d \<in> set ts. first_sent sid since d"
      "\<forall>d \<in> set (tl ts). \<not> sna32gte (d_tsn d) (a_my_next_tsn a)" "sna32gte (d_tsn (hd ts)) (a_min_tsn2measure_rtt a)"
    and a: "a_outbound_queue a = sending_queue 1 [] ts False" "a_streams a = [(sid, st)]" "\<not> a_in_fast_recovery a"
      "RtoManager_inv (a_rto_mgr a)" "duration_millis (now - since) \<le> 2 ^ 60" "ss_first_message_id st = 0"
  obtains m where "afold (ack_cumulative now) (map d_tsn ts) ([], False) a =
    (Ok ([(sid, int (total_len ts))], True), a\<lparr>a_min_tsn2measure_rtt := a_my_next_tsn a, a_rto_mgr := m,
      a_outbound_queue := sending_queue 1 [] [] False\<rparr>)" "RtoManager_inv m"
proof -
  obtain d ds where d: "ts = d # ds" using ts(2) by (cases ts) auto
  obtain v m where m: "RtoManager_set_new_rtt (a_rto_mgr a) (duration_millis (now - since)) = Ok (v, m)" "RtoManager_inv m"
    using measurement_ok [OF a(4,5)] .
  let ?b = "a\<lparr>a_outbound_queue := sending_queue 1 [] ds False, a_min_tsn2measure_rtt := a_my_next_tsn a, a_rto_mgr := m\<rparr>"
  have fs: "first_sent sid since d" using ts(3) d by simp
  have "ack_cumulative now (d_tsn d) ([], False) a = (Ok ([(sid, int (dlen d))], True), ?b)"
    using a ts(5) d m(1) fs [unfolded first_sent_def] flight_pop [OF ts(1) [unfolded d]]
      add_acked_first(2) [of "a\<lparr>a_outbound_queue := sending_queue 1 [] ds False\<rparr>" sid st since d "int (dlen d)"] fs
    by (simp add: ack_cumulative_def measure_rtt_def)
  moreover have "afold (ack_cumulative now) (map d_tsn ds) ([(sid, int (dlen d))], True) ?b =
      (Ok ([(sid, int (dlen d) + int (total_len ds))], True), ?b\<lparr>a_outbound_queue := sending_queue 1 [] [] False\<rparr>)"
    by (rule ack_rest [of t _ sid since]) (use ts a d in \<open>auto simp: tsn_sorted_def\<close>)
  ultimately show ?thesis using that m(2) by (simp add: d)
qed

lemma whole_flight_sorted:
  assumes "whole_flight sid st since ts a"
  shows "tsn_sorted (a_cumulative_tsn_ack_point a + 1) ts"
proof -
  have len: "length ts < 2 ^ 31" using assms by (simp add: whole_flight_def)
  have off: "tsn_off (a_cumulative_tsn_ack_point a + 1) (ts ! i) = i" if i: "i < length ts" for i
  proof -
    have "map d_tsn ts ! i = a_cumulative_tsn_ack_point a + 1 + of_nat i" using assms i by (simp add: whole_flight_def)
    then show ?thesis using i len by (simp add: tsn_off_def unat_of_nat_u32)
  qed
  then have "map (tsn_off (a_cumulative_tsn_ack_point a + 1)) ts = [0..<length ts]" by (auto intro: nth_equalityI)
  then show ?thesis using len off by (auto simp: tsn_sorted_def in_set_conv_nth)
qed

lemma whole_flight_tsns:
  assumes "whole_flight sid st since ts a"
  shows "tsns_up_to (a_cumulative_tsn_ack_point a + 1) (a_cumulative_tsn_ack_point a + of_nat (length ts)) = map d_tsn ts"
    "sna32gte (d_tsn (hd ts)) (a_min_tsn2measure_rtt a)" "\<forall>d \<in> set (tl ts). \<not> sna32gte (d_tsn d) (a_my_next_tsn a)"
    "d_tsn (hd ts) = a_cumulative_tsn_ack_point a + 1"
proof -
  let ?t = "a_cumulative_tsn_ack_point a + 1"
  have len: "length ts < 2 ^ 31" "ts \<noteq> []" and tsns: "map d_tsn ts = map (\<lambda>i. ?t + of_nat i) [0..<length ts]"
    using assms by (simp_all add: whole_flight_def)
  then show "tsns_up_to ?t (a_cumulative_tsn_ack_point a + of_nat (length ts)) = map d_tsn ts"
    using tsns_up_to_run [OF len(1), of ?t] by (simp add: algebra_simps)
  have nth: "d_tsn (ts ! i) = ?t + of_nat i" if "i < length ts" for i
    using arg_cong [OF tsns, of "\<lambda>xs. xs ! i"] that by simp
  then show hd: "d_tsn (hd ts) = ?t" using nth [of 0] len(2) by (simp add: hd_conv_nth)
  show "sna32gte (d_tsn (hd ts)) (a_min_tsn2measure_rtt a)"
    using assms hd by (simp add: whole_flight_def sna32gte_def)
  show "\<forall>d \<in> set (tl ts). \<not> sna32gte (d_tsn d) (a_my_next_tsn a)"
  proof
    fix d assume "d \<in> set (tl ts)"
    then obtain i where i: "i < length ts" "d = ts ! i" by (metis in_set_conv_nth list.set_sel(2) list.sel(2) length_0_conv)
    have "a_my_next_tsn a - d_tsn d = of_nat (length ts - i)"
      using assms nth i by (simp add: whole_flight_def of_nat_diff)
    then have "unat (a_my_next_tsn a - d_tsn d) = length ts - i"
      using len(1) unat_of_nat_u32 [of "length ts - i"] by simp
    then have "0 < unat (a_my_next_tsn a - d_tsn d)" "unat (a_my_next_tsn a - d_tsn d) < 2 ^ 31"
      using len(1) i(1) by simp_all
    then show "\<not> sna32gte (d_tsn d) (a_my_next_tsn a)"
      by (auto simp: sna32gte_def sna32gt_not_lte sna32lte_off)
  qed
qed

lemma process_whole_ack:
  assumes f: "whole_flight sid st since ts a" "duration_millis (now - since) \<le> 2 ^ 60"
  obtains m tt where "process_selective_ack (whole_ack credit ts a) now a =
    (Ok ([(sid, int (total_len ts))], sa_cumulative_tsn_ack (whole_ack credit ts a)),
      a\<lparr>a_min_tsn2measure_rtt := a_my_next_tsn a, a_rto_mgr := m, a_outbound_queue := sending_queue 1 [] [] False,
        a_timers := tt\<rparr>)" "RtoManager_inv m" "idle_but {} tt"
proof -
  note sorted = whole_flight_sorted [OF f(1)] and tsns = whole_flight_tsns [OF f(1)]
  have w: "ts \<noteq> []" "\<forall>d \<in> set ts. first_sent sid since d" "a_outbound_queue a = sending_queue 1 [] ts False"
    "a_streams a = [(sid, st)]" "\<not> a_in_fast_recovery a" "RtoManager_inv (a_rto_mgr a)" "ss_first_message_id st = 0"
    "length ts < 2 ^ 31" "idle_but {T3RTX} (a_timers a)"
    using f(1) by (simp_all add: whole_flight_def)
  obtain m where m: "afold (ack_cumulative now) (map d_tsn ts) ([], False) a =
    (Ok ([(sid, int (total_len ts))], True), a\<lparr>a_min_tsn2measure_rtt := a_my_next_tsn a, a_rto_mgr := m,
      a_outbound_queue := sending_queue 1 [] [] False\<rparr>)" "RtoManager_inv m"
    using ack_flight [OF sorted w(1,2) tsns(3,2) w(3-6) f(2) w(7)] .
  obtain d ds where d: "ts = d # ds" using w(1) by (cases ts) auto
  have "first_sent sid since d" using w(2) d by simp
  then have earliest: "OutboundQueue_earliest_outstanding_tsn (a_outbound_queue a) = Some (d_tsn d)"
    using flight_sorted [OF sorted]
    by (simp add: OutboundQueue_earliest_outstanding_tsn_def w(3) sending_queue_def d PayloadQueue_get_def first_sent_def)
  have "sna32lte (d_tsn d) (a_cumulative_tsn_ack_point a + of_nat (length ts))"
  proof -
    have eq: "a_cumulative_tsn_ack_point a + of_nat (length ts) = d_tsn d + of_nat (length ds)" using tsns(4) d by simp
    show ?thesis unfolding eq using w(8) d unat_of_nat_u32 [of "length ds"] by (simp add: sna32lte_off)
  qed
  then show ?thesis
    using m(1) tsns(1) earliest w(9)
    by (intro that [OF _ m(2)])
      (auto simp: process_selective_ack_def whole_ack_def gap_tsns_def upd_timers_def Let_def idle_but_def TimerTable_set_def
        TimerTable_get_def TimerTable_reset_retrans_def)
qed

lemma partial_same: "a_partial_bytes_acked a = p \<Longrightarrow> a\<lparr>a_partial_bytes_acked := p\<rparr> = a"
  by (rule Association.equality) simp_all

lemma flight_empty [simp]:
  "OutboundQueue_inflight_len (sending_queue 1 [] [] False) = 0" "OutboundQueue_pending_len (sending_queue 1 [] [] False) = 0"
  "OutboundQueue_inflight_bytes (sending_queue 1 [] [] False) = 0" "OutboundQueue_pending_bytes (sending_queue 1 [] [] False) = 0"
  by (simp_all add: sending_queue_def OutboundQueue_inflight_len_def OutboundQueue_pending_len_def OutboundQueue_inflight_bytes_def
      OutboundQueue_pending_bytes_def flight_of_def PayloadQueue_new_def PayloadQueue_len_def PendingQueue_len_def
      PayloadQueue_get_num_bytes_def PendingQueue_get_num_bytes_def)

text \<open>With nothing pending the congestion window stays as it is.\<close>

lemma window_stays:
  assumes "a_outbound_queue a = sending_queue 1 [] [] False" "a_partial_bytes_acked a = 0" "0 \<le> n" "n < 2 ^ 31"
  obtains p where "on_cumulative_tsn_ack_point_advanced n now a =
    (Ok (), a\<lparr>a_timers := TimerTable_stop (a_timers a) T3RTX, a_partial_bytes_acked := p\<rparr>)"
proof (cases "a_cwnd a \<le> a_ssthresh a")
  case True
  then show ?thesis
    using assms(1,2) by (intro that [of 0]) (simp add: on_cumulative_tsn_ack_point_advanced_def upd_timers_def partial_same)
next
  case False
  then show ?thesis
    using assms by (intro that [of "of_int n"])
      (simp add: on_cumulative_tsn_ack_point_advanced_def upd_timers_def u32_add_def word_add_overflow)
qed

lemma handle_whole_ack:
  assumes f: "whole_flight sid st since ts a" "duration_millis (now - since) \<le> 2 ^ 60"
  obtains a' where "handle_sack (whole_ack credit ts a) now a = (Ok [], a')" "settled sid st credit a a'"
proof -
  let ?a = "a\<lparr>a_stats := inc_sacks (a_stats a)\<rparr>"
  define k where k: "k = whole_ack credit ts a"
  have w: "length ts < 2 ^ 31" "total_len ts < 2 ^ 31" "0 < total_len ts" "a_outbound_queue a = sending_queue 1 [] ts False"
    "a_streams a = [(sid, st)]" "ss_buffered_amount st = total_len ts" "ss_buffered_amount_low st = 0" "ts \<noteq> []"
    "a_my_next_tsn a = a_cumulative_tsn_ack_point a + 1 + of_nat (length ts)" "\<not> a_in_fast_recovery a"
    "a_advanced_peer_tsn_ack_point a = a_cumulative_tsn_ack_point a" "a_partial_bytes_acked a = 0" "a_state a = Established"
    "a_use_forward_tsn a"
    using f(1) by (simp_all add: whole_flight_def)
  have f': "whole_flight sid st since ts ?a" "whole_ack credit ts ?a = k"
    using f(1) by (simp_all add: k whole_flight_def whole_ack_def)
  obtain m tt where p: "process_selective_ack k now ?a =
    (Ok ([(sid, int (total_len ts))], sa_cumulative_tsn_ack k),
      ?a\<lparr>a_min_tsn2measure_rtt := a_my_next_tsn ?a, a_rto_mgr := m, a_outbound_queue := sending_queue 1 [] [] False,
        a_timers := tt\<rparr>)" "RtoManager_inv m" "idle_but {} tt"
    using process_whole_ack [OF f'(1) f(2), of credit] unfolding f'(2) .
  have "unat (sa_cumulative_tsn_ack k - a_cumulative_tsn_ack_point a) = length ts"
    using w(1) by (simp add: k whole_ack_def unat_of_nat_u32)
  then have lt: "sna32lt (a_cumulative_tsn_ack_point a) (sa_cumulative_tsn_ack k)"
      "\<not> sna32gt (a_cumulative_tsn_ack_point a) (sa_cumulative_tsn_ack k)"
    using w(1,8) by (simp_all add: sna32lt_off sna32gt_not_lte sna32lte_off)
  have bytes: "OutboundQueue_inflight_bytes (a_outbound_queue a) = total_len ts"
    by (simp add: w(4) OutboundQueue_inflight_bytes_def sending_queue_def PayloadQueue_get_num_bytes_def flight_bytes)
  let ?b = "?a\<lparr>a_min_tsn2measure_rtt := a_my_next_tsn a, a_rto_mgr := m, a_outbound_queue := sending_queue 1 [] [] False,
        a_timers := tt, a_cumulative_tsn_ack_point := sa_cumulative_tsn_ack k\<rparr>"
  obtain pb where adv: "on_cumulative_tsn_ack_point_advanced (int (total_len ts)) now ?b =
      (Ok (), ?b\<lparr>a_timers := TimerTable_stop tt T3RTX, a_partial_bytes_acked := pb\<rparr>)"
    by (rule window_stays [of ?b "int (total_len ts)" now]) (use w(2,12) in simp_all)
  have rel: "on_buffer_released st (int (total_len ts)) = Ok (True, st\<lparr>ss_buffered_amount := 0\<rparr>)"
    using w(3,6,7) by (simp add: on_buffer_released_def)
  have none: "tsns_before (sa_cumulative_tsn_ack k + 1) (sa_cumulative_tsn_ack k) = []" by (rule tsns_before_none)
  let ?c = "?a\<lparr>a_min_tsn2measure_rtt := a_my_next_tsn a, a_rto_mgr := m, a_outbound_queue := sending_queue 1 [] [] False,
    a_cumulative_tsn_ack_point := sa_cumulative_tsn_ack k, a_timers := TimerTable_stop tt T3RTX, a_partial_bytes_acked := pb\<rparr>"
  let ?d = "push_event (EStream (BufferedAmountLow sid)) (upd_stream sid (\<lambda>_. st\<lparr>ss_buffered_amount := 0\<rparr>) ?c)"
  let ?e = "?d\<lparr>a_rwnd := credit\<rparr>"
  have rel': "release_buffer sid (int (total_len ts)) ?c = (Ok (), ?d)" using w(5) by (simp add: release_buffer_def rel alift_def)
  have queue: "a_outbound_queue ?d = sending_queue 1 [] [] False" "a_use_forward_tsn ?d" "a_cumulative_tsn_ack_point ?d = sa_cumulative_tsn_ack k"
    using w(14) by (simp_all add: push_event_def upd_stream_def)
  have credit: "sa_advertised_receiver_window_credit k = credit" by (simp add: k whole_ack_def)
  have fast: "process_fast_retransmission (sa_cumulative_tsn_ack k) (sa_cumulative_tsn_ack k) True ?e = (Ok (), ?e)"
    using w(10) by (simp add: process_fast_retransmission_def none push_event_def upd_stream_def)
  have adv2: "advance_peer_tsn_ack_point ?e = ?e\<lparr>a_advanced_peer_tsn_ack_point := sa_cumulative_tsn_ack k\<rparr>"
    using w(11) lt(1) by (simp add: advance_peer_tsn_ack_point_def push_event_def upd_stream_def)
  have stop: "idle_but {} (TimerTable_stop tt T3RTX)" using p(3) by (simp add: timer_defs)
  show ?thesis
  proof (rule that)
    show "handle_sack (whole_ack credit ts a) now a = (Ok [], postprocess_sack Established now (?e\<lparr>a_advanced_peer_tsn_ack_point := sa_cumulative_tsn_ack k\<rparr>))"
      unfolding k [symmetric] using fast adv2
      by (cases "credit = 0") (simp_all add: handle_sack_def Let_def w(13) lt p(1) bytes adv usize_sub_def  rel' alift_def credit queue sna32gt_not_lte sna32lte_def)
    show "settled sid st credit a (postprocess_sack Established now (?e\<lparr>a_advanced_peer_tsn_ack_point := sa_cumulative_tsn_ack k\<rparr>))"
      using w p(2) stop by (simp add: settled_def postprocess_sack_def push_event_def upd_stream_def k whole_ack_def)
  qed
qed

subsection \<open>Sending the acknowledgement\<close>

lemma handle_timer_idle: "TimerTable_get (a_timers a) t = None \<Longrightarrow> handle_timer now t a = (Ok (), a)"
  by (simp add: handle_timer_def TimerTable_is_expired_def TimerTable_get_def)

lemma handle_timer_ack:
  assumes "TimerTable_get (a_timers a) Ack = Some d" "d \<le> now" "idle_but {Ack} (a_timers a)"
  obtains tt x where "handle_timer now Ack a = (Ok (), a\<lparr>a_timers := tt, a_stats := x, a_ack_state := Immediate\<rparr>)"
    "idle_but {} tt"
proof -
  let ?t = "TimerTable_set (snd (TimerTable_is_expired (a_timers a) Ack now)) Ack None"
  have "handle_timer now Ack a = (Ok (), a\<lparr>a_timers := ?t, a_stats := inc_ack_timeouts (a_stats a), a_ack_state := Immediate\<rparr>)"
    using assms(1,2) by (simp add: handle_timer_def TimerTable_is_expired_def TimerTable_get_def on_ack_timeout_def
        upd_timers_def)
  moreover have "idle_but {} ?t"
    using assms by (auto simp: TimerTable_is_expired_def idle_but_def TimerTable_get_def TimerTable_set_def)
  ultimately show ?thesis by (rule that)
qed

text \<open>When the acknowledgement timer has expired the SACK is due at once.\<close>

lemma ack_falls_due:
  assumes "acking now s" "idle_but {Ack} (a_timers s)"
  obtains tt x where "handle_timeout (now + from_millis ACK_INTERVAL) s =
    (Ok (), s\<lparr>a_timers := tt, a_stats := x, a_ack_state := Immediate\<rparr>)" "idle_but {} tt"
proof -
  let ?now = "now + from_millis ACK_INTERVAL"
  have others: "handle_timer ?now t s = (Ok (), s)" if "t \<noteq> Ack" for t
    by (rule handle_timer_idle) (use assms(2) that in \<open>simp add: idle_but_def\<close>)
  show ?thesis
  proof (cases "a_ack_state s = Immediate \<and> idle_but {} (a_timers s)")
    case True
    then have "handle_timer ?now Ack s = (Ok (), s)" by (intro handle_timer_idle) (simp add: idle_but_def)
    moreover have "s\<lparr>a_timers := a_timers s, a_stats := a_stats s, a_ack_state := Immediate\<rparr> = s"
      by (rule Association.equality) (use True in simp_all)
    ultimately show ?thesis
      using True by (intro that [of "a_stats s" "a_timers s"]) (simp_all add: handle_timeout_def Timer_VALUES_def others)
  next
    case False
    then have "TimerTable_get (a_timers s) Ack = Some ?now" using assms(1) by (auto simp: acking_def)
    then obtain tt x where "handle_timer ?now Ack s = (Ok (), s\<lparr>a_timers := tt, a_stats := x, a_ack_state := Immediate\<rparr>)"
      "idle_but {} tt"
      by (rule handle_timer_ack [OF _ order_refl assms(2)])
    then show ?thesis by (intro that) (simp_all add: handle_timeout_def Timer_VALUES_def others)
  qed
qed

lemma transmit_sack:
  assumes h: "holding sid ppi ws s a" "total_len ws \<le> unat (a_max_receive_buffer_size s)" "quiet s" "a_state s = Established"
    and i: "a_ack_state a = Immediate"
    and b: "Packet_marshal crc (create_packet a [CSelectiveAck \<lparr>sa_cumulative_tsn_ack = a_peer_last_tsn a,
      sa_advertised_receiver_window_credit = a_max_receive_buffer_size s - of_nat (total_len ws),
      sa_gap_ack_blocks = [], sa_duplicate_tsn = []\<rparr>]) = Ok b"
  shows "transmitted crc now a = Some ([b], a\<lparr>a_ack_state := Idle\<rparr>)"
proof -
  let ?a = "a\<lparr>a_ack_state := Idle\<rparr>"
  have a: "a_outbound_queue a = OutboundQueue_default" "a_control_queue a = []" "a_active_reconfig a = None"
    "\<not> a_will_retransmit_fast a" "\<not> a_will_retransmit_reconfig a" "a_pending_reset_streams a = []"
    "\<not> a_will_send_forward_tsn a" "a_advanced_peer_tsn_ack_point a = a_cumulative_tsn_ack_point a"
    "a_payload_queue a = PayloadQueue_new" "a_state a = Established"
    using h(1,3,4) by (simp_all add: holding_def in_sequence_def quiet_def)
  have "get_my_receiver_window_credit ?a = Ok (a_max_receive_buffer_size s - of_nat (total_len ws))"
    by (rule holding_credit [OF _ h(2), of sid ppi]) (use h(1) in \<open>simp add: holding_def in_sequence_def\<close>)
  then have "gather_outbound_sack_packets crc [] a = (Ok [b], ?a\<lparr>a_payload_queue := a_payload_queue a\<rparr>)"
    using i b a(9)
    by (simp add: gather_outbound_sack_packets_def create_selective_ack_chunk_def alift_def PayloadQueue_get_gap_ack_blocks_def
        PayloadQueue_pop_duplicates_def PayloadQueue_new_def push_marshalled_def create_packet_def Let_def)
  also have "?a\<lparr>a_payload_queue := a_payload_queue a\<rparr> = ?a" by (rule Association.equality) simp_all
  finally have "gather_outbound_sack_packets crc [] a = (Ok [b], ?a)" .
  then show ?thesis
    using a by (simp add: transmitted_def poll_transmit_def gather_outbound_def quiet_simps)
qed

lemma stamped_first_sent:
  assumes "message_chunks sid ppi mps data cs"
  shows "\<forall>d \<in> set (stamped t now cs). first_sent sid now d"
proof
  fix d assume d: "d \<in> set (stamped t now cs)"
  then obtain i where i: "i < length cs" "d = stamped t now cs ! i" by (auto simp: in_set_conv_nth stamped_nth(1))
  moreover have "cs ! i \<in> set cs" using i(1) by simp
  moreover have "\<not> d_abandoned d" using assms stamped_not_abandoned [OF _ d] by (auto simp: message_chunks_def)
  ultimately show "first_sent sid now d" using assms by (auto simp: first_sent_def message_chunks_def stamped_nth(2))
qed

text \<open>The sender after a transfer.\<close>

lemma transferred_flight:
  assumes c: "quiet c" "a_state c = Established" "a_use_forward_tsn c"
    and m: "message_chunks sid ppi (a_max_payload_size c) data cs" "cs \<noteq> []" "data \<noteq> []" "length data < 2 ^ 31"
    and st: "ss_buffered_amount st = length data" "ss_first_message_id st = 0" "ss_buffered_amount_low st = 0"
    and tt: "idle_but {T3RTX} tt"
  shows "whole_flight sid st now (stamped (a_my_next_tsn c) now cs)
    ((with_message sid st cs c)\<lparr>a_rwnd := r, a_outbound_queue := sending_queue 1 [] (stamped (a_my_next_tsn c) now cs) False,
      a_my_next_tsn := a_my_next_tsn c + of_nat (length cs), a_timers := tt\<rparr>)"
proof -
  let ?ts = "stamped (a_my_next_tsn c) now cs"
  have tsns: "map d_tsn ?ts = map (\<lambda>i. a_my_next_tsn c + of_nat i) [0..<length ?ts]"
    by (rule nth_equalityI) (simp_all add: stamped_nth)
  have total: "total_len ?ts = length data"
    using message_on_wire(2) [OF m(1,4), of "a_my_next_tsn c" now] by (simp add: total_len_concat wire_view_def comp_def)
  have len: "length ?ts \<le> total_len cs" "total_len cs = length data"
    using length_le_total [of cs] m(1) by (auto simp: message_chunks_def stamped_nth(1) total_len_concat)
  have ne: "?ts \<noteq> []" using m(2) by (cases cs) auto
  show ?thesis
    using c st tt tsns total len ne m(3,4) stamped_first_sent [OF m(1), of "a_my_next_tsn c" now]
    by (simp add: whole_flight_def with_message_def quiet_def stamped_nth(1))
qed

text \<open>The SACK for the message arrives.\<close>

lemma sack_arrives:
  assumes h: "holding sid ppi ws s a" "total_len ws \<le> unat (a_max_receive_buffer_size s)" "quiet s" "a_state s = Established"
      "a_ack_state a = Immediate" "a_source_port s \<noteq> 0" "a_destination_port s \<noteq> 0"
    and k: "k = whole_ack (a_max_receive_buffer_size s - of_nat (total_len ws)) ts c"
      "a_peer_last_tsn a = sa_cumulative_tsn_ack k" "routed ck c ce" "a_peer_verification_tag s = a_my_verification_tag c"
    and c: "handle_sack k now (handle_chunk_start c) = (Ok [], c')"
      "\<not> a_immediate_ack_triggered c'" "\<not> a_delayed_ack_triggered c'"
  shows "leg crc cookie now a ck ce c = Some (a\<lparr>a_ack_state := Idle\<rparr>, c')"
proof -
  have a: "a_source_port a = a_source_port s" "a_destination_port a = a_destination_port s"
    "a_peer_verification_tag a = a_peer_verification_tag s"
    using h(1) by (simp_all add: holding_def in_sequence_def)
  let ?p = "create_packet a [CSelectiveAck k]"
  have "leg crc cookie now a ck ce c = Some (a\<lparr>a_ack_state := Idle\<rparr>, handle_chunk_end now c')"
  proof (rule leg_single [OF refl, of "CSelectiveAck k" crc a now a _ ck c ce])
    show "transmitted crc now a = Some ([b], a\<lparr>a_ack_state := Idle\<rparr>)" if "Packet_marshal crc ?p = Ok b" for b
      by (rule transmit_sack [OF h(1-5)]) (use that k(1,2) in \<open>simp add: whole_ack_def\<close>)
    show "check_packet (Packet_on_wire ?p) = Ok ()"
      using a h(6,7) by (simp add: check_packet_def Packet_on_wire_def create_packet_def)
    show "handle_chunk cookie (Packet_on_wire ?p) (Chunk_on_wire (CSelectiveAck k)) now (handle_chunk_start c) = (Ok (), c')"
      using c(1) by (simp add: handle_chunk_def dispatch_chunk_def alift_def)
    show "Chunk_wf (CSelectiveAck k)" using k(1) by (simp add: whole_ack_def ChunkSelectiveAck_value_length_def SELECTIVE_ACK_HEADER_SIZE_def)
  qed (use k(3,4) a(3) in simp_all)
  then show ?thesis using c(2,3) by (simp add: handle_chunk_end_def)
qed

lemma whole_flight_start:
  "whole_flight sid st since ts (handle_chunk_start a) = whole_flight sid st since ts a"
  "whole_ack credit ts (handle_chunk_start a) = whole_ack credit ts a"
  "settled sid st credit (handle_chunk_start a) a' \<Longrightarrow> a_events a' = a_events a @ [EStream (BufferedAmountLow sid)]"
  by (simp_all add: handle_chunk_start_def whole_flight_def whole_ack_def settled_def)

lemma idle_no_timeout: "idle_but {} (a_timers a) \<Longrightarrow> poll_timeout a = None"
  by (simp add: poll_timeout_def idle_but_def next_timeout_char)

lemma whole_flight_buffered: "whole_flight sid st since ts a \<Longrightarrow> Association_buffered_amount a = total_len ts"
  by (simp add: whole_flight_def Association_buffered_amount_def sending_queue_def OutboundQueue_pending_bytes_def
      OutboundQueue_inflight_bytes_def PendingQueue_get_num_bytes_def PayloadQueue_get_num_bytes_def flight_bytes)

lemma holding_last:
  assumes "holding sid ppi ws s s1" "a_peer_last_tsn s + 1 = t" "u + 1 = t" "length ws = n"
  shows "a_peer_last_tsn s1 = u + of_nat n"
proof -
  have "a_peer_last_tsn s = u" using assms(2,3) by (metis add_right_cancel)
  then show ?thesis using assms(1,4) by (simp add: holding_def in_sequence_def)
qed

text \<open>The acknowledgement of what \<open>s1\<close> holds reaches the sender \<open>c3\<close>.\<close>

lemma acknowledge_message:
  assumes h: "holding sid ppi ws s s1" "total_len ws \<le> unat (a_max_receive_buffer_size s)" "quiet s" "a_state s = Established"
      "a_source_port s \<noteq> 0" "a_destination_port s \<noteq> 0" "acking now s1"
    and f: "whole_flight sid st now ts c3" "a_peer_last_tsn s1 = a_cumulative_tsn_ack_point c3 + of_nat (length ts)"
      "routed ck c3 ce" "a_peer_verification_tag s = a_my_verification_tag c3"
  obtains s2 s3 c4 where "handle_timeout (now + from_millis ACK_INTERVAL) s1 = (Ok (), s2)"
    "leg crc cookie (now + from_millis ACK_INTERVAL) s2 ck ce c3 = Some (s3, c4)" "idle_but {} (a_timers s3)"
    "settled sid st (a_max_receive_buffer_size s - of_nat (total_len ws)) (handle_chunk_start c3) c4"
proof -
  let ?now = "now + from_millis ACK_INTERVAL" and ?credit = "a_max_receive_buffer_size s - of_nat (total_len ws)"
  have "idle_but {Ack} (a_timers s1)" using h(1) by (simp add: holding_def in_sequence_def)
  then obtain tt x where t: "handle_timeout ?now s1 = (Ok (), s1\<lparr>a_timers := tt, a_stats := x, a_ack_state := Immediate\<rparr>)"
      (is "_ = (_, ?s2)") "idle_but {} tt"
    by (rule ack_falls_due [OF h(7)])
  have s2: "holding sid ppi ws s ?s2" using h(1) t(2) by (simp add: holding_def in_sequence_def idle_but_def)
  have "duration_millis (?now - now) \<le> 2 ^ 60" by (simp add: duration_millis_def from_millis_def ACK_INTERVAL_def)
  then obtain c4 where c4: "handle_sack (whole_ack ?credit ts c3) ?now (handle_chunk_start c3) = (Ok [], c4)"
    "settled sid st ?credit (handle_chunk_start c3) c4"
    by (rule handle_whole_ack [OF f(1) [folded whole_flight_start(1) [of sid st now ts c3]], of ?now ?credit,
      unfolded whole_flight_start(2)])
  have "leg crc cookie ?now ?s2 ck ce c3 = Some (?s2\<lparr>a_ack_state := Idle\<rparr>, c4)"
    by (rule sack_arrives [OF s2 h(2-4) _ h(5,6) refl _ f(3,4) c4(1)])
      (use c4(2) f(2) in \<open>simp_all add: settled_def handle_chunk_start_def whole_ack_def\<close>)
  then show ?thesis by (rule that [OF t(1) _ _ c4(2)]) (simp add: t(2))
qed

subsection \<open>Properties\<close>

text \<open>
  C3: a message is acknowledged. After the transfer of a message on an established pair the sender still
  buffers all of it. When the peer's acknowledgement timer has expired, the peer sends a SACK; the
  sender's endpoint routes it, and the sender then buffers nothing, neither in the association nor in
  the stream, reports that the buffered amount is low, has no timer left to wait for and knows the
  window that remains at the peer; the peer waits for no timer either.
\<close>

theorem message_acknowledged:
  assumes p: "established_pair (ck, c, ce) (sk, s, se)"
    and d: "data \<noteq> []" "length data < 2 ^ 31" "length data \<le> unat (a_max_send_message_size c)"
      "length data \<le> unat (a_cwnd c)" "length data \<le> unat (a_rwnd c)" "length data \<le> unat (a_max_receive_message_size s)"
  shows "\<exists>c1 c2 c3 s1 s2 s3 c4. open_stream sid ppi c = (Ok sid, c1) \<and> Stream_write sid data c1 = (Ok (length data), c2) \<and>
    leg crc cookie now c2 sk se s = Some (c3, s1) \<and> Association_buffered_amount c3 = length data \<and>
    handle_timeout (now + from_millis ACK_INTERVAL) s1 = (Ok (), s2) \<and>
    leg crc cookie (now + from_millis ACK_INTERVAL) s2 ck ce c3 = Some (s3, c4) \<and>
    Association_buffered_amount c4 = 0 \<and> Stream_buffered_amount sid c4 = Ok 0 \<and>
    a_events c4 = a_events c @ [EStream (BufferedAmountLow sid)] \<and> a_rwnd c4 = a_rwnd c - of_nat (length data) \<and>
    poll_timeout c4 = None \<and> poll_timeout s3 = None"
proof -
  obtain c1 st cs tt s1 where t: "open_stream sid ppi c = (Ok sid, c1)"
    "Stream_write sid data c1 = (Ok (length data), with_message sid st cs c)"
    "leg crc cookie now (with_message sid st cs c) sk se s =
      Some ((with_message sid st cs c)\<lparr>a_rwnd := a_rwnd c - of_nat (total_len cs),
        a_outbound_queue := sending_queue 1 [] (stamped (a_my_next_tsn c) now cs) False,
        a_my_next_tsn := a_my_next_tsn c + of_nat (length cs), a_timers := tt\<rparr>, s1)" (is "_ = Some (?c3, _)")
    "holding sid ppi (map wire_view (stamped (a_my_next_tsn c) now cs)) s s1" "acking now s1" "cs \<noteq> []"
    "message_chunks sid ppi (a_max_payload_size c) data cs" "ss_buffered_amount st = length data"
    "ss_first_message_id st = 0" "ss_buffered_amount_low st = 0" "idle_but {T3RTX} tt"
    by (rule transfer_message [OF p d, of sid ppi crc cookie now])
  let ?ts = "stamped (a_my_next_tsn c) now cs"
  let ?ws = "map wire_view ?ts"
  have c: "quiet c" "a_state c = Established" "a_use_forward_tsn c" "a_rwnd c = a_max_receive_buffer_size s"
      "routed ck c ce" "a_peer_verification_tag s = a_my_verification_tag c"
    and s: "quiet s" "a_state s = Established" "a_source_port s \<noteq> 0" "a_destination_port s \<noteq> 0"
      "a_peer_last_tsn s + 1 = a_my_next_tsn c"
    using p by (auto simp: established_pair_def knows_def)
  have total: "total_len ?ws = length data" "total_len ?ts = length data"
    using message_on_wire(2) [OF t(7) d(2), of "a_my_next_tsn c" now] by (simp_all add: total_len_concat wire_view_def comp_def)
  have f: "whole_flight sid st now ?ts ?c3" by (rule transferred_flight [OF c(1-3) t(7,6) d(1,2) t(8-11)])
  have last: "a_peer_last_tsn s1 = a_cumulative_tsn_ack_point ?c3 + of_nat (length ?ts)"
    by (rule holding_last [OF t(4)]) (use c(1) s(5) in \<open>simp_all add: quiet_def with_message_def\<close>)
  obtain s2 s3 c4 where a: "handle_timeout (now + from_millis ACK_INTERVAL) s1 = (Ok (), s2)"
    "leg crc cookie (now + from_millis ACK_INTERVAL) s2 ck ce ?c3 = Some (s3, c4)" "idle_but {} (a_timers s3)"
    "settled sid st (a_max_receive_buffer_size s - of_nat (total_len ?ws)) (handle_chunk_start ?c3) c4"
    by (rule acknowledge_message [OF t(4) _ s(1-4) t(5) f last, of ck ce crc cookie])
      (use d(5) c(4-6) total in \<open>auto simp: routed_def with_message_def\<close>)
  have r1: "Association_buffered_amount ?c3 = length data" using whole_flight_buffered [OF f] total(2) by simp
  have r2: "Association_buffered_amount c4 = 0" "Stream_buffered_amount sid c4 = Ok 0" "poll_timeout c4 = None"
      "a_rwnd c4 = a_rwnd c - of_nat (length data)"
    using a(4) idle_no_timeout [of c4] total(1) c(4)
    by (simp_all add: settled_def Association_buffered_amount_def Stream_buffered_amount_def get_of_stream_def)
  have r3: "a_events c4 = a_events c @ [EStream (BufferedAmountLow sid)]"
    using whole_flight_start(3) [OF a(4)] by (simp add: with_message_def)
  show ?thesis by (intro exI conjI) (rule t(1) t(2) t(3) r1 a(1) a(2) r2 r3 idle_no_timeout [OF a(3)])+
qed

theorem message_acknowledged_witness:
  "\<exists>ck c ce sk s se. established_pair (ck, c, ce) (sk, s, se) \<and>
    (\<exists>c1 c2 c3 s1 s2 s3 c4. open_stream 3 PPI_Binary c = (Ok 3, c1) \<and>
      Stream_write 3 example_message c1 = (Ok (length example_message), c2) \<and>
      leg (\<lambda>_. 0) [] 0 c2 sk se s = Some (c3, s1) \<and> Association_buffered_amount c3 = length example_message \<and>
      handle_timeout (0 + from_millis ACK_INTERVAL) s1 = (Ok (), s2) \<and>
      leg (\<lambda>_. 0) [] (0 + from_millis ACK_INTERVAL) s2 ck ce c3 = Some (s3, c4) \<and>
      Association_buffered_amount c4 = 0 \<and> Stream_buffered_amount 3 c4 = Ok 0 \<and>
      a_events c4 = a_events c @ [EStream (BufferedAmountLow 3)] \<and> a_rwnd c4 = a_rwnd c - of_nat (length example_message) \<and>
      poll_timeout c4 = None \<and> poll_timeout s3 = None)"
proof -
  obtain ck c ce sk s se where p: "established_pair (ck, c, ce) (sk, s, se)" "28 \<le> unat (a_cwnd c)" "1500 \<le> unat (a_rwnd c)"
    "a_max_send_message_size c = 100" "a_max_receive_message_size s = 100"
    by (rule example_pair)
  have m: "example_message \<noteq> []" "length example_message < 2 ^ 31" "length example_message \<le> unat (a_max_send_message_size c)"
    "length example_message \<le> unat (a_cwnd c)" "length example_message \<le> unat (a_rwnd c)"
    "length example_message \<le> unat (a_max_receive_message_size s)"
    using p(2-5) by (simp_all add: example_message_def)
  note r = conjI [OF p(1) message_acknowledged [OF p(1) m, of 3 PPI_Binary "\<lambda>_. 0" "[]" 0]]
  show ?thesis by (intro exI) (rule r)
qed

end
