(* ===== verification/Data_Retransmission.thy ===== *)
theory Data_Retransmission
  imports Data_Acknowledgement
begin

text \<open>
  Recovery from loss: the retransmission timer of a message that was sent and lost expires, the association
  sends the message again, and the other side delivers it.
\<close>

text \<open>A chunk of a reliable message.\<close>

definition reliable :: "ChunkPayloadData \<Rightarrow> bool" where
  "reliable d \<longleftrightarrow> d_deadline d = None \<and> d_reliability d = Some (Reliable, 0)"

definition overdue :: "ChunkPayloadData \<Rightarrow> ChunkPayloadData" where
  "overdue d = d\<lparr>d_retransmit := True\<rparr>"

definition resent :: "ChunkPayloadData \<Rightarrow> ChunkPayloadData" where
  "resent d = d\<lparr>d_retransmit := False, d_nsent := 2\<rparr>"

text \<open>Apart from its flight the association has nothing to send.\<close>

definition resting :: "Association \<Rightarrow> bool" where
  "resting a \<longleftrightarrow> a_control_queue a = [] \<and> a_ack_state a = Idle \<and> \<not> a_will_retransmit_fast a \<and>
    \<not> a_will_retransmit_reconfig a \<and> a_pending_reset_streams a = [] \<and> a_active_reconfig a = None"

text \<open>The timer may expire once more before the data counts as undeliverable.\<close>

definition may_retransmit :: "TimerTable \<Rightarrow> bool" where
  "may_retransmit tt \<longleftrightarrow> (case tt_max_retrans tt T3RTX of Some limit \<Rightarrow> tt_retrans tt T3RTX < limit | None \<Rightarrow> True)"

subsection \<open>The flight\<close>

lemma sorted_map: "(\<And>d. d_tsn (f d) = d_tsn d) \<Longrightarrow> tsn_sorted t (map f ts) = tsn_sorted t ts"
  by (simp add: tsn_sorted_def comp_def tsn_off_def [abs_def])

lemma map_vals_map: "map_vals f (map (\<lambda>d. (d_tsn d, d)) ts) = map (\<lambda>d. (d_tsn d, f d)) ts"
  by (induction ts) auto

lemma mark_all_flight:
  assumes "tsn_sorted t ts" "\<forall>d \<in> set ts. \<not> d_acked d \<and> \<not> d_abandoned d"
  shows "OutboundQueue_mark_all_to_retransmit (sending_queue u rest ts sel) = sending_queue u rest (map overdue ts) sel"
proof -
  have "tsn_sorted t (map overdue ts)" using assms(1) by (simp add: sorted_map overdue_def)
  moreover have "total_len (map overdue ts) = total_len ts" by (simp add: total_len_def comp_def overdue_def)
  ultimately show ?thesis
    using assms
    by (simp add: OutboundQueue_mark_all_to_retransmit_def sending_queue_def PayloadQueue_mark_all_to_retransmit_def
        flight_sorted map_vals_map comp_def) (simp add: overdue_def comp_def cong: map_cong)
qed

lemma get_mut_flight:
  assumes "tsn_sorted t (pre @ d # rest)" "d_tsn (f d) = d_tsn d" "dlen (f d) = dlen d"
  shows "OutboundQueue_get_mut (sending_queue u p (pre @ d # rest) sel) (d_tsn d) f = sending_queue u p (pre @ f d # rest) sel"
proof -
  have new: "tsn_sorted t (pre @ f d # rest)" using assms(1,2) by (simp add: tsn_sorted_def tsn_off_def)
  have "\<forall>x \<in> set pre \<union> set rest. d_tsn x \<noteq> d_tsn d" using tsn_sorted_distinct [OF assms(1)] by (auto simp: image_iff)
  then have "update_key (d_tsn d) f (map (\<lambda>d. (d_tsn d, d)) (pre @ d # rest)) = map (\<lambda>d. (d_tsn d, d)) (pre @ f d # rest)"
    using assms(2) by (auto simp: update_key_def)
  then show ?thesis
    using assms(2,3) by (simp add: OutboundQueue_get_mut_def sending_queue_def PayloadQueue_get_mut_def flight_sorted [OF assms(1)]
        flight_sorted [OF new])
qed

lemma get_flight:
  assumes "tsn_sorted t ts"
  shows "d \<in> set ts \<Longrightarrow> OutboundQueue_get (sending_queue u p ts sel) (d_tsn d) = Some d"
    "k \<notin> d_tsn ` set ts \<Longrightarrow> OutboundQueue_get (sending_queue u p ts sel) k = None"
  using tsn_sorted_distinct [OF assms]
  by (auto simp: OutboundQueue_get_def sending_queue_def PayloadQueue_get_def flight_sorted [OF assms] map_of_eq_None_iff
      image_iff comp_def intro!: map_of_is_SomeI)

lemma flight_runs:
  assumes "map d_tsn ts = map (\<lambda>i. t + of_nat i) [0..<length ts]" "length ts < 2 ^ 31"
  shows "tsn_sorted t ts" "t + of_nat (length ts) \<notin> d_tsn ` set ts"
    "ts = pre @ d # rest \<Longrightarrow> d_tsn d = t + of_nat (length pre)"
proof -
  have nth: "d_tsn (ts ! i) = t + of_nat i" if "i < length ts" for i
    using arg_cong [OF assms(1), of "\<lambda>xs. xs ! i"] that by simp
  have off: "tsn_off t (ts ! i) = i" if "i < length ts" for i
    using nth [OF that] that assms(2) by (simp add: tsn_off_def unat_of_nat_u32)
  then have "map (tsn_off t) ts = [0..<length ts]" by (auto intro: nth_equalityI)
  then show "tsn_sorted t ts" using assms(2) off by (auto simp: tsn_sorted_def in_set_conv_nth)
  show "t + of_nat (length ts) \<notin> d_tsn ` set ts"
  proof
    assume "t + of_nat (length ts) \<in> d_tsn ` set ts"
    then obtain i where i: "i < length ts" "t + of_nat (length ts) = t + of_nat i" using nth by (auto simp: in_set_conv_nth)
    then have "unat (of_nat (length ts) :: u32) = unat (of_nat i :: u32)" by simp
    then show False using i(1) assms(2) by (simp add: unat_of_nat_u32)
  qed
  show "ts = pre @ d # rest \<Longrightarrow> d_tsn d = t + of_nat (length pre)" using nth [of "length pre"] by simp
qed

subsection \<open>Choosing what to retransmit\<close>

lemma nothing_expires:
  assumes "\<forall>d \<in> set ts. reliable d" "a_outbound_queue a = sending_queue 1 [] ts False"
  shows "expire_inflight_messages now a = (Ok (), a)"
proof -
  have "OutboundQueue_expired_inflight (sending_queue 1 [] ts False) now = []"
    using assms(1) flight_get [of ts]
    by (auto simp: OutboundQueue_expired_inflight_def sending_queue_def filter_empty_conv reliable_def deadline_passed_def
        split: option.split)
  moreover have "OutboundQueue_start_timed_messages (sending_queue 1 [] ts False) now = sending_queue 1 [] ts False"
    by (simp add: OutboundQueue_start_timed_messages_def sending_queue_def)
  ultimately show ?thesis
    using assms(2) by (simp add: expire_inflight_messages_def expire_tail_first outbound_same Let_def)
qed

lemma reliable_kept:
  assumes "OutboundQueue_get (a_outbound_queue a) t = Some d" "reliable d" "\<not> d_abandoned d"
  shows "abandon_if_needed t now a = (Ok False, a)"
  using assms by (simp add: abandon_if_needed_def reliable_def)

lemma retransmit_all:
  assumes run: "map d_tsn ts = map (\<lambda>i. a_cumulative_tsn_ack_point a + 1 + of_nat i) [0..<length ts]" "length ts < 2 ^ 31"
    and ts: "\<forall>d \<in> set ts. reliable d \<and> \<not> d_abandoned d \<and> d_retransmit d" "total_len ts \<le> unat awnd" "awnd \<le> a_rwnd a"
    and a: "a_outbound_queue a = sending_queue 1 [] ts False"
  shows "ts = pre @ rest \<Longrightarrow> retransmit_loop now awnd (of_nat (length pre)) pre (total_len pre) a = (Ok ts, a)"
proof (induction rest arbitrary: pre)
  case Nil
  have "a_cumulative_tsn_ack_point a + of_nat (length ts) + 1 \<notin> d_tsn ` set ts"
    using flight_runs(2) [OF run] by (simp add: add_ac)
  then have "OutboundQueue_get (a_outbound_queue a) (a_cumulative_tsn_ack_point a + of_nat (length ts) + 1) = None"
    unfolding a by (rule get_flight(2) [OF flight_runs(1) [OF run]])
  then show ?case using Nil by (simp add: retransmit_loop.simps)
next
  case (Cons d rest)
  have tsn: "d_tsn d = a_cumulative_tsn_ack_point a + of_nat (length pre) + 1"
    using flight_runs(3) [OF run Cons.prems] by (simp add: add_ac)
  have d: "d \<in> set ts" "reliable d" "\<not> d_abandoned d" "d_retransmit d" using Cons.prems ts(1) by auto
  have get: "OutboundQueue_get (a_outbound_queue a) (a_cumulative_tsn_ack_point a + of_nat (length pre) + 1) = Some d"
    unfolding a tsn [symmetric] by (rule get_flight(1) [OF flight_runs(1) [OF run] d(1)])
  have len: "length pre < 2 ^ 31" using Cons.prems run(2) by simp
  then have "unat (of_nat (length pre) :: u32) = length pre" by (simp add: unat_of_nat_u32)
  then have i: "(of_nat (length pre) :: u32) \<noteq> - 1"
    using len by (auto simp: unsigned_minus_1_eq_mask mask_eq_exp_minus_1)
  have size: "total_len pre + dlen d \<le> unat awnd" using ts(2) Cons.prems by simp
  then have "unat (of_nat (dlen d) :: u32) = dlen d"
    using unat_bound [of awnd] by (intro unat_of_nat_u32) simp
  then have fits: "\<not> a_rwnd a < of_nat (dlen d)"
    using size ts(3) by (simp add: word_less_nat_alt word_le_nat_alt)
  have "retransmit_loop now awnd (of_nat (length pre)) pre (total_len pre) a =
    retransmit_loop now awnd (of_nat (length (pre @ [d]))) (pre @ [d]) (total_len (pre @ [d])) a"
    using get d i size fits reliable_kept [OF get d(2,3), of now] by (subst retransmit_loop.simps) (simp add: Let_def add_ac)
  also have "\<dots> = (Ok ts, a)" by (rule Cons.IH) (use Cons.prems in simp)
  finally show ?case .
qed

lemma mark_all_retransmitted:
  assumes "tsn_sorted t (map resent pre @ rest)" "\<forall>d \<in> set rest. d_nsent d = 1"
  shows "mark_retransmitted rest (sending_queue u p (map resent pre @ rest) sel) =
    Ok (map (\<lambda>d. d\<lparr>d_nsent := 2\<rparr>) rest, sending_queue u p (map resent (pre @ rest)) sel)"
  using assms
proof (induction rest arbitrary: pre)
  case (Cons d rest)
  have sorted: "tsn_sorted t (map resent (pre @ [d]) @ rest)"
    using Cons.prems(1) by (simp add: tsn_sorted_def tsn_off_def [abs_def] comp_def resent_def [abs_def])
  have "OutboundQueue_get_mut (sending_queue u p (map resent pre @ d # rest) sel) (d_tsn d)
      (\<lambda>c. c\<lparr>d_retransmit := False, d_nsent := 2\<rparr>) = sending_queue u p (map resent pre @ resent d # rest) sel"
    unfolding resent_def [abs_def, symmetric] by (rule get_mut_flight [OF Cons.prems(1)]) (simp_all add: resent_def)
  moreover have "OutboundQueue_get (sending_queue u p (map resent pre @ d # rest) sel) (d_tsn d) = Some d"
    by (rule get_flight(1) [OF Cons.prems(1)]) simp
  ultimately show ?case
    using Cons.IH [OF sorted] Cons.prems(2) by (simp add: u32_add_def)
qed simp

subsection \<open>The timer\<close>

lemma only_timer:
  assumes "idle_but {T3RTX} (a_timers a)" "TimerTable_get (a_timers a) T3RTX = Some t"
  shows "poll_timeout a = Some t"
  using assms by (simp add: poll_timeout_def TimerTable_next_timeout_def Timer_VALUES_def idle_but_def TimerTable_get_def
      map_filter_def)

lemma four_mtu: "unat mtu < 100000 \<Longrightarrow> u32_mul 4 mtu = Ok (4 * mtu)"
  by (simp add: u32_mul_def)

lemma on_t3_flight:
  assumes f: "whole_flight sid st since ts a" and m: "unat (a_mtu a) < 100000"
  shows "on_t3_timeout a = (Ok (), a\<lparr>a_stats := inc_t3timeouts (a_stats a), a_ssthresh := max (a_cwnd a div 2) (4 * a_mtu a),
    a_cwnd := a_mtu a, a_outbound_queue := sending_queue 1 [] (map overdue ts) False\<rparr>)"
proof -
  have q: "a_outbound_queue a = sending_queue 1 [] ts False" "a_use_forward_tsn a"
      "a_advanced_peer_tsn_ack_point a = a_cumulative_tsn_ack_point a"
    and d: "\<forall>d \<in> set ts. \<not> d_acked d \<and> \<not> d_abandoned d"
    using f by (auto simp: whole_flight_def first_sent_def)
  let ?b = "a\<lparr>a_stats := inc_t3timeouts (a_stats a), a_ssthresh := max (a_cwnd a div 2) (4 * a_mtu a), a_cwnd := a_mtu a\<rparr>"
  have "advance_over_abandoned n (sending_queue 1 [] ts False) (a_cumulative_tsn_ack_point a) = a_cumulative_tsn_ack_point a" for n
    using not_abandoned_flight d by (cases n) auto
  then have "advance_peer_tsn_ack_point ?b = ?b" using q by (simp add: advance_peer_tsn_ack_point_def advanced_point_same)
  then show ?thesis
    using q mark_all_flight [OF whole_flight_sorted [OF f] d, of 1 "[]" False]
    by (simp add: on_t3_timeout_def four_mtu [OF m] alift_def Let_def sna32gt_not_lte sna32lte_def)
qed

lemma t3_falls_due:
  assumes f: "whole_flight sid st since ts a" and m: "unat (a_mtu a) < 100000"
    and t: "may_retransmit (a_timers a)" "TimerTable_get (a_timers a) T3RTX = Some now"
  obtains tt x ss where "handle_timeout now a = (Ok (), a\<lparr>a_stats := x, a_ssthresh := ss, a_cwnd := a_mtu a,
    a_outbound_queue := sending_queue 1 [] (map overdue ts) False, a_timers := tt\<rparr>)"
proof -
  let ?x = "inc_t3timeouts (a_stats a)" and ?ss = "max (a_cwnd a div 2) (4 * a_mtu a)"
  let ?n = "if tt_no_error_count (a_timers a) T3RTX then tt_retrans (a_timers a) T3RTX else tt_retrans (a_timers a) T3RTX + 1"
  define t1 where "t1 = TimerTable_set (snd (TimerTable_is_expired (a_timers a) T3RTX now)) T3RTX None"
  have e: "\<exists>n t0. TimerTable_is_expired (a_timers a) T3RTX now = ((True, False, n), t0)"
    using t by (auto simp: TimerTable_is_expired_def TimerTable_get_def may_retransmit_def Let_def split: option.splits)
  have idle: "idle_but {} t1"
    using f by (auto simp: t1_def whole_flight_def TimerTable_is_expired_def idle_but_def TimerTable_get_def TimerTable_set_def Let_def)
  let ?tt = "TimerTable_start t1 T3RTX now (RtoManager_get_rto (a_rto_mgr a))"
  let ?b = "a\<lparr>a_stats := ?x, a_ssthresh := ?ss, a_cwnd := a_mtu a,
    a_outbound_queue := sending_queue 1 [] (map overdue ts) False, a_timers := ?tt\<rparr>"
  have "whole_flight sid st since ts (a\<lparr>a_timers := t1\<rparr>)"
    using f idle by (simp add: whole_flight_def idle_but_def)
  from on_t3_flight [OF this] m have "on_t3_timeout (a\<lparr>a_timers := t1\<rparr>) = (Ok (), a\<lparr>a_timers := t1, a_stats := ?x, a_ssthresh := ?ss,
    a_cwnd := a_mtu a, a_outbound_queue := sending_queue 1 [] (map overdue ts) False\<rparr>)" by simp
  then have t3: "handle_timer now T3RTX a = (Ok (), ?b)"
    using e by (auto simp: handle_timer_def t1_def upd_timers_def on_retransmission_timeout_def start_timer_def)
  have before: "handle_timer now timer a = (Ok (), a)" if "timer \<noteq> T3RTX" for timer
    by (rule handle_timer_idle) (use f that in \<open>simp add: whole_flight_def idle_but_def\<close>)
  have after: "handle_timer now timer ?b = (Ok (), ?b)" if "timer \<noteq> T3RTX" for timer
    by (rule handle_timer_idle) (use idle that in \<open>simp add: idle_but_def TimerTable_get_def TimerTable_start_def Let_def\<close>)
  show ?thesis
    by (rule that) (simp add: handle_timeout_def Timer_VALUES_def before t3 after)
qed

subsection \<open>Sending the flight again\<close>

lemma retransmit_flight:
  assumes run: "map d_tsn ts = map (\<lambda>i. a_cumulative_tsn_ack_point a + 1 + of_nat i) [0..<length ts]" "length ts < 2 ^ 31"
    and ts: "\<forall>d \<in> set ts. reliable d \<and> \<not> d_abandoned d \<and> d_retransmit d \<and> d_nsent d = 1" "ts \<noteq> []"
      "\<forall>d \<in> set ts. dlen d + 28 \<le> unat (a_mtu a) \<and> dlen d < 65500"
      "total_len ts \<le> unat (a_cwnd a)" "total_len ts \<le> unat (a_rwnd a)"
    and a: "a_outbound_queue a = sending_queue 1 [] ts False" "a_state a = Established" "resting a" "unat (a_mtu a) < 100000"
      "a_advanced_peer_tsn_ack_point a = a_cumulative_tsn_ack_point a" "\<not> a_will_send_forward_tsn a"
  obtains css bs where "transmitted crc now a = Some (bs, a\<lparr>a_outbound_queue := sending_queue 1 [] (map resent ts) False\<rparr>)"
    "concat css = map (\<lambda>d. d\<lparr>d_nsent := 2\<rparr>) ts" "[] \<notin> set css"
    "list_all2 (\<lambda>cs b. Packet_marshal crc (data_packet a cs) = Ok b) css bs"
proof -
  let ?ts = "map (\<lambda>d. d\<lparr>d_nsent := 2\<rparr>) ts"
  let ?b = "a\<lparr>a_outbound_queue := sending_queue 1 [] (map resent ts) False\<rparr>"
  let ?w = "min (a_cwnd a) (a_rwnd a)"
  have loop: "retransmit_loop now ?w 0 [] 0 a = (Ok ts, a)"
    using retransmit_all [OF run _ _ _ a(1), of ?w "[]" ts now] ts by (simp add: min_def)
  have mark: "mark_retransmitted ts (sending_queue 1 [] ts False) = Ok (?ts, sending_queue 1 [] (map resent ts) False)"
    using mark_all_retransmitted [of _ "[]" ts 1 "[]" False, simplified, OF flight_runs(1) [OF run]] ts(1) by simp
  have fits: "\<forall>d \<in> set ?ts. dlen d + 28 \<le> unat (a_mtu ?b)" "unat (a_mtu ?b) < 100000" "12 \<le> unat (a_mtu ?b)"
    using ts(3) a(4) hd_in_set [OF ts(2)] by fastforce+
  obtain css where css: "bundle_data_chunks_into_packets ?b ?ts = Ok (map (data_packet ?b) css)" "concat css = ?ts" "[] \<notin> set css"
    using bundle_data [OF fits, of thesis] by blast
  have "\<forall>d \<in> set (concat css). dlen d < 65500" unfolding css(2) using ts(3) by simp
  then have "\<forall>cs \<in> set css. \<forall>d \<in> set cs. dlen d < 65500" by auto
  then obtain bs where bs: "push_all_marshalled crc [] (map (data_packet ?b) css) = Ok bs"
    "list_all2 (\<lambda>cs b. Packet_marshal crc (data_packet ?b cs) = Ok b) css bs"
    using marshal_data_packets [of css crc "[]" ?b] by auto
  have ne: "bs \<noteq> []" using css(2) ts(2) bs(2) by auto
  have first: "expire_inflight_messages now a = (Ok (), a)" by (rule nothing_expires [OF _ a(1)]) (use ts(1) in simp)
  have again: "expire_inflight_messages now ?b = (Ok (), ?b)"
    by (rule nothing_expires [of "map resent ts"]) (use ts(1) in \<open>auto simp: resent_def reliable_def\<close>)
  have retransmitted: "gather_data_packets_to_retransmit crc [] now a = (Ok bs, ?b)"
    using css(1) bs(1) by (simp add: gather_data_packets_to_retransmit_def get_data_packets_to_retransmit_def first loop a(1) mark Let_def)
  have "OutboundQueue_pending_len (sending_queue 1 [] (map resent ts) False) = 0"
    by (simp add: OutboundQueue_pending_len_def sending_queue_def PendingQueue_len_def)
  then have rest: "gather_outbound_fast_retransmission_packets crc bs now ?b = (Ok bs, ?b)"
    "gather_outbound_data_and_reconfig_packets crc bs now ?b = (Ok bs, ?b)"
    using a(3) again
    by (simp_all add: gather_outbound_fast_retransmission_packets_def gather_outbound_data_and_reconfig_packets_def
        pop_pending_data_chunks_to_send_def resting_def Let_def)
  have forward: "gather_outbound_forward_tsn_packets crc bs ?b = (Ok bs, ?b)"
    by (rule no_forward_tsn) (use a(5,6) ts(1) in \<open>auto simp: not_abandoned_flight resent_def\<close>)
  have control: "gather_outbound_control_packets crc raws now x = (Ok raws, x)" "gather_outbound_sack_packets crc raws x = (Ok raws, x)"
    if "resting x" for raws x
    using that by (simp_all add: resting_def control_empty quiet_sack)
  have "resting ?b" using a(3) by (simp add: resting_def)
  then have "transmitted crc now a = Some (bs, ?b)"
    using a(2,3) ne rest forward retransmitted by (simp add: transmitted_def poll_transmit_def gather_outbound_def control)
  moreover have "data_packet ?b = data_packet a" by (simp add: fun_eq_iff data_packet_def create_packet_def)
  ultimately show ?thesis using that css(2,3) bs(2) by simp
qed

subsection \<open>Properties\<close>

lemma message_reliable: "fragments_left sel cs \<Longrightarrow> d \<in> set (stamped t now cs) \<Longrightarrow> reliable d"
  by (induction cs arbitrary: t sel) (auto simp: reliable_def)

lemma resent_on_wire: "map wire_view (map (\<lambda>d. d\<lparr>d_nsent := n\<rparr>) (map overdue ts)) = map wire_view ts"
  by (simp add: wire_view_def overdue_def)

text \<open>A message is written, transmitted and lost.\<close>

lemma lose_message:
  assumes c: "quiet c" "a_state c = Established" "a_use_forward_tsn c" "idle_but {} (a_timers c)" "may_retransmit (a_timers c)"
    and d: "data \<noteq> []" "length data \<le> unat (a_max_send_message_size c)" "length data \<le> unat (a_mtu c)"
      "2 * length data \<le> unat (a_rwnd c)"
  obtains c1 c2 lost c3 st ts later where "open_stream sid ppi c = (Ok sid, c1)" "Stream_write sid data c1 = (Ok (length data), c2)"
    "transmitted crc now c2 = Some (lost, c3)" "lost \<noteq> []" "whole_flight sid st now ts c3" "resting c3"
    "message_run (a_my_next_tsn c) sid ppi (map wire_view ts)" "concat (map d_user_data (map wire_view ts)) = data"
    "\<forall>d \<in> set ts. reliable d \<and> dlen d \<le> unat (a_max_payload_size c)"
    "TimerTable_get (a_timers c3) T3RTX = Some later" "may_retransmit (a_timers c3)" "a_mtu c3 = a_mtu c"
    "length data \<le> unat (a_rwnd c3)" "data_packet c3 = data_packet c"
proof -
  have mtu: "sized (a_mtu c) (a_max_payload_size c) (a_cwnd c)" using c(1) by (simp add: quiet_def)
  then have len: "length data < 2 ^ 31" "length data \<le> unat (a_cwnd c)"
    using d(3) by (auto simp: sized_def word_less_nat_alt word_le_nat_alt)
  obtain c1 st cs where w: "open_stream sid ppi c = (Ok sid, c1)"
    "Stream_write sid data c1 = (Ok (length data), with_message sid st cs c)" "cs \<noteq> []"
    "message_chunks sid ppi (a_max_payload_size c) data cs" "ss_buffered_amount st = length data"
    "ss_first_message_id st = 0" "ss_buffered_amount_low st = 0"
    using write_message [OF c(1,2) d(1,2)] by blast
  let ?ts = "stamped (a_my_next_tsn c) now cs"
  have total: "total_len cs = length data" using w(4) by (simp add: message_chunks_def total_len_concat)
  obtain css bs tt where t: "transmitted crc now (with_message sid st cs c) =
      Some (bs, (with_message sid st cs c)\<lparr>a_rwnd := a_rwnd c - of_nat (total_len cs),
        a_outbound_queue := sending_queue 1 [] ?ts False,
        a_my_next_tsn := a_my_next_tsn c + of_nat (length cs), a_timers := tt\<rparr>)" (is "_ = Some (_, ?c3)")
    "concat css = ?ts" "[] \<notin> set css" "list_all2 (\<lambda>cs b. Packet_marshal crc (data_packet c cs) = Ok b) css bs"
    "tt = TimerTable_restart_if_stale (a_timers c) T3RTX now (RtoManager_get_rto (a_rto_mgr c))"
    by (rule transmit_message [OF c(1-3), of cs crc now sid st])
      (use w(3,4) d(4) len total in \<open>auto simp: message_chunks_def\<close>)
  note tt = restart_idle [OF c(4), of T3RTX now "RtoManager_get_rto (a_rto_mgr c)", folded t(5)]
  have ts: "?ts \<noteq> []" using w(3) by (cases cs) auto
  then have lost: "bs \<noteq> []" using t(2,4) by auto
  have flight: "whole_flight sid st now ?ts ?c3"
    by (rule transferred_flight [OF c(1-3) w(4,3) d(1) len(1) w(5-7) tt(1)])
  have "unat (of_nat (length data) :: u32) = length data" using len(1) by (intro unat_of_nat_u32) simp
  then have "unat (a_rwnd c - of_nat (length data)) = unat (a_rwnd c) - length data"
    using d(4) by (simp add: unat_sub word_le_nat_alt)
  then have rwnd: "length data \<le> unat (a_rwnd ?c3)" using d(4) total by simp
  have chunks: "\<forall>d \<in> set ?ts. reliable d \<and> dlen d \<le> unat (a_max_payload_size c)"
    using w(4) stamped_dlen message_reliable by (fastforce simp: message_chunks_def)
  obtain later where later: "TimerTable_get tt T3RTX = Some later" using tt(2) by blast
  have rest: "resting ?c3" using c(1) by (simp add: resting_def with_message_def quiet_def)
  have may: "may_retransmit (a_timers ?c3)" using c(5) tt(3,4) by (simp add: may_retransmit_def split: option.splits)
  have same: "data_packet ?c3 = data_packet c" by (simp add: fun_eq_iff data_packet_def create_packet_def with_message_def)
  note run = message_on_wire [OF w(4) len(1), of "a_my_next_tsn c" now]
  show ?thesis
    by (rule that [OF w(1,2) t(1) lost flight rest run chunks _ may _ rwnd same])
      (use later in \<open>simp_all add: with_message_def\<close>)
qed

text \<open>The timer expires and the flight is sent again.\<close>

lemma resend_flight:
  assumes f: "whole_flight sid st since ts a" "resting a" "\<forall>d \<in> set ts. reliable d \<and> dlen d + 28 \<le> unat (a_mtu a)"
      "total_len ts \<le> unat (a_mtu a)" "total_len ts \<le> unat (a_rwnd a)" "unat (a_mtu a) < 65500"
    and t: "TimerTable_get (a_timers a) T3RTX = Some now" "may_retransmit (a_timers a)"
  obtains a1 a2 css bs where "handle_timeout now a = (Ok (), a1)" "transmitted crc now a1 = Some (bs, a2)"
    "concat css = map (\<lambda>d. d\<lparr>d_nsent := 2\<rparr>) (map overdue ts)" "[] \<notin> set css"
    "list_all2 (\<lambda>cs b. Packet_marshal crc (data_packet a cs) = Ok b) css bs"
proof -
  have mtu: "unat (a_mtu a) < 100000" using f(6) by simp
  obtain tt x ss where h: "handle_timeout now a = (Ok (), a\<lparr>a_stats := x, a_ssthresh := ss, a_cwnd := a_mtu a,
      a_outbound_queue := sending_queue 1 [] (map overdue ts) False, a_timers := tt\<rparr>)" (is "_ = (_, ?b)")
    by (rule t3_falls_due [OF f(1) mtu t(2,1)])
  have same: "data_packet ?b = data_packet a" by (simp add: fun_eq_iff data_packet_def create_packet_def)
  have total: "total_len (map overdue ts) = total_len ts" by (simp add: total_len_def comp_def overdue_def)
  obtain css bs a2 where "transmitted crc now ?b = Some (bs, a2)" "concat css = map (\<lambda>d. d\<lparr>d_nsent := 2\<rparr>) (map overdue ts)"
    "[] \<notin> set css" "list_all2 (\<lambda>cs b. Packet_marshal crc (data_packet ?b cs) = Ok b) css bs"
  proof (rule retransmit_flight [of "map overdue ts" ?b crc now])
    show "map d_tsn (map overdue ts) =
      map (\<lambda>i. a_cumulative_tsn_ack_point ?b + 1 + of_nat i) [0..<length (map overdue ts)]"
      using f(1) by (simp add: whole_flight_def overdue_def comp_def)
    show "\<forall>d \<in> set (map overdue ts). reliable d \<and> \<not> d_abandoned d \<and> d_retransmit d \<and> d_nsent d = 1"
      using f(1,3) by (simp add: whole_flight_def overdue_def reliable_def first_sent_def)
    show "\<forall>d \<in> set (map overdue ts). dlen d + 28 \<le> unat (a_mtu ?b) \<and> dlen d < 65500"
      using f(3,6) by (fastforce simp: overdue_def)
  qed (use f total mtu in \<open>simp_all add: whole_flight_def resting_def\<close>)
  then show ?thesis using that [OF h] same by simp
qed

text \<open>
  C4: recovery from loss. On an established pair the application writes a message that is not empty and not
  longer than the message limits of the two sides, nor than the MTU, to which the window shrinks when the
  retransmission timer expires, nor than half of the peer's receive window, from which the lost bytes
  stay deducted when they are sent again; and the limit on retransmissions is not reached. Every packet that carries the
  message is lost. The association then waits for the retransmission timer T3 and no other timer; when that
  expires, the association sends the message again, the other endpoint routes it, and the other
  application accepts the stream and reads the message byte for byte.
\<close>

theorem lost_message_retransmitted:
  assumes p: "established_pair (ck, c, ce) (sk, s, se)" "may_retransmit (a_timers c)"
    and d: "data \<noteq> []" "length data \<le> unat (a_max_send_message_size c)" "length data \<le> unat (a_mtu c)"
      "2 * length data \<le> unat (a_rwnd c)" "length data \<le> unat (a_max_receive_message_size s)"
  shows "\<exists>c1 c2 lost c3 later c4 c5 s1 s2 s3 m. open_stream sid ppi c = (Ok sid, c1) \<and>
    Stream_write sid data c1 = (Ok (length data), c2) \<and> transmitted crc now c2 = Some (lost, c3) \<and> lost \<noteq> [] \<and>
    {t. TimerTable_get (a_timers c3) t \<noteq> None} = {T3RTX} \<and> TimerTable_get (a_timers c3) T3RTX = Some later \<and>
    poll_timeout c3 = Some later \<and> handle_timeout later c3 = (Ok (), c4) \<and>
    leg crc cookie later c4 sk se s = Some (c5, s1) \<and> accept_stream s1 = (Some sid, s2) \<and>
    read_sctp sid s2 = (Ok (Some m), s3) \<and> ck_ppi m = ppi \<and>
    Chunks_read m (replicate (length data) 0) = (Ok (length data), data)"
proof -
  have c: "quiet c" "a_state c = Established" "a_use_forward_tsn c" "idle_but {} (a_timers c)" "a_source_port c \<noteq> 0"
      "a_destination_port c \<noteq> 0" "a_peer_verification_tag c = a_my_verification_tag s" "a_rwnd c = a_max_receive_buffer_size s"
    and s: "quiet s" "routed sk s se" "idle_but {} (a_timers s)" "a_peer_last_tsn s + 1 = a_my_next_tsn c"
    using p(1) by (auto simp: established_pair_def knows_def)
  have mtu: "sized (a_mtu c) (a_max_payload_size c) (a_cwnd c)" using c(1) by (simp add: quiet_def)
  obtain c1 c2 lost c3 st ts later where l: "open_stream sid ppi c = (Ok sid, c1)"
    "Stream_write sid data c1 = (Ok (length data), c2)" "transmitted crc now c2 = Some (lost, c3)" "lost \<noteq> []"
    "whole_flight sid st now ts c3" "resting c3"
    "message_run (a_my_next_tsn c) sid ppi (map wire_view ts)" "concat (map d_user_data (map wire_view ts)) = data"
    "\<forall>d \<in> set ts. reliable d \<and> dlen d \<le> unat (a_max_payload_size c)"
    "TimerTable_get (a_timers c3) T3RTX = Some later" "may_retransmit (a_timers c3)" "a_mtu c3 = a_mtu c"
    "length data \<le> unat (a_rwnd c3)" "data_packet c3 = data_packet c"
    by (rule lose_message [OF c(1-4) p(2) d(1-4)])
  have poll: "poll_timeout c3 = Some later" by (rule only_timer [OF _ l(10)]) (use l(5) in \<open>simp add: whole_flight_def\<close>)
  have only: "{t. TimerTable_get (a_timers c3) t \<noteq> None} = {T3RTX}"
    using l(5,10) by (auto simp: whole_flight_def idle_but_def)
  have total: "total_len ts = length data" using l(8) by (simp add: total_len_concat comp_def wire_view_def)
  have small: "\<forall>d \<in> set ts. reliable d \<and> dlen d + 28 \<le> unat (a_mtu c3)" "unat (a_mtu c3) < 65500"
    using mtu l(9,12) by (auto simp: sized_def word_less_nat_alt)
  obtain c4 c5 css bs where r: "handle_timeout later c3 = (Ok (), c4)" "transmitted crc later c4 = Some (bs, c5)"
    "concat css = map (\<lambda>d. d\<lparr>d_nsent := 2\<rparr>) (map overdue ts)" "[] \<notin> set css"
    "list_all2 (\<lambda>cs b. Packet_marshal crc (data_packet c3 cs) = Ok b) css bs"
    by (rule resend_flight [OF l(5,6) small(1) _ _ small(2) l(10,11), of crc]) (use total d(3) l(12,13) in simp_all)
  let ?ts = "map (\<lambda>d. d\<lparr>d_nsent := 2\<rparr>) (map overdue ts)"
  have ts: "ts \<noteq> []" using l(5) by (simp add: whole_flight_def)
  have run: "message_run (a_peer_last_tsn s + 1) sid ppi (map wire_view ?ts)" using l(7) s(4) unfolding resent_on_wire by simp
  have len: "total_len ?ts = length data" "\<forall>d \<in> set ?ts. dlen d < 65500"
    using total small by (auto simp: total_len_def comp_def overdue_def)
  obtain s1 where s1: "deliver_all crc cookie later (a_remote_addr s) bs sk se s = Some s1"
    "holding sid ppi (map wire_view ?ts) s s1"
    by (rule message_arrives [OF c(5-7) s(1-3) run _ len(2) _ _ r(3,4) r(5) [unfolded l(14)]])
      (use ts len(1) d(4,5) c(8) in simp_all)
  have held: "holding sid ppi (map wire_view ts) s s1" using s1(2) unfolding resent_on_wire .
  have leg: "leg crc cookie later c4 sk se s = Some (c5, s1)" by (simp add: leg_def r(2) s1(1))
  obtain s2 s3 m where m: "accept_stream s1 = (Some sid, s2)" "read_sctp sid s2 = (Ok (Some m), s3)" "ck_ppi m = ppi"
    "Chunks_read m (replicate (length data) 0) = (Ok (length data), data)"
    by (rule holding_taken [OF held l(7) _ l(8)]) (use ts in simp)
  show ?thesis by (intro exI conjI) (rule l(1) l(2) l(3) l(4) only l(10) poll r(1) leg m)+
qed

theorem lost_message_retransmitted_witness:
  "\<exists>ck c ce sk s se. established_pair (ck, c, ce) (sk, s, se) \<and> may_retransmit (a_timers c) \<and> example_message \<noteq> [] \<and>
    (\<exists>c1 c2 lost c3 later c4 c5 s1 s2 s3 m. open_stream 3 PPI_Binary c = (Ok 3, c1) \<and>
    Stream_write 3 example_message c1 = (Ok (length example_message), c2) \<and> transmitted (\<lambda>_. 0) 0 c2 = Some (lost, c3) \<and> lost \<noteq> [] \<and>
    {t. TimerTable_get (a_timers c3) t \<noteq> None} = {T3RTX} \<and> TimerTable_get (a_timers c3) T3RTX = Some later \<and>
    poll_timeout c3 = Some later \<and> handle_timeout later c3 = (Ok (), c4) \<and>
    leg (\<lambda>_. 0) [] later c4 sk se s = Some (c5, s1) \<and> accept_stream s1 = (Some 3, s2) \<and>
    read_sctp 3 s2 = (Ok (Some m), s3) \<and> ck_ppi m = PPI_Binary \<and>
    Chunks_read m (replicate (length example_message) 0) = (Ok (length example_message), example_message))"
proof -
  obtain ck c ce sk s se where p: "established_pair (ck, c, ce) (sk, s, se)" "1500 \<le> unat (a_rwnd c)"
    "a_max_send_message_size c = 100" "a_max_receive_message_size s = 100"
    by (rule example_pair)
  let ?c = "c\<lparr>a_timers := TimerTable_default\<rparr>"
  have "quiet ?c = quiet c" by (simp add: quiet_def)
  moreover have "knows ?c s = knows c s" "knows s ?c = knows s c" "routed ck ?c ce = routed ck c ce"
    by (simp_all add: knows_def routed_def)
  moreover have "idle_but {} (a_timers ?c)" by (simp add: idle_but_def TimerTable_get_def TimerTable_default_def)
  ultimately have e: "established_pair (ck, ?c, ce) (sk, s, se)" using p(1) by (simp add: established_pair_def)
  have may: "may_retransmit (a_timers ?c)" by (simp add: may_retransmit_def TimerTable_default_def)
  have "28 \<le> unat (a_mtu c)" using p(1) by (simp add: established_pair_def quiet_def sized_def)
  then have m: "example_message \<noteq> []" "length example_message \<le> unat (a_max_send_message_size ?c)"
    "length example_message \<le> unat (a_mtu ?c)" "2 * length example_message \<le> unat (a_rwnd ?c)"
    "length example_message \<le> unat (a_max_receive_message_size s)"
    using p(2-4) by (simp_all add: example_message_def)
  show ?thesis
    by (intro exI [of _ ck] exI [of _ ?c] exI [of _ ce] exI [of _ sk] exI [of _ s] exI [of _ se] conjI e may m(1)
        lost_message_retransmitted [OF e may m])
qed

end
