(* ===== verification/Data_Selection.thy ===== *)
theory Data_Selection
  imports Assoc_Send
begin

text \<open>
  The choice of new DATA (\<^verbatim>\<open>pop_pending_data_chunks_to_send\<close>): on a queue that satisfies its invariant the
  loops end without a panic, and what they take stays within the congestion window and the peer's receive
  window.
\<close>

text \<open>The flight and the pending data are in order, and the next TSN is not in flight.\<close>

definition sender_ok :: "nat \<Rightarrow> Association \<Rightarrow> bool" where
  "sender_ok n a \<longleftrightarrow> OutboundQueue_inv (a_outbound_queue a) \<and> flight_before n (a_my_next_tsn a) (a_outbound_queue a)"

text \<open>The windows of an association, which expiry does not move.\<close>

definition same_windows :: "Association \<Rightarrow> Association \<Rightarrow> bool" where
  "same_windows a b \<longleftrightarrow> a_cwnd b = a_cwnd a \<and> a_rwnd b = a_rwnd a"

abbreviation pending_chunks :: "Association \<Rightarrow> nat" where
  "pending_chunks a \<equiv> OutboundQueue_pending_len (a_outbound_queue a)"

text \<open>What taking the chunks \<open>new\<close> makes of an association; no more than the windows allow.\<close>

definition taken :: "ChunkPayloadData list \<Rightarrow> Association \<Rightarrow> Association \<Rightarrow> bool" where
  "taken new a b \<longleftrightarrow> a_cwnd b = a_cwnd a \<and> total_len new \<le> unat (a_rwnd a) \<and> a_rwnd b = a_rwnd a - of_nat (total_len new) \<and>
    (new = [] \<or> OutboundQueue_inflight_bytes (a_outbound_queue b) \<le> unat (a_cwnd a)) \<and>
    map d_tsn new = map (\<lambda>i. a_my_next_tsn a + of_nat i) [0..<length new] \<and>
    OutboundQueue_get (a_outbound_queue a) \<subseteq>\<^sub>m OutboundQueue_get (a_outbound_queue b) \<and>
    (\<forall>c \<in> set new. OutboundQueue_get (a_outbound_queue b) (d_tsn c) = Some c)"

subsection \<open>The pending queue gets shorter\<close>

lemma remove_message_len:
  assumes "PendingQueue_remove_message q i = Ok (n, cs, q')"
  shows "pd_queue_len q = pd_queue_len q' + length cs"
    "cs = filter (\<lambda>c. d_message_id c = i) (pd_ordered_queue q @ pd_unordered_queue q)"
proof -
  define p where "p = (if pd_selected q \<and> (case PendingQueue_peek q of Some c \<Rightarrow> d_message_id c = i | None \<Rightarrow> False)
    then q\<lparr>pd_selected := False\<rparr> else q)"
  have "pd_queue_len p = pd_queue_len q" "pd_ordered_queue p = pd_ordered_queue q" "pd_unordered_queue p = pd_unordered_queue q"
    by (simp_all add: p_def)
  then show "pd_queue_len q = pd_queue_len q' + length cs"
    "cs = filter (\<lambda>c. d_message_id c = i) (pd_ordered_queue q @ pd_unordered_queue q)"
    using assms unfolding PendingQueue_remove_message_def p_def [symmetric]
    by (auto simp: usize_sub_eq_Ok Let_def)
qed

lemma peek_mem: "PendingQueue_peek q = Some c \<Longrightarrow> c \<in> set (pd_ordered_queue q @ pd_unordered_queue q)"
  by (auto simp: PendingQueue_peek_def front_def split: if_splits list.splits option.splits)

lemma abandon_message_pending:
  assumes "OutboundQueue_abandon_message q i sid t = Ok (r, t', q')"
  shows "OutboundQueue_pending_len q' \<le> OutboundQueue_pending_len q"
    "PendingQueue_peek (oq_pending q) = Some c \<Longrightarrow> d_message_id c = i \<Longrightarrow> OutboundQueue_pending_len q' < OutboundQueue_pending_len q"
proof -
  obtain n cs p where p: "PendingQueue_remove_message (oq_pending q) i = Ok (n, cs, p)" "oq_pending q' = p"
    using assms by (auto simp: OutboundQueue_abandon_message_def Let_def split: res.splits if_splits)
  note len = remove_message_len [OF p(1)]
  show "OutboundQueue_pending_len q' \<le> OutboundQueue_pending_len q" using len(1) p(2) by (simp add: outbound)
  assume "PendingQueue_peek (oq_pending q) = Some c" "d_message_id c = i"
  then have "c \<in> set cs" using peek_mem [of "oq_pending q" c] len(2) by auto
  then have "0 < length cs" by (cases cs) auto
  then show "OutboundQueue_pending_len q' < OutboundQueue_pending_len q" using len(1) p(2) by (simp add: outbound)
qed

lemma expire_tail_pending:
  assumes "OutboundQueue_expire_pending_tail q now t = Ok (Some x, t', q')"
  shows "OutboundQueue_pending_len q' < OutboundQueue_pending_len q"
  using assms abandon_message_pending(2)
  by (auto simp: OutboundQueue_expire_pending_tail_def split: option.splits if_splits res.splits)

lemma expire_pending_pending:
  assumes "OutboundQueue_expire_pending q now = Ok (Some x, q')"
  shows "OutboundQueue_pending_len q' < OutboundQueue_pending_len q"
proof -
  obtain c where c: "PendingQueue_peek (oq_pending q) = Some c"
    using assms by (auto simp: OutboundQueue_expire_pending_def split: option.splits)
  then obtain n cs p where p: "PendingQueue_remove_message (oq_pending q) (d_message_id c) = Ok (n, cs, p)"
    "pd_queue_len (oq_pending q') = pd_queue_len p"
    using assms by (auto simp: OutboundQueue_expire_pending_def Let_def PendingQueue_compact_ordered_ssns_def
        split: if_splits res.splits)
  note len = remove_message_len [OF p(1)]
  have "c \<in> set cs" using peek_mem [OF c] len(2) by auto
  then have "0 < length cs" by (cases cs) auto
  then show ?thesis using len(1) p(2) by (simp add: outbound)
qed

subsection \<open>Sending the chunk at the head\<close>

lemma start_timed_peek:
  "map_option dlen (PendingQueue_peek (oq_pending (OutboundQueue_start_timed_messages q now))) =
    map_option dlen (PendingQueue_peek (oq_pending q))"
  by (auto simp: OutboundQueue_start_timed_messages_def PendingQueue_start_timed_messages_def
      intro!: PendingQueue_peek_map_cong start_timed_queue_same)

lemma send_next_head:
  assumes "OutboundQueue_inv q" "OutboundQueue_get q t = None" "OutboundQueue_peek_pending q = Some c"
  obtains c' q' where "OutboundQueue_send_next q t now = Ok (Some c', t + 1, q')" "dlen c' = dlen c" "d_tsn c' = t" "OutboundQueue_inv q'"
    "OutboundQueue_inflight_bytes q' = OutboundQueue_inflight_bytes q + dlen c"
    "OutboundQueue_pending_len q = OutboundQueue_pending_len q' + 1" "OutboundQueue_get q' = (OutboundQueue_get q)(t \<mapsto> c')"
proof -
  define q0 where "q0 = OutboundQueue_start_timed_messages q now"
  obtain c0 where c0: "PendingQueue_peek (oq_pending q0) = Some c0" "dlen c0 = dlen c"
    using assms(3) start_timed_peek [of q now] by (auto simp: q0_def OutboundQueue_peek_pending_def)
  obtain r t' q' where r: "OutboundQueue_send_next q t now = Ok (r, t', q')" "OutboundQueue_inv q'"
    "case r of None \<Rightarrow> t' = t \<and> OutboundQueue_pending_len q = 0 \<and> oq_inflight q' = oq_inflight q
     | Some c \<Rightarrow> t' = t + 1 \<and> d_tsn c = t \<and> d_nsent c = 1 \<and> d_since c = Some now \<and>
         OutboundQueue_get q' = (OutboundQueue_get q)(t \<mapsto> c) \<and> OutboundQueue_pending_len q = OutboundQueue_pending_len q' + 1"
    using OutboundQueue_send_next_ok [OF assms(1,2), of now] by blast
  have q0: "OutboundQueue_inv q0" "oq_inflight q0 = oq_inflight q"
    using OutboundQueue_inv_start_timed [OF assms(1)] by (auto simp: q0_def)
  then obtain s where s: "PendingQueue_counts (oq_pending q0)" "PendingQueue_shape s (oq_pending q0)"
    by (auto simp: OutboundQueue_inv_def PendingQueue_inv_def)
  obtain p where p: "PendingQueue_pop (oq_pending q0) (d_beginning_fragment c0) (d_unordered c0) = Ok (Some c0, p)"
    using PendingQueue_pop_peeked [OF s c0(1)] by blast
  let ?c = "c0\<lparr>d_tsn := t, d_since := Some now, d_nsent := 1\<rparr>"
  have sent: "OutboundQueue_send_next q t now =
      Ok (Some ?c, t + 1, q0\<lparr>oq_pending := p, oq_inflight := PayloadQueue_push_no_check (oq_inflight q) ?c\<rparr>)"
    using p c0(1) q0(2) by (simp add: OutboundQueue_send_next_def q0_def [symmetric] Let_def)
  then have r': "r = Some ?c" "t' = t + 1" "oq_inflight q' = PayloadQueue_push_no_check (oq_inflight q) ?c" using r(1) by auto
  have "PayloadQueue_get_num_bytes (PayloadQueue_push_no_check (oq_inflight q) ?c) = PayloadQueue_get_num_bytes (oq_inflight q) + dlen c"
    using c0(2) by (simp add: PayloadQueue_get_num_bytes_def PayloadQueue_push_no_check_def PayloadQueue_update_sorted_keys_def)
  then show ?thesis using that [of ?c q'] r r' c0(2) by (simp add: OutboundQueue_inflight_bytes_def)
qed

subsection \<open>Abandoning and expiry\<close>

text \<open>Releasing buffered bytes never panics and touches neither the queue nor the windows.\<close>

lemma release_runs:
  "fst (release_buffer sid n a) = Ok ()"
  "fst (release_abandoned_buffer sid i k a) = Ok ()"
  "fst (release_expired sid u k a) = Ok ()"
proof -
  show b: "fst (release_buffer sid n a) = Ok ()" for n a
    by (simp add: release_buffer_def on_buffer_released_ok alift_def Let_def split: option.split)
  show "fst (release_abandoned_buffer sid i k a) = Ok ()"
    by (simp add: release_abandoned_buffer_def b split: option.split)
  show "fst (release_expired sid u k a) = Ok ()" by (simp add: release_expired_def b)
qed

lemma abind_runs: "fst m = Ok x \<Longrightarrow> abind m f = f x (snd m)"
  by (cases m) simp

lemmas abind_release [simp] = release_runs [THEN abind_runs]

lemma release_frame [simp]:
  "a_outbound_queue (snd (release_buffer sid n a)) = a_outbound_queue a"
  "a_my_next_tsn (snd (release_buffer sid n a)) = a_my_next_tsn a"
  "a_cwnd (snd (release_buffer sid n a)) = a_cwnd a" "a_rwnd (snd (release_buffer sid n a)) = a_rwnd a"
  "a_use_forward_tsn (snd (release_buffer sid n a)) = a_use_forward_tsn a"
  by (auto simp: release_buffer_def upd_stream_def push_event_def Let_def alift_def on_buffer_released_ok split: option.split)

lemma release_abandoned_frame [simp]:
  "a_outbound_queue (snd (release_abandoned_buffer sid i n a)) = a_outbound_queue a"
  "a_my_next_tsn (snd (release_abandoned_buffer sid i n a)) = a_my_next_tsn a"
  "a_cwnd (snd (release_abandoned_buffer sid i n a)) = a_cwnd a" "a_rwnd (snd (release_abandoned_buffer sid i n a)) = a_rwnd a"
  by (auto simp: release_abandoned_buffer_def split: option.split)

lemma release_expired_frame [simp]:
  "a_outbound_queue (snd (release_expired sid u n a)) = a_outbound_queue a"
  "a_my_next_tsn (snd (release_expired sid u n a)) = a_my_next_tsn a"
  "a_cwnd (snd (release_expired sid u n a)) = a_cwnd a" "a_rwnd (snd (release_expired sid u n a)) = a_rwnd a"
  by (auto simp: release_expired_def upd_stream_def)

lemma sender_more: "sender_ok n a \<Longrightarrow> n \<le> m \<Longrightarrow> sender_ok m a"
  by (fastforce simp: sender_ok_def flight_before_def)

lemma sender_fresh: "sender_ok n a \<Longrightarrow> OutboundQueue_get (a_outbound_queue a) (a_my_next_tsn a) = None"
  by (auto simp: sender_ok_def flight_before_fresh)

lemma abandon_if_needed_ok:
  assumes "sender_ok n a" "n + 1 < 2 ^ 32"
  obtains r a' where "abandon_if_needed t now a = (Ok r, a')" "sender_ok (n + 1) a'" "same_windows a a'"
    "pending_chunks a' \<le> pending_chunks a"
proof -
  let ?q = "a_outbound_queue a"
  have inv: "OutboundQueue_inv ?q" using assms(1) by (simp add: sender_ok_def)
  obtain r t' q' where r: "OutboundQueue_abandon ?q t (a_my_next_tsn a) = Ok (r, t', q')"
    "reserves_at_most_one ?q (a_my_next_tsn a) (case r of None \<Rightarrow> 0 | Some (_, n) \<Rightarrow> n) t' q'"
    using OutboundQueue_abandon_reserves [OF inv sender_fresh [OF assms(1)]] by blast
  have "OutboundQueue_pending_len q' \<le> OutboundQueue_pending_len ?q"
    using r(1) abandon_message_pending(1) by (auto simp: OutboundQueue_abandon_def split: option.splits if_splits)
  moreover have "flight_before (n + 1) t' q'"
    using reserves_flight_before [OF _ assms(2) r(2)] assms(1) by (simp add: sender_ok_def)
  moreover have "OutboundQueue_inv q'" using r(2) by (simp add: reserves_at_most_one_def)
  moreover obtain x a' where a': "abandon_if_needed t now a = (Ok x, a')"
    "a' = a \<or> a_outbound_queue a' = q' \<and> a_my_next_tsn a' = t' \<and> same_windows a a'"
  proof (cases "OutboundQueue_get ?q t")
    case None
    then show ?thesis using that [of False a] by (simp add: abandon_if_needed_def)
  next
    case (Some c)
    let ?b = "a\<lparr>a_outbound_queue := q', a_my_next_tsn := t'\<rparr>"
    let ?c = "case r of Some (sid, n) \<Rightarrow> snd (release_abandoned_buffer sid (d_message_id c) n ?b) | None \<Rightarrow> ?b"
    have c: "a_outbound_queue ?c = q'" "a_my_next_tsn ?c = t'" "same_windows a ?c"
      by (simp_all add: same_windows_def split: option.split)
    have "abandon_if_needed t now a \<in> {(Ok True, a), (Ok False, a), (Ok True, ?c)}"
      unfolding abandon_if_needed_def Some r(1) by (simp add: Let_def split: option.split)
    then show ?thesis using c that by blast
  qed
  ultimately show ?thesis
    using that [OF a'(1)] sender_more [OF assms(1), of "n + 1"] by (auto simp: sender_ok_def same_windows_def)
qed

lemma abandon_all_ok:
  assumes "sender_ok n a" "n + length ts < 2 ^ 32"
  obtains r a' where "afold (\<lambda>tsn abandoned a. abind (abandon_if_needed tsn now a) (\<lambda>r a. (Ok (abandoned \<or> r), a))) ts b a = (Ok r, a')"
    "sender_ok (n + length ts) a'" "same_windows a a'" "pending_chunks a' \<le> pending_chunks a"
  using assms
proof (induction ts arbitrary: n a b thesis)
  case Nil
  then show ?case by (simp add: same_windows_def)
next
  case (Cons t ts)
  obtain r a1 where a1: "abandon_if_needed t now a = (Ok r, a1)" "sender_ok (n + 1) a1" "same_windows a a1"
    "pending_chunks a1 \<le> pending_chunks a"
    by (rule abandon_if_needed_ok [of n a t now]) (use Cons.prems in auto)
  obtain r' a2 where "afold (\<lambda>tsn abandoned a. abind (abandon_if_needed tsn now a) (\<lambda>r a. (Ok (abandoned \<or> r), a))) ts (b \<or> r) a1 = (Ok r', a2)"
    "sender_ok (n + 1 + length ts) a2" "same_windows a1 a2" "pending_chunks a2 \<le> pending_chunks a1"
    by (rule Cons.IH [where n = "n + 1" and a = a1 and b = "b \<or> r"]) (use a1 Cons.prems in auto)
  then show ?case using Cons.prems(1) [of r' a2] a1 by (simp add: same_windows_def)
qed

lemma expire_tail_ok:
  assumes "sender_ok n a" "n + fuel < 2 ^ 32" "pending_chunks a < fuel"
  obtains r a' where "expire_tail_loop fuel now b a = (Ok r, a')" "sender_ok (n + fuel) a'" "same_windows a a'"
    "pending_chunks a' \<le> pending_chunks a"
  using assms
proof (induction fuel arbitrary: n a b thesis)
  case (Suc fuel)
  let ?q = "a_outbound_queue a"
  have inv: "OutboundQueue_inv ?q" using Suc.prems(2) by (simp add: sender_ok_def)
  obtain r t' q' where r: "OutboundQueue_expire_pending_tail ?q now (a_my_next_tsn a) = Ok (r, t', q')"
    "reserves_at_most_one ?q (a_my_next_tsn a) (case r of None \<Rightarrow> 0 | Some (_, _, n) \<Rightarrow> n) t' q'"
    using OutboundQueue_expire_pending_tail_reserves [OF inv sender_fresh [OF Suc.prems(2)]] by blast
  let ?b = "a\<lparr>a_outbound_queue := q', a_my_next_tsn := t'\<rparr>"
  have "flight_before (n + 1) t' q'"
    by (rule reserves_flight_before [OF _ _ r(2)]) (use Suc.prems in \<open>auto simp: sender_ok_def\<close>)
  then have b: "sender_ok (n + 1) ?b" using r(2) by (simp add: sender_ok_def reserves_at_most_one_def)
  show ?case
  proof (cases r)
    case None
    then have "t' = a_my_next_tsn a \<and> q' = ?q"
      using r(1) by (auto simp: OutboundQueue_expire_pending_tail_def OutboundQueue_abandon_message_def Let_def
          split: option.splits if_splits res.splits)
    then show ?thesis
      using Suc.prems(1) [of b ?b] r(1) None sender_more [OF b, of "n + Suc fuel"] by (simp add: same_windows_def)
  next
    case (Some x)
    obtain sid i k where x: "x = (sid, i, k)" by (cases x) auto
    let ?c = "snd (release_abandoned_buffer sid i k ?b)"
    have less: "OutboundQueue_pending_len q' < OutboundQueue_pending_len ?q"
      using expire_tail_pending r(1) Some by blast
    have c: "sender_ok (n + 1) ?c" using b by (simp add: sender_ok_def)
    obtain r' a' where "expire_tail_loop fuel now True ?c = (Ok r', a')" "sender_ok (n + 1 + fuel) a'" "same_windows ?c a'"
      "pending_chunks a' \<le> pending_chunks ?c"
      by (rule Suc.IH [OF _ c, where b = True]) (use Suc.prems(3,4) less in simp_all)
    then show ?thesis using Suc.prems(1) [of r' a'] r(1) Some x less by (simp add: same_windows_def)
  qed
qed simp

lemma expire_inflight_ok:
  assumes "sender_ok n a" "n + OutboundQueue_inflight_len (a_outbound_queue a) + pending_chunks a + 1 < 2 ^ 32"
  obtains a' where "expire_inflight_messages now a = (Ok (), a')"
    "sender_ok (n + OutboundQueue_inflight_len (a_outbound_queue a) + pending_chunks a + 1) a'" "same_windows a a'"
    "pending_chunks a' \<le> pending_chunks a"
proof (cases "a_use_forward_tsn a")
  case True
  define b where "b = a\<lparr>a_outbound_queue := OutboundQueue_start_timed_messages (a_outbound_queue a) now\<rparr>"
  have start: "OutboundQueue_inv (a_outbound_queue b)" "oq_inflight (a_outbound_queue b) = oq_inflight (a_outbound_queue a)"
      "pending_chunks b = pending_chunks a"
    using OutboundQueue_inv_start_timed [of "a_outbound_queue a" now] assms(1) by (auto simp: b_def sender_ok_def outbound)
  then have "OutboundQueue_get (a_outbound_queue b) = OutboundQueue_get (a_outbound_queue a)" by (intro OutboundQueue_get_cong)
  then have b: "sender_ok n b" "same_windows a b" using start(1) assms(1) by (simp_all add: b_def sender_ok_def flight_before_def same_windows_def)
  let ?ts = "OutboundQueue_expired_inflight (a_outbound_queue b) now"
  have "length (pq_sorted (oq_inflight (a_outbound_queue a))) = OutboundQueue_inflight_len (a_outbound_queue a)"
    using start(1,2) by (metis OutboundQueue_inv_def PayloadQueue_inv_def OutboundQueue_inflight_len_def PayloadQueue_len_def
        mset_eq_length length_map)
  moreover have "length ?ts \<le> length (pq_sorted (oq_inflight (a_outbound_queue b)))"
    unfolding OutboundQueue_expired_inflight_def by (rule length_filter_le)
  ultimately have len: "length ?ts \<le> OutboundQueue_inflight_len (a_outbound_queue a)" using start(2) by simp
  obtain r1 a1 where a1: "afold (\<lambda>tsn abandoned a. abind (abandon_if_needed tsn now a) (\<lambda>r a. (Ok (abandoned \<or> r), a))) ?ts False b = (Ok r1, a1)"
    "sender_ok (n + length ?ts) a1" "same_windows b a1" "pending_chunks a1 \<le> pending_chunks b"
    by (rule abandon_all_ok [OF b(1), of ?ts now False]) (use len assms(2) in linarith)
  obtain r2 a2 where a2: "expire_tail_loop (pending_chunks a1 + 1) now r1 a1 = (Ok r2, a2)"
    "sender_ok (n + length ?ts + (pending_chunks a1 + 1)) a2" "same_windows a1 a2" "pending_chunks a2 \<le> pending_chunks a1"
    by (rule expire_tail_ok [OF a1(2), of "pending_chunks a1 + 1" now r1]) (use len assms(2) a1(4) start(3) in linarith)+
  let ?a = "if r2 then upd_timers (\<lambda>t. TimerTable_restart_if_stale t T3RTX now (RtoManager_get_rto (a_rto_mgr a2))) a2 else a2"
  have run: "expire_inflight_messages now a = (Ok (), ?a)"
    using True a1(1) a2(1) by (simp add: expire_inflight_messages_def b_def Let_def)
  have "sender_ok (n + OutboundQueue_inflight_len (a_outbound_queue a) + pending_chunks a + 1) a2"
    by (rule sender_more [OF a2(2)]) (use len a1(4) start(3) in linarith)
  then show ?thesis
    by (intro that [OF run]) (use b(2) a1(3,4) a2(3,4) start(3) in \<open>auto simp: sender_ok_def same_windows_def upd_timers_def\<close>)
next
  case False
  then show ?thesis
    using that [of a] sender_more [OF assms(1)] by (simp add: expire_inflight_messages_def same_windows_def)
qed

subsection \<open>Taking pending chunks\<close>

lemma taken_nothing:
  "a_cwnd b = a_cwnd a \<Longrightarrow> a_rwnd b = a_rwnd a \<Longrightarrow> OutboundQueue_get (a_outbound_queue b) = OutboundQueue_get (a_outbound_queue a) \<Longrightarrow>
    taken [] a b"
  by (simp add: taken_def)

lemma expire_pending_ok:
  assumes "sender_ok n a"
  obtains r a1 where "expire_pending now a = (Ok r, a1)" "sender_ok n a1" "same_windows a a1" "a_my_next_tsn a1 = a_my_next_tsn a"
    "OutboundQueue_get (a_outbound_queue a1) = OutboundQueue_get (a_outbound_queue a)"
    "OutboundQueue_inflight_bytes (a_outbound_queue a1) = OutboundQueue_inflight_bytes (a_outbound_queue a)"
    "r = None \<Longrightarrow> a1 = a" "r \<noteq> None \<Longrightarrow> pending_chunks a1 < pending_chunks a"
proof (cases "a_use_forward_tsn a")
  case True
  obtain r q' where r: "OutboundQueue_expire_pending (a_outbound_queue a) now = Ok (r, q')" "OutboundQueue_inv q'"
    "oq_inflight q' = oq_inflight (a_outbound_queue a)"
    using OutboundQueue_expire_pending_ok [of "a_outbound_queue a" now] assms by (auto simp: sender_ok_def)
  note same = OutboundQueue_get_cong [OF r(3)]
  show ?thesis
  proof (rule that [of r "a\<lparr>a_outbound_queue := q'\<rparr>"])
    show "expire_pending now a = (Ok r, a\<lparr>a_outbound_queue := q'\<rparr>)" using True r(1) by (simp add: expire_pending_def)
    show "r = None \<Longrightarrow> a\<lparr>a_outbound_queue := q'\<rparr> = a"
      using r(1) by (intro Association.equality)
        (auto simp: OutboundQueue_expire_pending_def Let_def split: option.splits if_splits res.splits)
    show "r \<noteq> None \<Longrightarrow> pending_chunks (a\<lparr>a_outbound_queue := q'\<rparr>) < pending_chunks a"
      using r(1) expire_pending_pending by auto
  qed (use r assms same in \<open>simp_all add: sender_ok_def flight_before_def same_windows_def OutboundQueue_inflight_bytes_def\<close>)
next
  case False
  then show ?thesis using assms by (intro that [of None a]) (simp_all add: expire_pending_def same_windows_def)
qed

text \<open>One more chunk in front.\<close>

lemma taken_Cons:
  assumes c: "d_tsn c = a_my_next_tsn a" "dlen c \<le> unat (a_rwnd a)"
      "OutboundQueue_inflight_bytes (a_outbound_queue b) \<le> unat (a_cwnd a)"
    and b: "a_cwnd b = a_cwnd a" "a_rwnd b = a_rwnd a - of_nat (dlen c)" "a_my_next_tsn b = a_my_next_tsn a + 1"
      "OutboundQueue_get (a_outbound_queue a) (a_my_next_tsn a) = None"
      "OutboundQueue_get (a_outbound_queue b) = (OutboundQueue_get (a_outbound_queue a))(a_my_next_tsn a \<mapsto> c)"
    and t: "taken new b d" "new = [] \<Longrightarrow> OutboundQueue_inflight_bytes (a_outbound_queue d) = OutboundQueue_inflight_bytes (a_outbound_queue b)"
  shows "taken (c # new) a d"
proof -
  have d: "unat (of_nat (dlen c) :: u32) = dlen c" using c(2) unat_bound [of "a_rwnd a"] by (intro unat_of_nat_u32) simp
  then have r: "unat (a_rwnd b) = unat (a_rwnd a) - dlen c" using c(2) b(2) by (simp add: unat_sub word_le_nat_alt)
  have t': "a_cwnd d = a_cwnd b" "total_len new \<le> unat (a_rwnd b)" "a_rwnd d = a_rwnd b - of_nat (total_len new)"
    "new = [] \<or> OutboundQueue_inflight_bytes (a_outbound_queue d) \<le> unat (a_cwnd b)"
    "map d_tsn new = map (\<lambda>i. a_my_next_tsn b + of_nat i) [0..<length new]"
    "OutboundQueue_get (a_outbound_queue b) \<subseteq>\<^sub>m OutboundQueue_get (a_outbound_queue d)"
    "\<forall>c \<in> set new. OutboundQueue_get (a_outbound_queue d) (d_tsn c) = Some c"
    using t(1) by (simp_all add: taken_def)
  have "OutboundQueue_get (a_outbound_queue b) (a_my_next_tsn a) = Some c" using b(5) by simp
  then have "OutboundQueue_get (a_outbound_queue d) (d_tsn c) = Some c"
    using t'(6) c(1) unfolding map_le_def by (metis domI)
  moreover have "OutboundQueue_get (a_outbound_queue a) \<subseteq>\<^sub>m OutboundQueue_get (a_outbound_queue b)"
    using b(4,5) by (auto simp: map_le_def)
  then have "OutboundQueue_get (a_outbound_queue a) \<subseteq>\<^sub>m OutboundQueue_get (a_outbound_queue d)" using t'(6) by (rule map_le_trans)
  moreover have "d_tsn c # map d_tsn new = map (\<lambda>i. a_my_next_tsn a + of_nat i) [0..<Suc (length new)]"
    unfolding t'(5) using c(1) b(3) by (simp add: map_upt_Suc add_ac del: upt_Suc)
  ultimately show ?thesis
    using t'(1-4,7) t(2) b(1,2) c(2,3) r by (auto simp: taken_def)
qed

lemma pop_pending_sends:
  assumes a: "sender_ok n a" "n + 1 < 2 ^ 32" "expire_pending now a = (Ok None, a)"
    and c: "OutboundQueue_peek_pending (a_outbound_queue a) = Some c" "dlen c \<le> unat (a_rwnd a)"
      "OutboundQueue_inflight_bytes (a_outbound_queue a) + dlen c \<le> unat (a_cwnd a)"
  obtains c' b where "pop_pending_loop (Suc fuel) now acc a = pop_pending_loop fuel now (acc @ [c']) b" "sender_ok (n + 1) b"
    "pending_chunks a = pending_chunks b + 1"
    "\<forall>new d. taken new b d \<and> (new = [] \<longrightarrow> OutboundQueue_inflight_bytes (a_outbound_queue d) = OutboundQueue_inflight_bytes (a_outbound_queue b)) \<longrightarrow>
      taken (c' # new) a d"
proof -
  let ?q = "a_outbound_queue a"
  have inv: "OutboundQueue_inv ?q" using a(1) by (simp add: sender_ok_def)
  note fresh = sender_fresh [OF a(1)]
  obtain c' q' where s: "OutboundQueue_send_next ?q (a_my_next_tsn a) now = Ok (Some c', a_my_next_tsn a + 1, q')"
    "dlen c' = dlen c" "d_tsn c' = a_my_next_tsn a" "OutboundQueue_inv q'"
    "OutboundQueue_inflight_bytes q' = OutboundQueue_inflight_bytes ?q + dlen c"
    "OutboundQueue_pending_len ?q = OutboundQueue_pending_len q' + 1"
    "OutboundQueue_get q' = (OutboundQueue_get ?q)(a_my_next_tsn a \<mapsto> c')"
    by (rule send_next_head [OF inv fresh c(1)])
  let ?b = "a\<lparr>a_rwnd := a_rwnd a - of_nat (dlen c), a_outbound_queue := q', a_my_next_tsn := a_my_next_tsn a + 1\<rparr>"
  have "flight_before (n + 1) (a_my_next_tsn a + 1) q'"
    by (rule flight_before_next [of n _ ?q]) (use a(1,2) s(7) in \<open>auto simp: sender_ok_def\<close>)
  then have b: "sender_ok (n + 1) ?b" using s(4) by (simp add: sender_ok_def)
  have step: "pop_pending_loop (Suc fuel) now acc a = pop_pending_loop fuel now (acc @ [c']) ?b"
    using a(3) c s(1) by (simp add: send_next_data_chunk_def Let_def)
  have "taken (c' # new) a d" if "taken new ?b d"
    "new = [] \<Longrightarrow> OutboundQueue_inflight_bytes (a_outbound_queue d) = OutboundQueue_inflight_bytes (a_outbound_queue ?b)" for new d
    by (rule taken_Cons [OF _ _ _ _ _ _ fresh _ that]) (use s c in simp_all)
  then show ?thesis using that [OF step b] s(6) by simp
qed

lemma pop_pending_ok:
  assumes "sender_ok n a" "n + fuel < 2 ^ 32" "pending_chunks a < fuel"
  obtains new a' where "pop_pending_loop fuel now acc a = (Ok (acc @ new), a')" "sender_ok (n + fuel) a'" "taken new a a'"
    "new = [] \<Longrightarrow> OutboundQueue_inflight_bytes (a_outbound_queue a') = OutboundQueue_inflight_bytes (a_outbound_queue a)"
  using assms
proof (induction fuel arbitrary: n a acc thesis)
  case (Suc fuel)
  obtain r a1 where e: "expire_pending now a = (Ok r, a1)" "sender_ok n a1" "same_windows a a1" "a_my_next_tsn a1 = a_my_next_tsn a"
    "OutboundQueue_get (a_outbound_queue a1) = OutboundQueue_get (a_outbound_queue a)"
    "OutboundQueue_inflight_bytes (a_outbound_queue a1) = OutboundQueue_inflight_bytes (a_outbound_queue a)"
    "r = None \<Longrightarrow> a1 = a" "r \<noteq> None \<Longrightarrow> pending_chunks a1 < pending_chunks a"
    using expire_pending_ok [OF Suc.prems(2), of now] by blast
  have stop: ?case if "pop_pending_loop (Suc fuel) now acc a = (Ok acc, a)"
    using Suc.prems(1) [of "[]" a] that taken_nothing [of a a] sender_more [OF Suc.prems(2), of "n + Suc fuel"] by simp
  show ?case
  proof (cases r)
    case (Some x)
    obtain sid u k where x: "x = (sid, u, k)" by (cases x) auto
    let ?b = "snd (release_expired sid u k a1)"
    have b: "sender_ok n ?b" using e(2) by (simp add: sender_ok_def)
    obtain new a' where i: "pop_pending_loop fuel now acc ?b = (Ok (acc @ new), a')" "sender_ok (n + fuel) a'" "taken new ?b a'"
      "new = [] \<Longrightarrow> OutboundQueue_inflight_bytes (a_outbound_queue a') = OutboundQueue_inflight_bytes (a_outbound_queue ?b)"
      by (rule Suc.IH [OF _ b, of acc]) (use Suc.prems(3,4) e(8) Some in simp_all)
    have "taken new a a'" using i(3) e(3-5) by (simp add: taken_def same_windows_def)
    then show ?thesis
      using Suc.prems(1) [of new a'] i(1,2,4) e(1,6) Some x sender_more [OF i(2), of "n + Suc fuel"] by simp
  next
    case None
    then have a1: "expire_pending now a = (Ok None, a)" using e(1,7) by simp
    let ?q = "a_outbound_queue a"
    consider (nothing) "OutboundQueue_peek_pending ?q = None"
      | (full) c where "OutboundQueue_peek_pending ?q = Some c"
          "unat (a_cwnd a) < OutboundQueue_inflight_bytes ?q + dlen c \<or> unat (a_rwnd a) < dlen c"
      | (send) c where "OutboundQueue_peek_pending ?q = Some c" "dlen c \<le> unat (a_rwnd a)"
          "OutboundQueue_inflight_bytes ?q + dlen c \<le> unat (a_cwnd a)" by fastforce
    then show ?thesis
    proof cases
      case nothing
      then show ?thesis using stop a1 by simp
    next
      case full
      then show ?thesis using stop a1 by (auto simp: Let_def)
    next
      case send
      have lt: "n + 1 < 2 ^ 32" using Suc.prems(3) by simp
      obtain c' b where s: "pop_pending_loop (Suc fuel) now acc a = pop_pending_loop fuel now (acc @ [c']) b" "sender_ok (n + 1) b"
        "pending_chunks a = pending_chunks b + 1"
        "\<forall>new d. taken new b d \<and> (new = [] \<longrightarrow> OutboundQueue_inflight_bytes (a_outbound_queue d) = OutboundQueue_inflight_bytes (a_outbound_queue b)) \<longrightarrow>
          taken (c' # new) a d"
        by (rule pop_pending_sends [OF Suc.prems(2) lt a1 send, of fuel acc])
      obtain new a' where "pop_pending_loop fuel now (acc @ [c']) b = (Ok ((acc @ [c']) @ new), a')"
        "sender_ok (n + 1 + fuel) a'" "taken new b a'"
        "new = [] \<Longrightarrow> OutboundQueue_inflight_bytes (a_outbound_queue a') = OutboundQueue_inflight_bytes (a_outbound_queue b)"
        by (rule Suc.IH [OF _ s(2), of "acc @ [c']"]) (use Suc.prems(3,4) s(3) in simp_all)
      then show ?thesis using Suc.prems(1) [of "c' # new" a'] s(1,4) by simp
    qed
  qed
qed simp

subsection \<open>Properties\<close>

text \<open>The probe of an empty flight, which ignores the windows.\<close>

lemma send_probe:
  assumes a: "sender_ok n a" "OutboundQueue_inflight_len (a_outbound_queue a) = 0"
  obtains r a' where "send_next_data_chunk now a = (Ok r, a')" "OutboundQueue_inv (a_outbound_queue a')" "a_rwnd a' = a_rwnd a"
    "\<And>c. r = Some c \<Longrightarrow> OutboundQueue_get (a_outbound_queue a') (d_tsn c) = Some c \<and> dom (OutboundQueue_get (a_outbound_queue a')) = {d_tsn c}"
proof -
  let ?q = "a_outbound_queue a"
  have inv: "OutboundQueue_inv ?q" using a(1) by (simp add: sender_ok_def)
  have none: "OutboundQueue_get ?q = Map.empty"
    using a(2) by (simp add: fun_eq_iff OutboundQueue_get_def OutboundQueue_inflight_len_def PayloadQueue_len_def PayloadQueue_get_def)
  obtain r t' q' where r: "OutboundQueue_send_next ?q (a_my_next_tsn a) now = Ok (r, t', q')" "OutboundQueue_inv q'"
    "\<And>c. r = Some c \<Longrightarrow> d_tsn c = a_my_next_tsn a \<and> OutboundQueue_get q' = (OutboundQueue_get ?q)(a_my_next_tsn a \<mapsto> c)"
    using OutboundQueue_send_next_ok [OF inv sender_fresh [OF a(1)], of now] by (auto split: option.splits)
  have "send_next_data_chunk now a = (Ok r, a\<lparr>a_outbound_queue := q', a_my_next_tsn := t'\<rparr>)"
    using r(1) by (simp add: send_next_data_chunk_def)
  then show ?thesis by (rule that) (use r(2,3) none in auto)
qed

text \<open>
  C9: choosing new data. On an outbound queue that satisfies its invariant, and whose flight lies before the
  next TSN, the choice of new DATA ends without a panic and keeps the invariant. The chosen chunks have
  consecutive TSNs and are in flight. Either they fit the peer's receive window, which shrinks by their
  bytes, and leave the flight within the congestion window; or there is one chunk, which is all that is
  in flight.
\<close>

theorem new_data_within_windows:
  assumes q: "OutboundQueue_inv (a_outbound_queue a)" "flight_before n (a_my_next_tsn a) (a_outbound_queue a)"
    "n + OutboundQueue_inflight_len (a_outbound_queue a) + 2 * OutboundQueue_pending_len (a_outbound_queue a) + 2 < 2 ^ 32"
  shows "\<exists>chunks a'. pop_pending_data_chunks_to_send now a = (Ok chunks, a') \<and> OutboundQueue_inv (a_outbound_queue a') \<and>
    (\<exists>t. map d_tsn chunks = map (\<lambda>i. t + of_nat i) [0..<length chunks]) \<and>
    (\<forall>c \<in> set chunks. OutboundQueue_get (a_outbound_queue a') (d_tsn c) = Some c) \<and>
    (total_len chunks \<le> unat (a_rwnd a) \<and> a_rwnd a' = a_rwnd a - of_nat (total_len chunks) \<and>
       (chunks = [] \<or> OutboundQueue_inflight_bytes (a_outbound_queue a') \<le> unat (a_cwnd a)) \<or>
     (\<exists>c. chunks = [c] \<and> dom (OutboundQueue_get (a_outbound_queue a')) = {d_tsn c} \<and> a_rwnd a' = a_rwnd a))"
proof -
  let ?m = "n + OutboundQueue_inflight_len (a_outbound_queue a) + pending_chunks a + 1"
  have m: "?m + pending_chunks a + 1 < 2 ^ 32" using q(3) by simp
  have a: "sender_ok n a" using q(1,2) by (simp add: sender_ok_def)
  obtain a1 where a1: "expire_inflight_messages now a = (Ok (), a1)" "sender_ok ?m a1" "same_windows a a1" "pending_chunks a1 \<le> pending_chunks a"
    by (rule expire_inflight_ok [OF a]) (use m in linarith)
  show ?thesis
  proof (cases "pending_chunks a1 = 0")
    case True
    then have "pop_pending_data_chunks_to_send now a = (Ok [], a1)" using a1(1) by (simp add: pop_pending_data_chunks_to_send_def)
    then show ?thesis using a1(2,3) by (intro exI [of _ "[]"] exI [of _ a1]) (simp add: sender_ok_def same_windows_def)
  next
    case False
    obtain new a2 where p: "pop_pending_loop (pending_chunks a1 + 1) now [] a1 = (Ok ([] @ new), a2)"
      "sender_ok (?m + (pending_chunks a1 + 1)) a2" "taken new a1 a2"
      by (rule pop_pending_ok [OF a1(2), of "pending_chunks a1 + 1" now "[]"]) (use m a1(4) in linarith)+
    show ?thesis
    proof (cases "new = [] \<and> OutboundQueue_inflight_len (a_outbound_queue a2) = 0")
      case True
      obtain r a3 where s: "send_next_data_chunk now a2 = (Ok r, a3)" "OutboundQueue_inv (a_outbound_queue a3)" "a_rwnd a3 = a_rwnd a2"
        "\<And>c. r = Some c \<Longrightarrow> OutboundQueue_get (a_outbound_queue a3) (d_tsn c) = Some c \<and> dom (OutboundQueue_get (a_outbound_queue a3)) = {d_tsn c}"
        using send_probe [OF p(2)] True by blast
      have run: "pop_pending_data_chunks_to_send now a = (Ok (case r of Some c \<Rightarrow> [c] | None \<Rightarrow> []), a3)"
        using a1(1) False p(1) True s(1) by (simp add: pop_pending_data_chunks_to_send_def del: pop_pending_loop.simps)
      have "a_rwnd a3 = a_rwnd a" using True p(3) s(3) a1(3) by (simp add: taken_def same_windows_def)
      then show ?thesis
        using s(2,4) by (intro exI [of _ "case r of Some c \<Rightarrow> [c] | None \<Rightarrow> []"] exI [of _ a3]) (cases r; simp add: run)
    next
      case more: False
      have "pop_pending_data_chunks_to_send now a = (Ok new, a2)"
        using a1(1) False p(1) more by (auto simp: pop_pending_data_chunks_to_send_def simp del: pop_pending_loop.simps)
      then show ?thesis
        using p(2,3) a1(3) by (intro exI [of _ new] exI [of _ a2]) (auto simp: taken_def same_windows_def sender_ok_def)
    qed
  qed
qed

theorem new_data_within_windows_witness:
  "let a = Association_default\<lparr>a_outbound_queue := example_outbound, a_my_next_tsn := 7, a_cwnd := 1000, a_rwnd := 1000\<rparr> in
    OutboundQueue_inv (a_outbound_queue a) \<and> flight_before 0 (a_my_next_tsn a) (a_outbound_queue a) \<and>
    (\<exists>chunks a'. pop_pending_data_chunks_to_send 5 a = (Ok chunks, a') \<and> OutboundQueue_inv (a_outbound_queue a') \<and>
    (\<exists>t. map d_tsn chunks = map (\<lambda>i. t + of_nat i) [0..<length chunks]) \<and>
    (\<forall>c \<in> set chunks. OutboundQueue_get (a_outbound_queue a') (d_tsn c) = Some c) \<and>
    (total_len chunks \<le> unat (a_rwnd a) \<and> a_rwnd a' = a_rwnd a - of_nat (total_len chunks) \<and>
       (chunks = [] \<or> OutboundQueue_inflight_bytes (a_outbound_queue a') \<le> unat (a_cwnd a)) \<or>
     (\<exists>c. chunks = [c] \<and> dom (OutboundQueue_get (a_outbound_queue a')) = {d_tsn c} \<and> a_rwnd a' = a_rwnd a)))"
proof -
  let ?a = "Association_default\<lparr>a_outbound_queue := example_outbound, a_my_next_tsn := 7, a_cwnd := 1000, a_rwnd := 1000\<rparr>"
  have q: "OutboundQueue_inv (a_outbound_queue ?a)" "flight_before 0 (a_my_next_tsn ?a) (a_outbound_queue ?a)"
    "0 + OutboundQueue_inflight_len (a_outbound_queue ?a) + 2 * OutboundQueue_pending_len (a_outbound_queue ?a) + 2 < 2 ^ 32"
    using example_outbound_inv
    by (simp_all add: example_outbound_def example_fragment_def OutboundQueue_push_def OutboundQueue_default_def flight_before_def
        OutboundQueue_get_def OutboundQueue_inflight_len_def OutboundQueue_pending_len_def PayloadQueue_len_def PendingQueue_len_def
        PayloadQueue_get_def PayloadQueue_new_def PendingQueue_new_def PendingQueue_push_def u64_checked_add_def Let_def)
  show ?thesis
    unfolding Let_def by (intro conjI q(1,2) new_data_within_windows [OF q])
qed

end
