(* ===== verification/Shutdown_Exchange.thy ===== *)
theory Shutdown_Exchange
  imports Connection
begin

text \<open>
  The shutdown exchange of two associations: SHUTDOWN, SHUTDOWN ACK and SHUTDOWN COMPLETE, each sent by
  \<^verbatim>\<open>poll_transmit\<close>, routed by the other endpoint and handled there.
\<close>

text \<open>The same tags and ports.\<close>

definition same_address :: "Association \<Rightarrow> Association \<Rightarrow> bool" where
  "same_address a b \<longleftrightarrow> a_my_verification_tag b = a_my_verification_tag a \<and> a_peer_verification_tag b = a_peer_verification_tag a \<and>
    a_source_port b = a_source_port a \<and> a_destination_port b = a_destination_port a"

subsection \<open>Sending\<close>

lemma transmit_shutdown:
  assumes "quiet (a\<lparr>a_will_send_shutdown := False\<rparr>)" "a_state a = ShutdownSent" "a_will_send_shutdown a"
    "Packet_marshal crc (create_packet a [CShutdown (a_cumulative_tsn_ack_point a)]) = Ok b"
  shows "transmitted crc now a = Some ([b], start_timer T2Shutdown now (a\<lparr>a_will_send_shutdown := False\<rparr>))"
  using assms by (simp add: transmitted_def poll_transmit_def gather_outbound_def quiet_def quiet_simps
      gather_outbound_shutdown_packets_def create_packet_def Let_def)

lemma transmit_shutdown_ack:
  assumes "quiet (a\<lparr>a_will_send_shutdown_ack := False\<rparr>)" "a_state a = ShutdownAckSent" "a_will_send_shutdown_ack a"
    "Packet_marshal crc (create_packet a [CShutdownAck]) = Ok b"
  shows "transmitted crc now a = Some ([b], start_timer T2Shutdown now (a\<lparr>a_will_send_shutdown_ack := False\<rparr>))"
  using assms by (simp add: transmitted_def poll_transmit_def gather_outbound_def quiet_def quiet_simps
      gather_outbound_shutdown_packets_def create_packet_def Let_def)

lemma transmit_shutdown_complete:
  assumes "quiet (a\<lparr>a_will_send_shutdown_complete := False\<rparr>)" "a_state a = ShutdownSent" "a_will_send_shutdown_complete a"
    "Packet_marshal crc (create_packet a [CShutdownComplete]) = Ok b"
  shows "transmitted crc now a = Some ([b], a\<lparr>a_will_send_shutdown_complete := False\<rparr>)"
  using assms by (simp add: transmitted_def poll_transmit_def gather_outbound_def quiet_def quiet_simps
      gather_outbound_shutdown_packets_def create_packet_def Let_def)

lemma transmit_nothing:
  assumes "quiet a" "a_state a = ShutdownSent"
  shows "transmitted crc now a = Some ([], a)"
  using assms by (simp add: transmitted_def poll_transmit_def gather_outbound_def quiet_def quiet_simps
      gather_outbound_shutdown_packets_def)

subsection \<open>The three legs\<close>

lemma quiet_timers [simp]:
  "quiet (start_timer t now a) = quiet a" "quiet (upd_timers f a) = quiet a"
  "quiet (a\<lparr>a_state := st\<rparr>) = quiet a" "quiet (a\<lparr>a_endpoint_events := es\<rparr>) = quiet a"
  by (simp_all add: quiet_def start_timer_def upd_timers_def)

lemma shutdown_leg:
  assumes a: "quiet (a\<lparr>a_will_send_shutdown := False\<rparr>)" "a_state a = ShutdownSent" "a_will_send_shutdown a"
      "a_source_port a \<noteq> 0" "a_destination_port a \<noteq> 0"
    and x: "quiet x" "a_state x = Established" "routed k x e" "a_peer_verification_tag a = a_my_verification_tag x"
  obtains y where "leg crc cookie now a k e x = Some (start_timer T2Shutdown now (a\<lparr>a_will_send_shutdown := False\<rparr>), y)"
    "quiet (y\<lparr>a_will_send_shutdown_ack := False\<rparr>)" "a_will_send_shutdown_ack y" "a_state y = ShutdownAckSent"
    "same_address x y" "a_timers y = a_timers x" "a_events y = a_events x"
proof -
  let ?p = "create_packet a [CShutdown (a_cumulative_tsn_ack_point a)]"
  obtain y where y: "handle_chunk cookie (Packet_on_wire ?p) (CShutdown (a_cumulative_tsn_ack_point a)) now (handle_chunk_start x) = (Ok (), y)"
    "quiet ((handle_chunk_end now y)\<lparr>a_will_send_shutdown_ack := False\<rparr>)" "a_will_send_shutdown_ack (handle_chunk_end now y)"
    "a_state (handle_chunk_end now y) = ShutdownAckSent" "same_address x (handle_chunk_end now y)"
    "a_timers (handle_chunk_end now y) = a_timers x" "a_events (handle_chunk_end now y) = a_events x"
    using x(1,2) by (simp add: handler_defs handle_shutdown_def quiet_def same_address_def)
  have check: "check_packet (Packet_on_wire ?p) = Ok ()" by (rule check_created [OF a(4,5)]) simp
  have "leg crc cookie now a k e x = Some (start_timer T2Shutdown now (a\<lparr>a_will_send_shutdown := False\<rparr>), handle_chunk_end now y)"
    by (rule leg_single [OF refl _ transmit_shutdown [OF a(1-3)] x(3,4) check])
      (use y(1) in \<open>simp_all add: CUMULATIVE_TSN_ACK_LENGTH_def\<close>)
  then show ?thesis using that y(2-7) by blast
qed

lemma shutdown_ack_leg:
  assumes a: "quiet (a\<lparr>a_will_send_shutdown_ack := False\<rparr>)" "a_state a = ShutdownAckSent" "a_will_send_shutdown_ack a"
      "a_source_port a \<noteq> 0" "a_destination_port a \<noteq> 0"
    and x: "quiet x" "a_state x = ShutdownSent" "routed k x e" "a_peer_verification_tag a = a_my_verification_tag x"
      "idle_but {T2Shutdown} (a_timers x)"
  obtains y where "leg crc cookie now a k e x = Some (start_timer T2Shutdown now (a\<lparr>a_will_send_shutdown_ack := False\<rparr>), y)"
    "quiet (y\<lparr>a_will_send_shutdown_complete := False\<rparr>)" "a_will_send_shutdown_complete y" "a_state y = ShutdownSent"
    "same_address x y" "idle_but {} (a_timers y)" "a_events y = a_events x"
proof -
  let ?p = "create_packet a [CShutdownAck]"
  obtain y where y: "handle_chunk cookie (Packet_on_wire ?p) CShutdownAck now (handle_chunk_start x) = (Ok (), y)"
    "quiet ((handle_chunk_end now y)\<lparr>a_will_send_shutdown_complete := False\<rparr>)" "a_will_send_shutdown_complete (handle_chunk_end now y)"
    "a_state (handle_chunk_end now y) = ShutdownSent" "same_address x (handle_chunk_end now y)"
    "idle_but {} (a_timers (handle_chunk_end now y))" "a_events (handle_chunk_end now y) = a_events x"
    using x(1,2,5) by (simp add: handler_defs handle_shutdown_ack_def quiet_def same_address_def)
  have check: "check_packet (Packet_on_wire ?p) = Ok ()" by (rule check_created [OF a(4,5)]) simp
  have "leg crc cookie now a k e x = Some (start_timer T2Shutdown now (a\<lparr>a_will_send_shutdown_ack := False\<rparr>), handle_chunk_end now y)"
    by (rule leg_single [OF refl _ transmit_shutdown_ack [OF a(1-3)] x(3,4) check]) (use y(1) in simp_all)
  then show ?thesis using that y(2-7) by blast
qed

lemma shutdown_complete_leg:
  assumes a: "quiet (a\<lparr>a_will_send_shutdown_complete := False\<rparr>)" "a_state a = ShutdownSent" "a_will_send_shutdown_complete a"
      "a_source_port a \<noteq> 0" "a_destination_port a \<noteq> 0"
    and x: "a_state x = ShutdownAckSent" "routed k x e" "a_peer_verification_tag a = a_my_verification_tag x"
  obtains y es where "leg crc cookie now a k e x = Some (a\<lparr>a_will_send_shutdown_complete := False\<rparr>, y)"
    "a_state y = Closed" "a_events y = es @ [AssociationLost AssociationClosed]"
proof -
  let ?p = "create_packet a [CShutdownComplete]"
  define z where "z = upd_timers (\<lambda>t. TimerTable_stop t T2Shutdown) (handle_chunk_start x)"
  have z: "a_state z \<noteq> Closed" using x(1) by (simp add: z_def upd_timers_def handle_chunk_start_def)
  obtain es where closed: "a_state (Association_close z) = Closed" "a_events (Association_close z) = es @ [AssociationLost AssociationClosed]"
    using close_keeps [OF z] by blast
  have y: "handle_chunk cookie (Packet_on_wire ?p) CShutdownComplete now (handle_chunk_start x) = (Ok (), Association_close z)"
    using x(1) by (simp add: handle_chunk_def alift_def dispatch_chunk_def handle_shutdown_complete_def z_def handle_chunk_start_def)
  have check: "check_packet (Packet_on_wire ?p) = Ok ()" by (rule check_created [OF a(4,5)]) simp
  let ?y = "handle_chunk_end now (Association_close z)"
  have "leg crc cookie now a k e x = Some (a\<lparr>a_will_send_shutdown_complete := False\<rparr>, ?y)"
    by (rule leg_single [OF refl _ transmit_shutdown_complete [OF a(1-3)] x(2,3) check]) (use y in simp_all)
  moreover have "a_state ?y = Closed" "a_events ?y = es @ [AssociationLost AssociationClosed]"
    using closed by (simp_all add: handle_chunk_end_def upd_timers_def)
  ultimately show ?thesis by (rule that)
qed

text \<open>The call of \<^verbatim>\<open>shutdown\<close> and the first leg.\<close>

lemma shutdown_starts:
  assumes c: "quiet c" "a_state c = Established" "idle_but {} (a_timers c)" "a_source_port c \<noteq> 0" "a_destination_port c \<noteq> 0"
      "routed ck c ce" "a_peer_verification_tag c = a_my_verification_tag s" "a_inflight_queue_length c = 0"
    and s: "quiet s" "a_state s = Established" "routed sk s se"
  obtains c1 c2 s1 where "Association_shutdown c = (Ok (), c1)" "a_endpoint_events c1 = a_endpoint_events c @ [Drained]"
    "leg crc cookie now c1 sk se s = Some (c2, s1)"
    "quiet (s1\<lparr>a_will_send_shutdown_ack := False\<rparr>)" "a_will_send_shutdown_ack s1" "a_state s1 = ShutdownAckSent" "same_address s s1"
    "quiet c2" "a_state c2 = ShutdownSent" "routed ck c2 ce" "same_address c c2" "idle_but {T2Shutdown} (a_timers c2)"
    "a_events c2 = a_events c"
proof -
  define c1 where "c1 = c\<lparr>a_will_send_shutdown := True, a_state := ShutdownSent, a_endpoint_events := a_endpoint_events c @ [Drained]\<rparr>"
  have start: "Association_shutdown c = (Ok (), c1)"
    using c(2,8) by (simp add: Association_shutdown_def c1_def set_state_def Let_def)
  have c1: "quiet (c1\<lparr>a_will_send_shutdown := False\<rparr>)" "a_state c1 = ShutdownSent" "a_will_send_shutdown c1"
      "a_source_port c1 \<noteq> 0" "a_destination_port c1 \<noteq> 0" "a_peer_verification_tag c1 = a_my_verification_tag s"
    using c by (simp_all add: c1_def quiet_def)
  define c2 where "c2 = start_timer T2Shutdown now (c1\<lparr>a_will_send_shutdown := False\<rparr>)"
  obtain s1 where s1: "leg crc cookie now c1 sk se s = Some (c2, s1)" "quiet (s1\<lparr>a_will_send_shutdown_ack := False\<rparr>)"
    "a_will_send_shutdown_ack s1" "a_state s1 = ShutdownAckSent" "same_address s s1"
    unfolding c2_def by (rule shutdown_leg [OF c1(1-5) s c1(6)])
  have "quiet c2" using c1(1) by (simp add: c2_def)
  moreover have "a_state c2 = ShutdownSent" "routed ck c2 ce" "same_address c c2" "idle_but {T2Shutdown} (a_timers c2)"
    "a_events c2 = a_events c"
    using c by (simp_all add: c2_def c1_def routed_def same_address_def start_timer_def upd_timers_def timer_defs)
  moreover have "a_endpoint_events c1 = a_endpoint_events c @ [Drained]" by (simp add: c1_def)
  ultimately show ?thesis using that [OF start _ s1] by blast
qed

text \<open>The endpoint that is told of \<^verbatim>\<open>Drained\<close> forgets the tag and drops the SHUTDOWN ACK.\<close>

lemma map_of_fold_delete: "map_of (fold AList.delete ks al) k = (if k \<in> set ks then None else map_of al k)"
  by (induction ks arbitrary: al) (auto simp: delete_conv')

lemma drained_drops_shutdown_ack:
  assumes e: "map_of (ep_associations e) k = Some m" "a_my_verification_tag x \<in> set (vals (am_loc_cids m))" "routed k x e"
    and p: "Packet_marshal crc (create_packet a [CShutdownAck]) = Ok b" "a_peer_verification_tag a = a_my_verification_tag x"
  obtains e' where "Endpoint_handle_event k Drained e = (Ok None, e')"
    "\<forall>aids key tsn remote lip ecn now. Endpoint_handle crc aids key tsn cookie now remote lip ecn b e' = (Ok None, e')"
proof -
  obtain e' where e': "Endpoint_handle_event k Drained e = (Ok None, e')" "map_of (ep_association_ids e') (a_my_verification_tag x) = None"
    using e(1,2) by (simp add: Endpoint_handle_event_def map_of_fold_delete)
  obtain b' pd where d: "Packet_marshal crc (create_packet a [CShutdownAck]) = Ok b'" "PartialDecode_unmarshal crc b' = Ok pd"
    "pd_common_header pd = pk_common_header (create_packet a [CShutdownAck])" "pd_first_chunk_type pd = Chunk_type CShutdownAck"
    by (rule packet_delivered [of "create_packet a [CShutdownAck]" CShutdownAck "[]" crc]) (simp_all add: create_packet_def)
  have "PartialDecode_unmarshal crc b = Ok pd" "hd_verification_tag (pd_common_header pd) = a_my_verification_tag x"
    "pd_first_chunk_type pd \<noteq> CT_INIT" "a_my_verification_tag x \<noteq> 0"
    using d p e(3) by (simp_all add: create_packet_def chunk_types routed_def)
  then show ?thesis using e' by (intro that [of e']) (simp_all add: Endpoint_handle_def handle_first_packet_def word_gt_0)
qed

subsection \<open>Properties\<close>

text \<open>
  C8: the shutdown exchange. One side of an established pair with nothing outstanding shuts down, which queues a
  \<^verbatim>\<open>Drained\<close> event for its endpoint. SHUTDOWN reaches the other side, which sends one SHUTDOWN ACK and waits.
  As long as the application withholds the event from the endpoint, the SHUTDOWN ACK and then SHUTDOWN COMPLETE
  are routed and handled, and the other side is closed and its application is told so. The side that started
  stays in the state in which it waits for SHUTDOWN ACK: no timer is running, there is nothing to send, and
  so nothing is left that could close it. If the application forwards the event before the SHUTDOWN ACK
  arrives, the endpoint, which has an entry for the association with its tag, drops the SHUTDOWN ACK, now and
  whenever it is sent again, and so the exchange does not complete.
\<close>

theorem shutdown_exchange:
  assumes p: "established_pair (ck, c, ce) (sk, s, se)" "a_inflight_queue_length c = 0"
    and m: "map_of (ep_associations ce) ck = Some m" "a_my_verification_tag c \<in> set (vals (am_loc_cids m))"
  shows "\<exists>c1 c2 s1 ack s2. Association_shutdown c = (Ok (), c1) \<and> a_endpoint_events c1 = a_endpoint_events c @ [Drained] \<and>
    leg crc cookie t1 c1 sk se s = Some (c2, s1) \<and> transmitted crc t2 s1 = Some ([ack], s2) \<and> a_state s2 = ShutdownAckSent \<and>
    (\<exists>c3 c4 s3 es. leg crc cookie t2 s1 ck ce c2 = Some (s2, c3) \<and> leg crc cookie t3 c3 sk se s2 = Some (c4, s3) \<and>
      a_state s3 = Closed \<and> a_events s3 = es @ [AssociationLost AssociationClosed] \<and>
      a_state c4 = ShutdownSent \<and> a_events c4 = a_events c \<and> poll_timeout c4 = None \<and>
      (\<forall>now. transmitted crc now c4 = Some ([], c4))) \<and>
    (\<exists>ce'. Endpoint_handle_event ck Drained ce = (Ok None, ce') \<and>
      (\<forall>aids key tsn remote lip ecn now. Endpoint_handle crc aids key tsn cookie now remote lip ecn ack ce' = (Ok None, ce')))"
proof -
  have c: "quiet c" "a_state c = Established" "idle_but {} (a_timers c)" "a_source_port c \<noteq> 0" "a_destination_port c \<noteq> 0"
      "routed ck c ce" "a_peer_verification_tag c = a_my_verification_tag s"
    and s: "quiet s" "a_state s = Established" "routed sk s se" "a_source_port s \<noteq> 0" "a_destination_port s \<noteq> 0"
      "a_peer_verification_tag s = a_my_verification_tag c"
    using p(1) by (auto simp: established_pair_def knows_def)
  obtain c1 c2 s1 where start: "Association_shutdown c = (Ok (), c1)" "a_endpoint_events c1 = a_endpoint_events c @ [Drained]"
    "leg crc cookie t1 c1 sk se s = Some (c2, s1)"
    and s1: "quiet (s1\<lparr>a_will_send_shutdown_ack := False\<rparr>)" "a_will_send_shutdown_ack s1" "a_state s1 = ShutdownAckSent" "same_address s s1"
    and c2: "quiet c2" "a_state c2 = ShutdownSent" "routed ck c2 ce" "same_address c c2" "idle_but {T2Shutdown} (a_timers c2)"
    "a_events c2 = a_events c"
    by (rule shutdown_starts [OF c p(2) s(1-3), of crc cookie t1])
  have s1': "a_source_port s1 \<noteq> 0" "a_destination_port s1 \<noteq> 0" "a_peer_verification_tag s1 = a_my_verification_tag c2"
    using s s1(4) c2(4) by (simp_all add: same_address_def)
  define s2 where "s2 = start_timer T2Shutdown t2 (s1\<lparr>a_will_send_shutdown_ack := False\<rparr>)"
  obtain c3 where c3: "leg crc cookie t2 s1 ck ce c2 = Some (s2, c3)" "quiet (c3\<lparr>a_will_send_shutdown_complete := False\<rparr>)"
    "a_will_send_shutdown_complete c3" "a_state c3 = ShutdownSent" "same_address c2 c3" "idle_but {} (a_timers c3)" "a_events c3 = a_events c2"
    unfolding s2_def by (rule shutdown_ack_leg [OF s1(1,3,2) s1'(1,2) c2(1,2,3) s1'(3) c2(5)])
  have s2: "a_state s2 = ShutdownAckSent" "routed sk s2 se" "same_address s s2"
    using s1(3,4) s(3) by (simp_all add: s2_def routed_def same_address_def start_timer_def upd_timers_def)
  have c3': "a_source_port c3 \<noteq> 0" "a_destination_port c3 \<noteq> 0" "a_peer_verification_tag c3 = a_my_verification_tag s2"
    using c c2(4) c3(5) s2(3) by (simp_all add: same_address_def)
  obtain s3 es where s3: "leg crc cookie t3 c3 sk se s2 = Some (c3\<lparr>a_will_send_shutdown_complete := False\<rparr>, s3)"
    "a_state s3 = Closed" "a_events s3 = es @ [AssociationLost AssociationClosed]"
    by (rule shutdown_complete_leg [OF c3(2,4,3) c3'(1,2) s2(1,2) c3'(3)])
  let ?c4 = "c3\<lparr>a_will_send_shutdown_complete := False\<rparr>"
  have c4: "a_state ?c4 = ShutdownSent" "a_events ?c4 = a_events c" using c3(4,7) c2(6) by simp_all
  have timer: "poll_timeout ?c4 = None"
    using c3(6) by (simp add: poll_timeout_def TimerTable_next_timeout_def Timer_VALUES_def idle_but_def TimerTable_get_def map_filter_def)
  have silent: "\<forall>now. transmitted crc now ?c4 = Some ([], ?c4)" using transmit_nothing [OF c3(2) c4(1)] by blast
  obtain ack where ack: "Packet_marshal crc (create_packet s1 [CShutdownAck]) = Ok ack"
    by (rule packet_delivered [of "create_packet s1 [CShutdownAck]" CShutdownAck "[]" crc]) (simp_all add: create_packet_def)
  have sent: "transmitted crc t2 s1 = Some ([ack], s2)" unfolding s2_def by (rule transmit_shutdown_ack [OF s1(1,3,2) ack])
  have tag: "a_peer_verification_tag s1 = a_my_verification_tag c" using s(6) s1(4) by (simp add: same_address_def)
  obtain ce' where drop: "Endpoint_handle_event ck Drained ce = (Ok None, ce')"
    "\<forall>aids key tsn remote lip ecn now. Endpoint_handle crc aids key tsn cookie now remote lip ecn ack ce' = (Ok None, ce')"
    by (rule drained_drops_shutdown_ack [OF m c(6) ack tag])
  show ?thesis by (intro exI conjI) (rule start sent s2(1) c3(1) s3 c4 timer silent drop)+
qed

theorem shutdown_exchange_witness:
  "\<exists>ck c ce sk s se m. established_pair (ck, c, ce) (sk, s, se) \<and> a_inflight_queue_length c = 0 \<and>
    map_of (ep_associations ce) ck = Some m \<and> a_my_verification_tag c \<in> set (vals (am_loc_cids m)) \<and>
    (\<exists>c1 c2 s1 ack s2. Association_shutdown c = (Ok (), c1) \<and> leg (\<lambda>_. 0) [] 1 c1 sk se s = Some (c2, s1) \<and>
      transmitted (\<lambda>_. 0) 2 s1 = Some ([ack], s2) \<and>
      (\<exists>c3 c4 s3. leg (\<lambda>_. 0) [] 2 s1 ck ce c2 = Some (s2, c3) \<and> leg (\<lambda>_. 0) [] 3 c3 sk se s2 = Some (c4, s3) \<and>
        a_state s3 = Closed \<and> a_state c4 = ShutdownSent \<and> poll_timeout c4 = None) \<and>
      (\<exists>ce'. Endpoint_handle_event ck Drained ce = (Ok None, ce') \<and>
        Endpoint_handle (\<lambda>_. 0) [] 0 0 [] 2 (V4 0, 1) None None ack ce' = (Ok None, ce')))"
proof -
  obtain ck c ce sk s se where p: "established_pair (ck, c, ce) (sk, s, se)" by (rule handshake_run [OF example_ready])
  let ?c = "c\<lparr>a_inflight_queue_length := 0\<rparr>"
  let ?m = "\<lparr>am_init_cid = 0, am_cids_issued = 1, am_loc_cids = [(0, a_my_verification_tag c)], am_initial_remote = (V4 0, 1)\<rparr>"
  let ?ce = "ce\<lparr>ep_associations := [(ck, ?m)]\<rparr>"
  have "quiet ?c = quiet c" by (simp add: quiet_def)
  moreover have "knows ?c s = knows c s" "knows s ?c = knows s c" "routed ck ?c ?ce = routed ck c ce"
    by (simp_all add: knows_def routed_def)
  ultimately have e: "established_pair (ck, ?c, ?ce) (sk, s, se)" using p by (simp add: established_pair_def)
  have z: "a_inflight_queue_length ?c = 0" "map_of (ep_associations ?ce) ck = Some ?m"
    "a_my_verification_tag ?c \<in> set (vals (am_loc_cids ?m))" by simp_all
  have "\<exists>c1 c2 s1 ack s2. Association_shutdown ?c = (Ok (), c1) \<and> leg (\<lambda>_. 0) [] 1 c1 sk se s = Some (c2, s1) \<and>
      transmitted (\<lambda>_. 0) 2 s1 = Some ([ack], s2) \<and>
      (\<exists>c3 c4 s3. leg (\<lambda>_. 0) [] 2 s1 ck ?ce c2 = Some (s2, c3) \<and> leg (\<lambda>_. 0) [] 3 c3 sk se s2 = Some (c4, s3) \<and>
        a_state s3 = Closed \<and> a_state c4 = ShutdownSent \<and> poll_timeout c4 = None) \<and>
      (\<exists>ce'. Endpoint_handle_event ck Drained ?ce = (Ok None, ce') \<and>
        Endpoint_handle (\<lambda>_. 0) [] 0 0 [] 2 (V4 0, 1) None None ack ce' = (Ok None, ce'))"
    using shutdown_exchange [OF e z, of "\<lambda>_. 0" "[]" 1 2 3] by blast
  with e z show ?thesis by blast
qed

end
