(* ===== verification/Empty_Message.thy ===== *)
theory Empty_Message
  imports Data_Transfer
begin

text \<open>
  Writing an empty message to an ordered stream: the stream takes a sequence number for it but no chunk
  carries that number, so the peer waits for it and delivers nothing that follows.
\<close>

text \<open>Chunks arriving at a reassembly queue, whatever the queue answers.\<close>

definition arrived :: "ReassemblyQueue \<Rightarrow> ChunkPayloadData list \<Rightarrow> ReassemblyQueue" where
  "arrived q ws = fold (\<lambda>w q. snd (ReassemblyQueue_push q w)) ws q"

text \<open>Everything that the queue holds has the sequence number after the one it waits for.\<close>

definition one_ahead :: "u16 \<Rightarrow> ReassemblyQueue \<Rightarrow> bool" where
  "one_ahead n q \<longleftrightarrow> rq_next_ssn q = n \<and> rq_unordered q = [] \<and> (\<forall>s \<in> set (rq_ordered q). ck_ssn s = n + 1)"

text \<open>A stream that is open for writing on an established association.\<close>

definition ordered_writer :: "u16 \<Rightarrow> PayloadProtocolIdentifier \<Rightarrow> StreamState \<Rightarrow> Association \<Rightarrow> bool" where
  "ordered_writer sid ppi s a \<longleftrightarrow> a_state a = Established \<and> \<not> stream_reset_blocked a sid \<and> map_of (a_streams a) sid = Some s \<and>
    (ss_state s = RS_Writable \<or> ss_state s = RS_ReadWritable) \<and> (ppi = PPI_Dcep \<or> \<not> ss_unordered s) \<and> ss_max_payload_size s \<noteq> 0"

subsection \<open>The receiver\<close>

lemma push_existing_ssn:
  "push_existing ss c = Some (ok, ss') \<Longrightarrow> map ck_ssn ss' = map ck_ssn ss"
proof (induction ss arbitrary: ok ss')
  case (Cons s ss)
  then show ?case by (auto simp: Chunks_push_def Let_def split: if_splits prod.splits)
qed simp

lemma one_ahead_push:
  assumes "one_ahead n q" "d_stream_sequence_number w = n + 1" "\<not> d_unordered w"
  shows "one_ahead n (snd (ReassemblyQueue_push q w))"
proof (cases "push_existing (rq_ordered q) w")
  case None
  then show ?thesis
    using assms by (auto simp: ReassemblyQueue_push_def one_ahead_def Let_def Chunks_push_def Chunks_new_def sort_chunks_by_ssn_def)
next
  case (Some r)
  obtain ok ss where r: "r = (ok, ss)" by fastforce
  have "set (map ck_ssn ss) = set (map ck_ssn (rq_ordered q))" using push_existing_ssn Some r by metis
  then have "ck_ssn s \<in> ck_ssn ` set (rq_ordered q)" if "s \<in> set ss" for s using that by auto
  then show ?thesis using assms Some r by (fastforce simp: ReassemblyQueue_push_def one_ahead_def Let_def)
qed

lemma one_ahead_arrived:
  "one_ahead n q \<Longrightarrow> \<forall>w \<in> set ws. d_stream_sequence_number w = n + 1 \<and> \<not> d_unordered w \<Longrightarrow> one_ahead n (arrived q ws)"
  unfolding arrived_def by (induction ws arbitrary: q) (simp_all add: one_ahead_push)

lemma one_ahead_unreadable:
  assumes "one_ahead n q"
  shows "\<not> ReassemblyQueue_is_readable q" "ReassemblyQueue_read q = (None, q)"
proof -
  have gt: "sna16gt (n + 1) n" "\<not> sna16lte (n + 1) n" by (simp_all add: sna16gt_not_lte sna16lte_off unsigned_minus_1_eq_mask mask_eq_exp_minus_1)
  show "\<not> ReassemblyQueue_is_readable q"
    using assms gt(2) by (cases "rq_ordered q") (auto simp: one_ahead_def ReassemblyQueue_is_readable_def)
  show "ReassemblyQueue_read q = (None, q)"
    using assms gt(1) by (cases "rq_ordered q") (auto simp: one_ahead_def ReassemblyQueue_read_def)
qed

subsection \<open>The sender\<close>

text \<open>Writing on it takes the next sequence number, with or without a chunk to carry it.\<close>

lemma update_key_twice: "update_key k f (update_key k g m) = update_key k (\<lambda>v. f (g v)) m"
  by (auto simp: update_key_def)

lemma ordered_write:
  assumes w: "ordered_writer sid ppi s a" "length data \<le> unat (a_max_send_message_size a)"
    "unat (oq_next_message_id (a_outbound_queue a)) + 1 < 2 ^ 64"
  obtains s' cs a' where "write_with_ppi sid data ppi a = (Ok (length data), a')"
    "OutboundQueue_push (a_outbound_queue a) cs = Ok (a_outbound_queue a')"
    "\<forall>c \<in> set cs. d_stream_sequence_number c = ss_sequence_number s \<and> \<not> d_unordered c" "cs = [] \<longleftrightarrow> data = []"
    "ordered_writer sid ppi s' a'" "ss_sequence_number s' = ss_sequence_number s + 1"
    "a_max_send_message_size a' = a_max_send_message_size a"
proof -
  note o = w(1) [unfolded ordered_writer_def]
  obtain high cs s1 where p: "packetize s data ppi = Some ((high, cs), s1)" "packets_of s data ppi False cs"
    using packetize_packets_of [of s data ppi] o by auto
  have s1: "s1 = s\<lparr>ss_sequence_number := ss_sequence_number s + 1, ss_buffered_amount := ss_buffered_amount s + length data\<rparr>"
    using packetize_Some(1) [OF p(1)] o by auto
  have cs: "cs = [] \<longleftrightarrow> data = []" using p(2) by (force simp: packets_of_def neq_Nil_conv)
  let ?cs = "map (\<lambda>c. c\<lparr>d_reliability := Some (ss_reliability_type s1, ss_reliability_value s1)\<rparr>) cs"
  obtain q where q: "OutboundQueue_push (a_outbound_queue a) ?cs = Ok q"
    using w(3) by (cases "cs = []") (simp_all add: OutboundQueue_push_def u64_checked_add_def Let_def word_add_overflow)
  have pop: "ByteSlice_remaining data = length data" "fst (fst (ByteSlice_pop_chunk data (unat (a_max_send_message_size a)))) = data"
    using w(2) by (auto simp: ByteSlice_remaining_def ByteSlice_pop_chunk_def Let_def min_def)
  let ?s2 = "if cs = [] then s1 else s1\<lparr>ss_stats := DataChannelStats_sent (ss_stats s1) ppi (length data)\<rparr>"
  let ?m = "update_key sid (\<lambda>_. ?s2) (a_streams a)"
  let ?b = "if cs = [] then a\<lparr>a_streams := ?m, a_outbound_queue := q\<rparr> else a\<lparr>a_outbound_queue := q, a_streams := ?m\<rparr>"
  let ?a' = "if high then push_event (EStream (BufferedAmountHigh sid)) ?b else ?b"
  have wr: "write_with_ppi sid data ppi a = (Ok (length data), ?a')"
    using o pop w(2) p(1) q
    by (auto simp: write_with_ppi_def write_source_def is_writable_def upd_stream_def send_payload_data_def Let_def
        update_key_twice)
  show ?thesis
    by (rule that [OF wr, of ?cs ?s2])
      (use q p(2) cs o s1 in \<open>auto simp: packets_of_def ordered_writer_def push_event_def map_of_update_key stream_reset_blocked_def
         stream_reset_in_progress_def has_pending_reset_for_stream_def\<close>)
qed

subsection \<open>Properties\<close>

text \<open>
  C26: an empty message blocks an ordered stream. Writing no bytes succeeds and queues nothing, but takes a
  sequence number; the chunks of the next message carry the number after it. A peer that has received
  everything before waits for the missing number: whatever chunks of the next message arrive, in any
  order and however often, its queue stays unreadable and reading returns nothing.
\<close>

theorem empty_message_blocks_stream:
  assumes w: "ordered_writer sid ppi s a" "length data \<le> unat (a_max_send_message_size a)"
      "unat (oq_next_message_id (a_outbound_queue a)) + 1 < 2 ^ 64"
    and q: "rq_next_ssn q = ss_sequence_number s" "rq_ordered q = []" "rq_unordered q = []"
  shows "\<exists>a1 a2 cs. write_with_ppi sid [] ppi a = (Ok 0, a1) \<and> a_outbound_queue a1 = a_outbound_queue a \<and>
    write_with_ppi sid data ppi a1 = (Ok (length data), a2) \<and>
    OutboundQueue_push (a_outbound_queue a) cs = Ok (a_outbound_queue a2) \<and>
    (\<forall>ws. (\<forall>w \<in> set ws. \<exists>c \<in> set cs. d_stream_sequence_number w = d_stream_sequence_number c \<and> d_unordered w = d_unordered c) \<longrightarrow>
      \<not> ReassemblyQueue_is_readable (arrived q ws) \<and> ReassemblyQueue_read (arrived q ws) = (None, arrived q ws))"
proof -
  obtain s1 cs1 a1 where e: "write_with_ppi sid [] ppi a = (Ok (length []), a1)"
    "OutboundQueue_push (a_outbound_queue a) cs1 = Ok (a_outbound_queue a1)" "cs1 = [] \<longleftrightarrow> [] = []"
    "ordered_writer sid ppi s1 a1" "ss_sequence_number s1 = ss_sequence_number s + 1"
    "a_max_send_message_size a1 = a_max_send_message_size a"
    by (rule ordered_write [OF w(1) _ w(3), of "[]"]) simp_all
  have same: "a_outbound_queue a1 = a_outbound_queue a" using e(2,3) by (simp add: OutboundQueue_push_def)
  obtain cs a2 where m: "write_with_ppi sid data ppi a1 = (Ok (length data), a2)"
    "OutboundQueue_push (a_outbound_queue a1) cs = Ok (a_outbound_queue a2)"
    "\<forall>c \<in> set cs. d_stream_sequence_number c = ss_sequence_number s1 \<and> \<not> d_unordered c"
    by (rule ordered_write [OF e(4)]) (use w(2,3) e(6) same in simp_all)
  have start: "one_ahead (ss_sequence_number s) q" using q by (simp add: one_ahead_def)
  have "one_ahead (ss_sequence_number s) (arrived q ws)"
    if "\<forall>w \<in> set ws. \<exists>c \<in> set cs. d_stream_sequence_number w = d_stream_sequence_number c \<and> d_unordered w = d_unordered c" for ws
    by (rule one_ahead_arrived [OF start]) (use that m(3) e(5) in fastforce)
  then have stuck: "\<not> ReassemblyQueue_is_readable (arrived q ws) \<and> ReassemblyQueue_read (arrived q ws) = (None, arrived q ws)"
    if "\<forall>w \<in> set ws. \<exists>c \<in> set cs. d_stream_sequence_number w = d_stream_sequence_number c \<and> d_unordered w = d_unordered c" for ws
    using that one_ahead_unreadable by blast
  have "write_with_ppi sid [] ppi a = (Ok 0, a1)" using e(1) by simp
  then show ?thesis using same m(1) m(2) [unfolded same] stuck by blast
qed

theorem empty_message_blocks_stream_witness:
  "\<exists>a a1 a2. ordered_writer 3 PPI_Binary (opened_stream 3 PPI_Binary a) a \<and> write_with_ppi 3 [] PPI_Binary a = (Ok 0, a1) \<and>
    write_with_ppi 3 example_message PPI_Binary a1 = (Ok (length example_message), a2) \<and>
    ReassemblyQueue_read (ReassemblyQueue_new 3 100) = (None, ReassemblyQueue_new 3 100)"
proof -
  obtain ck c ce sk s se where p: "established_pair (ck, c, ce) (sk, s, se)" "a_max_send_message_size c = 100" by (rule example_pair)
  have c: "quiet c" "a_state c = Established" using p(1) by (simp_all add: established_pair_def)
  let ?a = "c\<lparr>a_next_stream_generation := 1, a_streams := [(3, opened_stream 3 PPI_Binary c)]\<rparr>"
  have same: "opened_stream 3 PPI_Binary ?a = opened_stream 3 PPI_Binary c" by (simp add: opened_stream_def)
  have w: "ordered_writer 3 PPI_Binary (opened_stream 3 PPI_Binary ?a) ?a"
    using c open_first_stream(2) [OF c(1), of 3 PPI_Binary] unfolding same
    by (simp add: ordered_writer_def quiet_def sized_def word_gt_0)
  have l: "length example_message \<le> unat (a_max_send_message_size ?a)" "unat (oq_next_message_id (a_outbound_queue ?a)) + 1 < 2 ^ 64"
    using p(2) c(1) by (simp_all add: example_message_def quiet_def OutboundQueue_default_def)
  have q: "rq_next_ssn (ReassemblyQueue_new 3 100) = ss_sequence_number (opened_stream 3 PPI_Binary ?a)"
    "rq_ordered (ReassemblyQueue_new 3 100) = []" "rq_unordered (ReassemblyQueue_new 3 100) = []"
    by (simp_all add: ReassemblyQueue_new_def opened_stream_def StreamState_new_def)
  show ?thesis using empty_message_blocks_stream [OF w l q]
  proof (elim exE conjE)
    fix a1 a2 cs
    assume r: "write_with_ppi 3 [] PPI_Binary ?a = (Ok 0, a1)"
      "write_with_ppi 3 example_message PPI_Binary a1 = (Ok (length example_message), a2)"
      "\<forall>ws. (\<forall>w \<in> set ws. \<exists>c \<in> set cs. d_stream_sequence_number w = d_stream_sequence_number c \<and> d_unordered w = d_unordered c) \<longrightarrow>
        \<not> ReassemblyQueue_is_readable (arrived (ReassemblyQueue_new 3 100) ws) \<and>
        ReassemblyQueue_read (arrived (ReassemblyQueue_new 3 100) ws) = (None, arrived (ReassemblyQueue_new 3 100) ws)"
    have "ReassemblyQueue_read (ReassemblyQueue_new 3 100) = (None, ReassemblyQueue_new 3 100)"
      using r(3) [THEN spec, of "[]"] by (simp add: arrived_def)
    then show ?thesis using w r(1,2) by (intro exI [of _ ?a] exI [of _ a1] exI [of _ a2] conjI)
  qed
qed

end
