(* ===== verification/Assoc_Steps.thy ===== *)
theory Assoc_Steps
  imports Assoc_Api
begin

text \<open>
  Sequences of calls of an association. \<open>api_exec\<close> runs one call of the public interface, \<open>api_run\<close> a
  sequence of calls that do not panic, with the events that \<^verbatim>\<open>poll\<close> returned.

  The locales state what a relation between the association before and after a call has to satisfy so
  that all calls keep it: \<open>assoc_frame\<close> for the methods that leave the state of the handshake alone,
  \<open>assoc_steps\<close> with the moves of that state. Every handler is shown, once, to be a composition of the
  updates named there.
\<close>

subsection \<open>Calls\<close>

datatype api_call =
    CallHandleEvent bytes AssociationEvent
  | CallHandleTimeout instant
  | CallPollTransmit instant
  | CallPoll
  | CallPollEndpointEvent
  | CallShutdown
  | CallClose
  | CallOpenStream u16 PayloadProtocolIdentifier
  | CallAcceptStream
  | CallSetMaxSend u32
  | CallSetMaxReceive u32
  | CallRead u16
  | CallWrite u16 bytes
  | CallWriteWithPpi u16 bytes PayloadProtocolIdentifier
  | CallWriteChunks u16 "bytes list"
  | CallStop u16
  | CallFinish u16
  | CallStreamClose u16
  | CallSetDefaultPayloadType u16 PayloadProtocolIdentifier
  | CallSetReliability u16 bool ReliabilityType u32
  | CallSetLowThreshold u16 usize
  | CallSetHighThreshold u16 usize

text \<open>An error is returned to the application, which may go on; a panic ends the run.\<close>

definition returns :: "'a res \<times> Association \<Rightarrow> Event option res \<times> Association" where
  "returns m = (case m of (Panic, a) \<Rightarrow> (Panic, a) | (_, a) \<Rightarrow> (Ok None, a))"

fun api_exec :: "(bytes \<Rightarrow> u32) \<Rightarrow> api_call \<Rightarrow> Association \<Rightarrow> Event option res \<times> Association" where
  "api_exec crc (CallHandleEvent cookie ev) a = returns (handle_event cookie ev a)"
| "api_exec crc (CallHandleTimeout now) a = returns (handle_timeout now a)"
| "api_exec crc (CallPollTransmit now) a = returns (poll_transmit crc now a)"
| "api_exec crc CallPoll a = (Ok (fst (poll a)), snd (poll a))"
| "api_exec crc CallPollEndpointEvent a = (Ok None, snd (poll_endpoint_event a))"
| "api_exec crc CallShutdown a = returns (Association_shutdown a)"
| "api_exec crc CallClose a = (Ok None, Association_close a)"
| "api_exec crc (CallOpenStream sid ppi) a = returns (open_stream sid ppi a)"
| "api_exec crc CallAcceptStream a = (Ok None, snd (accept_stream a))"
| "api_exec crc (CallSetMaxSend v) a = (Ok None, set_max_send_message_size v a)"
| "api_exec crc (CallSetMaxReceive v) a = (Ok None, set_max_receive_message_size v a)"
| "api_exec crc (CallRead sid) a = returns (read_sctp sid a)"
| "api_exec crc (CallWrite sid data) a = returns (Stream_write sid data a)"
| "api_exec crc (CallWriteWithPpi sid data ppi) a = returns (write_with_ppi sid data ppi a)"
| "api_exec crc (CallWriteChunks sid data) a = returns (write_chunks sid data a)"
| "api_exec crc (CallStop sid) a = returns (Stream_stop sid a)"
| "api_exec crc (CallFinish sid) a = returns (Stream_finish sid a)"
| "api_exec crc (CallStreamClose sid) a = returns (Stream_close sid a)"
| "api_exec crc (CallSetDefaultPayloadType sid ppi) a = returns (set_default_payload_type sid ppi a)"
| "api_exec crc (CallSetReliability sid u t v) a = returns (set_reliability_params sid u t v a)"
| "api_exec crc (CallSetLowThreshold sid n) a = returns (set_buffered_amount_low_threshold sid n a)"
| "api_exec crc (CallSetHighThreshold sid n) a = returns (set_buffered_amount_high_threshold sid n a)"

fun returned :: "Event option \<Rightarrow> Event list" where
  "returned None = []"
| "returned (Some e) = [e]"

inductive api_run :: "(bytes \<Rightarrow> u32) \<Rightarrow> Association \<Rightarrow> Event list \<Rightarrow> Association \<Rightarrow> bool" for crc where
  run_start: "api_run crc a [] a"
| run_call: "api_run crc a es b \<Longrightarrow> api_exec crc c b = (Ok e, b') \<Longrightarrow>
    api_run crc a (es @ returned e) b'"

inductive initial_association :: "Association \<Rightarrow> bool" where
  "Association_new is_server config max_payload_size local_aid remote_addr local_ip tsn now = Ok a \<Longrightarrow>
    initial_association a"
| "new_with_out_of_band_init config max_payload_size remote_addr local_ip local_init remote_init = Ok a \<Longrightarrow>
    initial_association a"

subsection \<open>What is observed\<close>

text \<open>The fields on which the relations below depend.\<close>

definition core where
  "core a = (a_streams a, a_events a, a_next_stream_generation a, a_state a, a_cwnd a, a_mtu a,
     a_inflight_queue_length a, a_my_verification_tag a)"

abbreviation stream_generation :: "StreamState \<Rightarrow> u64" where
  "stream_generation s \<equiv> dcs_generation (ss_stats s)"

fun is_final :: "Event \<Rightarrow> bool" where
  "is_final (DataChannelStatsFinal _) = True"
| "is_final _ = False"

fun is_lost :: "Event \<Rightarrow> bool" where
  "is_lost (AssociationLost _) = True"
| "is_lost _ = False"

fun final_generation :: "Event \<Rightarrow> u64 option" where
  "final_generation (DataChannelStatsFinal s) = Some (dcs_generation s)"
| "final_generation _ = None"

text \<open>The generations with a final event among the given ones.\<close>

definition final_generations :: "Event list \<Rightarrow> u64 multiset" where
  "final_generations es = mset (List.map_filter final_generation es)"

definition live_generations :: "Association \<Rightarrow> u64 multiset" where
  "live_generations a = mset (map stream_generation (vals (a_streams a)))"

definition count_lost :: "Event list \<Rightarrow> nat" where
  "count_lost es = length (filter is_lost es)"

text \<open>The moves of the state machine other than to \<open>Closed\<close>.\<close>

fun legal_move :: "AssociationState \<Rightarrow> AssociationState \<Rightarrow> bool" where
  "legal_move CookieWait s \<longleftrightarrow> s = CookieEchoed \<or> s = Established"
| "legal_move CookieEchoed s \<longleftrightarrow> s = Established"
| "legal_move Closed s \<longleftrightarrow> s = Established"
| "legal_move Established s \<longleftrightarrow> s = ShutdownPending \<or> s = ShutdownSent \<or> s = ShutdownReceived \<or> s = ShutdownAckSent"
| "legal_move ShutdownPending s \<longleftrightarrow> s = ShutdownSent"
| "legal_move ShutdownSent s \<longleftrightarrow> s = ShutdownAckSent"
| "legal_move ShutdownReceived s \<longleftrightarrow> s = ShutdownAckSent"
| "legal_move ShutdownAckSent s \<longleftrightarrow> False"

text \<open>How far the handshake and the shutdown have come.\<close>

fun progress :: "AssociationState \<Rightarrow> nat" where
  "progress Closed = 0"
| "progress CookieWait = 1"
| "progress CookieEchoed = 2"
| "progress Established = 3"
| "progress ShutdownPending = 4"
| "progress ShutdownSent = 5"
| "progress ShutdownReceived = 5"
| "progress ShutdownAckSent = 6"

subsection \<open>Relations that every method keeps\<close>

lemma u32_mul_le:
  assumes "u32_mul k m = Ok w" "k \<noteq> 0"
  shows "m \<le> w"
proof -
  have "unat w = unat k * unat m" using assms(1) by (auto simp: u32_mul_def unat_word_ariths split: if_splits)
  moreover have "1 \<le> unat k" using assms(2) by (simp add: unat_gt_0 Suc_le_eq)
  ultimately show ?thesis by (simp add: word_le_nat_alt)
qed

named_theorems keeps \<open>every operation relates the association to its result\<close>

locale assoc_frame =
  fixes R :: "Association \<Rightarrow> Association \<Rightarrow> bool"
  assumes R_refl: "R a a"
    and R_trans: "R a b \<Longrightarrow> R b c \<Longrightarrow> R a c"
    and R_core: "core b = core a \<Longrightarrow> R a b"
    and R_create: "map_of (a_streams a) sid = None \<Longrightarrow> R a (snd (create_stream sid acc ppi a))"
    and R_unregister: "R a (unregister_stream sid False a)"
    and R_upd_stream: "(\<And>s. map_of (a_streams a) sid = Some s \<Longrightarrow> stream_generation (f s) = stream_generation s) \<Longrightarrow>
      R a (upd_stream sid f a)"
    and R_push_event: "\<not> is_final e \<Longrightarrow> \<not> is_lost e \<Longrightarrow> R a (push_event e a)"
    and R_drop_events: "R a (a\<lparr>a_events := filter (\<lambda>e. \<not> opens_or_reads sid e) (a_events a)\<rparr>)"
    and R_cwnd: "a_cwnd a \<le> w \<or> a_mtu a \<le> w \<Longrightarrow> R a (a\<lparr>a_cwnd := w\<rparr>)"
begin

lemma R_core_eq: "core b = core c \<Longrightarrow> R a b \<longleftrightarrow> R a c"
  by (metis R_core R_trans)

lemma R_frame_iff:
  "R a (b\<lparr>a_side := v0\<rparr>) \<longleftrightarrow> R a b"
  "R a (b\<lparr>a_handshake_completed := v1\<rparr>) \<longleftrightarrow> R a b"
  "R a (b\<lparr>a_max_send_message_size := v2\<rparr>) \<longleftrightarrow> R a b"
  "R a (b\<lparr>a_max_receive_message_size := v3\<rparr>) \<longleftrightarrow> R a b"
  "R a (b\<lparr>a_will_send_shutdown := v4\<rparr>) \<longleftrightarrow> R a b"
  "R a (b\<lparr>a_bytes_received := v5\<rparr>) \<longleftrightarrow> R a b"
  "R a (b\<lparr>a_bytes_sent := v6\<rparr>) \<longleftrightarrow> R a b"
  "R a (b\<lparr>a_peer_verification_tag := v7\<rparr>) \<longleftrightarrow> R a b"
  "R a (b\<lparr>a_my_next_tsn := v8\<rparr>) \<longleftrightarrow> R a b"
  "R a (b\<lparr>a_peer_last_tsn := v9\<rparr>) \<longleftrightarrow> R a b"
  "R a (b\<lparr>a_min_tsn2measure_rtt := v10\<rparr>) \<longleftrightarrow> R a b"
  "R a (b\<lparr>a_will_send_forward_tsn := v11\<rparr>) \<longleftrightarrow> R a b"
  "R a (b\<lparr>a_will_retransmit_fast := v12\<rparr>) \<longleftrightarrow> R a b"
  "R a (b\<lparr>a_will_retransmit_reconfig := v13\<rparr>) \<longleftrightarrow> R a b"
  "R a (b\<lparr>a_will_send_shutdown_ack := v14\<rparr>) \<longleftrightarrow> R a b"
  "R a (b\<lparr>a_will_send_shutdown_complete := v15\<rparr>) \<longleftrightarrow> R a b"
  "R a (b\<lparr>a_my_next_rsn := v16\<rparr>) \<longleftrightarrow> R a b"
  "R a (b\<lparr>a_reconfigs := v17\<rparr>) \<longleftrightarrow> R a b"
  "R a (b\<lparr>a_reconfig_reset_streams := v18\<rparr>) \<longleftrightarrow> R a b"
  "R a (b\<lparr>a_active_reconfig := v19\<rparr>) \<longleftrightarrow> R a b"
  "R a (b\<lparr>a_pending_reset_streams := v20\<rparr>) \<longleftrightarrow> R a b"
  "R a (b\<lparr>a_reconfig_requests := v21\<rparr>) \<longleftrightarrow> R a b"
  "R a (b\<lparr>a_deferred_reset_data := v22\<rparr>) \<longleftrightarrow> R a b"
  "R a (b\<lparr>a_max_completed_reconfig_rsn := v23\<rparr>) \<longleftrightarrow> R a b"
  "R a (b\<lparr>a_peer_last_reconfig_rsn := v24\<rparr>) \<longleftrightarrow> R a b"
  "R a (b\<lparr>a_peer_reconfig_rsn_initialized := v25\<rparr>) \<longleftrightarrow> R a b"
  "R a (b\<lparr>a_pending_reset_completions := v26\<rparr>) \<longleftrightarrow> R a b"
  "R a (b\<lparr>a_failed_reset_streams := v27\<rparr>) \<longleftrightarrow> R a b"
  "R a (b\<lparr>a_retiring_streams := v28\<rparr>) \<longleftrightarrow> R a b"
  "R a (b\<lparr>a_ready_stream_finishes := v29\<rparr>) \<longleftrightarrow> R a b"
  "R a (b\<lparr>a_delivered_stream_finishes := v30\<rparr>) \<longleftrightarrow> R a b"
  "R a (b\<lparr>a_deferred_forward_tsns := v31\<rparr>) \<longleftrightarrow> R a b"
  "R a (b\<lparr>a_remote_addr := v32\<rparr>) \<longleftrightarrow> R a b"
  "R a (b\<lparr>a_local_ip := v33\<rparr>) \<longleftrightarrow> R a b"
  "R a (b\<lparr>a_source_port := v34\<rparr>) \<longleftrightarrow> R a b"
  "R a (b\<lparr>a_destination_port := v35\<rparr>) \<longleftrightarrow> R a b"
  "R a (b\<lparr>a_my_max_num_inbound_streams := v36\<rparr>) \<longleftrightarrow> R a b"
  "R a (b\<lparr>a_my_max_num_outbound_streams := v37\<rparr>) \<longleftrightarrow> R a b"
  "R a (b\<lparr>a_my_cookie := v38\<rparr>) \<longleftrightarrow> R a b"
  "R a (b\<lparr>a_payload_queue := v39\<rparr>) \<longleftrightarrow> R a b"
  "R a (b\<lparr>a_outbound_queue := v40\<rparr>) \<longleftrightarrow> R a b"
  "R a (b\<lparr>a_control_queue := v41\<rparr>) \<longleftrightarrow> R a b"
  "R a (b\<lparr>a_stream_queue := v42\<rparr>) \<longleftrightarrow> R a b"
  "R a (b\<lparr>a_max_payload_size := v43\<rparr>) \<longleftrightarrow> R a b"
  "R a (b\<lparr>a_cumulative_tsn_ack_point := v44\<rparr>) \<longleftrightarrow> R a b"
  "R a (b\<lparr>a_advanced_peer_tsn_ack_point := v45\<rparr>) \<longleftrightarrow> R a b"
  "R a (b\<lparr>a_use_forward_tsn := v46\<rparr>) \<longleftrightarrow> R a b"
  "R a (b\<lparr>a_rto_mgr := v47\<rparr>) \<longleftrightarrow> R a b"
  "R a (b\<lparr>a_timers := v48\<rparr>) \<longleftrightarrow> R a b"
  "R a (b\<lparr>a_max_receive_buffer_size := v49\<rparr>) \<longleftrightarrow> R a b"
  "R a (b\<lparr>a_rwnd := v50\<rparr>) \<longleftrightarrow> R a b"
  "R a (b\<lparr>a_ssthresh := v51\<rparr>) \<longleftrightarrow> R a b"
  "R a (b\<lparr>a_partial_bytes_acked := v52\<rparr>) \<longleftrightarrow> R a b"
  "R a (b\<lparr>a_in_fast_recovery := v53\<rparr>) \<longleftrightarrow> R a b"
  "R a (b\<lparr>a_fast_recover_exit_point := v54\<rparr>) \<longleftrightarrow> R a b"
  "R a (b\<lparr>a_stored_init := v55\<rparr>) \<longleftrightarrow> R a b"
  "R a (b\<lparr>a_stored_cookie_echo := v56\<rparr>) \<longleftrightarrow> R a b"
  "R a (b\<lparr>a_endpoint_events := v57\<rparr>) \<longleftrightarrow> R a b"
  "R a (b\<lparr>a_error := v58\<rparr>) \<longleftrightarrow> R a b"
  "R a (b\<lparr>a_delayed_ack_triggered := v59\<rparr>) \<longleftrightarrow> R a b"
  "R a (b\<lparr>a_immediate_ack_triggered := v60\<rparr>) \<longleftrightarrow> R a b"
  "R a (b\<lparr>a_stats := v61\<rparr>) \<longleftrightarrow> R a b"
  "R a (b\<lparr>a_ack_state := v62\<rparr>) \<longleftrightarrow> R a b"
  "R a (b\<lparr>a_ack_mode := v63\<rparr>) \<longleftrightarrow> R a b"
  by (rule R_core_eq, simp add: core_def)+

lemmas R_frame [keeps] = R_frame_iff [THEN iffD2]

lemma R_split [keeps]:
  "(c \<Longrightarrow> R a x) \<Longrightarrow> (\<not> c \<Longrightarrow> R a y) \<Longrightarrow> R a (if c then x else y)"
  "(v = None \<Longrightarrow> R a x) \<Longrightarrow> (\<And>u. v = Some u \<Longrightarrow> R a (f u)) \<Longrightarrow> R a (case v of None \<Rightarrow> x | Some u \<Rightarrow> f u)"
  "(\<And>u w. p = (u, w) \<Longrightarrow> R a (g u w)) \<Longrightarrow> R a (case p of (u, w) \<Rightarrow> g u w)"
  "(\<And>u w. p = (u, w) \<Longrightarrow> R a (j u w b)) \<Longrightarrow> R a ((case p of (u, w) \<Rightarrow> j u w) b)"
  by (auto split: option.split prod.split)

lemma R_split_snd [keeps]:
  "(c \<Longrightarrow> R a (snd x)) \<Longrightarrow> (\<not> c \<Longrightarrow> R a (snd y)) \<Longrightarrow> R a (snd (if c then x else y))"
  "(v = None \<Longrightarrow> R a (snd x)) \<Longrightarrow> (\<And>u. v = Some u \<Longrightarrow> R a (snd (f u))) \<Longrightarrow>
    R a (snd (case v of None \<Rightarrow> x | Some u \<Rightarrow> f u))"
  "(\<And>u w. p = (u, w) \<Longrightarrow> R a (snd (g u w))) \<Longrightarrow> R a (snd (case p of (u, w) \<Rightarrow> g u w))"
  "(\<And>u. r = Ok u \<Longrightarrow> R a (snd (g1 u))) \<Longrightarrow> (\<And>e. r = Err e \<Longrightarrow> R a (snd (g2 e))) \<Longrightarrow> (r = Panic \<Longrightarrow> R a (snd z)) \<Longrightarrow>
    R a (snd (case r of Ok u \<Rightarrow> g1 u | Err e \<Rightarrow> g2 e | Panic \<Rightarrow> z))"
  "(l = [] \<Longrightarrow> R a (snd x)) \<Longrightarrow> (\<And>h t. l = h # t \<Longrightarrow> R a (snd (k h t))) \<Longrightarrow>
    R a (snd (case l of [] \<Rightarrow> x | h # t \<Rightarrow> k h t))"
  "(c \<Longrightarrow> R a (snd x)) \<Longrightarrow> (\<not> c \<Longrightarrow> R a (snd y)) \<Longrightarrow> R a (snd (case c of True \<Rightarrow> x | False \<Rightarrow> y))"
  "(\<And>u w. p = (u, w) \<Longrightarrow> R a (snd (j u w b))) \<Longrightarrow> R a (snd ((case p of (u, w) \<Rightarrow> j u w) b))"
  "R a b \<Longrightarrow> R a (snd (w, b))"
  by (simp_all split: option.split prod.split res.split list.split bool.split)

lemma R_case_decision [keeps]:
  "R a (snd x1) \<Longrightarrow> R a (snd x2) \<Longrightarrow> R a (snd x3) \<Longrightarrow> R a (snd x4) \<Longrightarrow>
    R a (snd (case d of DeferData \<Rightarrow> x1 | HandleData \<Rightarrow> x2 | IgnoreData \<Rightarrow> x3 | DiscardData \<Rightarrow> x4))"
  by (simp split: data_decision.split)

lemma R_case_unit [keeps]: "R a (snd x) \<Longrightarrow> R a (snd (case n of () \<Rightarrow> x))"
  by (cases n, hypsubst, subst unit.case)

text \<open>The result of a call is known to be related before the rest of the method runs on it.\<close>

lemma R_let_assoc:
  "R a b \<Longrightarrow> (\<And>b. R a b \<Longrightarrow> R a (f b)) \<Longrightarrow> R a (let b = b in f b)"
  "R a b \<Longrightarrow> (\<And>b. R a b \<Longrightarrow> R a (snd (g b))) \<Longrightarrow> R a (snd (let b = b in g b))"
  "R a (snd m) \<Longrightarrow> (\<And>x b. R a b \<Longrightarrow> R a (h x b)) \<Longrightarrow> R a (case m of (x, b) \<Rightarrow> h x b)"
  "R a (snd m) \<Longrightarrow> (\<And>x b. R a b \<Longrightarrow> R a (h x b)) \<Longrightarrow> R a (let (x, b) = m in h x b)"
  "R a (snd m) \<Longrightarrow> (\<And>x b. R a b \<Longrightarrow> R a (snd (k x b))) \<Longrightarrow> R a (snd (let (x, b) = m in k x b))"
  "R a (snd m) \<Longrightarrow> (\<And>x b. R a b \<Longrightarrow> R a (snd (k x b))) \<Longrightarrow> R a (snd (case m of (x, b) \<Rightarrow> k x b))"
  by (simp_all add: Let_def split_beta)

lemma R_let_triple:
  "R a (snd (snd m)) \<Longrightarrow> (\<And>x y b. R a b \<Longrightarrow> R a (snd (k x y b))) \<Longrightarrow> R a (snd (let (x, y, b) = m in k x y b))"
  by (simp add: Let_def split_beta)

lemma R_let:
  "(\<And>y. R a (f y)) \<Longrightarrow> R a (let y = x in f y)"
  "(\<And>y. R a (snd (g y))) \<Longrightarrow> R a (snd (let y = x in g y))"
  by (auto simp: Let_def)

lemma R_abind [keeps]:
  "R a (snd m) \<Longrightarrow> (\<And>x b. R a b \<Longrightarrow> R a (snd (f x b))) \<Longrightarrow> R a (snd (abind m f))"
  by (auto simp: abind_def split: prod.split res.split)

lemma R_afor [keeps]:
  assumes "R a b" "\<And>x b. R a b \<Longrightarrow> R a (snd (f x b))"
  shows "R a (snd (afor xs f b))"
  using assms(1) by (induction xs arbitrary: b) (auto intro!: R_abind assms(2))

lemma R_afold [keeps]:
  assumes "R a b" "\<And>x v b. R a b \<Longrightarrow> R a (snd (f x v b))"
  shows "R a (snd (afold f xs v b))"
  using assms(1) by (induction xs arbitrary: b v) (auto intro!: R_abind assms(2))

lemma R_fold [keeps]:
  assumes "R a b" "\<And>x b. R a b \<Longrightarrow> R a (f x b)"
  shows "R a (fold f xs b)"
  using assms(1) by (induction xs arbitrary: b) (auto intro!: assms(2))

lemma R_helpers [keeps]:
  "R a b \<Longrightarrow> R a (snd (alift r b))" "R a b \<Longrightarrow> R a (upd_timers tf b)" "R a b \<Longrightarrow> R a (push_control ps b)"
  "R a b \<Longrightarrow> R a (start_timer t now b)" "R a b \<Longrightarrow> R a (restart_timer_if_stale t now b)"
  by (auto simp: alift_def upd_timers_def push_control_def start_timer_def restart_timer_if_stale_def
      intro!: R_frame)

lemma R_event [keeps]: "R a b \<Longrightarrow> \<not> is_final e \<Longrightarrow> \<not> is_lost e \<Longrightarrow> R a (push_event e b)"
  using R_trans R_push_event by blast

lemma R_stream [keeps]:
  "R a b \<Longrightarrow> (\<And>s. map_of (a_streams b) sid = Some s \<Longrightarrow> stream_generation (f s) = stream_generation s) \<Longrightarrow>
    R a (upd_stream sid f b)"
  using R_trans R_upd_stream by blast

lemma R_set_cwnd [keeps]: "R a b \<Longrightarrow> a_cwnd b \<le> w \<or> a_mtu b \<le> w \<Longrightarrow> R a (b\<lparr>a_cwnd := w\<rparr>)"
  using R_trans R_cwnd by blast

lemma R_filter_events [keeps]:
  "R a b \<Longrightarrow> es = filter (\<lambda>e. \<not> opens_or_reads sid e) (a_events b) \<Longrightarrow> R a (b\<lparr>a_events := es\<rparr>)"
  using R_trans R_drop_events by blast

lemma R_create_stream [keeps]:
  "R a b \<Longrightarrow> map_of (a_streams b) sid = None \<Longrightarrow> R a (snd (create_stream sid acc ppi b))"
  using R_trans R_create by blast

lemma R_get_or_create [keeps]: "R a b \<Longrightarrow> R a (snd (get_or_create_stream sid b))"
  unfolding get_or_create_stream_def by (intro keeps) simp_all

lemma R_queue_stream_finished [keeps]: "R a b \<Longrightarrow> R a (queue_stream_finished sid ready b)"
  unfolding queue_stream_finished_def by (intro R_let_assoc keeps) simp_all

lemma R_unregister_stream [keeps]:
  assumes "R a b" shows "R a (unregister_stream sid fin b)"
proof -
  have "R a (unregister_stream sid False b)" using assms R_trans R_unregister by blast
  then show ?thesis
    by (auto simp: unregister_stream_def Let_def intro: R_queue_stream_finished split: option.splits)
qed

lemma R_remove_stream_final [keeps]:
  assumes "R a b" shows "R a (remove_stream_final sid b)"
proof -
  have "remove_stream_final sid b = unregister_stream sid False b"
    by (simp add: remove_stream_final_def unregister_stream_def Let_def split: option.split)
  then show ?thesis by (simp add: R_unregister_stream assms)
qed

lemma R_retire_stream [keeps]: "R a b \<Longrightarrow> R a (retire_stream sid t b)"
  unfolding retire_stream_def by (intro R_let_assoc R_let keeps) simp_all

lemma R_inherit_stream_state [keeps]: "R a b \<Longrightarrow> R a (inherit_stream_state sid st b)"
  unfolding inherit_stream_state_def by (intro keeps) simp_all

lemma R_emit_reset_complete [keeps]: "R a b \<Longrightarrow> R a (emit_reset_complete ids b)"
proof (induction ids arbitrary: b)
  case (Cons sid ids)
  then show ?case unfolding emit_reset_complete.simps by (intro R_let_assoc R_let keeps Cons.IH) simp_all
qed simp

lemma R_emit_reset_failed [keeps]: "R a b \<Longrightarrow> R a (emit_reset_failed ids reason b)"
proof (induction ids arbitrary: b)
  case (Cons sid ids)
  then show ?case unfolding emit_reset_failed.simps by (intro R_let_assoc R_let keeps Cons.IH) simp_all
qed simp

lemma R_finish_reconfig [keeps]: "R a b \<Longrightarrow> R a (snd (finish_reconfig rsn outcome b))"
  unfolding finish_reconfig_def by (intro R_let_assoc R_let keeps) simp_all

lemma R_refresh_unsent [keeps]: "R a b \<Longrightarrow> R a (snd (refresh_unsent_reconfig rsn b))"
  unfolding refresh_unsent_reconfig_def by (intro R_let_assoc R_let keeps) simp_all

lemma R_prune_deferred_reset_data_for_forward_tsn [keeps]: "R a b \<Longrightarrow> R a (snd (prune_deferred_reset_data_for_forward_tsn sid gb kind b))"
  unfolding prune_deferred_reset_data_for_forward_tsn_def by (intro R_let_assoc R_let keeps) simp_all

lemma R_apply_or_defer_ordered_forward_tsn [keeps]: "R a b \<Longrightarrow> R a (snd (apply_or_defer_ordered_forward_tsn sid ssn tsn b))"
  unfolding apply_or_defer_ordered_forward_tsn_def by (intro R_let_assoc R_let keeps) simp_all

lemma R_apply_or_defer_unordered_forward_tsn [keeps]: "R a b \<Longrightarrow> R a (snd (apply_or_defer_unordered_forward_tsn sid tsn b))"
  unfolding apply_or_defer_unordered_forward_tsn_def by (intro R_let_assoc R_let keeps) simp_all

lemma R_apply_unordered_forward_tsn_to_current_streams [keeps]: "R a b \<Longrightarrow> R a (snd (apply_unordered_forward_tsn_to_current_streams tsn b))"
  unfolding apply_unordered_forward_tsn_to_current_streams_def by (intro R_let_assoc R_let keeps) simp_all

lemma R_apply_deferred_forward_tsns [keeps]: "R a b \<Longrightarrow> R a (apply_deferred_forward_tsns sid b)"
  unfolding apply_deferred_forward_tsns_def by (intro R_let_assoc R_let keeps) simp_all

lemma R_discard_deferred_forward_tsns_through [keeps]: "R a b \<Longrightarrow> R a (discard_deferred_forward_tsns_through sid t b)"
  unfolding discard_deferred_forward_tsns_through_def by (intro R_let_assoc R_let keeps) simp_all

lemma R_stream_handle_data [keeps]: "R a b \<Longrightarrow> R a (snd (stream_handle_data d b))"
  unfolding stream_handle_data_def
  by (intro R_let_assoc R_let keeps) (auto simp: StreamState_handle_data_def Let_def split: prod.splits)

lemma R_deliver_deferred_reset_data [keeps]: "R a b \<Longrightarrow> R a (snd (deliver_deferred_reset_data d b))"
  unfolding deliver_deferred_reset_data_def by (intro R_let_assoc R_let keeps) simp_all

lemma R_deliver_and_forget [keeps]: "R a b \<Longrightarrow> R a (snd (deliver_and_forget d b))"
  unfolding deliver_and_forget_def by (intro R_let_assoc R_let keeps) simp_all

lemma R_release_deferred_generation_data [keeps]: "R a b \<Longrightarrow> R a (snd (release_deferred_generation_data sid t u b))"
  unfolding release_deferred_generation_data_def by (intro R_let_assoc R_let keeps) simp_all

lemma R_release_deferred_reset_data [keeps]: "R a b \<Longrightarrow> R a (snd (release_deferred_reset_data b))"
  unfolding release_deferred_reset_data_def by (intro R_let_assoc R_let keeps) simp_all

lemma R_finish_retiring_loop [keeps]: "R a b \<Longrightarrow> R a (snd (finish_retiring_loop fuel sid st b))"
proof (induction fuel arbitrary: b)
  case (Suc fuel)
  then show ?case unfolding finish_retiring_loop.simps by (intro R_let_assoc R_let keeps Suc.IH) simp_all
qed simp

lemma R_finish_retiring_stream [keeps]: "R a b \<Longrightarrow> R a (snd (finish_retiring_stream sid b))"
  unfolding finish_retiring_stream_def by (intro R_let_assoc R_let keeps) simp_all

lemma R_discard_retiring_streams [keeps]: "R a b \<Longrightarrow> R a (snd (discard_retiring_streams sid b))"
  unfolding discard_retiring_streams_def by (intro R_let_assoc R_let keeps) simp_all

subsection \<open>Receiving\<close>

lemma R_generate_next_rsn [keeps]: "R a b \<Longrightarrow> R a (snd (generate_next_rsn b))"
  unfolding generate_next_rsn_def by (intro R_let_assoc R_let keeps) simp_all

lemma R_retire_streams [keeps]: "R a b \<Longrightarrow> R a (snd (retire_streams ids t b))"
proof (induction ids arbitrary: b)
  case (Cons sid ids)
  then show ?case unfolding retire_streams.simps by (intro R_let_assoc R_let keeps Cons.IH) simp_all
qed simp

lemma R_reset_streams_if_any [keeps]: "R a b \<Longrightarrow> R a (snd (reset_streams_if_any p wire reply b))"
  unfolding reset_streams_if_any_def
  by (intro R_let_triple R_let_assoc R_let keeps) (simp_all add: Let_def split_beta R_frame_iff R_retire_streams)

lemma R_reevaluate_requests [keeps]: "R a b \<Longrightarrow> R a (snd (reevaluate_requests rs reply b))"
proof (induction rs arbitrary: reply b)
  case (Cons r rs)
  then show ?case unfolding reevaluate_requests.simps by (intro R_let_assoc R_let keeps Cons.IH) simp_all
qed simp

lemma R_reevaluate_pending_reset_requests [keeps]: "R a b \<Longrightarrow> R a (snd (reevaluate_pending_reset_requests reply b))"
  unfolding reevaluate_pending_reset_requests_def by (intro R_let_assoc R_let keeps) simp_all

lemma R_handle_reconfig_param [keeps]: "R a b \<Longrightarrow> R a (snd (handle_reconfig_param raw reply b))"
  unfolding handle_reconfig_param_def
  by (cases raw; simp only: Param.case; intro R_let_assoc R_let keeps; simp)

lemma R_handle_reconfig [keeps]: "R a b \<Longrightarrow> R a (snd (handle_reconfig c b))"
  unfolding handle_reconfig_def by (intro R_let_assoc R_let keeps) simp_all

lemma R_advance_peer_last_tsn [keeps]: "R a b \<Longrightarrow> R a (snd (advance_peer_last_tsn fuel reply b))"
proof (induction fuel arbitrary: reply b)
  case (Suc fuel)
  then show ?case unfolding advance_peer_last_tsn.simps by (intro R_let_assoc R_let keeps Suc.IH) simp_all
qed simp

lemma R_handle_peer_last_tsn_and_acknowledgement [keeps]: "R a b \<Longrightarrow> R a (snd (handle_peer_last_tsn_and_acknowledgement si b))"
  unfolding handle_peer_last_tsn_and_acknowledgement_def by (intro R_let_assoc R_let keeps) simp_all

lemma R_decide_data [keeps]: "R a b \<Longrightarrow> R a (snd (decide_data d b))"
  unfolding decide_data_def by (intro R_let_assoc R_let keeps) simp_all

lemma R_push_payload [keeps]: "R a b \<Longrightarrow> R a (snd (push_payload d b))"
  unfolding push_payload_def by (intro R_let_assoc R_let keeps) simp_all

lemma R_handle_data [keeps]: "R a b \<Longrightarrow> R a (snd (handle_data d b))"
  unfolding handle_data_def
  by (intro R_let_assoc R_let keeps R_case_decision) simp_all

lemma R_ack_immediately [keeps]: "R a b \<Longrightarrow> R a (ack_immediately b)"
  unfolding ack_immediately_def by (intro R_let_assoc R_let keeps) simp_all

lemma R_advance_to_forward_tsn [keeps]: "R a b \<Longrightarrow> R a (advance_to_forward_tsn t b)"
  unfolding advance_to_forward_tsn_def by (intro R_let_assoc R_let keeps) simp_all

lemma R_after_forward_tsn [keeps]: "R a b \<Longrightarrow> R a (snd (after_forward_tsn t b))"
  unfolding after_forward_tsn_def by (intro R_let_assoc R_let keeps) simp_all

lemma R_handle_forward_tsn [keeps]: "R a b \<Longrightarrow> R a (snd (handle_forward_tsn c b))"
  unfolding handle_forward_tsn_def by (intro R_let_assoc R_let keeps) simp_all

lemma R_handle_i_forward_tsn [keeps]: "R a b \<Longrightarrow> R a (snd (handle_i_forward_tsn c b))"
  unfolding handle_i_forward_tsn_def
  by (intro R_let_assoc R_let keeps)
    (simp_all add: R_apply_or_defer_unordered_forward_tsn R_apply_or_defer_ordered_forward_tsn)

subsection \<open>Acknowledgements\<close>

lemma R_measure_rtt [keeps]: "R a b \<Longrightarrow> R a (snd (measure_rtt c now b))"
  unfolding measure_rtt_def by (intro R_let_assoc R_let keeps) simp_all

lemma R_ack_cumulative [keeps]: "R a b \<Longrightarrow> R a (snd (ack_cumulative now i v b))"
  unfolding ack_cumulative_def by (intro R_let_assoc R_let keeps) simp_all

lemma R_ack_gap [keeps]: "R a b \<Longrightarrow> R a (snd (ack_gap now t v b))"
  unfolding ack_gap_def by (intro R_let_assoc R_let keeps) simp_all

lemma R_process_selective_ack [keeps]: "R a b \<Longrightarrow> R a (snd (process_selective_ack d now b))"
  unfolding process_selective_ack_def by (intro R_let_assoc R_let keeps) simp_all

lemma R_on_cumulative_tsn_ack_point_advanced [keeps]:
  "R a b \<Longrightarrow> R a (snd (on_cumulative_tsn_ack_point_advanced n now b))"
  unfolding on_cumulative_tsn_ack_point_advanced_def
  by (intro R_let_assoc R_let keeps) (auto simp: u32_add_def split: if_splits)

lemma R_enter_fast_recovery [keeps]: "R a b \<Longrightarrow> R a (snd (enter_fast_recovery htna b))"
  unfolding enter_fast_recovery_def Let_def
  by (intro keeps) (auto simp: le_max_iff_disj dest!: u32_mul_le)

lemma R_miss_chunk [keeps]: "R a b \<Longrightarrow> R a (snd (miss_chunk htna t b))"
  unfolding miss_chunk_def by (intro R_let_assoc R_let keeps) simp_all

lemma R_process_fast_retransmission [keeps]: "R a b \<Longrightarrow> R a (snd (process_fast_retransmission t htna adv b))"
  unfolding process_fast_retransmission_def by (intro R_let_assoc R_let keeps) simp_all

lemma R_advance_peer_tsn_ack_point [keeps]: "R a b \<Longrightarrow> R a (advance_peer_tsn_ack_point b)"
  unfolding advance_peer_tsn_ack_point_def by (intro R_let_assoc R_let keeps) simp_all

lemma R_release_buffer [keeps]: "R a b \<Longrightarrow> R a (snd (release_buffer sid n b))"
  unfolding release_buffer_def on_buffer_released_ok alift_def abind_simps prod.case
  by (intro R_let_assoc R_let keeps) simp_all

subsection \<open>Sending\<close>

lemma R_release_abandoned_buffer [keeps]: "R a b \<Longrightarrow> R a (snd (release_abandoned_buffer sid m n b))"
  unfolding release_abandoned_buffer_def by (intro R_let_assoc R_let keeps) simp_all

lemma R_abandon_if_needed [keeps]: "R a b \<Longrightarrow> R a (snd (abandon_if_needed t now b))"
  unfolding abandon_if_needed_def by (intro R_let_assoc R_let keeps) simp_all

lemma R_expire_tail_loop [keeps]: "R a b \<Longrightarrow> R a (snd (expire_tail_loop fuel now ab b))"
proof (induction fuel arbitrary: ab b)
  case (Suc fuel)
  then show ?case unfolding expire_tail_loop.simps by (intro R_let_assoc R_let keeps Suc.IH) simp_all
qed simp

lemma R_expire_inflight_messages [keeps]: "R a b \<Longrightarrow> R a (snd (expire_inflight_messages now b))"
  unfolding expire_inflight_messages_def by (intro R_let_assoc R_let keeps) simp_all

lemma R_retransmit_loop [keeps]: "R a b \<Longrightarrow> R a (snd (retransmit_loop now awnd i cs n b))"
proof (induction "2 ^ 32 - unat i" arbitrary: i cs n b rule: less_induct)
  case less
  have IH: "R a (snd (retransmit_loop now awnd (i + 1) cs n b))" if "R a b" "i \<noteq> - 1" for cs n b
    using that by (intro less.hyps) (auto intro: u32_counter_less [simplified])
  show ?case
    by (subst retransmit_loop.simps, intro R_let_assoc R_let keeps IH) (use less.prems in simp_all)
qed


lemma R_get_data_packets_to_retransmit [keeps]: "R a b \<Longrightarrow> R a (snd (get_data_packets_to_retransmit now b))"
  unfolding get_data_packets_to_retransmit_def by (intro R_let_assoc R_let keeps) simp_all

lemma R_gather_data_packets_to_retransmit [keeps]: "R a b \<Longrightarrow> R a (snd (gather_data_packets_to_retransmit crc raws now b))"
  unfolding gather_data_packets_to_retransmit_def by (intro R_let_assoc R_let keeps) simp_all

lemma R_fast_retransmit_loop [keeps]: "R a b \<Longrightarrow> R a (snd (fast_retransmit_loop now i cs n b))"
proof (induction "2 ^ 32 - unat i" arbitrary: i cs n b rule: less_induct)
  case less
  have IH: "R a (snd (fast_retransmit_loop now (i + 1) cs n b))" if "R a b" "i \<noteq> - 1" for cs n b
    using that by (intro less.hyps) (auto intro: u32_counter_less [simplified])
  show ?case
    by (subst fast_retransmit_loop.simps, intro R_let_assoc R_let keeps IH) (use less.prems in simp_all)
qed

lemma R_gather_outbound_fast_retransmission_packets [keeps]: "R a b \<Longrightarrow> R a (snd (gather_outbound_fast_retransmission_packets crc raws now b))"
  unfolding gather_outbound_fast_retransmission_packets_def by (intro R_let_assoc R_let keeps) simp_all

lemma R_send_next_data_chunk [keeps]: "R a b \<Longrightarrow> R a (snd (send_next_data_chunk now b))"
  unfolding send_next_data_chunk_def by (intro R_let_assoc R_let keeps) simp_all

lemma R_release_expired [keeps]: "R a b \<Longrightarrow> R a (snd (release_expired sid u n b))"
  unfolding release_expired_def by (intro R_let_assoc R_let keeps) simp_all

lemma R_expire_pending [keeps]: "R a b \<Longrightarrow> R a (snd (expire_pending now b))"
  unfolding expire_pending_def by (intro R_let_assoc R_let keeps) simp_all

lemma R_pop_pending_loop [keeps]: "R a b \<Longrightarrow> R a (snd (pop_pending_loop fuel now cs b))"
proof (induction fuel arbitrary: cs b)
  case (Suc fuel)
  then show ?case unfolding pop_pending_loop.simps by (intro R_let_assoc R_let keeps Suc.IH) simp_all
qed simp

lemma R_pop_pending_data_chunks_to_send [keeps]: "R a b \<Longrightarrow> R a (snd (pop_pending_data_chunks_to_send now b))"
  unfolding pop_pending_data_chunks_to_send_def by (intro R_let_assoc R_let keeps) simp_all

lemma R_send_pending_resets [keeps]: "R a b \<Longrightarrow> R a (snd (send_pending_resets crc raws ids b))"
  unfolding send_pending_resets_def by (intro R_let_assoc R_let keeps) simp_all

lemma R_gather_outbound_data_and_reconfig_packets [keeps]: "R a b \<Longrightarrow> R a (snd (gather_outbound_data_and_reconfig_packets crc raws now b))"
  unfolding gather_outbound_data_and_reconfig_packets_def by (intro R_let_assoc R_let keeps) simp_all

lemma R_gather_control_packet [keeps]: "R a b \<Longrightarrow> R a (snd (gather_control_packet crc p v b))"
  unfolding gather_control_packet_def by (intro R_let_assoc R_let keeps) simp_all

lemma R_gather_outbound_control_packets [keeps]: "R a b \<Longrightarrow> R a (snd (gather_outbound_control_packets crc raws now b))"
  unfolding gather_outbound_control_packets_def by (intro R_let_assoc R_let keeps) simp_all

lemma R_create_selective_ack_chunk [keeps]: "R a b \<Longrightarrow> R a (snd (create_selective_ack_chunk b))"
  unfolding create_selective_ack_chunk_def by (intro R_let_assoc R_let keeps) simp_all

lemma R_gather_outbound_sack_packets [keeps]: "R a b \<Longrightarrow> R a (snd (gather_outbound_sack_packets crc raws b))"
  unfolding gather_outbound_sack_packets_def by (intro R_let_assoc R_let keeps) simp_all

lemma R_gather_outbound_forward_tsn_packets [keeps]: "R a b \<Longrightarrow> R a (snd (gather_outbound_forward_tsn_packets crc raws b))"
  unfolding gather_outbound_forward_tsn_packets_def by (intro R_let_assoc R_let keeps) simp_all

lemma R_gather_outbound_shutdown_packets [keeps]: "R a b \<Longrightarrow> R a (snd (gather_outbound_shutdown_packets crc raws now b))"
  unfolding gather_outbound_shutdown_packets_def by (intro R_let_assoc R_let keeps) simp_all

lemma R_gather_outbound [keeps]: "R a b \<Longrightarrow> R a (snd (gather_outbound crc now b))"
  unfolding gather_outbound_def by (intro R_let_assoc R_let keeps) simp_all

lemma R_poll_transmit [keeps]: "R a b \<Longrightarrow> R a (snd (poll_transmit crc now b))"
  unfolding poll_transmit_def by (intro R_let_assoc R_let keeps) simp_all

lemma R_send_reset_request [keeps]: "R a b \<Longrightarrow> R a (snd (send_reset_request sid b))"
  unfolding send_reset_request_def by (intro R_let_assoc R_let keeps) simp_all

lemma R_send_payload_data [keeps]: "R a b \<Longrightarrow> R a (snd (send_payload_data m b))"
  unfolding send_payload_data_def by (intro R_let_assoc R_let keeps) simp_all

end


locale assoc_steps = assoc_frame +
  assumes R_move: "legal_move (a_state a) s \<Longrightarrow> (s = ShutdownPending \<Longrightarrow> a_inflight_queue_length a \<noteq> 0) \<Longrightarrow>
      R a (a\<lparr>a_state := s\<rparr>)"
    and R_lost: "a_state a \<noteq> Closed \<Longrightarrow> R (a\<lparr>a_state := Closed\<rparr>) b \<Longrightarrow> R a (push_event (AssociationLost r) b)"
    and R_received: "R a (a\<lparr>a_events := received_in_events g (\<lambda>s. DataChannelStats_received s ppi n) (a_events a)\<rparr>)"
begin

lemma R_set_state [keeps]:
  "R a b \<Longrightarrow> legal_move (a_state b) s \<Longrightarrow> (s = ShutdownPending \<Longrightarrow> a_inflight_queue_length b \<noteq> 0) \<Longrightarrow>
    R a (set_state s b)"
  unfolding set_state_def using R_trans R_move by blast

lemma R_close_with_reason [keeps]:
  assumes "R a b" shows "R a (close_with_reason r b)"
proof (cases "a_state b = Closed")
  case False
  let ?c = "b\<lparr>a_state := Closed\<rparr>"
  have "R ?c (fold (\<lambda>si a. unregister_stream si False a) ks (close_all_timers ?c))" for ks
    unfolding close_all_timers_def by (intro keeps R_refl)
  then have "R b (close_with_reason r b)"
    using False unfolding close_with_reason_def Let_def set_state_def if_P [OF False]
    by (intro R_lost R_frame) simp_all
  then show ?thesis using assms R_trans by blast
qed (simp add: close_with_reason_def assms)

lemma R_Association_close [keeps]: "R a b \<Longrightarrow> R a (Association_close b)"
  unfolding Association_close_def by (intro R_let_assoc R_let keeps) simp_all
lemma R_abort_receive_capacity [keeps]: "R a b \<Longrightarrow> R a (abort_receive_capacity b)"
  unfolding abort_receive_capacity_def by (intro R_let_assoc R_let keeps) simp_all

end


lemma core_of_updates [simp]:
  "a_state (push_event e b) = a_state b" "a_state (upd_timers tf b) = a_state b" "a_state (push_control ps b) = a_state b"
  "a_state (upd_stream sid f b) = a_state b" "a_state (start_timer t now b) = a_state b"
  "a_inflight_queue_length (push_event e b) = a_inflight_queue_length b"
  by (simp_all add: push_event_def upd_timers_def push_control_def upd_stream_def start_timer_def)

lemma core_of_streams:
  "a_state (snd (create_stream sid acc ppi b)) = a_state b" "a_state (unregister_stream sid False b) = a_state b"
  by (auto simp: create_stream_def unregister_stream_def Let_def split: option.split)

sublocale assoc_steps < st: assoc_frame "\<lambda>a b. R a b \<and> a_state b = a_state a"
proof (unfold_locales, goal_cases)
  case (2 a b c)
  then show ?case using R_trans by auto
qed (auto simp: R_refl R_core R_create R_unregister R_upd_stream R_push_event R_drop_events R_cwnd core_of_streams,
     simp_all add: core_def)

context assoc_steps
begin

text \<open>Up to the last step of \<open>handle_sack\<close> the state does not change.\<close>

lemma st_abind:
  assumes "R a (snd m) \<and> a_state (snd m) = a_state a"
    "\<And>x b. R a b \<and> a_state b = a_state a \<Longrightarrow> R a (snd (f x b))"
  shows "R a (snd (abind m f))"
  using assms by (cases m, cases "fst m") (simp_all add: abind_def)

lemma R_postprocess_sack:
  "R a b \<Longrightarrow> a_state b = s \<Longrightarrow> R a (postprocess_sack s now b)"
  unfolding postprocess_sack_def by (intro keeps) simp_all



lemma R_handle_sack_self: "R b (snd (handle_sack d now b))"
  unfolding handle_sack_def Let_def
  by (intro st_abind R_postprocess_sack keeps) (simp_all add: R_refl advance_peer_tsn_ack_point_def)

lemma R_handle_sack [keeps]: "R a b \<Longrightarrow> R a (snd (handle_sack d now b))"
  using R_handle_sack_self R_trans by blast


subsection \<open>Handlers\<close>

lemma R_send_init [keeps]: "R a b \<Longrightarrow> R a (snd (send_init b))"
  unfolding send_init_def by (intro R_let_assoc R_let keeps) simp_all

lemma R_send_cookie_echo [keeps]: "R a b \<Longrightarrow> R a (snd (send_cookie_echo b))"
  unfolding send_cookie_echo_def by (intro R_let_assoc R_let keeps) simp_all

lemma R_apply_remote_init_params [keeps]: "R a b \<Longrightarrow> R a (apply_remote_init_params tsn rw ps b)"
  unfolding apply_remote_init_params_def by (intro R_let_assoc R_let keeps) simp_all

lemma R_handle_init [keeps]: "R a b \<Longrightarrow> R a (snd (handle_init cookie p i b))"
  unfolding handle_init_def by (intro R_let_assoc R_let keeps) simp_all

lemma state_apply_remote_init_params [simp]: "a_state (apply_remote_init_params tsn rw ps b) = a_state b"
  by (simp add: apply_remote_init_params_def Let_def)

lemma state_send_cookie_echo [simp]: "a_state (snd (send_cookie_echo b)) = a_state b"
  by (simp add: send_cookie_echo_def split: option.split)

lemma R_abind_state:
  assumes "R a (snd m)" "\<And>x b. R a b \<Longrightarrow> a_state b = a_state (snd m) \<Longrightarrow> R a (snd (f x b))"
  shows "R a (snd (abind m f))"
  using assms by (cases m, cases "fst m") (simp_all add: abind_def)

lemma R_handle_init_ack [keeps]: "R a b \<Longrightarrow> R a (snd (handle_init_ack p i now b))"
  unfolding handle_init_ack_def Let_def by (intro R_abind_state keeps) simp_all

lemma R_handle_cookie_echo [keeps]: "R a b \<Longrightarrow> R a (snd (handle_cookie_echo c b))"
  unfolding handle_cookie_echo_def Let_def by (intro keeps) auto

lemma R_handle_cookie_ack [keeps]: "R a b \<Longrightarrow> R a (snd (handle_cookie_ack b))"
  unfolding handle_cookie_ack_def Let_def by (intro keeps) simp_all

lemma R_handle_shutdown [keeps]: "R a b \<Longrightarrow> R a (snd (handle_shutdown b))"
  unfolding handle_shutdown_def by (intro R_let_assoc R_let keeps) simp_all

lemma R_handle_shutdown_ack [keeps]: "R a b \<Longrightarrow> R a (snd (handle_shutdown_ack b))"
  unfolding handle_shutdown_ack_def by (intro R_let_assoc R_let keeps) simp_all

lemma R_handle_shutdown_complete [keeps]: "R a b \<Longrightarrow> R a (snd (handle_shutdown_complete b))"
  unfolding handle_shutdown_complete_def by (intro R_let_assoc R_let keeps) simp_all

lemma R_handle_abort [keeps]: "R a b \<Longrightarrow> R a (snd (handle_abort causes b))"
  unfolding handle_abort_def by (intro R_let_assoc R_let keeps) simp_all

lemma R_dispatch_chunk [keeps]: "R a b \<Longrightarrow> R a (snd (dispatch_chunk cookie p c now b))"
  unfolding dispatch_chunk_def by (cases c; simp only: Chunk.case; intro keeps)

lemma R_handle_chunk [keeps]: "R a b \<Longrightarrow> R a (snd (handle_chunk cookie p c now b))"
  unfolding handle_chunk_def by (cases c; simp only: Chunk.case; intro keeps)

lemma R_handle_chunk_start [keeps]: "R a b \<Longrightarrow> R a (handle_chunk_start b)"
  unfolding handle_chunk_start_def by (intro R_let_assoc R_let keeps) simp_all

lemma R_handle_chunk_end [keeps]: "R a b \<Longrightarrow> R a (handle_chunk_end now b)"
  unfolding handle_chunk_end_def by (intro R_let_assoc R_let keeps) simp_all

lemma R_handle_inbound [keeps]: "R a b \<Longrightarrow> R a (snd (handle_inbound cookie p now b))"
  unfolding handle_inbound_def by (intro R_let_assoc R_let keeps) simp_all


lemma R_case_payload:
  "(\<And>pd. R a (snd (f pd))) \<Longrightarrow> (\<And>bs. R a (snd (g bs))) \<Longrightarrow>
    R a (snd (case pl of PayloadPartialDecode pd \<Rightarrow> f pd | RawEncode bs \<Rightarrow> g bs))"
  by (simp split: Payload.split)

lemma R_handle_event [keeps]: "R a b \<Longrightarrow> R a (snd (handle_event cookie ev b))"
  unfolding handle_event_def
  by (cases ev; simp only: AssociationEvent.case; intro R_case_payload R_split_snd(4) R_let_assoc keeps)

lemma R_on_ack_timeout [keeps]: "R a b \<Longrightarrow> R a (on_ack_timeout b)"
  unfolding on_ack_timeout_def by (intro R_let_assoc R_let keeps) simp_all

lemma R_on_t3_timeout [keeps]: "R a b \<Longrightarrow> R a (snd (on_t3_timeout b))"
  unfolding on_t3_timeout_def by (intro R_let_assoc R_let keeps) simp_all

lemma R_on_retransmission_timeout [keeps]: "R a b \<Longrightarrow> R a (snd (on_retransmission_timeout t b))"
  unfolding on_retransmission_timeout_def by (cases t; simp only: Timer.case; intro keeps)

lemma R_on_retransmission_failure [keeps]: "R a b \<Longrightarrow> R a (on_retransmission_failure t b)"
  unfolding on_retransmission_failure_def by (cases t; simp only: Timer.case; intro keeps)

lemma R_handle_timer [keeps]: "R a b \<Longrightarrow> R a (snd (handle_timer now t b))"
  unfolding handle_timer_def Let_def split_beta by (intro keeps) simp_all

lemma R_handle_timeout [keeps]: "R a b \<Longrightarrow> R a (snd (handle_timeout now b))"
  unfolding handle_timeout_def by (intro R_let_assoc R_let keeps) simp_all

lemma R_Association_shutdown [keeps]: "R a b \<Longrightarrow> R a (snd (Association_shutdown b))"
proof (cases "a_inflight_queue_length b = 0")
  case True
  then show "R a b \<Longrightarrow> ?thesis" 
    by (auto simp: Association_shutdown_def Let_def set_state_def intro!: R_set_state [unfolded set_state_def] keeps)
qed (auto simp: Association_shutdown_def Let_def set_state_def intro!: R_set_state [unfolded set_state_def] keeps)

subsection \<open>Calls of the application\<close>

lemma R_open_stream [keeps]: "R a b \<Longrightarrow> R a (snd (open_stream sid ppi b))"
  unfolding open_stream_def by (intro R_let_assoc R_let keeps) simp_all

lemma R_accept_stream [keeps]: "R a b \<Longrightarrow> R a (snd (accept_stream b))"
  unfolding accept_stream_def by (intro R_let_assoc R_let keeps) simp_all

lemma R_poll_endpoint_event [keeps]: "R a b \<Longrightarrow> R a (snd (poll_endpoint_event b))"
  unfolding poll_endpoint_event_def by (intro R_let_assoc R_let keeps) simp_all

lemma R_set_max_send_message_size [keeps]: "R a b \<Longrightarrow> R a (set_max_send_message_size v b)"
  unfolding set_max_send_message_size_def by (intro R_let_assoc R_let keeps) simp_all

lemma R_set_max_receive_message_size [keeps]: "R a b \<Longrightarrow> R a (set_max_receive_message_size v b)"
  unfolding set_max_receive_message_size_def by (intro R_let_assoc R_let keeps) simp_all

lemma R_received_events [keeps]:
  "R a b \<Longrightarrow> R a (b\<lparr>a_events := received_in_events g (\<lambda>s. DataChannelStats_received s ppi n) (a_events b)\<rparr>)"
  using R_trans R_received by blast

lemma R_count_received [keeps]: "R a b \<Longrightarrow> R a (count_received sid g m b)"
  unfolding count_received_def Let_def
  by (intro keeps) (simp_all add: DataChannelStats_received_def split: option.split)

lemma R_read_sctp [keeps]: "R a b \<Longrightarrow> R a (snd (read_sctp sid b))"
  unfolding read_sctp_def by (intro R_let_assoc R_let keeps) simp_all

lemma packetize_generation:
  "packetize s raw ppi = Some ((h, cs), s') \<Longrightarrow> stream_generation s' = stream_generation s"
  by (auto simp: packetize_def Let_def split: option.splits)

lemma R_write_source [keeps]: "R a b \<Longrightarrow> R a (snd (write_source sid n pop ppi b))"
  unfolding write_source_def
  by (intro R_let keeps R_let_assoc)
    (auto simp: DataChannelStats_sent_def dest!: packetize_generation split: option.split)

lemma R_write_with_ppi [keeps]: "R a b \<Longrightarrow> R a (snd (write_with_ppi sid d ppi b))"
  unfolding write_with_ppi_def by (intro R_let_assoc R_let keeps) simp_all

lemma R_Stream_write [keeps]: "R a b \<Longrightarrow> R a (snd (Stream_write sid d b))"
  unfolding Stream_write_def by (intro R_let_assoc R_let keeps) simp_all

lemma R_write_chunks [keeps]: "R a b \<Longrightarrow> R a (snd (write_chunks sid d b))"
  unfolding write_chunks_def by (intro R_let_assoc R_let keeps) simp_all

lemma R_set_half [keeps]: "R a b \<Longrightarrow> R a (set_half m sid b)"
  unfolding set_half_def by (intro R_let_assoc R_let keeps) simp_all

lemma R_Stream_stop [keeps]: "R a b \<Longrightarrow> R a (snd (Stream_stop sid b))"
  unfolding Stream_stop_def by (intro R_let_assoc R_let keeps) simp_all

lemma R_Stream_finish [keeps]: "R a b \<Longrightarrow> R a (snd (Stream_finish sid b))"
  unfolding Stream_finish_def by (intro R_let_assoc R_let keeps) simp_all

lemma R_Stream_close [keeps]: "R a b \<Longrightarrow> R a (snd (Stream_close sid b))"
  unfolding Stream_close_def by (intro R_let_assoc R_let keeps) simp_all

lemma R_set_on_stream [keeps]:
  "R a b \<Longrightarrow> (\<And>s. stream_generation (f s) = stream_generation s) \<Longrightarrow> R a (snd (set_on_stream sid f b))"
  unfolding set_on_stream_def by (intro keeps) simp_all

lemma R_set_default_payload_type [keeps]: "R a b \<Longrightarrow> R a (snd (set_default_payload_type sid ppi b))"
  unfolding set_default_payload_type_def by (intro R_let_assoc R_let keeps) simp_all

lemma R_set_reliability_params [keeps]: "R a b \<Longrightarrow> R a (snd (set_reliability_params sid u rt rv b))"
  unfolding set_reliability_params_def by (intro R_let_assoc R_let keeps) simp_all

lemma R_set_buffered_amount_low_threshold [keeps]: "R a b \<Longrightarrow> R a (snd (set_buffered_amount_low_threshold sid n b))"
  unfolding set_buffered_amount_low_threshold_def by (intro R_let_assoc R_let keeps) simp_all

lemma R_set_buffered_amount_high_threshold [keeps]: "R a b \<Longrightarrow> R a (snd (set_buffered_amount_high_threshold sid n b))"
  unfolding set_buffered_amount_high_threshold_def by (intro R_let_assoc R_let keeps) simp_all
lemma R_api_exec:
  assumes "api_exec crc c b = (r, b')" "c \<noteq> CallPoll" "R a b"
  shows "R a b'"
proof -
  have ret: "snd (returns m) = snd m" for m :: "'x res \<times> Association"
    by (auto simp: returns_def split: prod.split res.split)
  have "R a (snd (api_exec crc c b))"
    using assms(2) by (cases c; simp only: api_exec.simps ret snd_conv; intro keeps assms(3)) 
  then show ?thesis using assms(1) by simp
qed

end

end
