(* ===== verification/Assoc_Invariants.thy ===== *)
theory Assoc_Invariants
  imports Assoc_Steps
begin

text \<open>
  Invariants of the runs of an association: the interpretations of the locales of \<open>Assoc_Steps\<close> on
  five relations, and the properties of runs that follow. Every stream generation has exactly one
  final statistics event, the state never moves back without an \<^verbatim>\<open>AssociationLost\<close> event, the
  congestion window never falls below the MTU, \<^verbatim>\<open>ShutdownPending\<close> is never entered, and the own
  verification tag never changes.
\<close>

definition example_client :: Association where
  "example_client =
    (case Association_new False TransportConfig_default 1200 7 (V4 1, 5000) None 100 0 of
       Ok a \<Rightarrow> a | _ \<Rightarrow> Association_default)"

text \<open>The client after opening stream 3 and giving up.\<close>

definition example_closed :: Association where
  "example_closed = Association_close (snd (open_stream 3 PPI_Binary example_client))"

text \<open>An association that both sides have agreed on out of band.\<close>

definition example_established :: Association where
  "example_established =
    (case new_with_out_of_band_init TransportConfig_default 1200 (V4 1, 5000) None
            (ChunkInit_default\<lparr>ci_initiate_tag := 7, ci_initial_tsn := 100\<rparr>)
            (ChunkInit_default\<lparr>ci_initiate_tag := 9, ci_initial_tsn := 200\<rparr>) of
       Ok a \<Rightarrow> a | _ \<Rightarrow> Association_default)"

definition example_stats :: DataChannelStats where
  "example_stats = DataChannelStats_default\<lparr>dcs_stream_identifier := 3\<rparr>"

definition generations_between :: "nat \<Rightarrow> nat \<Rightarrow> u64 multiset" where
  "generations_between n m = mset (map of_nat [n..<m])"

text \<open>\<open>b\<close> accounts for the generations of \<open>a\<close> and for those created since.\<close>

definition ledger_kept :: "Association \<Rightarrow> Association \<Rightarrow> bool" where
  "ledger_kept a b \<longleftrightarrow> distinct (keys (a_streams a)) \<longrightarrow>
    distinct (keys (a_streams b)) \<and> unat (a_next_stream_generation a) \<le> unat (a_next_stream_generation b) \<and>
    live_generations b + final_generations (a_events b) =
      live_generations a + final_generations (a_events a) +
      generations_between (unat (a_next_stream_generation a)) (unat (a_next_stream_generation b))"

text \<open>The state moves forward unless a loss has been reported.\<close>

definition progress_kept :: "Association \<Rightarrow> Association \<Rightarrow> bool" where
  "progress_kept a b \<longleftrightarrow> count_lost (a_events a) \<le> count_lost (a_events b) \<and>
    (count_lost (a_events a) = count_lost (a_events b) \<longrightarrow> progress (a_state a) \<le> progress (a_state b))"

definition window_kept :: "Association \<Rightarrow> Association \<Rightarrow> bool" where
  "window_kept a b \<longleftrightarrow> a_mtu b = a_mtu a \<and> (a_mtu a \<le> a_cwnd a \<longrightarrow> a_mtu b \<le> a_cwnd b)"

text \<open>The counter that \<^verbatim>\<open>shutdown\<close> looks at does not change.\<close>

definition pending_kept :: "Association \<Rightarrow> Association \<Rightarrow> bool" where
  "pending_kept a b \<longleftrightarrow> a_inflight_queue_length b = a_inflight_queue_length a \<and>
    (a_inflight_queue_length a = 0 \<and> a_state a \<noteq> ShutdownPending \<longrightarrow> a_state b \<noteq> ShutdownPending)"

definition tag_kept :: "Association \<Rightarrow> Association \<Rightarrow> bool" where
  "tag_kept a b \<longleftrightarrow> a_my_verification_tag b = a_my_verification_tag a"

subsection \<open>The ledger of stream generations\<close>

lemma generations_between_simps [simp]:
  "generations_between n n = {#}" "generations_between n (Suc n) = {#of_nat n#}"
  by (simp_all add: generations_between_def)

lemma generations_between_add:
  "n \<le> m \<Longrightarrow> m \<le> k \<Longrightarrow> generations_between n k = generations_between n m + generations_between m k"
  unfolding generations_between_def using upt_add_eq_append [of n m "k - m"] by simp

lemma final_generations_simps [simp]:
  "final_generations [] = {#}"
  "final_generations (es @ fs) = final_generations es + final_generations fs"
  "\<not> is_final e \<Longrightarrow> final_generations (e # es) = final_generations es"
  "final_generations (DataChannelStatsFinal s # es) = add_mset (dcs_generation s) (final_generations es)"
  by (cases e; simp add: final_generations_def List.map_filter_def)+

lemma final_generations_filter [simp]:
  "final_generations (filter (\<lambda>e. \<not> opens_or_reads sid e) es) = final_generations es"
proof (induction es)
  case (Cons e es)
  then show ?case by (cases "is_final e"; cases e) (auto simp: opens_or_reads_def)
qed simp

lemma final_generations_received [simp]:
  "final_generations (received_in_events g (\<lambda>s. DataChannelStats_received s ppi n) es) = final_generations es"
proof (induction es)
  case (Cons e es)
  then show ?case by (cases e) (auto simp: DataChannelStats_received_def split: option.split)
qed simp

lemma mset_vals_delete:
  "distinct (keys m) \<Longrightarrow> (k, v) \<in> set m \<Longrightarrow>
    image_mset (g \<circ> snd) (mset m) = add_mset (g v) (image_mset (g \<circ> snd) (mset (AList.delete k m)))"
proof (induction m)
  case (Cons p m)
  then show ?case
    by (cases p) (force simp: delete_not_in [unfolded AList.delete_eq] AList.delete_eq split: if_splits)
qed simp

lemma map_vals_update_key:
  assumes "distinct (keys m)" "\<And>v. map_of m k = Some v \<Longrightarrow> g (f v) = g v"
  shows "map g (vals (update_key k f m)) = map g (vals m)"
  using assms by (auto simp: update_key_def)

lemma ledger_create:
  assumes "map_of (a_streams a) sid = None"
  shows "ledger_kept a (snd (create_stream sid acc ppi a))"
proof (cases "u64_checked_add (a_next_stream_generation a) 1")
  case (Some g)
  have sid: "sid \<notin> set (keys (a_streams a))" using assms by (metis contains_key_iff)
  have g: "g = a_next_stream_generation a + 1" "unat g = Suc (unat (a_next_stream_generation a))"
    using Some by (auto simp: u64_checked_add_def word_add_overflow unat_word_ariths split: if_splits)
  show ?thesis
    using sid
    by (auto simp: ledger_kept_def create_stream_def Some Let_def push_event_def live_generations_def update_new g(1) g(2) [unfolded g(1)])
qed (simp add: ledger_kept_def create_stream_def)

lemma ledger_unregister: "ledger_kept a (unregister_stream sid False a)"
proof (cases "map_of (a_streams a) sid")
  case (Some s)
  then show ?thesis
    using mset_vals_delete [OF _ map_of_SomeD [OF Some], where g = stream_generation]
    by (simp add: ledger_kept_def unregister_stream_def Let_def push_event_def live_generations_def distinct_delete)
qed (simp add: ledger_kept_def unregister_stream_def)

interpretation ledger: assoc_steps ledger_kept
proof (unfold_locales, goal_cases)
  case (2 a b c)
  then show ?case
    using generations_between_add [of "unat (a_next_stream_generation a)" "unat (a_next_stream_generation b)"
        "unat (a_next_stream_generation c)"]
    by (auto simp: ledger_kept_def)
next
  case (4 a sid acc ppi)
  then show ?case by (rule ledger_create)
next
  case (5 a sid)
  show ?case by (rule ledger_unregister)
next
  case (6 a sid f)
  then show ?case
    using map_vals_update_key [of "a_streams a" sid stream_generation f, THEN arg_cong [where f = mset]]
    by (simp add: ledger_kept_def upd_stream_def live_generations_def)
qed (auto simp: ledger_kept_def core_def live_generations_def push_event_def)


subsection \<open>The other relations\<close>

lemma count_lost_simps [simp]:
  "count_lost [] = 0" "count_lost (es @ fs) = count_lost es + count_lost fs"
  "count_lost (e # es) = (if is_lost e then Suc (count_lost es) else count_lost es)"
  by (auto simp: count_lost_def)

lemma count_lost_filter [simp]: "count_lost (filter (\<lambda>e. \<not> opens_or_reads sid e) es) = count_lost es"
  by (induction es) (auto simp: opens_or_reads_def)

lemma count_lost_received [simp]: "count_lost (received_in_events g f es) = count_lost es"
proof (induction es)
  case (Cons e es)
  then show ?case by (cases e) auto
qed simp

lemma fields_of_updates [simp]:
  "a_events (upd_stream sid f a) = a_events a" "a_cwnd (upd_stream sid f a) = a_cwnd a"
  "a_mtu (upd_stream sid f a) = a_mtu a" "a_inflight_queue_length (upd_stream sid f a) = a_inflight_queue_length a"
  "a_my_verification_tag (upd_stream sid f a) = a_my_verification_tag a"
  "a_events (push_event e a) = a_events a @ [e]" "a_cwnd (push_event e a) = a_cwnd a"
  "a_mtu (push_event e a) = a_mtu a" "a_my_verification_tag (push_event e a) = a_my_verification_tag a"
  by (simp_all add: upd_stream_def push_event_def)

lemma fields_of_unregister:
  "count_lost (a_events (unregister_stream sid False a)) = count_lost (a_events a)"
  "a_cwnd (unregister_stream sid False a) = a_cwnd a" "a_mtu (unregister_stream sid False a) = a_mtu a"
  "a_inflight_queue_length (unregister_stream sid False a) = a_inflight_queue_length a"
  "a_my_verification_tag (unregister_stream sid False a) = a_my_verification_tag a"
  by (auto simp: unregister_stream_def Let_def split: option.split)

lemma fields_of_create:
  "count_lost (a_events (snd (create_stream sid acc ppi a))) = count_lost (a_events a)"
  "a_cwnd (snd (create_stream sid acc ppi a)) = a_cwnd a" "a_mtu (snd (create_stream sid acc ppi a)) = a_mtu a"
  "a_inflight_queue_length (snd (create_stream sid acc ppi a)) = a_inflight_queue_length a"
  "a_my_verification_tag (snd (create_stream sid acc ppi a)) = a_my_verification_tag a"
  by (auto simp: create_stream_def Let_def split: option.split)

lemmas frame_fields = fields_of_unregister fields_of_create core_of_streams core_def

lemma legal_move_progress: "legal_move s t \<Longrightarrow> progress s \<le> progress t"
  by (cases s) auto

interpretation progress: assoc_steps progress_kept
  by unfold_locales (auto simp: progress_kept_def frame_fields dest: legal_move_progress)

interpretation window_steps: assoc_steps window_kept
  by unfold_locales (auto simp: window_kept_def frame_fields)

text \<open>The counter that \<^verbatim>\<open>shutdown\<close> looks at stays zero.\<close>

interpretation pending_steps: assoc_steps pending_kept
  by unfold_locales (auto simp: pending_kept_def frame_fields)

interpretation tag_steps: assoc_steps tag_kept
  by unfold_locales (auto simp: tag_kept_def frame_fields)


subsection \<open>Polling\<close>

lemma poll_select_bounds: "poll_select a bl i es = Some j \<Longrightarrow> i \<le> j \<and> j < i + length es"
  by (induction es arbitrary: bl i) (fastforce split: option.splits if_splits)+

text \<open>\<^verbatim>\<open>poll\<close> takes one event out of the queue, or reports the failed handshake.\<close>

lemma poll_takes_one:
  assumes "poll a = (e, b)"
  shows "core b = core (a\<lparr>a_events := a_events b\<rparr>) \<and>
    (\<exists>us vs. a_events a = us @ returned e @ vs \<and> a_events b = us @ vs \<or>
       a_events b = a_events a \<and> (\<exists>err. e = Some (HandshakeFailed err)))"
proof (cases "poll_select a [] 0 (a_events a)")
  case None
  then show ?thesis using assms by (auto simp: poll_def core_def split: option.splits)
next
  case (Some i)
  then have "a_events a = take i (a_events a) @ a_events a ! i # drop (i + 1) (a_events a)"
    using poll_select_bounds [OF Some] by (simp add: id_take_nth_drop)
  moreover have "e = Some (a_events a ! i)" "a_events b = take i (a_events a) @ drop (i + 1) (a_events a)"
    "core b = core (a\<lparr>a_events := a_events b\<rparr>)"
    using assms Some by (auto simp: poll_def Let_def core_def split: Event.splits StreamEvent.splits)
  ultimately show ?thesis by (metis append_Cons append_Nil returned.simps(2))
qed


subsection \<open>Runs\<close>

lemma returns_Ok: "returns (Ok x, a) = (Ok None, a)"
  by (simp add: returns_def)

lemma api_exec_poll:
  assumes "api_exec crc CallPoll a = (Ok e, b)"
  shows "poll a = (e, b)"
  using assms by (cases "poll a") simp

lemma poll_counts:
  assumes "poll a = (e, b)"
  shows "final_generations (a_events a) = final_generations (returned e) + final_generations (a_events b)"
    "count_lost (a_events a) = count_lost (returned e) + count_lost (a_events b)"
    "a_streams b = a_streams a" "a_next_stream_generation b = a_next_stream_generation a" "a_state b = a_state a"
    "a_cwnd b = a_cwnd a" "a_mtu b = a_mtu a" "a_inflight_queue_length b = a_inflight_queue_length a"
    "a_my_verification_tag b = a_my_verification_tag a"
  using poll_takes_one [OF assms] by (auto simp: core_def)

lemma api_exec_returns: "api_exec crc c a = (Ok e, b) \<Longrightarrow> c \<noteq> CallPoll \<Longrightarrow> e = None"
  by (cases c) (auto simp: returns_def split: prod.splits res.splits)

lemma ledger_run:
  assumes "api_run crc a es b" "distinct (keys (a_streams a))"
  shows "distinct (keys (a_streams b)) \<and> unat (a_next_stream_generation a) \<le> unat (a_next_stream_generation b) \<and>
    live_generations b + final_generations (es @ a_events b) = live_generations a + final_generations (a_events a) +
      generations_between (unat (a_next_stream_generation a)) (unat (a_next_stream_generation b))"
  using assms
proof (induction rule: api_run.induct)
  case (run_call a es b c e b')
  note IH = run_call.IH [OF run_call.prems]
  show ?case
  proof (cases "c = CallPoll")
    case True
    then have "poll b = (e, b')" using run_call.hyps(2) api_exec_poll by blast
    then show ?thesis using IH by (simp add: poll_counts live_generations_def)
  next
    case False
    then have b': "ledger_kept b b'" "e = None"
      using ledger.R_api_exec [OF run_call.hyps(2) False ledger.R_refl] api_exec_returns [OF run_call.hyps(2)] by auto
    have d: "distinct (keys (a_streams b))" using IH by simp
    note b = b'(1) [unfolded ledger_kept_def, rule_format, OF d]
    have "live_generations b' + final_generations (es @ a_events b') =
        final_generations es + (live_generations b' + final_generations (a_events b'))"
      by (simp add: ac_simps)
    also have "\<dots> = live_generations b + final_generations (es @ a_events b) +
        generations_between (unat (a_next_stream_generation b)) (unat (a_next_stream_generation b'))"
      using b by (simp add: ac_simps)
    also have "\<dots> = live_generations a + final_generations (a_events a) +
        generations_between (unat (a_next_stream_generation a)) (unat (a_next_stream_generation b'))"
      using IH b generations_between_add [of "unat (a_next_stream_generation a)" "unat (a_next_stream_generation b)"
        "unat (a_next_stream_generation b')"] by simp
    finally show ?thesis using IH b b'(2) by simp
  qed
qed simp

text \<open>A relation that does not depend on the event queue holds over runs.\<close>

locale assoc_runs = assoc_steps +
  assumes R_poll: "poll a = (e, b) \<Longrightarrow> R a b"
begin

lemma R_run: "api_run crc a es b \<Longrightarrow> R a b"
proof (induction rule: api_run.induct)
  case (run_call a es b c e b')
  show ?case
  proof (cases "c = CallPoll")
    case True
    then show ?thesis using run_call api_exec_poll R_poll R_trans by blast
  next
    case False
    then show ?thesis using run_call R_api_exec by blast
  qed
qed (rule R_refl)

end

interpretation window: assoc_runs window_kept
  by unfold_locales (simp add: window_kept_def poll_counts)

interpretation pending: assoc_runs pending_kept
  by unfold_locales (simp add: pending_kept_def poll_counts)

interpretation tag: assoc_runs tag_kept
  by unfold_locales (simp add: tag_kept_def poll_counts)

lemma progress_run:
  assumes "api_run crc a es b"
  shows "count_lost (a_events a) \<le> count_lost (es @ a_events b) \<and>
    (count_lost (a_events a) = count_lost (es @ a_events b) \<longrightarrow> progress (a_state a) \<le> progress (a_state b))"
  using assms
proof (induction rule: api_run.induct)
  case (run_call a es b c e b')
  show ?case
  proof (cases "c = CallPoll")
    case True
    then have "poll b = (e, b')" using run_call.hyps(2) api_exec_poll by blast
    then show ?thesis using run_call.IH by (simp add: poll_counts)
  next
    case False
    have "progress_kept b b'" "e = None"
      using progress.R_api_exec [OF run_call.hyps(2) False progress.R_refl] api_exec_returns [OF run_call.hyps(2) False]
      by auto
    then show ?thesis using run_call.IH by (auto simp: progress_kept_def)
  qed
qed simp

subsection \<open>New associations\<close>

lemma new_common_core:
  "new_common config mps ra lip side tag tsn = Ok a \<Longrightarrow>
    a_streams a = [] \<and> a_events a = [] \<and> a_next_stream_generation a = 0 \<and> a_state a = Closed \<and>
    a_mtu a \<le> a_cwnd a \<and> a_inflight_queue_length a = 0 \<and> a_my_verification_tag a = tag \<and> a_stored_init a = None"
  by (auto simp: new_common_def Association_default_def min_def max_def dest!: u32_mul_le)

lemma core_apply_remote_init_params: "core (apply_remote_init_params tsn rw ps b) = core b"
  by (simp add: apply_remote_init_params_def core_def Let_def)

lemma out_of_band_shape:
  assumes "new_with_out_of_band_init config mps ra lip li ri = Ok a"
  obtains x where "new_common config mps ra lip (if ci_initiate_tag li \<le> ci_initiate_tag ri then Server else Client)
      (ci_initiate_tag li) (ci_initial_tsn li) = Ok x"
    "a = push_event Connected (set_state Established (apply_remote_init_params (ci_initial_tsn ri)
      (ci_advertised_receiver_window_credit ri) (ci_params ri) (x\<lparr>
        a_my_max_num_inbound_streams := min (tc_max_num_inbound_streams config) (ci_num_outbound_streams ri),
        a_my_max_num_outbound_streams := min (tc_max_num_outbound_streams config) (ci_num_inbound_streams ri),
        a_peer_verification_tag := ci_initiate_tag ri, a_handshake_completed := True\<rparr>)))"
  using assms unfolding new_with_out_of_band_init_def Let_def rbind_eq_Ok by blast

lemma initial_core:
  assumes "initial_association a"
  shows "a_streams a = [] \<and> final_generations (a_events a) = {#} \<and> a_next_stream_generation a = 0 \<and>
    a_state a \<noteq> ShutdownPending \<and> a_mtu a \<le> a_cwnd a \<and> a_inflight_queue_length a = 0"
  using assms
proof (cases rule: initial_association.cases)
  case 1
  then show ?thesis
    by (auto simp: Association_new_def Let_def set_state_def send_init_def push_control_def start_timer_def
        upd_timers_def dest!: new_common_core split: if_splits prod.splits)
next
  case (2 config mps ra lip li ri)
  obtain x where x: "new_common config mps ra lip (if ci_initiate_tag li \<le> ci_initiate_tag ri then Server else Client)
      (ci_initiate_tag li) (ci_initial_tsn li) = Ok x"
    and a: "a = push_event Connected (set_state Established (apply_remote_init_params (ci_initial_tsn ri)
      (ci_advertised_receiver_window_credit ri) (ci_params ri) (x\<lparr>
        a_my_max_num_inbound_streams := min (tc_max_num_inbound_streams config) (ci_num_outbound_streams ri),
        a_my_max_num_outbound_streams := min (tc_max_num_outbound_streams config) (ci_num_inbound_streams ri),
        a_peer_verification_tag := ci_initiate_tag ri, a_handshake_completed := True\<rparr>)))"
    by (rule out_of_band_shape [OF 2])
  show ?thesis
    unfolding a using new_common_core [OF x] core_apply_remote_init_params
    by (simp add: push_event_def set_state_def core_def)
qed

subsection \<open>Properties\<close>

lemma count_generations_between:
  "count (generations_between 0 (unat n)) g = (if g < n then 1 else 0)"
proof -
  have "generations_between 0 (unat n) = mset_set {g. g < n}"
  proof -
    have u: "unat (of_nat i :: u64) = i" if "i < unat n" for i
      using that unsigned_less [of n, where 'a = nat] by (simp add: unsigned_of_nat take_bit_nat_eq_self)
    have inj: "inj_on (of_nat :: nat \<Rightarrow> u64) {0..<unat n}"
      by (rule inj_onI) (metis atLeastLessThan_iff u)
    have "(of_nat :: nat \<Rightarrow> u64) ` {0..<unat n} = {g. g < n}"
    proof (intro equalityI subsetI)
      fix g assume "g \<in> {g. g < n}"
      then show "g \<in> of_nat ` {0..<unat n}"
        by (intro image_eqI [of _ _ "unat g"]) (auto simp: word_less_nat_alt)
    qed (auto simp: word_less_nat_alt u)
    then show ?thesis using image_mset_mset_set [OF inj] by (simp add: generations_between_def)
  qed
  then show ?thesis by simp
qed

text \<open>C21: In every run of an association every generation of a stream that has ever been created, and no
  other, is either still in the stream table or has exactly one final statistics event, delivered by
  \<^verbatim>\<open>poll\<close> or still queued, and never both.\<close>

theorem every_generation_finishes_once:
  assumes "initial_association a" "api_run crc a es b"
  shows "count (final_generations (es @ a_events b)) g + count (live_generations b) g =
    (if g < a_next_stream_generation b then 1 else 0)"
proof -
  have "live_generations b + final_generations (es @ a_events b) =
      generations_between 0 (unat (a_next_stream_generation b))"
    using ledger_run [OF assms(2)] initial_core [OF assms(1)] by (simp add: live_generations_def)
  then have "count (live_generations b) g + count (final_generations (es @ a_events b)) g =
      count (generations_between 0 (unat (a_next_stream_generation b))) g"
    by (metis count_union)
  then show ?thesis by (simp add: count_generations_between add.commute)
qed

lemmas new_association_eval = Association_new_def new_common_def Let_def u32_add_def u32_mul_def
  COMMON_HEADER_SIZE_def DATA_CHUNK_HEADER_SIZE_def set_state_def send_init_def push_control_def start_timer_def
  upd_timers_def Association_default_def

lemma example_client_new:
  "Association_new False TransportConfig_default 1200 7 (V4 1, 5000) None 100 0 = Ok example_client"
  by (simp add: example_client_def new_association_eval)

lemma example_client_initial: "initial_association example_client"
  by (rule initial_association.intros(1), rule example_client_new)

lemma example_client_fields:
  "a_streams example_client = []" "a_events example_client = []" "a_next_stream_generation example_client = 0"
  "a_state example_client = CookieWait" "a_pending_reset_completions example_client = []"
  "a_failed_reset_streams example_client = []" "a_retiring_streams example_client = []"
  "a_pending_reset_streams example_client = []" "a_reconfigs example_client = []"
  by (simp_all add: example_client_def new_association_eval)

lemma example_opened: "open_stream 3 PPI_Binary example_client =
   (Ok 3, snd (create_stream 3 False PPI_Binary example_client))"
  by (simp add: open_stream_def example_client_fields stream_reset_blocked_def PRC_contains_def
      stream_reset_in_progress_def has_pending_reset_for_stream_def create_stream_def Let_def u64_checked_add_def)

lemma example_closed_fields: 
  "a_events example_closed = [DataChannelStatsFinal example_stats, AssociationLost AssociationClosed]"
  "a_streams example_closed = []" "a_next_stream_generation example_closed = 1"
  "a_state example_closed = Closed"
  by (simp_all add: example_closed_def example_opened Association_close_def close_with_reason_def create_stream_def Let_def u64_checked_add_def example_client_fields set_state_def close_all_timers_def
   Timer_VALUES_def upd_timers_def unregister_stream_def push_event_def StreamState_new_def example_stats_def
      DataChannelStats_default_def)


lemma example_polled:
  "poll example_closed =
    (Some (DataChannelStatsFinal example_stats), example_closed\<lparr>a_events := [AssociationLost AssociationClosed]\<rparr>)"
  by (simp add: poll_def example_closed_fields blocking_finish_def event_blocked_def)

lemma example_run:
  "api_run crc example_client [DataChannelStatsFinal example_stats] (snd (poll example_closed))"
proof -
  have "api_exec crc (CallOpenStream 3 PPI_Binary) example_client =
      (Ok None, snd (open_stream 3 PPI_Binary example_client))"
    by (simp add: example_opened returns_Ok)
  from run_call [OF run_start this] 
  have "api_run crc example_client [] (snd (open_stream 3 PPI_Binary example_client))" by simp
  from run_call [OF this, where c = CallClose and e = None and b' = example_closed]
  have "api_run crc example_client [] example_closed" by (simp add: example_closed_def)
  from run_call [OF this api_exec.simps(4)] show ?thesis by (simp add: example_polled)
qed

text \<open>A client that satisfies the hypotheses: it opens stream 3, gives up and polls its final statistics.\<close>

theorem every_generation_finishes_once_witness:
  "initial_association example_client \<and>
   api_run (\<lambda>_. 0) example_client [DataChannelStatsFinal example_stats] (snd (poll example_closed)) \<and>
   count (final_generations ([DataChannelStatsFinal example_stats] @ a_events (snd (poll example_closed)))) 0 +
     count (live_generations (snd (poll example_closed))) 0 = 1"
  using every_generation_finishes_once [OF example_client_initial example_run [of "\<lambda>_. 0"], of 0]
    example_client_initial example_run [of "\<lambda>_. 0"]
  by (simp add: example_polled example_closed_fields)

text \<open>C22: In every run of an association the state of the handshake and shutdown moves only forward, unless an
  \<^verbatim>\<open>AssociationLost\<close> event is delivered or queued in the run.\<close>

theorem state_moves_back_only_when_reported:
  assumes "api_run crc a es b"
  shows "progress (a_state a) \<le> progress (a_state b) \<or> count_lost (a_events a) < count_lost (es @ a_events b)"
  using progress_run [OF assms] by auto

theorem state_moves_back_only_when_reported_witness:
  "api_run (\<lambda>_. 0) example_client [DataChannelStatsFinal example_stats] (snd (poll example_closed)) \<and>
   count_lost (a_events example_client) < count_lost ([DataChannelStatsFinal example_stats] @ a_events (snd (poll example_closed)))"
  using state_moves_back_only_when_reported [OF example_run [of "\<lambda>_. 0"]] example_run [of "\<lambda>_. 0"]
  by (simp add: example_client_fields example_polled example_closed_fields)

text \<open>C23: In every run of an association the congestion window is at least one MTU, whatever the peer
  acknowledges and whatever times out.\<close>

theorem congestion_window_at_least_mtu:
  assumes "initial_association a" "api_run crc a es b"
  shows "a_mtu b \<le> a_cwnd b \<and> a_mtu b = a_mtu a"
  using window.R_run [OF assms(2)] initial_core [OF assms(1)] by (auto simp: window_kept_def)

theorem congestion_window_at_least_mtu_witness:
  "initial_association example_client \<and>
   api_run (\<lambda>_. 0) example_client [DataChannelStatsFinal example_stats] (snd (poll example_closed)) \<and>
   a_mtu (snd (poll example_closed)) \<le> a_cwnd (snd (poll example_closed))"
  using congestion_window_at_least_mtu [OF example_client_initial example_run [of "\<lambda>_. 0"]] example_client_initial
    example_run [of "\<lambda>_. 0"] by blast

text \<open>C29: \<^verbatim>\<open>shutdown\<close> never waits for outstanding data: in every run of an association the state is never
  \<^verbatim>\<open>ShutdownPending\<close>, and a call of \<^verbatim>\<open>shutdown\<close> in state \<^verbatim>\<open>Established\<close> goes to \<^verbatim>\<open>ShutdownSent\<close> at
  once, however much is pending or in flight.\<close>

theorem shutdown_does_not_wait:
  assumes "initial_association a" "api_run crc a es b"
  shows "a_state b \<noteq> ShutdownPending \<and>
    (a_state b = Established \<longrightarrow> fst (Association_shutdown b) = Ok () \<and>
      a_state (snd (Association_shutdown b)) = ShutdownSent \<and> a_will_send_shutdown (snd (Association_shutdown b)) \<and>
      a_outbound_queue (snd (Association_shutdown b)) = a_outbound_queue b)"
  using pending.R_run [OF assms(2)] initial_core [OF assms(1)]
  by (simp add: pending_kept_def Association_shutdown_def Let_def set_state_def)

lemma example_established_initial: "initial_association example_established" "a_state example_established = Established"
proof -
  have "new_with_out_of_band_init TransportConfig_default 1200 (V4 1, 5000) None
      (ChunkInit_default\<lparr>ci_initiate_tag := 7, ci_initial_tsn := 100\<rparr>)
      (ChunkInit_default\<lparr>ci_initiate_tag := 9, ci_initial_tsn := 200\<rparr>) = Ok example_established"
    by (simp add: example_established_def new_with_out_of_band_init_def new_association_eval)
  then show "initial_association example_established" by (rule initial_association.intros(2))
  show "a_state example_established = Established"
    by (simp add: example_established_def new_with_out_of_band_init_def new_association_eval)
qed

theorem shutdown_does_not_wait_witness:
  "initial_association example_established \<and> api_run (\<lambda>_. 0) example_established [] example_established \<and>
   a_state example_established = Established \<and> a_state (snd (Association_shutdown example_established)) = ShutdownSent"
  using shutdown_does_not_wait [OF example_established_initial(1) run_start [of "\<lambda>_. 0"]] example_established_initial
    run_start [of "\<lambda>_. 0"] by simp

end
