(* ===== verification/Out_Of_Band.thy ===== *)
theory Out_Of_Band
  imports Connection
begin

text \<open>
  Connecting without a handshake: both sides generate a SNAP token, exchange the tokens out of band and
  connect. The associations then stand as after the four-way handshake.
\<close>

text \<open>The INIT chunk inside a token.\<close>

definition snap_init :: "u32 \<Rightarrow> u32 \<Rightarrow> TransportConfig \<Rightarrow> ChunkInit" where
  "snap_init tag tsn config = set_supported_extensions (ChunkInit_default\<lparr>ci_initiate_tag := tag, ci_initial_tsn := tsn,
     ci_num_outbound_streams := - 1, ci_num_inbound_streams := - 1,
     ci_advertised_receiver_window_credit := tc_max_receive_buffer_size config\<rparr>)"

text \<open>What one side needs: usable ports and sizes, and that neither tag is in use at its endpoint.\<close>

definition snap_ready :: "u32 \<Rightarrow> u32 \<Rightarrow> ClientConfig \<Rightarrow> SocketAddr \<Rightarrow> Endpoint \<Rightarrow> bool" where
  "snap_ready tag peer_tag config addr e \<longleftrightarrow> \<not> is_full e \<and> snd addr \<noteq> 0 \<and> tc_local_port (cc_transport config) \<noteq> 0 \<and>
    tc_remote_port (cc_transport config) \<noteq> 0 \<and> transport_ok (cc_transport config) \<and> payload_size_ok e \<and>
    \<not> contains_key (ep_association_ids e) tag \<and> \<not> contains_key (ep_association_ids e) peer_tag \<and>
    \<not> contains_key (ep_association_ids_init e) tag \<and> \<not> contains_key (ep_association_ids_init e) peer_tag"

lemma snap_token:
  assumes "transport_ok config" "tag \<noteq> 0"
  obtains b where "generate_snap_token tag tsn config = Ok b" "ChunkInit_unmarshal b = Ok (snap_init tag tsn config)"
    "length b \<le> MAX_SNAP_INIT_BYTES"
proof -
  let ?i = "snap_init tag tsn config"
  have params: "ci_params ?i = [ParamSupportedExtensions [CT_RECONFIG, CT_FORWARD_TSN]]" "\<not> ci_is_ack ?i"
    by (simp_all add: snap_init_def set_supported_extensions_def ChunkInit_default_def)
  have wf: "Chunk_wf (CInit ?i)" by (rule wf_init [of "[]"]) (simp_all add: params)
  obtain f v where c: "codec (CInit ?i) f v" using codec_CInit [OF wf] by blast
  let ?b = "chunk_bytes CT_INIT f v"
  have m: "ChunkInit_marshal_to ?i [] = Ok ?b" using c params(2) by (auto simp: codec_def chunk_types)
  obtain h where "chunk_at (?b @ []) h CT_INIT f v"
    using decode_at [of v "[]" CT_INIT f] c by (auto simp: codec_def tail_ok_def)
  then have "decode_chunk CT_INIT ?b = Ok (CInit ?i)" using c params(2) by (auto simp: codec_def)
  then have u: "ChunkInit_unmarshal ?b = Ok ?i"
    by (simp add: decode_chunk_def chunk_types split: res.splits)
  have "length v = Chunk_value_length (CInit ?i)" using c by (simp add: codec_def)
  then have "length ?b \<le> MAX_SNAP_INIT_BYTES"
    by (simp add: chunk_bytes_def MAX_SNAP_INIT_BYTES_def ChunkInit_value_length_def params PARAM_HEADER_LENGTH_def)
  moreover have "ChunkInit_check ?i = Ok ()"
    using assms by (auto simp: ChunkInit_check_def snap_init_def set_supported_extensions_def transport_ok_def ChunkInit_default_def)
  ultimately show ?thesis using m u by (intro that [of ?b]) (simp_all add: generate_snap_token_def snap_init_def)
qed

text \<open>One side of the pair.\<close>

lemma snap_side:
  assumes r: "snap_ready tag peer_tag config addr e" "tag \<noteq> peer_tag" "tag \<noteq> 0" "peer_tag \<noteq> 0" "tsn \<noteq> 0" "peer_tsn \<noteq> 0"
    and l: "ChunkInit_unmarshal lb = Ok (snap_init tag tsn (cc_transport config))" "length lb \<le> MAX_SNAP_INIT_BYTES"
    and p: "ChunkInit_unmarshal pb = Ok (snap_init peer_tag peer_tsn peer)" "length pb \<le> MAX_SNAP_INIT_BYTES" "transport_ok peer"
  obtains a e' where "connect aids key rnd raid now (with_snap lb pb config) addr e = (COk (key, a), e')"
    "routed key a e'" "a_state a = Established" "a_handshake_completed a" "quiet a" "idle_but {} (a_timers a)"
    "a_my_verification_tag a = tag" "a_peer_verification_tag a = peer_tag" "a_my_next_tsn a = tsn"
    "a_peer_last_tsn a + 1 = peer_tsn" "a_rwnd a = tc_max_receive_buffer_size peer" "a_use_forward_tsn a"
    "a_max_receive_buffer_size a = tc_max_receive_buffer_size (cc_transport config)"
    "a_source_port a = tc_local_port (cc_transport config)" "a_destination_port a = tc_remote_port (cc_transport config)"
    "a_events a = [Connected]"
proof -
  note r' = r(1) [unfolded snap_ready_def]
  let ?li = "snap_init tag tsn (cc_transport config)" and ?ri = "snap_init peer_tag peer_tsn peer"
  have fields: "ci_initiate_tag (snap_init t n c) = t" "ci_initial_tsn (snap_init t n c) = n" "\<not> ci_is_ack (snap_init t n c)"
    "ci_advertised_receiver_window_credit (snap_init t n c) = tc_max_receive_buffer_size c"
    "ci_params (snap_init t n c) = [ParamSupportedExtensions [CT_RECONFIG, CT_FORWARD_TSN]]"
    "t \<noteq> 0 \<Longrightarrow> transport_ok c \<Longrightarrow> ChunkInit_check (snap_init t n c) = Ok ()" for t n c
    by (auto simp: snap_init_def set_supported_extensions_def ChunkInit_default_def ChunkInit_check_def transport_ok_def)
  have tokens: "check_snap_tokens lb pb e = COk (?li, ?ri)"
    using r' r(2-) l p by (simp add: check_snap_tokens_def cguard_def fields)
  obtain x where x: "new_common (cc_transport config) (ec_max_payload_size (ep_config e)) addr None
      (if tag \<le> peer_tag then Server else Client) tag tsn = Ok x"
    "fresh (cc_transport config) (if tag \<le> peer_tag then Server else Client) tag tsn x"
    using new_common_ok [of "ec_max_payload_size (ep_config e)" "cc_transport config" addr None
        "if tag \<le> peer_tag then Server else Client" tag tsn] r' [unfolded payload_size_ok_def transport_ok_def] by blast
  let ?a = "push_event Connected (set_state Established (apply_remote_init_params peer_tsn (tc_max_receive_buffer_size peer)
    [ParamSupportedExtensions [CT_RECONFIG, CT_FORWARD_TSN]] (x\<lparr>
      a_my_max_num_inbound_streams := min (tc_max_num_inbound_streams (cc_transport config)) (ci_num_outbound_streams ?ri),
      a_my_max_num_outbound_streams := min (tc_max_num_outbound_streams (cc_transport config)) (ci_num_inbound_streams ?ri),
      a_peer_verification_tag := peer_tag, a_handshake_completed := True\<rparr>)))"
  let ?e = "register key peer_tag tag addr e"
  have "new_with_out_of_band_init (cc_transport config) (ec_max_payload_size (ep_config e)) addr None ?li ?ri = Ok ?a"
    using x(1) by (simp add: new_with_out_of_band_init_def fields)
  then have "connect aids key rnd raid now (with_snap lb pb config) addr e = (COk (key, ?a),
      ?e\<lparr>ep_association_ids_init := AList.update peer_tag key (ep_association_ids_init ?e)\<rparr>)"
    using r' tokens by (simp add: connect_def with_snap_def connect_with_snap_def fields Let_def)
  then show ?thesis
    by (rule that)
      (use r(3) x(2) in \<open>simp_all add: fresh_def quiet_def routed_def register_def push_event_def set_state_def
         apply_remote_init_params_def update_conv'\<close>)
qed

lemma snap_pair:
  assumes c: "snap_ready tc ts config addr ce" and s: "snap_ready ts tc config' addr' se"
    and t: "tc \<noteq> ts" "tc \<noteq> 0" "ts \<noteq> 0" "nc \<noteq> 0" "ns \<noteq> 0"
    and p: "tc_remote_port (cc_transport config) = tc_local_port (cc_transport config')"
      "tc_remote_port (cc_transport config') = tc_local_port (cc_transport config)"
  shows "\<exists>cb sb c s ce' se'. generate_snap_token tc nc (cc_transport config) = Ok cb \<and>
    generate_snap_token ts ns (cc_transport config') = Ok sb \<and>
    connect aids ck rnd raid now (with_snap cb sb config) addr ce = (COk (ck, c), ce') \<and>
    connect aids' sk rnd' raid' now' (with_snap sb cb config') addr' se = (COk (sk, s), se') \<and>
    established_pair (ck, c, ce') (sk, s, se') \<and> a_events c = [Connected] \<and> a_events s = [Connected]"
proof -
  have ok: "transport_ok (cc_transport config)" "transport_ok (cc_transport config')" "tc_local_port (cc_transport config) \<noteq> 0"
    "tc_local_port (cc_transport config') \<noteq> 0"
    using c s by (simp_all add: snap_ready_def)
  obtain cb where cb: "generate_snap_token tc nc (cc_transport config) = Ok cb"
    "ChunkInit_unmarshal cb = Ok (snap_init tc nc (cc_transport config))" "length cb \<le> MAX_SNAP_INIT_BYTES"
    by (rule snap_token [OF ok(1) t(2)])
  obtain sb where sb: "generate_snap_token ts ns (cc_transport config') = Ok sb"
    "ChunkInit_unmarshal sb = Ok (snap_init ts ns (cc_transport config'))" "length sb \<le> MAX_SNAP_INIT_BYTES"
    by (rule snap_token [OF ok(2) t(3)])
  note cside = snap_side [OF c t(1-5) cb(2,3) sb(2,3) ok(2), of aids ck rnd raid now]
  note sside = snap_side [OF s t(1) [symmetric] t(3,2,5,4) sb(2,3) cb(2,3) ok(1), of aids' sk rnd' raid' now']
  obtain a ce' where a: "connect aids ck rnd raid now (with_snap cb sb config) addr ce = (COk (ck, a), ce')"
    "routed ck a ce'" "a_state a = Established" "a_handshake_completed a" "quiet a" "idle_but {} (a_timers a)"
    "a_my_verification_tag a = tc" "a_peer_verification_tag a = ts" "a_my_next_tsn a = nc"
    "a_peer_last_tsn a + 1 = ns" "a_rwnd a = tc_max_receive_buffer_size (cc_transport config')" "a_use_forward_tsn a"
    "a_max_receive_buffer_size a = tc_max_receive_buffer_size (cc_transport config)"
    "a_source_port a = tc_local_port (cc_transport config)" "a_destination_port a = tc_remote_port (cc_transport config)"
    "a_events a = [Connected]"
    by (rule cside)
  obtain b se' where b: "connect aids' sk rnd' raid' now' (with_snap sb cb config') addr' se = (COk (sk, b), se')"
    "routed sk b se'" "a_state b = Established" "a_handshake_completed b" "quiet b" "idle_but {} (a_timers b)"
    "a_my_verification_tag b = ts" "a_peer_verification_tag b = tc" "a_my_next_tsn b = ns"
    "a_peer_last_tsn b + 1 = nc" "a_rwnd b = tc_max_receive_buffer_size (cc_transport config)" "a_use_forward_tsn b"
    "a_max_receive_buffer_size b = tc_max_receive_buffer_size (cc_transport config')"
    "a_source_port b = tc_local_port (cc_transport config')" "a_destination_port b = tc_remote_port (cc_transport config')"
    "a_events b = [Connected]"
    by (rule sside)
  have "established_pair (ck, a, ce') (sk, b, se')"
    using a(2-) b(2-) p ok by (simp add: established_pair_def knows_def transport_ok_def)
  then show ?thesis using cb(1) sb(1) a(1,16) b(1,16) by blast
qed

subsection \<open>Properties\<close>

text \<open>
  C7: connecting with exchanged tokens gives the pair that the handshake gives. Both sides generate a SNAP
  token with tags and TSNs that are not zero, different tags and matching ports, and connect with their
  own token and the one of the peer: both tokens are accepted, and the associations are established,
  quiet, know each other's tag, ports, next TSN and window, are routed, and have reported that they are connected.
\<close>

theorem snap_connects:
  assumes c: "snap_ready tc ts config addr ce" and s: "snap_ready ts tc config' addr' se"
    and t: "tc \<noteq> ts" "tc \<noteq> 0" "ts \<noteq> 0" "nc \<noteq> 0" "ns \<noteq> 0"
    and p: "tc_remote_port (cc_transport config) = tc_local_port (cc_transport config')"
      "tc_remote_port (cc_transport config') = tc_local_port (cc_transport config)"
  shows "\<exists>cb sb c s ce' se'. generate_snap_token tc nc (cc_transport config) = Ok cb \<and>
    generate_snap_token ts ns (cc_transport config') = Ok sb \<and>
    connect aids ck rnd raid now (with_snap cb sb config) addr ce = (COk (ck, c), ce') \<and>
    connect aids' sk rnd' raid' now' (with_snap sb cb config') addr' se = (COk (sk, s), se') \<and>
    established_pair (ck, c, ce') (sk, s, se') \<and> a_events c = [Connected] \<and> a_events s = [Connected]"
  by (rule snap_pair [OF assms])

lemma example_snap_ready:
  "snap_ready 7 9 ClientConfig_default (V4 1, 5000) example_client_endpoint"
  "snap_ready 9 7 ClientConfig_default (V4 2, 6000) example_client_endpoint"
  by (simp_all add: snap_ready_def example_client_endpoint_def Endpoint_new_def EndpointConfig_new_def ClientConfig_default_def
      TransportConfig_default_def INITIAL_RECV_BUF_SIZE_def INITIAL_MTU_def COMMON_HEADER_SIZE_def DATA_CHUNK_HEADER_SIZE_def
      transport_ok_def payload_size_ok_def is_full_def DEFAULT_SCTP_PORT_def RTO_MIN_def RTO_MAX_def)

theorem snap_connects_witness:
  "snap_ready 7 9 ClientConfig_default (V4 1, 5000) example_client_endpoint \<and>
   (\<exists>cb sb c s ce' se'. generate_snap_token 7 1 (cc_transport ClientConfig_default) = Ok cb \<and>
    generate_snap_token 9 4294967295 (cc_transport ClientConfig_default) = Ok sb \<and>
    connect [] 0 0 0 0 (with_snap cb sb ClientConfig_default) (V4 1, 5000) example_client_endpoint = (COk (0, c), ce') \<and>
    connect [] 0 0 0 0 (with_snap sb cb ClientConfig_default) (V4 2, 6000) example_client_endpoint = (COk (0, s), se') \<and>
    established_pair (0, c, ce') (0, s, se') \<and> a_events c = [Connected] \<and> a_events s = [Connected])"
  using snap_connects [OF example_snap_ready, of 1 4294967295 "[]" 0 0 0 0 "[]" 0 0 0 0] example_snap_ready(1)
  by (simp add: ClientConfig_default_def TransportConfig_default_def)

end
