(* ===== verification/Endpoint_Routing.thy ===== *)
theory Endpoint_Routing
  imports Assoc_Invariants Out_Of_Band
begin

text \<open>
  An endpoint together with the associations it has created, under all interleavings of datagrams,
  connection attempts, calls of the associations and their removal. The routing tables stay
  consistent with the associations, so a datagram reaches the association whose tag it carries.
\<close>

text \<open>The endpoint and the associations that the application still holds.\<close>

record System =
  sy_endpoint :: Endpoint
  sy_live :: "(usize, Association) hash_map"

text \<open>
  The application passes an event on to its association and a \<^verbatim>\<open>Drained\<close> back to the endpoint. The
  key that the slab chooses for a new association is vacant. A call that panics ends the run.
\<close>

inductive system_step :: "(bytes \<Rightarrow> u32) \<Rightarrow> System \<Rightarrow> System \<Rightarrow> bool" for crc where
  step_datagram: "Endpoint_handle crc aids slab_key tsn cookie now remote local_ip ecn data (sy_endpoint s) =
      (Ok (Some (ch, DAssociationEvent ev)), e) \<Longrightarrow> map_of (sy_live s) ch = Some a \<Longrightarrow>
    handle_event cookie ev a = (Ok (), b) \<Longrightarrow>
    system_step crc s (s\<lparr>sy_endpoint := e, sy_live := update_key ch (\<lambda>_. b) (sy_live s)\<rparr>)"
| step_accept: "Endpoint_handle crc aids slab_key tsn cookie now remote local_ip ecn data (sy_endpoint s) =
      (Ok (Some (ch, NewAssociation a)), e) \<Longrightarrow> slab_key \<notin> set (keys (ep_associations (sy_endpoint s))) \<Longrightarrow>
    system_step crc s (s\<lparr>sy_endpoint := e, sy_live := AList.update ch a (sy_live s)\<rparr>)"
| step_ignore: "Endpoint_handle crc aids slab_key tsn cookie now remote local_ip ecn data (sy_endpoint s) = (Ok None, e) \<Longrightarrow>
    system_step crc s (s\<lparr>sy_endpoint := e\<rparr>)"
| step_connect: "connect aids slab_key tsn remote_aid now config remote (sy_endpoint s) = (COk (ch, a), e) \<Longrightarrow>
    slab_key \<notin> set (keys (ep_associations (sy_endpoint s))) \<Longrightarrow>
    system_step crc s (s\<lparr>sy_endpoint := e, sy_live := AList.update ch a (sy_live s)\<rparr>)"
| step_refused: "connect aids slab_key tsn remote_aid now config remote (sy_endpoint s) = (CErr err, e) \<Longrightarrow>
    system_step crc s (s\<lparr>sy_endpoint := e\<rparr>)"
| step_call: "map_of (sy_live s) ch = Some a \<Longrightarrow> api_exec crc c a = (Ok r, b) \<Longrightarrow>
    system_step crc s (s\<lparr>sy_live := update_key ch (\<lambda>_. b) (sy_live s)\<rparr>)"
| step_drained: "map_of (sy_live s) ch = Some a \<Longrightarrow> poll_endpoint_event a = (Some ev, b) \<Longrightarrow>
    Endpoint_handle_event ch ev (sy_endpoint s) = (Ok r, e) \<Longrightarrow>
    system_step crc s (s\<lparr>sy_endpoint := e, sy_live := AList.delete ch (sy_live s)\<rparr>)"
| step_transmit: "system_step crc s (s\<lparr>sy_endpoint := snd (Endpoint_poll_transmit (sy_endpoint s))\<rparr>)"
| step_server_config: "system_step crc s (s\<lparr>sy_endpoint := set_server_config sc (sy_endpoint s)\<rparr>)"
| step_reject: "system_step crc s (s\<lparr>sy_endpoint := reject_new_associations (sy_endpoint s)\<rparr>)"

inductive system_run :: "(bytes \<Rightarrow> u32) \<Rightarrow> System \<Rightarrow> bool" for crc where
  system_start: "system_run crc \<lparr>sy_endpoint = Endpoint_new config server_config, sy_live = []\<rparr>"
| system_next: "system_run crc s \<Longrightarrow> system_step crc s s' \<Longrightarrow> system_run crc s'"

text \<open>The slab, the tags of the associations and both routing tables agree.\<close>

definition slab_ok :: "Endpoint \<Rightarrow> (usize, Association) hash_map \<Rightarrow> bool" where
  "slab_ok e live \<longleftrightarrow> distinct (keys (ep_associations e)) \<and> distinct (keys live) \<and>
    set (keys live) = set (keys (ep_associations e)) \<and>
    (\<forall>ch a. map_of live ch = Some a \<longrightarrow>
      map_of (ep_association_ids e) (a_my_verification_tag a) = Some ch \<and>
      vals (am_loc_cids (the (map_of (ep_associations e) ch))) = [a_my_verification_tag a])"

definition ids_ok :: "Endpoint \<Rightarrow> (usize, Association) hash_map \<Rightarrow> bool" where
  "ids_ok e live \<longleftrightarrow> distinct (keys (ep_association_ids e)) \<and>
    (\<forall>tag ch. map_of (ep_association_ids e) tag = Some ch \<longrightarrow>
      (\<exists>a. map_of live ch = Some a \<and> a_my_verification_tag a = tag))"

definition init_ids_ok :: "Endpoint \<Rightarrow> bool" where
  "init_ids_ok e \<longleftrightarrow> distinct (keys (ep_association_ids_init e)) \<and>
    (\<forall>tag ch. map_of (ep_association_ids_init e) tag = Some ch \<longrightarrow>
      (\<exists>m. map_of (ep_associations e) ch = Some m \<and> am_init_cid m = tag))"

definition System_wf :: "System \<Rightarrow> bool" where
  "System_wf s \<longleftrightarrow> slab_ok (sy_endpoint s) (sy_live s) \<and> ids_ok (sy_endpoint s) (sy_live s) \<and> init_ids_ok (sy_endpoint s)"

text \<open>A SHUTDOWN ACK for an association, as its peer sends it.\<close>

definition shutdown_ack_packet :: "Association \<Rightarrow> Packet" where
  "shutdown_ack_packet a = \<lparr>pk_common_header = \<lparr>hd_source_port = 5000, hd_destination_port = 5000,
     hd_verification_tag = a_my_verification_tag a\<rparr>, pk_chunks = [CShutdownAck]\<rparr>"

text \<open>A peer's INIT with the default configuration, with a given verification tag.\<close>

definition example_init_packet :: "u32 \<Rightarrow> Packet" where
  "example_init_packet vtag = \<lparr>pk_common_header = \<lparr>hd_source_port = 5000, hd_destination_port = 5000,
     hd_verification_tag = vtag\<rparr>, pk_chunks = [CInit (snap_init 7 1 TransportConfig_default)]\<rparr>"

subsection \<open>New associations\<close>

lemma new_association_tag:
  "Association_new is_server config mps tag ra lip tsn now = Ok a \<Longrightarrow> a_my_verification_tag a = tag"
  by (auto simp: Association_new_def Let_def set_state_def send_init_def push_control_def start_timer_def upd_timers_def
      dest!: new_common_core split: if_splits prod.splits)

lemma out_of_band_tag:
  assumes "new_with_out_of_band_init config mps ra lip li ri = Ok a"
  shows "a_my_verification_tag a = ci_initiate_tag li"
proof (rule out_of_band_shape [OF assms])
  fix x
  assume "new_common config mps ra lip (if ci_initiate_tag li \<le> ci_initiate_tag ri then Server else Client)
      (ci_initiate_tag li) (ci_initial_tsn li) = Ok x"
  then have "a_my_verification_tag x = ci_initiate_tag li" using new_common_core by blast
  then show ?thesis if "a = push_event Connected (set_state Established (apply_remote_init_params (ci_initial_tsn ri)
      (ci_advertised_receiver_window_credit ri) (ci_params ri) (x\<lparr>
        a_my_max_num_inbound_streams := min (tc_max_num_inbound_streams config) (ci_num_outbound_streams ri),
        a_my_max_num_outbound_streams := min (tc_max_num_outbound_streams config) (ci_num_inbound_streams ri),
        a_peer_verification_tag := ci_initiate_tag ri, a_handshake_completed := True\<rparr>)))"
    unfolding that using core_apply_remote_init_params by (simp add: push_event_def set_state_def core_def)
qed

lemma event_keeps_tag: "handle_event cookie ev a = (r, b) \<Longrightarrow> a_my_verification_tag b = a_my_verification_tag a"
  using tag_steps.R_handle_event [OF tag_steps.R_refl, of a cookie ev] by (simp add: tag_kept_def)

lemma call_keeps_tag: "api_exec crc c a = (Ok r, b) \<Longrightarrow> a_my_verification_tag b = a_my_verification_tag a"
  using tag.R_run [OF api_run.run_call [OF api_run.run_start]] by (simp add: tag_kept_def)

subsection \<open>The tables\<close>

declare map_of_eq_Some_iff [simp del] Some_eq_map_of_iff [simp del] unit.case_cong_weak [cong del]

lemma slab_keys: "slab_ok e live \<Longrightarrow> ch \<in> set (keys live) \<longleftrightarrow> ch \<in> set (keys (ep_associations e))"
  by (simp add: slab_ok_def)

lemma register_wf:
  assumes wf: "slab_ok e live" "ids_ok e live" "init_ids_ok e"
    and new: "key \<notin> set (keys (ep_associations e))" "tag \<notin> set (keys (ep_association_ids e))" "a_my_verification_tag a = tag"
  shows "slab_ok (register key rtag tag addr e) (AList.update key a live)" (is ?A)
    "ids_ok (register key rtag tag addr e) (AList.update key a live)" (is ?B)
    "init_ids_ok (register key rtag tag addr e)" (is ?C)
    "init_ids_ok ((register key rtag tag addr e)\<lparr>ep_association_ids_init :=
      AList.update rtag key (ep_association_ids_init (register key rtag tag addr e))\<rparr>)" (is ?D)
proof -
  have live: "key \<notin> set (keys live)" using new(1) slab_keys [OF wf(1)] by simp
  have old: "ch \<noteq> key" if "map_of live ch = Some b" for ch b using that live by (force dest: map_of_SomeD)
  have other: "a_my_verification_tag b \<noteq> tag" if "map_of live ch = Some b" for ch b
  proof -
    have "map_of (ep_association_ids e) (a_my_verification_tag b) = Some ch" using that wf(1) by (simp add: slab_ok_def)
    then show ?thesis using new(2) by (force dest: map_of_SomeD)
  qed
  show ?A
    using wf(1) new live other old
    by (auto simp: slab_ok_def register_def update_conv' distinct_update dom_update)
  show ?B
    using wf(2) new(3) old by (fastforce simp: ids_ok_def register_def update_conv' distinct_update)
  have old2: "ch \<noteq> key" if "map_of (ep_associations e) ch = Some m" for ch m using that new(1) by (force dest: map_of_SomeD)
  show ?C using wf(3) old2 by (fastforce simp: init_ids_ok_def register_def update_conv')
  show ?D using wf(3) old2 by (fastforce simp: init_ids_ok_def register_def update_conv' distinct_update)
qed

lemma drained_wf:
  assumes wf: "slab_ok e live" "ids_ok e live" "init_ids_ok e" and a: "map_of live ch = Some a"
    and d: "Endpoint_handle_event ch Drained e = (Ok r, e')"
  shows "slab_ok e' (AList.delete ch live)" "ids_ok e' (AList.delete ch live)" "init_ids_ok e'"
proof -
  obtain m where m: "map_of (ep_associations e) ch = Some m"
    and e': "e' = e\<lparr>ep_associations := AList.delete ch (ep_associations e),
      ep_association_ids_init := AList.delete (am_init_cid m) (ep_association_ids_init e),
      ep_association_ids := fold AList.delete (vals (am_loc_cids m)) (ep_association_ids e)\<rparr>"
    using d by (auto simp: Endpoint_handle_event_def split: option.splits)
  have cids: "vals (am_loc_cids m) = [a_my_verification_tag a]" using wf(1) a m by (force simp: slab_ok_def)
  have other: "a_my_verification_tag b \<noteq> a_my_verification_tag a" if "map_of live ch' = Some b" "ch' \<noteq> ch" for ch' b
  proof -
    have "map_of (ep_association_ids e) (a_my_verification_tag b) = Some ch'"
      "map_of (ep_association_ids e) (a_my_verification_tag a) = Some ch" using that(1) wf(1) a by (simp_all add: slab_ok_def)
    then show ?thesis using that(2) by auto
  qed
  show "slab_ok e' (AList.delete ch live)"
    using wf(1) other by (auto simp: slab_ok_def e' cids delete_conv' distinct_delete delete_keys distinct_removeAll)
  show "ids_ok e' (AList.delete ch live)"
    using wf(2) a by (force simp: ids_ok_def e' cids delete_conv' distinct_delete)
  show "init_ids_ok e'"
    using wf(3) m by (force simp: init_ids_ok_def e' delete_conv' distinct_delete)
qed

lemma update_live_wf:
  assumes "slab_ok e live" "ids_ok e live" "map_of live ch = Some a" "a_my_verification_tag b = a_my_verification_tag a"
  shows "slab_ok e (update_key ch (\<lambda>_. b) live)" "ids_ok e (update_key ch (\<lambda>_. b) live)"
  using assms by (force simp: slab_ok_def ids_ok_def map_of_update_key)+

lemma new_aid_vacant: "new_aid aids e = Ok tag \<Longrightarrow> tag \<notin> set (keys (ep_association_ids e))"
  by (auto simp: new_aid_def find_Some_iff map_of_eq_None_iff split: option.splits)

lemma cbind_eq_COk: "cbind m f = COk x \<longleftrightarrow> (\<exists>y. m = COk y \<and> f y = COk x)"
  by (cases m) auto

lemma cguard_eq_COk: "cguard bad e = COk u \<longleftrightarrow> \<not> bad"
  by (simp add: cguard_def)

lemma snap_tokens_vacant:
  "check_snap_tokens l r e = COk (li, ri) \<Longrightarrow> ci_initiate_tag li \<notin> set (keys (ep_association_ids e))"
  unfolding check_snap_tokens_def cbind_eq_COk cguard_eq_COk Let_def contains_key_iff by blast

subsection \<open>Every step\<close>

lemma added_wf:
  assumes wf: "System_wf s" and key: "key \<notin> set (keys (ep_associations (sy_endpoint s)))"
    and tag: "tag \<notin> set (keys (ep_association_ids (sy_endpoint s)))" "a_my_verification_tag a = tag"
    and e: "e = register key rtag tag addr (sy_endpoint s) \<or> e = (register key rtag tag addr (sy_endpoint s))
      \<lparr>ep_association_ids_init := AList.update rtag key (ep_association_ids_init (register key rtag tag addr (sy_endpoint s)))\<rparr>"
  shows "System_wf (s\<lparr>sy_endpoint := e, sy_live := AList.update key a (sy_live s)\<rparr>)"
  using e register_wf [OF _ _ _ key tag, of "sy_live s" rtag addr] wf
  by (auto simp: System_wf_def slab_ok_def ids_ok_def)

lemma first_packet_shape:
  assumes "handle_first_packet aids key tsn cookie now remote lip ecn pd e0 = (Ok (Some (ch, a)), e)"
  obtains tag rtag a0 ev where "new_aid aids e0 = Ok tag" "a_my_verification_tag a0 = tag" "ch = key"
    "handle_event cookie ev a0 = (Ok (), a)"
    "e = (register key rtag tag remote e0)
      \<lparr>ep_association_ids_init := AList.update rtag key (ep_association_ids_init (register key rtag tag remote e0))\<rparr>"
proof -
  obtain sc rtag where g: "ep_server_config e0 = Some sc" "pd_initiate_tag pd = Some rtag" "pd_first_chunk_type pd = CT_INIT"
    "length (ep_associations e0) < unat (sc_concurrent_associations sc)" "\<not> ep_reject_new_associations e0" "\<not> is_full e0"
    using assms by (auto simp: handle_first_packet_def split: option.splits if_splits)
  obtain tag where t: "new_aid aids e0 = Ok tag"
    using assms g by (cases "new_aid aids e0") (simp_all add: handle_first_packet_def alift_def)
  obtain a0 where a: "Association_new True (sc_transport sc) (ec_max_payload_size (ep_config e0)) tag remote lip tsn now = Ok a0"
    using assms g t
    by (cases "Association_new True (sc_transport sc) (ec_max_payload_size (ep_config e0)) tag remote lip tsn now")
      (simp_all add: handle_first_packet_def alift_def add_association_def)
  let ?ev = "Datagram \<lparr>tr_now = now, tr_remote = remote, tr_ecn = ecn, tr_local_ip = lip, tr_payload = PayloadPartialDecode pd\<rparr>"
  obtain r b where b: "handle_event cookie ?ev a0 = (r, b)" by fastforce
  have "r = Ok () \<and> b = a \<and> ch = key \<and> e = (register key rtag tag remote e0)
      \<lparr>ep_association_ids_init := AList.update rtag key (ep_association_ids_init (register key rtag tag remote e0))\<rparr>"
    using assms g t a b by (cases r) (auto simp: handle_first_packet_def alift_def add_association_def)
  then show ?thesis using that [OF t new_association_tag [OF a]] b by blast
qed

lemma accept_wf:
  assumes "Endpoint_handle crc aids key tsn cookie now remote lip ecn data (sy_endpoint s) = (Ok (Some (ch, NewAssociation a)), e)"
    "key \<notin> set (keys (ep_associations (sy_endpoint s)))" "System_wf s"
  shows "System_wf (s\<lparr>sy_endpoint := e, sy_live := AList.update ch a (sy_live s)\<rparr>)"
proof -
  obtain pd where "handle_first_packet aids key tsn cookie now remote lip ecn pd (sy_endpoint s) = (Ok (Some (ch, a)), e)"
    using assms(1)
    by (auto simp: Endpoint_handle_def abind_eq_Ok Let_def map_option_case split: res.splits option.splits if_splits prod.splits)
  then show ?thesis
  proof (rule first_packet_shape)
    fix tag rtag a0 ev
    assume t: "new_aid aids (sy_endpoint s) = Ok tag" "a_my_verification_tag a0 = tag" "ch = key"
      "handle_event cookie ev a0 = (Ok (), a)" "e = (register key rtag tag remote (sy_endpoint s))
      \<lparr>ep_association_ids_init := AList.update rtag key (ep_association_ids_init (register key rtag tag remote (sy_endpoint s)))\<rparr>"
    show ?thesis
      unfolding t(3) by (rule added_wf [OF assms(3,2) new_aid_vacant [OF t(1)] _ disjI2 [OF t(5)]])
        (use event_keeps_tag [OF t(4)] t(2) in simp)
  qed
qed

lemma connect_wf:
  assumes "connect aids key tsn rtag now config remote (sy_endpoint s) = (COk (ch, a), e)"
    "key \<notin> set (keys (ep_associations (sy_endpoint s)))" "System_wf s"
  shows "System_wf (s\<lparr>sy_endpoint := e, sy_live := AList.update ch a (sy_live s)\<rparr>)"
proof (cases "\<exists>l r. cc_local_sctp_init config = Some l \<and> cc_remote_sctp_init config = Some r")
  case True
  then obtain l r where lr: "connect_with_snap key (cc_transport config) remote l r (sy_endpoint s) = (COk (ch, a), e)"
    using assms(1) by (auto simp: connect_def split: if_splits)
  then obtain li ri where i: "check_snap_tokens l r (sy_endpoint s) = COk (li, ri)"
    "new_with_out_of_band_init (cc_transport config) (ec_max_payload_size (ep_config (sy_endpoint s))) remote None li ri = Ok a"
    "ch = key" "e = (register key (ci_initiate_tag ri) (ci_initiate_tag li) remote (sy_endpoint s))\<lparr>ep_association_ids_init :=
      AList.update (ci_initiate_tag ri) key (ep_association_ids_init (register key (ci_initiate_tag ri) (ci_initiate_tag li) remote (sy_endpoint s)))\<rparr>"
    by (auto simp: connect_with_snap_def Let_def split: cres.splits res.splits)
  show ?thesis
    unfolding i(3) by (rule added_wf [OF assms(3,2) snap_tokens_vacant [OF i(1)] out_of_band_tag [OF i(2)] disjI2 [OF i(4)]])
next
  case False
  then obtain tag where t: "new_aid aids (sy_endpoint s) = Ok tag"
    "Association_new False (cc_transport config) (ec_max_payload_size (ep_config (sy_endpoint s))) tag remote None tsn now = Ok a"
    "ch = key" "e = register key rtag tag remote (sy_endpoint s)"
    using assms(1)
    by (auto simp: connect_def add_association_def alift_eq_Ok abind_eq_Ok split: if_splits option.splits res.splits prod.splits)
  show ?thesis
    unfolding t(3) by (rule added_wf [OF assms(3,2) new_aid_vacant [OF t(1)] new_association_tag [OF t(2)] disjI1 [OF t(4)]])
qed

lemma routed_event_keeps: "Endpoint_handle crc aids key tsn cookie now remote lip ecn data e =
    (Ok (Some (ch, DAssociationEvent ev)), e') \<Longrightarrow> e' = e"
  by (auto simp: Endpoint_handle_def abind_eq_Ok Let_def split: res.splits option.splits if_splits prod.splits)

lemma created_not_None:
  "(case x of (Ok (), conn) \<Rightarrow> (Ok (Some (k, conn)), e) | (Err err, _) \<Rightarrow> (Err err, e) | (Panic, _) \<Rightarrow> (Panic, e)) \<noteq> (Ok None, e')"
  by (cases x; cases "fst x") auto

lemma ignored_keeps:
  assumes "Endpoint_handle crc aids key tsn cookie now remote lip ecn data e = (Ok None, e')"
  shows "e' = e"
proof -
  obtain pd where "handle_first_packet aids key tsn cookie now remote lip ecn pd e = (Ok None, e') \<or> e' = e"
    using assms by (auto simp: Endpoint_handle_def abind_eq_Ok Let_def split: res.splits option.splits if_splits)
  then show ?thesis
    by (auto simp: handle_first_packet_def abind_eq_Ok alift_eq_Ok add_association_def Let_def created_not_None
        split: option.splits if_splits)
qed

lemma refused_keeps:
  assumes "connect aids key tsn rtag now config remote e = (CErr err, e')"
  shows "e' = e"
  using assms
  by (auto simp: connect_def connect_with_snap_def Let_def split: if_splits option.splits res.splits prod.splits cres.splits)

lemma system_wf_step:
  assumes "system_step crc s s'" "System_wf s"
  shows "System_wf s'"
  using assms
proof (induction rule: system_step.induct)
  case (step_datagram aids key tsn cookie now remote lip ecn data s ch ev e a b)
  have "e = sy_endpoint s" by (rule routed_event_keeps [OF step_datagram.hyps(1)])
  then show ?case
    using update_live_wf [OF _ _ step_datagram.hyps(2) event_keeps_tag [OF step_datagram.hyps(3)]] step_datagram.prems
    by (simp add: System_wf_def)
next
  case step_accept
  show ?case by (rule accept_wf [OF step_accept.hyps step_accept.prems])
next
  case step_ignore
  show ?case using ignored_keeps [OF step_ignore.hyps] step_ignore.prems by simp
next
  case step_connect
  show ?case by (rule connect_wf [OF step_connect.hyps step_connect.prems])
next
  case step_refused
  show ?case using refused_keeps [OF step_refused.hyps] step_refused.prems by simp
next
  case (step_call s ch a c r b)
  then show ?case
    using update_live_wf [of "sy_endpoint s" "sy_live s" ch a b] call_keeps_tag by (auto simp: System_wf_def)
next
  case (step_drained s ch a ev b r e)
  moreover have "ev = Drained" by (cases ev) simp
  ultimately show ?case using drained_wf [of "sy_endpoint s" "sy_live s" ch a r e] by (simp add: System_wf_def)
qed (auto simp: System_wf_def slab_ok_def ids_ok_def init_ids_ok_def Endpoint_poll_transmit_def set_server_config_def
    reject_new_associations_def split: list.splits)

lemma system_wf_run: "system_run crc s \<Longrightarrow> System_wf s"
proof (induction rule: system_run.induct)
  case system_start
  show ?case by (simp add: System_wf_def slab_ok_def ids_ok_def init_ids_ok_def Endpoint_new_def)
next
  case system_next
  show ?case by (rule system_wf_step [OF system_next.hyps(2) system_next.IH])
qed

subsection \<open>A packet with an INIT\<close>

lemma init_packet_decoded:
  assumes "Packet_marshal crc p = Ok data" "pk_chunks p = [CInit i]" "\<not> ci_is_ack i" "Chunk_wf (CInit i)"
  obtains pd where "PartialDecode_unmarshal crc data = Ok pd" "PartialDecode_finish pd = Ok p"
    "pd_common_header pd = pk_common_header p" "pd_first_chunk_type pd = CT_INIT" "pd_initiate_tag pd = Some (ci_initiate_tag i)"
proof -
  obtain b pd where b: "Packet_marshal crc p = Ok b" "PartialDecode_unmarshal crc b = Ok pd"
    "PartialDecode_finish pd = Ok (Packet_on_wire p)" "pd_common_header pd = pk_common_header p"
    "pd_first_chunk_type pd = Chunk_type (CInit i)" "pd_initiate_tag pd = Some (ci_initiate_tag i)"
    by (rule packet_delivered [of p "CInit i" "[]" crc]) (use assms in auto)
  have "Packet_on_wire p = p" using assms(2) by (cases p) (simp add: Packet_on_wire_def)
  then show ?thesis using b assms(1,3) by (intro that [of pd]) simp_all
qed

subsection \<open>Properties\<close>

text \<open>
  C5: the routing tables are well formed in every run of an endpoint with its associations: the slab and
  the application hold the same associations, the tag of every association leads to it, every entry of
  the tables leads to an association with that tag, and no two associations share a tag.
\<close>

theorem routing_tables_well_formed:
  assumes "system_run crc s"
  shows "System_wf s \<and> (\<forall>ch ch' a a'. map_of (sy_live s) ch = Some a \<and> map_of (sy_live s) ch' = Some a' \<and>
    a_my_verification_tag a = a_my_verification_tag a' \<longrightarrow> ch = ch')"
proof -
  have wf: "System_wf s" by (rule system_wf_run [OF assms])
  have "ch = ch'" if "map_of (sy_live s) ch = Some a" "map_of (sy_live s) ch' = Some a'"
    "a_my_verification_tag a = a_my_verification_tag a'" for ch ch' a a'
  proof -
    have "map_of (ep_association_ids (sy_endpoint s)) (a_my_verification_tag a) = Some ch"
      "map_of (ep_association_ids (sy_endpoint s)) (a_my_verification_tag a') = Some ch'"
      using wf that(1,2) by (simp_all add: System_wf_def slab_ok_def)
    then show ?thesis using that(3) by simp
  qed
  then show ?thesis using wf by blast
qed

text \<open>An endpoint with one association, connected out of band.\<close>

lemma example_system:
  obtains c e where "system_run crc \<lparr>sy_endpoint = e, sy_live = [(0, c)]\<rparr>" "a_my_verification_tag c \<noteq> 0"
    "a_state c = Established"
proof -
  obtain cb sb c s e se where c: "generate_snap_token 7 1 (cc_transport ClientConfig_default) = Ok cb"
      "connect [] 0 0 0 0 (with_snap cb sb ClientConfig_default) (V4 1, 5000) example_client_endpoint = (COk (0, c), e)"
    "established_pair (0, c, e) (0::nat, s, se)"
    using snap_pair [OF example_snap_ready, of 1 4294967295 "[]" 0 0 0 0 "[]" 0 0 0 0]
    by (auto simp: ClientConfig_default_def TransportConfig_default_def)
  let ?s = "\<lparr>sy_endpoint = example_client_endpoint, sy_live = []\<rparr>"
  have "system_run crc ?s" unfolding example_client_endpoint_def by (rule system_start)
  moreover have "system_step crc ?s (?s\<lparr>sy_endpoint := e, sy_live := AList.update 0 c (sy_live ?s)\<rparr>)"
    by (rule step_connect) (use c(2) in \<open>simp_all add: example_client_endpoint_def Endpoint_new_def\<close>)
  ultimately have "system_run crc \<lparr>sy_endpoint = e, sy_live = [(0, c)]\<rparr>" using system_next by fastforce
  then show ?thesis by (rule that) (use c(3) in \<open>simp_all add: established_pair_def routed_def\<close>)
qed

theorem routing_tables_well_formed_witness:
  "\<exists>s. system_run (\<lambda>_. 0) s \<and> sy_live s \<noteq> [] \<and> System_wf s"
proof -
  obtain c e where "system_run (\<lambda>_. 0) \<lparr>sy_endpoint = e, sy_live = [(0, c)]\<rparr>"
    by (rule example_system)
  then show ?thesis using routing_tables_well_formed by fastforce
qed

lemma wf_live_routed:
  assumes "System_wf s" "map_of (sy_live s) ch = Some a"
  shows "map_of (ep_association_ids (sy_endpoint s)) t = Some ch \<longleftrightarrow> t = a_my_verification_tag a"
  using assms by (force simp: System_wf_def slab_ok_def ids_ok_def)

text \<open>
  C6: a datagram reaches the association whose verification tag it carries, and no other. In every run the
  endpoint hands a datagram with a tag other than zero to the association \<open>ch\<close> exactly when the tag of that
  association is the one in the packet, and this leaves the endpoint as it was.
\<close>

theorem datagram_reaches_its_association:
  assumes "system_run crc s" "PartialDecode_unmarshal crc data = Ok pd" "hd_verification_tag (pd_common_header pd) \<noteq> 0"
    "map_of (sy_live s) ch = Some a"
  shows "(\<exists>ev. Endpoint_handle crc aids slab_key tsn cookie now remote local_ip ecn data (sy_endpoint s) =
      (Ok (Some (ch, DAssociationEvent ev)), sy_endpoint s)) \<longleftrightarrow>
    hd_verification_tag (pd_common_header pd) = a_my_verification_tag a"
proof -
  note route = wf_live_routed [OF system_wf_run [OF assms(1)] assms(4)]
  show ?thesis
  proof (cases "hd_verification_tag (pd_common_header pd) = a_my_verification_tag a")
    case True
    then have "map_of (ep_association_ids (sy_endpoint s)) (hd_verification_tag (pd_common_header pd)) = Some ch"
      using route by simp
    then show ?thesis using assms(2,3) True by (simp add: Endpoint_handle_def word_gt_0)
  next
    case False
    then have "map_of (ep_association_ids (sy_endpoint s)) (hd_verification_tag (pd_common_header pd)) \<noteq> Some ch"
      using route by simp
    then show ?thesis
      using assms(2,3) False
      by (auto simp: Endpoint_handle_def word_gt_0 abind_eq_Ok Let_def split: option.splits)
  qed
qed

lemma shutdown_ack_decoded:
  obtains data pd where "Packet_marshal crc (shutdown_ack_packet a) = Ok data" "PartialDecode_unmarshal crc data = Ok pd"
    "hd_verification_tag (pd_common_header pd) = a_my_verification_tag a" "pd_first_chunk_type pd = CT_SHUTDOWN_ACK"
proof -
  obtain b pd where "Packet_marshal crc (shutdown_ack_packet a) = Ok b" "PartialDecode_unmarshal crc b = Ok pd"
    "PartialDecode_finish pd = Ok (Packet_on_wire (shutdown_ack_packet a))"
    "pd_common_header pd = pk_common_header (shutdown_ack_packet a)" "pd_first_chunk_type pd = Chunk_type CShutdownAck"
    by (rule packet_delivered [of "shutdown_ack_packet a" CShutdownAck "[]" crc]) (simp_all add: shutdown_ack_packet_def)
  then show ?thesis by (intro that [of b pd]) (simp_all add: shutdown_ack_packet_def)
qed

theorem datagram_reaches_its_association_witness:
  "\<exists>s a data pd. system_run (\<lambda>_. 0) s \<and> PartialDecode_unmarshal (\<lambda>_. 0) data = Ok pd \<and>
    hd_verification_tag (pd_common_header pd) \<noteq> 0 \<and> map_of (sy_live s) 0 = Some a \<and>
    (\<exists>ev. Endpoint_handle (\<lambda>_. 0) [] 0 0 [] 0 (V4 0, 1) None None data (sy_endpoint s) =
      (Ok (Some (0, DAssociationEvent ev)), sy_endpoint s))"
proof -
  obtain c e where s: "system_run (\<lambda>_. 0) \<lparr>sy_endpoint = e, sy_live = [(0, c)]\<rparr>" "a_my_verification_tag c \<noteq> 0"
    by (rule example_system)
  obtain data pd where d: "PartialDecode_unmarshal (\<lambda>_. 0) data = Ok pd"
    "hd_verification_tag (pd_common_header pd) = a_my_verification_tag c"
    by (rule shutdown_ack_decoded [of "\<lambda>_. 0" c])
  have t: "hd_verification_tag (pd_common_header pd) \<noteq> 0" "map_of (sy_live \<lparr>sy_endpoint = e, sy_live = [(0::nat, c)]\<rparr>) 0 = Some c"
    using s(2) d(2) by simp_all
  show ?thesis
    using datagram_reaches_its_association [OF s(1) d(1) t, of "[]" 0 0 "[]" 0 "(V4 0, 1)" None None] d(2) s(1) d(1) t by blast
qed

text \<open>
  C24: shutdown removes the routing entry at once. When the application shuts an established association down
  and passes the resulting event to the endpoint, the endpoint drops every later datagram with the tag
  of the association unless it starts with an INIT, so the SHUTDOWN ACK of the peer never arrives.
\<close>

theorem shutdown_unroutes:
  assumes "system_run crc s" "map_of (sy_live s) ch = Some a" "a_state a = Established" "a_my_verification_tag a \<noteq> 0"
  shows "\<exists>b b' e. Association_shutdown a = (Ok (), b) \<and> poll_endpoint_event b = (Some Drained, b') \<and>
    Endpoint_handle_event ch Drained (sy_endpoint s) = (Ok None, e) \<and>
    (\<forall>data pd. PartialDecode_unmarshal crc data = Ok pd \<and> hd_verification_tag (pd_common_header pd) = a_my_verification_tag a \<and>
      pd_first_chunk_type pd \<noteq> CT_INIT \<longrightarrow>
      Endpoint_handle crc aids slab_key tsn cookie now remote local_ip ecn data e = (Ok None, e))"
proof -
  have wf: "System_wf s" by (rule system_wf_run [OF assms(1)])
  obtain b where b: "Association_shutdown a = (Ok (), b)" "a_endpoint_events b = a_endpoint_events a @ [Drained]"
    using assms(3) by (simp add: Association_shutdown_def Let_def set_state_def)
  obtain x xs where "a_endpoint_events b = x # xs" using b(2) by (metis append_is_Nil_conv list.exhaust not_Cons_self2)
  moreover have "x = Drained" by (cases x) simp
  ultimately have b': "poll_endpoint_event b = (Some Drained, b\<lparr>a_endpoint_events := xs\<rparr>)" by (simp add: poll_endpoint_event_def)
  have "ch \<in> set (keys (sy_live s))" using map_of_SomeD [OF assms(2)] by force
  then have "ch \<in> set (keys (ep_associations (sy_endpoint s)))"
    using slab_keys [of "sy_endpoint s" "sy_live s"] wf by (simp add: System_wf_def)
  then obtain m where m: "map_of (ep_associations (sy_endpoint s)) ch = Some m"
    by (cases "map_of (ep_associations (sy_endpoint s)) ch") (auto simp: map_of_eq_None_iff)
  then obtain e where e: "Endpoint_handle_event ch Drained (sy_endpoint s) = (Ok None, e)"
    by (simp add: Endpoint_handle_event_def)
  have wf': "ids_ok e (AList.delete ch (sy_live s))"
    using drained_wf(2) [OF _ _ _ assms(2) e] wf by (simp add: System_wf_def)
  have "map_of (ep_association_ids e) (a_my_verification_tag a) = None"
  proof (rule ccontr)
    assume "map_of (ep_association_ids e) (a_my_verification_tag a) \<noteq> None"
    then obtain ch' a' where "map_of (AList.delete ch (sy_live s)) ch' = Some a'" "a_my_verification_tag a' = a_my_verification_tag a"
      using wf' unfolding ids_ok_def by blast
    then show False
      using wf_live_routed [OF wf assms(2), of "a_my_verification_tag a"] wf_live_routed [OF wf, of ch' a' "a_my_verification_tag a"]
      by (auto simp: delete_conv' split: if_splits)
  qed
  then have "Endpoint_handle crc aids slab_key tsn cookie now remote local_ip ecn data e = (Ok None, e)"
    if "PartialDecode_unmarshal crc data = Ok pd" "hd_verification_tag (pd_common_header pd) = a_my_verification_tag a"
      "pd_first_chunk_type pd \<noteq> CT_INIT" for data pd
    using that assms(4) by (simp add: Endpoint_handle_def word_gt_0 handle_first_packet_def)
  then show ?thesis using b(1) b' e by blast
qed

theorem shutdown_unroutes_witness:
  "\<exists>s a data pd. system_run (\<lambda>_. 0) s \<and> map_of (sy_live s) 0 = Some a \<and> PartialDecode_unmarshal (\<lambda>_. 0) data = Ok pd \<and>
    pd_first_chunk_type pd = CT_SHUTDOWN_ACK \<and> hd_verification_tag (pd_common_header pd) = a_my_verification_tag a \<and>
    (\<exists>b b' e. Association_shutdown a = (Ok (), b) \<and> poll_endpoint_event b = (Some Drained, b') \<and>
      Endpoint_handle_event 0 Drained (sy_endpoint s) = (Ok None, e) \<and>
      Endpoint_handle (\<lambda>_. 0) [] 0 0 [] 0 (V4 0, 1) None None data e = (Ok None, e))"
proof -
  obtain c e where s: "system_run (\<lambda>_. 0) \<lparr>sy_endpoint = e, sy_live = [(0, c)]\<rparr>" (is "system_run _ ?s")
    "a_my_verification_tag c \<noteq> 0" "a_state c = Established"
    by (rule example_system)
  obtain data pd where d: "PartialDecode_unmarshal (\<lambda>_. 0) data = Ok pd"
    "hd_verification_tag (pd_common_header pd) = a_my_verification_tag c" "pd_first_chunk_type pd = CT_SHUTDOWN_ACK"
    by (rule shutdown_ack_decoded [of "\<lambda>_. 0" c])
  have l: "map_of (sy_live ?s) 0 = Some c" "CT_SHUTDOWN_ACK \<noteq> CT_INIT" by (simp_all add: chunk_types)
  have "\<exists>b b' e. Association_shutdown c = (Ok (), b) \<and> poll_endpoint_event b = (Some Drained, b') \<and>
      Endpoint_handle_event 0 Drained (sy_endpoint ?s) = (Ok None, e) \<and>
      Endpoint_handle (\<lambda>_. 0) [] 0 0 [] 0 (V4 0, 1) None None data e = (Ok None, e)"
    using shutdown_unroutes [OF s(1) l(1) s(3,2), of "[]" 0 0 "[]" 0 "(V4 0, 1)" None None] d l(2) by metis
  then show ?thesis using s(1) l(1) d by blast
qed

text \<open>
  C25: an endpoint without a server configuration panics on the first INIT of an association it does not
  know, whoever sends it.
\<close>

theorem init_panics_without_server_config:
  assumes "ep_server_config e = None" "Packet_marshal crc p = Ok data" "pk_chunks p = [CInit i]" "\<not> ci_is_ack i"
    "Chunk_wf (CInit i)" "hd_verification_tag (pk_common_header p) = 0" "map_of (ep_association_ids_init e) (ci_initiate_tag i) = None"
  shows "Endpoint_handle crc aids slab_key tsn cookie now remote local_ip ecn data e = (Panic, e)"
proof -
  obtain pd where "PartialDecode_unmarshal crc data = Ok pd" "pd_common_header pd = pk_common_header p"
    "pd_first_chunk_type pd = CT_INIT" "pd_initiate_tag pd = Some (ci_initiate_tag i)"
    by (rule init_packet_decoded [OF assms(2-5)])
  then show ?thesis using assms(1,6,7) by (simp add: Endpoint_handle_def handle_first_packet_def)
qed

text \<open>
  C28: an INIT with a verification tag other than zero, which the receiver has to drop, still creates an
  association at the server: the packet is not acted upon, but the association is registered under a new
  tag, stays closed with nothing to send, and takes one of the places that the configuration allows.
\<close>

theorem stray_init_takes_a_place:
  assumes "Packet_marshal crc p = Ok data" "pk_chunks p = [CInit i]" "\<not> ci_is_ack i" "Chunk_wf (CInit i)"
    "hd_verification_tag (pk_common_header p) \<noteq> 0" "map_of (ep_association_ids e) (hd_verification_tag (pk_common_header p)) = None"
    "server_ready h (ci_initiate_tag i) tag e" "slab_key \<notin> set (keys (ep_associations e))"
  shows "\<exists>a e'. Endpoint_handle crc (hc_server_aids h) slab_key tsn cookie now remote local_ip ecn data e =
      (Ok (Some (slab_key, NewAssociation a)), e') \<and> length (ep_associations e') = Suc (length (ep_associations e)) \<and>
    map_of (ep_association_ids e') tag = Some slab_key \<and> a_state a = Closed \<and> a_control_queue a = []"
proof -
  obtain pd where pd: "PartialDecode_unmarshal crc data = Ok pd" "PartialDecode_finish pd = Ok p"
    "pd_common_header pd = pk_common_header p" "pd_first_chunk_type pd = CT_INIT" "pd_initiate_tag pd = Some (ci_initiate_tag i)"
    by (rule init_packet_decoded [OF assms(1-4)])
  obtain sc where sc: "ep_server_config e = Some sc" "transport_ok (sc_transport sc)"
    "length (ep_associations e) < unat (sc_concurrent_associations sc)" "\<not> ep_reject_new_associations e" "\<not> is_full e"
    "new_aid (hc_server_aids h) e = Ok tag" "0 < ec_max_payload_size (ep_config e) \<and> ec_max_payload_size (ep_config e) < 65000"
    using assms(7) by (auto simp: server_ready_def payload_size_ok_def split: option.splits)
  obtain y where y: "new_common (sc_transport sc) (ec_max_payload_size (ep_config e)) remote local_ip Server tag tsn = Ok y"
    "fresh (sc_transport sc) Server tag tsn y"
    using new_common_ok [OF sc(7)] sc(2) [unfolded transport_ok_def] by blast
  have bad: "\<exists>err. check_packet p = Err err" using assms(2,3,5) by (simp add: check_packet_def)
  show ?thesis
    using pd sc y assms(5,6,8) bad
    by (auto simp: Endpoint_handle_def word_gt_0 handle_first_packet_def alift_def add_association_def Association_new_def
        handle_event_def handle_inbound_def Let_def register_def update_new fresh_def quiet_def update_conv')
qed

lemma example_init:
  "pk_chunks (example_init_packet t) = [CInit (snap_init 7 1 TransportConfig_default)]"
  "\<not> ci_is_ack (snap_init 7 1 TransportConfig_default)" "Chunk_wf (CInit (snap_init 7 1 TransportConfig_default))"
  "hd_verification_tag (pk_common_header (example_init_packet t)) = t" "ci_initiate_tag (snap_init 7 1 TransportConfig_default) = 7"
proof -
  show "Chunk_wf (CInit (snap_init 7 1 TransportConfig_default))"
    by (rule wf_init [of "[]"]) (simp_all add: snap_init_def set_supported_extensions_def ChunkInit_default_def)
qed (simp_all add: example_init_packet_def snap_init_def set_supported_extensions_def ChunkInit_default_def)

lemma example_init_marshals: "\<exists>data. Packet_marshal crc (example_init_packet t) = Ok data"
  by (rule packet_delivered [of "example_init_packet t" "CInit (snap_init 7 1 TransportConfig_default)" "[]" crc])
    (use example_init in auto)

theorem init_panics_without_server_config_witness:
  "\<exists>data. Packet_marshal (\<lambda>_. 0) (example_init_packet 0) = Ok data \<and> ep_server_config example_client_endpoint = None \<and>
    Endpoint_handle (\<lambda>_. 0) [] 0 0 [] 0 (V4 0, 1) None None data example_client_endpoint = (Panic, example_client_endpoint)"
proof -
  obtain data where d: "Packet_marshal (\<lambda>_. 0) (example_init_packet 0) = Ok data" using example_init_marshals by blast
  have e: "ep_server_config example_client_endpoint = None" "map_of (ep_association_ids_init example_client_endpoint)
      (ci_initiate_tag (snap_init 7 1 TransportConfig_default)) = None"
    by (simp_all add: example_client_endpoint_def Endpoint_new_def)
  show ?thesis
    using init_panics_without_server_config [OF e(1) d example_init(1-4) e(2), of "[]" 0 0 "[]" 0 "(V4 0, 1)" None None]
      d e(1) by blast
qed

theorem stray_init_takes_a_place_witness:
  "\<exists>data a e'. Packet_marshal (\<lambda>_. 0) (example_init_packet 1) = Ok data \<and>
    Endpoint_handle (\<lambda>_. 0) (hc_server_aids example_choice) 0 0 [] 0 (V4 0, 1) None None data example_server_endpoint =
      (Ok (Some (0, NewAssociation a)), e') \<and> length (ep_associations e') = Suc (length (ep_associations example_server_endpoint)) \<and>
    map_of (ep_association_ids e') 9 = Some 0 \<and> a_state a = Closed \<and> a_control_queue a = []"
proof -
  obtain data where d: "Packet_marshal (\<lambda>_. 0) (example_init_packet 1) = Ok data" using example_init_marshals by blast
  have e: "hd_verification_tag (pk_common_header (example_init_packet 1)) \<noteq> 0" "map_of (ep_association_ids example_server_endpoint)
      (hd_verification_tag (pk_common_header (example_init_packet 1))) = None"
    "server_ready example_choice (ci_initiate_tag (snap_init 7 1 TransportConfig_default)) 9 example_server_endpoint"
    "0 \<notin> set (keys (ep_associations example_server_endpoint))"
    using example_ready(2) by (simp_all add: example_init(4,5) example_server_endpoint_def Endpoint_new_def)
  show ?thesis
    using stray_init_takes_a_place [OF d example_init(1-3) e, of 0 "[]" 0 "(V4 0, 1)" None None] d by blast
qed

end
