(* ===== verification/Spec2Isabelle.thy ===== *)
theory Spec2Isabelle
  imports Data_Acknowledgement Data_Retransmission Data_Selection Shutdown_Exchange Empty_Message Endpoint_Routing Assoc_Invariants Sctp_Timer Wire_Packet Payload_Queue Pending_Queue Outbound_Queue Reassembly_Queue Unordered_Reassembly
begin

text \<open>
  Verification of \<^verbatim>\<open>sctp-proto\<close>, an implementation of SCTP without I/O (\<^verbatim>\<open>src/src\<close>). The application
  hands datagrams and the time to the library and takes datagrams, events and the next timeout from it.

  \<^bold>\<open>The program.\<close> An \<^verbatim>\<open>Endpoint\<close> (\<^verbatim>\<open>endpoint/mod.rs\<close>) decodes the head of a datagram, finds the
  association by verification tag or creates one for an INIT, and returns an event for it. An
  \<^verbatim>\<open>Association\<close> (\<^verbatim>\<open>association/mod.rs\<close>) is a state machine: \<^verbatim>\<open>handle_event\<close> decodes the packet and calls
  one handler per chunk, \<^verbatim>\<open>poll_transmit\<close> gathers the packets to send, \<^verbatim>\<open>handle_timeout\<close> runs expired
  timers and \<^verbatim>\<open>poll\<close> returns events. It owns the sender's \<^verbatim>\<open>OutboundQueue\<close> (pending and in flight), the
  receiver's \<^verbatim>\<open>PayloadQueue\<close>, a \<^verbatim>\<open>StreamState\<close> with a \<^verbatim>\<open>ReassemblyQueue\<close> for each stream, the timer table
  and the RTO manager. Packets, chunks and parameters are decoded and encoded by \<^verbatim>\<open>packet.rs\<close>,
  \<^verbatim>\<open>chunk/\<close> and \<^verbatim>\<open>param/\<close>.

  \<^bold>\<open>The model.\<close> Definitions have the names of the source, with the type as prefix where two types share
  a method name. Machine integers are words (\<open>u8\<close> to \<open>u64\<close>); \<^verbatim>\<open>usize\<close> and \<^verbatim>\<open>Instant\<close> are \<open>nat\<close>, an instant
  in nanoseconds. A structure is a record, an enum a datatype, a hash map an association list whose order
  stands for the iteration order. A fallible function returns \<open>res\<close> with the constructors \<open>Ok\<close>, \<open>Err\<close> and
  \<open>Panic\<close>; \<open>Panic\<close> is an unwrap on nothing, an index out of range, or checked arithmetic that overflows, as
  in a build with overflow checks. A method with \<^verbatim>\<open>&mut self\<close> takes and returns the record; a fallible one
  returns the result beside the record, because an early return keeps the changes made so far (\<open>abind\<close>,
  \<open>afor\<close>, \<open>afold\<close>, \<open>alift\<close> of \<open>Assoc_State\<close>). Random values, slab keys and the CRC32c function belong to
  other crates; they are arguments of the definitions that use them, and the theorems hold for all of them.

  \<^bold>\<open>Theories.\<close>

  \<^item> \<open>Sctp_Error\<close>, \<open>Sctp_Prelude\<close>: \<^verbatim>\<open>error.rs\<close>, the result type, integers, buffers, hash maps, the stable sort.
  \<^item> \<open>Sctp_Util\<close>: \<^verbatim>\<open>util.rs\<close>; serial numbers (locale \<open>serial_order\<close>, interpreted for TSNs and SSNs) and byte
    sources (locales \<open>bytes_source\<close>, \<open>sized_source\<close>).
  \<^item> \<open>Sctp_Config\<close>: \<^verbatim>\<open>config.rs\<close>, \<^verbatim>\<open>association/state.rs\<close>, \<^verbatim>\<open>association/stats.rs\<close>.
  \<^item> \<open>Sctp_Timer\<close>: \<^verbatim>\<open>association/timer.rs\<close>, with the floating point steps of the RTO as exactly rounded
    rationals; back-off, and that a measurement stays in range and cannot panic.
  \<^item> \<open>Data_Chunk\<close>, \<open>Payload_Queue\<close>, \<open>Pending_Queue\<close>, \<open>Outbound_Queue\<close>, \<open>Reassembly_Queue\<close>,
    \<open>Unordered_Reassembly\<close>: \<^verbatim>\<open>queue/\<close>. The payload queue refines a finite map (locale \<open>tsn_store\<close>); chunks
    leave the pending queue message by message (locale \<open>chunk_source\<close>); the outbound queue keeps a ledger of
    bytes; reassembly delivers messages for every order of arrival.
  \<^item> \<open>Wire_Params\<close>, \<open>Wire_Chunks\<close>, \<open>Wire_Codec\<close>, \<open>Wire_Packet\<close>: \<^verbatim>\<open>param/\<close>, \<^verbatim>\<open>chunk/\<close>, \<^verbatim>\<open>packet.rs\<close>; decoding never
    panics, encoding and decoding are inverse, the two decoders of packets agree.
  \<^item> \<open>Stream_State\<close>: \<^verbatim>\<open>association/stream.rs\<close>; fragmentation, and the buffered amount over any
    sequence of writes and releases.
  \<^item> \<open>Assoc_State\<close>, \<open>Assoc_Streams\<close>, \<open>Assoc_Deferred\<close>, \<open>Assoc_Receive\<close>, \<open>Assoc_Ack\<close>, \<open>Assoc_Send\<close>,
    \<open>Assoc_Handlers\<close>, \<open>Assoc_Api\<close>: \<^verbatim>\<open>association/mod.rs\<close> in the order of the source: the record, streams and
    resets, stream generations, DATA and FORWARD TSN, SACK and congestion control, packets to send, handshake
    with dispatch and timers, and what the application calls.
  \<^item> \<open>Endpoint\<close>: \<^verbatim>\<open>endpoint/mod.rs\<close>.
  \<^item> \<open>Assoc_Steps\<close>, \<open>Assoc_Invariants\<close>: runs of an association as sequences of calls. The locales
    \<open>assoc_frame\<close>, \<open>assoc_steps\<close> and \<open>assoc_runs\<close> take a relation between two states, ask that the few
    elementary updates keep it, and give that every method and every run keeps it; they are interpreted for
    the ledger of stream generations, the progress of the connection state, the congestion window, the
    shutdown state and the identity of an association.
  \<^item> \<open>Data_Selection\<close>: \<^verbatim>\<open>pop_pending_data_chunks_to_send\<close> ends without a panic and respects both windows.
  \<^item> \<open>Connection\<close>, \<open>Data_Receiving\<close>, \<open>Data_Transfer\<close>, \<open>Data_Acknowledgement\<close>, \<open>Data_Retransmission\<close>,
    \<open>Shutdown_Exchange\<close>: two endpoints with a network between them. A \<open>leg\<close> is \<^verbatim>\<open>poll_transmit\<close> at one side,
    \<^verbatim>\<open>Endpoint::handle\<close> and \<^verbatim>\<open>handle_event\<close> at the other for every datagram, so all layers take part. The four-way
    handshake completes, a message of many fragments and packets is delivered and acknowledged, a lost
    message is sent again when its timer expires, and a shutdown closes the peer but not the side that
    started it, provided the application keeps the \<^verbatim>\<open>Drained\<close> event from the endpoint until the exchange is
    over; once told, the endpoint drops the SHUTDOWN ACK. A late COOKIE ECHO re-establishes a closed association.
  \<^item> \<open>Out_Of_Band\<close>: the connection from exchanged SNAP tokens, without a handshake.
  \<^item> \<open>Endpoint_Routing\<close>: an endpoint with all its associations as a step relation, in which calls, datagrams
    and endpoint events come in any order. The routing tables stay consistent and a datagram reaches the
    association that its tag names; what happens to associations after a shutdown and on stray INITs.
  \<^item> \<open>Empty_Message\<close>: an empty message makes an ordered stream unreadable at the peer.

  \<^bold>\<open>Bounds and fuel.\<close> Loops over data are structural recursions. The loops that run on a TSN counter are
  functions with a measure. \<open>packetize_loop\<close> may run forever and is a partial function into \<open>option\<close>. Loops
  that consume a queue take fuel: the number of chunks in flight for \<open>advance_over_abandoned\<close>, the pending
  chunks and one for \<open>pop_pending_loop\<close> and \<open>expire_tail_loop\<close>, the queued TSNs and one for
  \<open>advance_peer_last_tsn\<close>, the retiring streams and one for \<open>finish_retiring_loop\<close>; each turn of such a loop
  removes what is counted, or passes a distinct chunk in flight. Running out of fuel is a \<open>Panic\<close> (for
  \<open>advance_over_abandoned\<close> it ends the walk), so \<open>Data_Selection\<close>, which excludes the panic, shows that the
  fuel of \<open>pop_pending_loop\<close> and \<open>expire_tail_loop\<close> is enough.

  \<^bold>\<open>Not modelled.\<close> \<^verbatim>\<open>Display\<close> and \<^verbatim>\<open>Debug\<close> implementations and log output, which nothing reads back; the
  generation of random values; getters that only select a field; helpers compiled for tests only, the tests
  and the fuzz target; \<^verbatim>\<open>Drop\<close> and allocation. The counters of \<^verbatim>\<open>stats.rs\<close> are natural numbers, as they step
  by one from zero in 64 bits.
\<close>

end
